(* ===== verification/Prelude.thy ===== *)
theory Prelude
  imports Main "HOL-Library.AList" "HOL-Library.Multiset" "HOL-Library.Word"
begin

text \<open>
  The vocabulary every component of the development shares: the outcome of a Go call (it returns,
  it panics, or it blocks for ever), the model of a Go map as an association list in iteration
  order, bounded channels, and the lemma collections the component theories add to.
\<close>

section \<open>Lemma collections\<close>

named_theorems outcome_simps \<open>unfolding the sequencing of calls that may panic or block\<close>
named_theorems gomap_simps \<open>lookup after an update or a delete of a Go map\<close>
named_theorems heap_simps \<open>fields of the heap an operation does not write\<close>

section \<open>Outcomes of a call\<close>

text \<open>
  A call returns (\<open>Done\<close>), panics, or blocks for ever on a channel or a mutex. The state
  reached so far is kept in every case: what a Go function wrote before a panic stays written, and a
  deferred \<open>recover\<close> continues from there.
\<close>

datatype ('s, 'a) outcome = Done 's 'a | Panic 's string | Block 's

fun out_state :: "('s, 'a) outcome \<Rightarrow> 's" where
  "out_state (Done s a) = s"
| "out_state (Panic s m) = s"
| "out_state (Block s) = s"

fun returns :: "('s, 'a) outcome \<Rightarrow> bool" where
  "returns (Done s a) = True"
| "returns _ = False"

fun obind :: "('s, 'a) outcome \<Rightarrow> ('s \<Rightarrow> 'a \<Rightarrow> ('s, 'b) outcome) \<Rightarrow> ('s, 'b) outcome" where
  "obind (Done s a) f = f s a"
| "obind (Panic s m) f = Panic s m"
| "obind (Block s) f = Block s"

text \<open>\<open>orecover\<close> is a deferred function that calls \<open>recover\<close>: it runs on a panic only.\<close>

fun orecover :: "('s, 'a) outcome \<Rightarrow> ('s \<Rightarrow> string \<Rightarrow> ('s, 'a) outcome) \<Rightarrow> ('s, 'a) outcome" where
  "orecover (Done s a) f = Done s a"
| "orecover (Panic s m) f = f s m"
| "orecover (Block s) f = Block s"

lemma obind_Done_iff [outcome_simps]:
  "obind r f = Done t b \<longleftrightarrow> (\<exists>s a. r = Done s a \<and> f s a = Done t b)"
  by (cases r) auto

lemma obind_Panic_iff [outcome_simps]:
  "obind r f = Panic t m \<longleftrightarrow> r = Panic t m \<or> (\<exists>s a. r = Done s a \<and> f s a = Panic t m)"
  by (cases r) auto

lemma obind_assoc: "obind (obind r f) g = obind r (\<lambda>s a. obind (f s a) g)"
  by (cases r) auto

lemma obind_return [simp]: "obind r Done = r"
  by (cases r) auto

section \<open>Go maps\<close>

text \<open>
  A Go map is an association list with distinct keys. The order of the list is an order in which a
  \<open>range\<close> statement may visit the entries: Go leaves it unspecified, so a statement about such a
  loop is made for every order.
\<close>

type_synonym ('k, 'v) gomap = "('k \<times> 'v) list"

definition gomap_wf :: "('k, 'v) gomap \<Rightarrow> bool" where
  "gomap_wf m \<longleftrightarrow> distinct (map fst m)"

abbreviation gomap_get :: "('k, 'v) gomap \<Rightarrow> 'k \<Rightarrow> 'v option" where
  "gomap_get m k \<equiv> map_of m k"

abbreviation gomap_set :: "'k \<Rightarrow> 'v \<Rightarrow> ('k, 'v) gomap \<Rightarrow> ('k, 'v) gomap" where
  "gomap_set k v m \<equiv> AList.update k v m"

abbreviation gomap_del :: "'k \<Rightarrow> ('k, 'v) gomap \<Rightarrow> ('k, 'v) gomap" where
  "gomap_del k m \<equiv> AList.delete k m"

lemma gomap_wf_Nil [simp]: "gomap_wf []"
  by (simp add: gomap_wf_def)

lemma gomap_wf_set [simp]: "gomap_wf m \<Longrightarrow> gomap_wf (gomap_set k v m)"
  by (simp add: gomap_wf_def distinct_update)

lemma gomap_wf_del [simp]: "gomap_wf m \<Longrightarrow> gomap_wf (gomap_del k m)"
  by (simp add: gomap_wf_def distinct_delete)

lemma gomap_get_set [gomap_simps]:
  "gomap_get (gomap_set k v m) k' = (if k' = k then Some v else gomap_get m k')"
  by (simp add: update_conv)

lemma gomap_get_del [gomap_simps]:
  "gomap_get (gomap_del k m) k' = (if k' = k then None else gomap_get m k')"
  by (simp add: delete_conv)

lemma gomap_get_in: "gomap_wf m \<Longrightarrow> (gomap_get m k = Some v) = ((k, v) \<in> set m)"
  by (simp add: gomap_wf_def)

lemma gomap_set_fresh: "gomap_get m k = None \<Longrightarrow> gomap_set k v m = m @ [(k, v)]"
  by (induction m) auto

lemma gomap_del_absent [simp]: "gomap_get m k = None \<Longrightarrow> gomap_del k m = m"
  by (simp add: map_of_eq_None_iff delete_id)

lemma length_gomap_del:
  assumes "gomap_wf m" and "gomap_get m k = Some v"
  shows "Suc (length (gomap_del k m)) = length m"
  using assms
proof (induction m)
  case (Cons p m)
  show ?case
  proof (cases "fst p = k")
    case True
    with Cons.prems have "k \<notin> fst ` set m"
      by (auto simp: gomap_wf_def)
    then have "gomap_del k m = m" by (rule delete_id)
    with True show ?thesis by (cases p) (simp add: AList.delete_eq)
  next
    case False
    with Cons show ?thesis by (cases p) (auto simp: gomap_wf_def AList.delete_eq split: if_splits)
  qed
qed simp

text \<open>Two visiting orders of one map look up alike.\<close>

lemma gomap_order_wf:
  assumes "mset m' = mset m" and "gomap_wf m"
  shows "gomap_wf m'"
proof -
  from assms(1) have "mset (map fst m') = mset (map fst m)"
    by (metis mset_map)
  with assms(2) show ?thesis
    unfolding gomap_wf_def by (metis mset_eq_imp_distinct_iff)
qed

lemma gomap_order_get:
  assumes "mset m' = mset m" and "gomap_wf m"
  shows "gomap_get m' = gomap_get m"
proof
  fix k
  from assms(1) have "set m' = set m" by (rule mset_eq_setD)
  then have "gomap_get m' k = Some v \<longleftrightarrow> gomap_get m k = Some v" for v
    using assms(2) gomap_order_wf [OF assms] by (simp add: gomap_get_in)
  then show "gomap_get m' k = gomap_get m k" by (metis option.exhaust)
qed

section \<open>Buffered channels\<close>

text \<open>
  A buffered channel is the list of the values in it, oldest first, with its capacity. A send on a
  full channel blocks; the manager's goroutine is the only receiver of its own channels, so where it
  is itself the sender such a send never completes.
\<close>

definition chan_full :: "nat \<Rightarrow> 'a list \<Rightarrow> bool" where
  "chan_full cap q \<longleftrightarrow> cap \<le> length q"

lemma chan_not_full [simp]: "\<not> chan_full cap q \<longleftrightarrow> length q < cap"
  by (auto simp: chan_full_def)

section \<open>Lists\<close>

lemma takeWhile_neq_append_tl:
  "c \<in> set s \<Longrightarrow> takeWhile (\<lambda>x. x \<noteq> c) s @ c # tl (dropWhile (\<lambda>x. x \<noteq> c) s) = s"
  by (induction s) auto

lemma takeWhile_neq_append [simp]:
  "c \<notin> set a \<Longrightarrow> takeWhile (\<lambda>x. x \<noteq> c) (a @ c # b) = a"
  by (induction a) auto

lemma dropWhile_neq_append [simp]:
  "c \<notin> set a \<Longrightarrow> dropWhile (\<lambda>x. x \<noteq> c) (a @ c # b) = c # b"
  by (induction a) auto

end
