(* ===== verification/Gostd.thy ===== *)
theory Gostd
  imports Prelude
begin

unbundle bit_operations_syntax

text \<open>
  What the program uses of Go's standard library: \<open>strings\<close>, \<open>strconv\<close>,
  \<open>encoding/base64\<close>, \<open>hash/fnv\<close> and the query part of \<open>net/url\<close>. A Go string is a
  sequence of bytes, here a list of \<open>char\<close> (Isabelle's characters are the 256 bytes).
  Unicode case mapping is the one table that is not written out: it is the argument \<open>ul\<close> of
  \<open>ToLower\<close>, used on strings with a byte above 127 only.
\<close>

abbreviation byte :: "char \<Rightarrow> nat" where
  "byte c \<equiv> of_char c"

lemma byte_less: "byte c < 256"
  by (rule nat_of_char_less_256)

section \<open>strings\<close>

fun Split :: "char \<Rightarrow> string \<Rightarrow> string list" where
  "Split c [] = [[]]"
| "Split c (x # xs) =
     (if x = c then [] # Split c xs
      else (case Split c xs of [] \<Rightarrow> [[x]] | p # ps \<Rightarrow> (x # p) # ps))"

text \<open>\<open>strings.SplitN(s, sep, n)\<close> for \<open>0 \<le> n\<close> and a one-byte separator.\<close>

fun SplitN :: "nat \<Rightarrow> char \<Rightarrow> string \<Rightarrow> string list" where
  "SplitN 0 c s = []"
| "SplitN (Suc 0) c s = [s]"
| "SplitN (Suc (Suc n)) c s =
     (if c \<in> set s
      then takeWhile (\<lambda>x. x \<noteq> c) s # SplitN (Suc n) c (tl (dropWhile (\<lambda>x. x \<noteq> c) s))
      else [s])"

fun HasPrefix :: "string \<Rightarrow> string \<Rightarrow> bool" where
  "HasPrefix s [] = True"
| "HasPrefix [] (p # ps) = False"
| "HasPrefix (x # xs) (p # ps) = (x = p \<and> HasPrefix xs ps)"

fun Contains :: "string \<Rightarrow> string \<Rightarrow> bool" where
  "Contains [] sub = (sub = [])"
| "Contains (x # xs) sub = (HasPrefix (x # xs) sub \<or> Contains xs sub)"

fun Join :: "char \<Rightarrow> string list \<Rightarrow> string" where
  "Join c [] = []"
| "Join c [s] = s"
| "Join c (s # t # ss) = s @ c # Join c (t # ss)"

definition is_ascii :: "char \<Rightarrow> bool" where
  "is_ascii c \<longleftrightarrow> byte c < 128"

definition lower_byte :: "char \<Rightarrow> char" where
  "lower_byte c = (if 65 \<le> byte c \<and> byte c \<le> 90 then char_of (byte c + 32) else c)"

definition upper_byte :: "char \<Rightarrow> char" where
  "upper_byte c = (if 97 \<le> byte c \<and> byte c \<le> 122 then char_of (byte c - 32) else c)"

definition ToLower :: "(string \<Rightarrow> string) \<Rightarrow> string \<Rightarrow> string" where
  "ToLower ul s = (if list_all is_ascii s then map lower_byte s else ul s)"

text \<open>The UTF-8 encodings of the code points for which \<open>unicode.IsSpace\<close> holds.\<close>

definition space_runes :: "string list" where
  "space_runes = map (map char_of)
     ([[9], [10], [11], [12], [13], [32], [194, 133], [194, 160], [225, 154, 128]] @
      map (\<lambda>k. [226, 128, k]) [128 ..< 139] @
      [[226, 128, 168], [226, 128, 169], [226, 128, 175], [226, 129, 159],
       [227, 128, 128 :: nat]])"

function trim_with :: "string list \<Rightarrow> string \<Rightarrow> string" where
  "trim_with ps s =
     (case find (\<lambda>p. p \<noteq> [] \<and> HasPrefix s p) ps of
        None \<Rightarrow> s
      | Some p \<Rightarrow> trim_with ps (drop (length p) s))"
  by pat_completeness auto

lemma HasPrefix_append: "HasPrefix s p \<longleftrightarrow> (\<exists>r. s = p @ r)"
  by (induction s p rule: HasPrefix.induct) auto

termination trim_with
proof (relation "measure (\<lambda>(ps, s). length s)", goal_cases)
  case (2 ps s p)
  then have "p \<noteq> [] \<and> HasPrefix s p" by (auto simp: find_Some_iff)
  then have "0 < length p \<and> 0 < length s" by (auto simp: HasPrefix_append)
  then show ?case by simp
qed simp

declare trim_with.simps [simp del]

definition TrimSpace :: "string \<Rightarrow> string" where
  "TrimSpace s = rev (trim_with (map rev space_runes) (rev (trim_with space_runes s)))"

text \<open>\<open>bytes.TrimRight(p, cutset)\<close> for a cutset of ASCII bytes.\<close>

definition TrimRight :: "string \<Rightarrow> string \<Rightarrow> string" where
  "TrimRight cutset s = rev (dropWhile (\<lambda>c. c \<in> set cutset) (rev s))"

section \<open>strconv\<close>

definition digit_val :: "char \<Rightarrow> nat option" where
  "digit_val c =
     (if 48 \<le> byte c \<and> byte c \<le> 57 then Some (byte c - 48)
      else if 97 \<le> byte c \<and> byte c \<le> 122 then Some (byte c - 87)
      else if 65 \<le> byte c \<and> byte c \<le> 90 then Some (byte c - 55)
      else None)"

definition digit_ok :: "nat \<Rightarrow> char \<Rightarrow> bool" where
  "digit_ok b c \<longleftrightarrow> (case digit_val c of None \<Rightarrow> False | Some d \<Rightarrow> d < b)"

definition digits_val :: "nat \<Rightarrow> string \<Rightarrow> nat" where
  "digits_val b s = foldl (\<lambda>a c. a * b + the (digit_val c)) 0 s"

text \<open>\<open>strconv.ParseUint(s, base, 64)\<close>, base 2 to 36: \<open>None\<close> is a syntax or range error.\<close>

definition ParseUint :: "string \<Rightarrow> nat \<Rightarrow> nat option" where
  "ParseUint s b =
     (if s \<noteq> [] \<and> list_all (digit_ok b) s \<and> digits_val b s < 2 ^ 64
      then Some (digits_val b s) else None)"

text \<open>\<open>strconv.ParseInt(s, 10, 64)\<close>, and \<open>strconv.Atoi\<close> on a 64-bit machine.\<close>

definition ParseInt :: "string \<Rightarrow> int option" where
  "ParseInt s =
     (let neg = (s \<noteq> [] \<and> hd s = CHR ''-'');
          r = (if s \<noteq> [] \<and> (hd s = CHR ''-'' \<or> hd s = CHR ''+'') then tl s else s)
      in case ParseUint r 10 of
           None \<Rightarrow> None
         | Some n \<Rightarrow>
             if neg then (if n \<le> 2 ^ 63 then Some (- int n) else None)
             else (if n < 2 ^ 63 then Some (int n) else None))"

abbreviation Atoi :: "string \<Rightarrow> int option" where
  "Atoi s \<equiv> ParseInt s"

definition digit_char :: "nat \<Rightarrow> char" where
  "digit_char d = (if d < 10 then char_of (48 + d) else char_of (87 + d))"

fun FormatUint :: "nat \<Rightarrow> nat \<Rightarrow> string" where
  "FormatUint b n =
     (if b < 2 \<or> n < b then [digit_char n] else FormatUint b (n div b) @ [digit_char (n mod b)])"

declare FormatUint.simps [simp del]

definition FormatInt :: "nat \<Rightarrow> int \<Rightarrow> string" where
  "FormatInt b i = (if i < 0 then CHR ''-'' # FormatUint b (nat (- i)) else FormatUint b (nat i))"

abbreviation Itoa :: "int \<Rightarrow> string" where
  "Itoa i \<equiv> FormatInt 10 i"

section \<open>encoding/base64, the standard encoding with padding\<close>

definition b64_char :: "nat \<Rightarrow> char" where
  "b64_char v =
     (if v < 26 then char_of (65 + v) else if v < 52 then char_of (71 + v)
      else if v < 62 then char_of (v - 4) else if v = 62 then CHR ''+'' else CHR ''/'')"

definition b64_val :: "char \<Rightarrow> nat option" where
  "b64_val c =
     (if 65 \<le> byte c \<and> byte c \<le> 90 then Some (byte c - 65)
      else if 97 \<le> byte c \<and> byte c \<le> 122 then Some (byte c - 71)
      else if 48 \<le> byte c \<and> byte c \<le> 57 then Some (byte c + 4)
      else if c = CHR ''+'' then Some 62 else if c = CHR ''/'' then Some 63 else None)"

fun EncodeToString :: "string \<Rightarrow> string" where
  "EncodeToString [] = []"
| "EncodeToString [a] =
     [b64_char (byte a div 4), b64_char (byte a mod 4 * 16), CHR ''='', CHR ''='']"
| "EncodeToString [a, b] =
     [b64_char (byte a div 4), b64_char (byte a mod 4 * 16 + byte b div 16),
      b64_char (byte b mod 16 * 4), CHR ''='']"
| "EncodeToString (a # b # c # r) =
     [b64_char (byte a div 4), b64_char (byte a mod 4 * 16 + byte b div 16),
      b64_char (byte b mod 16 * 4 + byte c div 64), b64_char (byte c mod 64)] @ EncodeToString r"

fun b64_groups :: "string \<Rightarrow> string option" where
  "b64_groups [] = Some []"
| "b64_groups (w # x # y # z # r) =
     (case (b64_val w, b64_val x) of
        (Some a, Some b) \<Rightarrow>
          (case (b64_val y, b64_val z) of
             (Some c, Some d) \<Rightarrow>
               map_option (\<lambda>t. char_of (a * 4 + b div 16) # char_of (b mod 16 * 16 + c div 4) #
                                char_of (c mod 4 * 64 + d) # t) (b64_groups r)
           | (Some c, None) \<Rightarrow>
               (if z = CHR ''='' \<and> r = []
                then Some [char_of (a * 4 + b div 16), char_of (b mod 16 * 16 + c div 4)] else None)
           | (None, _) \<Rightarrow>
               (if y = CHR ''='' \<and> z = CHR ''='' \<and> r = []
                then Some [char_of (a * 4 + b div 16)] else None))
      | _ \<Rightarrow> None)"
| "b64_groups _ = None"

text \<open>The decoder skips line breaks wherever they stand.\<close>

definition DecodeString :: "string \<Rightarrow> string option" where
  "DecodeString s = b64_groups (filter (\<lambda>c. byte c \<noteq> 10 \<and> byte c \<noteq> 13) s)"

section \<open>hash/fnv, the 64-bit FNV-1a hash\<close>

definition fnv_offset64 :: "64 word" where
  "fnv_offset64 = 14695981039346656037"

definition fnv_prime64 :: "64 word" where
  "fnv_prime64 = 1099511628211"

definition fnv64a_write :: "64 word \<Rightarrow> string \<Rightarrow> 64 word" where
  "fnv64a_write h s = foldl (\<lambda>h c. (h XOR of_nat (byte c)) * fnv_prime64) h s"

section \<open>net/url, query strings\<close>

text \<open>\<open>url.QueryUnescape\<close>; \<open>None\<close> is an invalid escape.\<close>

fun QueryUnescape :: "string \<Rightarrow> string option" where
  "QueryUnescape [] = Some []"
| "QueryUnescape (c # s) =
     (if c = CHR ''%'' then
        (case s of
           h # l # r \<Rightarrow>
             (if digit_ok 16 h \<and> digit_ok 16 l
              then map_option (\<lambda>t. char_of (digits_val 16 [h, l]) # t) (QueryUnescape r)
              else None)
         | _ \<Rightarrow> None)
      else map_option (\<lambda>t. (if c = CHR ''+'' then CHR '' '' else c) # t) (QueryUnescape s))"

text \<open>
  \<open>URL.Query\<close>: the pairs in order; a pair that is empty, holds a semicolon or does not unescape is
  dropped without an error.
\<close>

definition query_pair :: "string \<Rightarrow> (string \<times> string) option" where
  "query_pair kv =
     (if kv = [] \<or> CHR '';'' \<in> set kv then None
      else (let f = SplitN 2 (CHR ''='') kv; v = (if length f = 2 then f ! 1 else [])
            in case (QueryUnescape (hd f), QueryUnescape v) of
                 (Some k', Some v') \<Rightarrow> Some (k', v')
               | _ \<Rightarrow> None))"

definition ParseQuery :: "string \<Rightarrow> (string \<times> string) list" where
  "ParseQuery q = List.map_filter query_pair (Split (CHR ''&'') q)"

text \<open>\<open>Values.Get\<close>: the first value of the key, or the empty string.\<close>

definition query_Get :: "(string \<times> string) list \<Rightarrow> string \<Rightarrow> string" where
  "query_Get vs k = (case map_of vs k of None \<Rightarrow> [] | Some v \<Rightarrow> v)"

section \<open>Facts the components use\<close>

lemma byte_char_of [simp]: "n < 256 \<Longrightarrow> byte (char_of n) = n"
  by (simp add: of_char_of)

subsection \<open>Splitting\<close>

lemma Split_nonempty [simp]: "Split c s \<noteq> []"
  by (induction s) (auto split: list.splits)

lemma Split_no_sep [simp]: "c \<notin> set s \<Longrightarrow> Split c s = [s]"
  by (induction s) auto

lemma hd_Split: "hd (Split c s) = takeWhile (\<lambda>x. x \<noteq> c) s"
proof (induction s)
  case (Cons x s)
  then show ?case by (cases "Split c s") (auto simp: Split_nonempty)
qed simp

lemma Split_sep: "c \<notin> set a \<Longrightarrow> Split c (a @ c # b) = a # Split c b"
  by (induction a) auto

lemma Join_Split: "Join c (Split c s) = s"
proof (induction s)
  case (Cons x s)
  show ?case
  proof (cases "Split c s")
    case Nil
    then show ?thesis by simp
  next
    case (Cons p ps)
    with Cons.IH show ?thesis by (cases ps) auto
  qed
qed simp

lemma SplitN_2: "c \<notin> set a \<Longrightarrow> SplitN 2 c (a @ c # b) = [a, b]"
  by (simp add: numeral_2_eq_2)

lemma SplitN_2_none: "c \<notin> set s \<Longrightarrow> SplitN 2 c s = [s]"
  by (simp add: numeral_2_eq_2)

lemma SplitN_2_cases:
  "SplitN 2 c s =
     (if c \<in> set s then [takeWhile (\<lambda>x. x \<noteq> c) s, tl (dropWhile (\<lambda>x. x \<noteq> c) s)] else [s])"
  by (simp add: numeral_2_eq_2)

lemma Contains_char: "Contains s [c] \<longleftrightarrow> c \<in> set s"
  by (induction s) auto

lemma Contains_iff: "Contains s sub \<longleftrightarrow> (\<exists>a b. s = a @ sub @ b)"
proof (induction s)
  case (Cons x s)
  show ?case
  proof
    assume "Contains (x # s) sub"
    then consider r where "x # s = sub @ r" | a b where "s = a @ sub @ b"
      using Cons by (auto simp: HasPrefix_append)
    then show "\<exists>a b. x # s = a @ sub @ b"
      by cases (metis append_Nil, metis append_Cons)
  next
    assume "\<exists>a b. x # s = a @ sub @ b"
    then obtain a b where ab: "x # s = a @ sub @ b" by blast
    show "Contains (x # s) sub"
    proof (cases a)
      case Nil
      with ab have "HasPrefix (x # s) sub" by (auto simp: HasPrefix_append)
      then show ?thesis by simp
    next
      case (Cons y a')
      with ab Cons.IH show ?thesis by auto
    qed
  qed
qed simp

subsection \<open>Numbers\<close>

lemma digit_val_char: "d < 16 \<Longrightarrow> digit_val (digit_char d) = Some d"
  by (simp add: digit_val_def digit_char_def)

lemma digit_ok_char: "d < b \<Longrightarrow> b \<le> 16 \<Longrightarrow> digit_ok b (digit_char d)"
  by (simp add: digit_ok_def digit_val_char)

lemma FormatUint_nonempty [simp]: "FormatUint b n \<noteq> []"
  by (subst FormatUint.simps) simp

lemma FormatUint_digits:
  assumes "2 \<le> b" and "b \<le> 16"
  shows "list_all (digit_ok b) (FormatUint b n)"
  using assms
proof (induction b n rule: FormatUint.induct)
  case (1 b n)
  then show ?case
    by (subst FormatUint.simps) (auto simp: digit_ok_char)
qed

lemma FormatUint_val:
  assumes "2 \<le> b" and "b \<le> 16"
  shows "digits_val b (FormatUint b n) = n"
  using assms
proof (induction b n rule: FormatUint.induct)
  case (1 b n)
  show ?case
  proof (cases "n < b")
    case True
    then show ?thesis
      using 1 by (subst FormatUint.simps) (simp add: digits_val_def digit_val_char)
  next
    case False
    moreover have "n mod b < 16" 
      using 1(2,3) by (intro less_le_trans [OF mod_less_divisor, of b 16 n]) auto
    ultimately show ?thesis
      using 1 by (subst FormatUint.simps) (simp add: digits_val_def digit_val_char)
  qed
qed

lemma ParseUint_FormatUint:
  "2 \<le> b \<Longrightarrow> b \<le> 16 \<Longrightarrow> n < 2 ^ 64 \<Longrightarrow> ParseUint (FormatUint b n) b = Some n"
  by (simp add: ParseUint_def FormatUint_digits FormatUint_val)

lemma ParseUint_bound: "ParseUint s b = Some n \<Longrightarrow> n < 2 ^ 64"
  by (auto simp: ParseUint_def split: if_splits)

lemmas strconv_eval = ParseInt_def ParseUint_def digits_val_def digit_ok_def digit_val_def

lemma ParseInt_bounds: "ParseInt s = Some i \<Longrightarrow> - (2 ^ 63) \<le> i \<and> i < 2 ^ 63"
  by (auto simp: ParseInt_def Let_def split: option.splits if_splits)

lemma digit_ok_10: "digit_ok 10 c \<longleftrightarrow> 48 \<le> byte c \<and> byte c \<le> 57"
  by (auto simp: digit_ok_def digit_val_def)

lemma FormatUint_sign:
  "hd (FormatUint 10 n) \<noteq> CHR ''-'' \<and> hd (FormatUint 10 n) \<noteq> CHR ''+''"
proof -
  have "list_all (digit_ok 10) (FormatUint 10 n)" by (rule FormatUint_digits) simp_all
  then have "digit_ok 10 (hd (FormatUint 10 n))"
    by (cases "FormatUint 10 n") auto
  then show ?thesis by (auto simp: digit_ok_10)
qed

lemma ParseInt_Itoa: "- (2 ^ 63) \<le> i \<Longrightarrow> i < 2 ^ 63 \<Longrightarrow> ParseInt (Itoa i) = Some i"
  using FormatUint_sign [of "nat i"]
  by (auto simp: ParseInt_def FormatInt_def Let_def ParseUint_FormatUint)

subsection \<open>base64\<close>

lemma b64_val_char: "v < 64 \<Longrightarrow> b64_val (b64_char v) = Some v"
  by (cases "v < 26"; cases "v < 52"; cases "v < 62"; cases "v = 62")
    (auto simp: b64_val_def b64_char_def)

lemma b64_val_pad [simp]: "b64_val CHR ''='' = None"
  by (simp add: b64_val_def)

lemma b64_char_no_break: "byte (b64_char v) \<noteq> 10 \<and> byte (b64_char v) \<noteq> 13"
  by (auto simp: b64_char_def)

lemma EncodeToString_no_break:
  "filter (\<lambda>c. byte c \<noteq> 10 \<and> byte c \<noteq> 13) (EncodeToString s) = EncodeToString s"
  by (induction s rule: EncodeToString.induct) (auto simp: b64_char_no_break)

text \<open>The six-bit groups of a byte block put back together.\<close>

lemma b64_pack1: "k < 16 \<Longrightarrow> a div 4 * 4 + (a mod 4 * 16 + k) div 16 = (a :: nat)"
  by (simp add: div_mult_mod_eq)

lemma b64_pack2:
  fixes a b k :: nat
  assumes "k < 4" and "b < 256"
  shows "(a mod 4 * 16 + b div 16) mod 16 * 16 + (b mod 16 * 4 + k) div 4 = b"
proof -
  from assms have "b div 16 < 16" by linarith
  then have "(a mod 4 * 16 + b div 16) mod 16 = b div 16" by simp
  with assms show ?thesis by simp
qed

lemma b64_pack3:
  fixes b c :: nat
  assumes "c < 256"
  shows "(b mod 16 * 4 + c div 64) mod 4 * 64 + c mod 64 = c"
proof -
  from assms have "c div 64 < 4" by linarith
  then have "(b mod 16 * 4 + c div 64) mod 4 = c div 64" by simp
  with assms show ?thesis by simp
qed

lemma b64_sextets:
  shows "byte a div 4 < 64" and "byte a mod 4 * 16 + byte b div 16 < 64"
    and "byte b mod 16 * 4 + byte c div 64 < 64" and "byte c mod 64 < 64"
    and "byte a div 16 < 16" and "byte a div 64 < 4"
    and "byte a mod 4 * 16 < 64" and "byte a mod 16 * 4 < 64"
proof -
  have "byte a mod 4 < 4" "byte a mod 16 < 16" "byte b mod 16 < 16" by simp_all
  then show "byte a div 4 < 64" and "byte a mod 4 * 16 + byte b div 16 < 64"
    and "byte b mod 16 * 4 + byte c div 64 < 64" and "byte c mod 64 < 64"
    and "byte a div 16 < 16" and "byte a div 64 < 4"
    and "byte a mod 4 * 16 < 64" and "byte a mod 16 * 4 < 64"
    using byte_less [of a] byte_less [of b] byte_less [of c] by linarith+
qed

lemma b64_groups_Encode: "b64_groups (EncodeToString s) = Some s"
proof (induction s rule: EncodeToString.induct)
  case (2 a)
  show ?case
    using b64_pack1 [of 0 "byte a"] by (simp add: b64_val_char b64_sextets)
next
  case (3 a b)
  show ?case
    using b64_pack1 [of "byte b div 16" "byte a"] b64_pack2 [of 0 "byte b" "byte a"]
    by (simp add: b64_val_char b64_sextets)
next
  case (4 a b c r)
  then show ?case
    using b64_pack1 [of "byte b div 16" "byte a"] b64_pack2 [of "byte c div 64" "byte b" "byte a"]
      b64_pack3 [of "byte c" "byte b"]
    by (simp add: b64_val_char b64_sextets)
qed simp

lemma DecodeString_Encode: "DecodeString (EncodeToString s) = Some s"
  by (simp add: DecodeString_def EncodeToString_no_break b64_groups_Encode)

subsection \<open>FNV-1a\<close>

text \<open>Writing two strings one after the other hashes their concatenation.\<close>

lemma fnv64a_write_append: "fnv64a_write (fnv64a_write h s) t = fnv64a_write h (s @ t)"
  by (simp add: fnv64a_write_def)

subsection \<open>Trimming\<close>

text \<open>A printable ASCII byte that is not a blank neither starts nor ends an encoded space.\<close>

definition graphic :: "char \<Rightarrow> bool" where
  "graphic c \<longleftrightarrow> 32 < byte c \<and> byte c < 128"

lemma trim_with_stop:
  assumes "\<And>p. p \<in> set ps \<Longrightarrow> p \<noteq> [] \<Longrightarrow> hd p \<noteq> c"
  shows "trim_with ps (c # s) = c # s"
proof -
  have "find (\<lambda>p. p \<noteq> [] \<and> HasPrefix (c # s) p) ps = None"
    using assms by (fastforce simp: find_None_iff HasPrefix_append Cons_eq_append_conv)
  then show ?thesis by (subst trim_with.simps) simp
qed

lemma space_runes_ends:
  assumes "p \<in> set space_runes"
  shows "p \<noteq> [] \<and> \<not> graphic (hd p) \<and> \<not> graphic (last p)"
proof -
  have "\<forall>p\<in>set space_runes. p \<noteq> [] \<and> \<not> (32 < byte (hd p) \<and> byte (hd p) < 128) \<and>
      \<not> (32 < byte (last p) \<and> byte (last p) < 128)"
    by code_simp
  then show ?thesis using assms by (auto simp: graphic_def)
qed

lemma TrimSpace_graphic:
  assumes "s \<noteq> []" and "graphic (hd s)" and "graphic (last s)"
  shows "TrimSpace s = s"
proof -
  obtain c r where s: "s = c # r" using assms(1) by (cases s) auto
  have 1: "trim_with space_runes s = s"
    unfolding s using assms(2) space_runes_ends by (intro trim_with_stop) (auto simp: s)
  obtain d t where t: "rev s = d # t" using assms(1) by (cases "rev s") auto
  then have "d = last s" by (metis hd_rev list.sel(1))
  then have "trim_with (map rev space_runes) (rev s) = rev s"
    unfolding t using assms(3) space_runes_ends by (intro trim_with_stop) (fastforce simp: hd_rev)
  with 1 show ?thesis by (simp add: TrimSpace_def)
qed

lemma TrimSpace_blank: "TrimSpace (CHR '' '' # s) = TrimSpace s"
proof -
  have "take 6 space_runes = [[CHR 0x09], [CHR 0x0A], [CHR 0x0B], [CHR 0x0C], [CHR 0x0D], [CHR '' '']]"
    by code_simp
  then obtain rest where r: "space_runes = [[CHR 0x09], [CHR 0x0A], [CHR 0x0B], [CHR 0x0C], [CHR 0x0D], [CHR '' '']] @ rest"
    by (metis append_take_drop_id)
  have "find (\<lambda>p. p \<noteq> [] \<and> HasPrefix (CHR '' '' # s) p) space_runes = Some ['' '' ! 0]" by (simp add: r)
  then have "trim_with space_runes (CHR '' '' # s) = trim_with space_runes s"
    by (subst trim_with.simps) simp
  then show ?thesis by (simp add: TrimSpace_def)
qed

end
