(* ===== verification/Config.thy ===== *)
theory Config
  imports Gostd
begin

text \<open>
  \<open>config/config.go\<close>: the constants, the listening address, the options of the icecast connection
  and the database DSN, all read from the YAML file. The YAML package is not part of the repository:
  its nodes are a datatype with the package's three kinds of node, and its lookup \<open>yaml.Child\<close> is the
  argument \<open>Child\<close> (\<open>None\<close> is its error). Command-line flags are not modelled.
\<close>

section \<open>YAML nodes\<close>

datatype node = Scalar string | YMap "(string \<times> node) list" | YList "node list"

type_synonym child_fn = "node \<Rightarrow> string \<Rightarrow> node option"

text \<open>A function that may panic, as a value: \<open>Inl\<close> carries the panic's message.\<close>

type_synonym 'a panicking = "string + 'a"

section \<open>Constants\<close>

definition BUFFER_SIZE :: nat where
  "BUFFER_SIZE = 4096"

definition QUEUE_LIMIT :: nat where
  "QUEUE_LIMIT = 100"

text \<open>The timeout in seconds.\<close>

definition Timeout :: nat where
  "Timeout = 5"

section \<open>The listening address\<close>

text \<open>One turn of the loop of \<open>init\<close> over the server mapping.\<close>

fun init_entry :: "string \<Rightarrow> string \<times> node \<Rightarrow> string" where
  "init_entry addr (key, Scalar s) =
     (if key = ''host'' then s @ addr else if key = ''port'' then addr @ s else addr)"
| "init_entry addr (key, value) = addr"

definition init :: "child_fn \<Rightarrow> node \<Rightarrow> string panicking" where
  "init Child Root =
     (case Child Root ''server'' of
        None \<Rightarrow> Inl ''Server configuration missing.''
      | Some (YMap m) \<Rightarrow> Inr (foldl init_entry '':'' m)
      | Some _ \<Rightarrow> Inr '':'')"

section \<open>The options of the icecast connection\<close>

fun shout_entry :: "(string, string) gomap \<Rightarrow> string \<times> node \<Rightarrow> (string, string) gomap" where
  "shout_entry icecast_map (key, Scalar s) = gomap_set key s icecast_map"
| "shout_entry icecast_map (key, value) = icecast_map"

definition CreateShoutMap :: "child_fn \<Rightarrow> node \<Rightarrow> (string, string) gomap panicking" where
  "CreateShoutMap Child Root =
     (case Child Root ''icecast'' of
        None \<Rightarrow> Inl ''Icecast configuration missing.''
      | Some (YMap m) \<Rightarrow> Inr (foldl shout_entry [] m)
      | Some _ \<Rightarrow> Inl (''Icecast configuration isn'' @ [char_of (39 :: nat)] @ ''t a mapping.''))"

section \<open>The database DSN\<close>

definition getstring :: "(string \<times> node) list \<Rightarrow> string \<Rightarrow> string option" where
  "getstring m key = (case gomap_get m key of Some (Scalar s) \<Rightarrow> Some s | _ \<Rightarrow> None)"

text \<open>The parameter loop; \<open>i\<close> counts the entries seen, whatever their kind.\<close>

fun dsn_params :: "nat \<Rightarrow> (string \<times> node) list \<Rightarrow> string" where
  "dsn_params i [] = []"
| "dsn_params i ((key, value) # r) =
     (if 1 < Suc i then ''&'' else []) @
     (case value of Scalar s \<Rightarrow> key @ ''='' @ s | _ \<Rightarrow> []) @ dsn_params (Suc i) r"

definition CreateDatabaseDSN :: "child_fn \<Rightarrow> node \<Rightarrow> string panicking" where
  "CreateDatabaseDSN Child Root =
     (case Child Root ''database'' of
        None \<Rightarrow> Inl ''Database configuration missing.''
      | Some (YMap m) \<Rightarrow>
          (let u = (case getstring m ''username'' of Some name \<Rightarrow> name | None \<Rightarrow> []);
               p = (case getstring m ''password'' of Some pass \<Rightarrow> '':'' @ pass | None \<Rightarrow> []);
               pr = (case getstring m ''protocol'' of Some protocol \<Rightarrow> ''@'' @ protocol | None \<Rightarrow> []);
               a = (case getstring m ''host'' of
                      Some address \<Rightarrow>
                        ''('' @ address @
                        (case getstring m ''port'' of Some port \<Rightarrow> '':'' @ port | None \<Rightarrow> []) @ '')''
                    | None \<Rightarrow> [])
           in case getstring m ''dbname'' of
                None \<Rightarrow> Inl ''Database name is required.''
              | Some dbname \<Rightarrow>
                  Inr (u @ p @ pr @ a @ ''/'' @ dbname @
                    (case gomap_get m ''parameters'' of
                       Some (YMap mp) \<Rightarrow> ''?'' @ dsn_params 0 mp
                     | _ \<Rightarrow> [])))
      | Some _ \<Rightarrow> Inr [])"

section \<open>Properties\<close>

definition scalar_or_empty :: "(string \<times> node) list \<Rightarrow> string \<Rightarrow> string" where
  "scalar_or_empty m key = (case getstring m key of Some s \<Rightarrow> s | None \<Rightarrow> [])"

lemma init_loop:
  assumes "gomap_wf m"
  shows "foldl init_entry (h @ '':'' @ p) m =
         (scalar_or_empty m ''host'' @ h) @ '':'' @ (p @ scalar_or_empty m ''port'')"
  using assms
proof (induction m arbitrary: h p)
  case Nil
  then show ?case by (simp add: scalar_or_empty_def getstring_def)
next
  case (Cons e m)
  obtain k v where e: "e = (k, v)" by (cases e)
  from Cons.prems e have wf: "gomap_wf m" and fresh: "gomap_get m k = None"
    by (auto simp: gomap_wf_def map_of_eq_None_iff)
  show ?case
  proof (cases v)
    case (Scalar s)
    consider "k = ''host''" | "k = ''port''" | "k \<noteq> ''host''" "k \<noteq> ''port''" by blast
    then show ?thesis
    proof cases
      case 1
      with Scalar e fresh Cons.IH [OF wf, of "s @ h" p] show ?thesis
        by (simp add: scalar_or_empty_def getstring_def)
    next
      case 2
      with Scalar e fresh Cons.IH [OF wf, of h "p @ s"] show ?thesis
        by (simp add: scalar_or_empty_def getstring_def)
    next
      case 3
      with Scalar e fresh Cons.IH [OF wf, of h p] show ?thesis
        by (simp add: scalar_or_empty_def getstring_def)
    qed
  next
    case (YMap x)
    with e fresh Cons.IH [OF wf, of h p] show ?thesis
      by (auto simp: scalar_or_empty_def getstring_def)
  next
    case (YList x)
    with e fresh Cons.IH [OF wf, of h p] show ?thesis
      by (auto simp: scalar_or_empty_def getstring_def)
  qed
qed

lemma CreateShoutMap_loop:
  assumes "gomap_wf m"
  shows "gomap_get (foldl shout_entry acc m) k =
         (case getstring m k of Some s \<Rightarrow> Some s | None \<Rightarrow> gomap_get acc k)"
  using assms
proof (induction m arbitrary: acc)
  case Nil
  then show ?case by (simp add: getstring_def)
next
  case (Cons e m)
  obtain k' v where e: "e = (k', v)" by (cases e)
  from Cons.prems e have wf: "gomap_wf m" and fresh: "gomap_get m k' = None"
    by (auto simp: gomap_wf_def map_of_eq_None_iff)
  from Cons.IH [OF wf] e fresh show ?case
    by (cases v) (auto simp: getstring_def gomap_simps split: option.splits node.splits)
qed

lemma shout_loop_wf: "gomap_wf acc \<Longrightarrow> gomap_wf (foldl shout_entry acc m)"
proof (induction m arbitrary: acc)
  case (Cons e m)
  have "gomap_wf (shout_entry acc e)"
    using Cons.prems by (cases "(acc, e)" rule: shout_entry.cases) simp_all
  then have "gomap_wf (foldl shout_entry (shout_entry acc e) m)" by (rule Cons.IH)
  then show ?case by simp
qed simp

lemma getstring_order: "mset m' = mset m \<Longrightarrow> gomap_wf m \<Longrightarrow> getstring m' = getstring m"
  using gomap_order_get [of m' m] by (simp add: getstring_def fun_eq_iff)

text \<open>
  The listening address is the configured host, a colon and the configured port, in whatever
  order the configuration's mapping is visited and whatever else it holds.
\<close>

theorem server_address:
  assumes "Child Root ''server'' = Some (YMap m')" and "mset m' = mset m" and "gomap_wf m"
  shows "init Child Root = Inr (scalar_or_empty m ''host'' @ '':'' @ scalar_or_empty m ''port'')"
  using assms(1) init_loop [OF gomap_order_wf [OF assms(2,3)], of "[]" "[]"] getstring_order [OF assms(2,3)]
  by (simp add: init_def scalar_or_empty_def)

theorem server_address_witness:
  "init (\<lambda>_ _. Some (YMap [(''port'', Scalar ''8000''), (''host'', Scalar ''h'')])) (YList []) = Inr ''h:8000''"
  using server_address [of "\<lambda>_ _. Some (YMap [(''port'', Scalar ''8000''), (''host'', Scalar ''h'')])" "YList []"
      "[(''port'', Scalar ''8000''), (''host'', Scalar ''h'')]" "[(''host'', Scalar ''h''), (''port'', Scalar ''8000'')]"]
  by (simp add: gomap_wf_def scalar_or_empty_def getstring_def add_mset_commute)

text \<open>
  The options of an icecast connection are exactly the scalar entries of the configuration's
  mapping; anything that is no scalar is left out.
\<close>

theorem shout_options:
  assumes "Child Root ''icecast'' = Some (YMap m)" and "gomap_wf m"
  shows "\<exists>options. CreateShoutMap Child Root = Inr options \<and> gomap_wf options \<and>
    (\<forall>k. gomap_get options k = getstring m k)"
  using assms shout_loop_wf [of "[]" m] CreateShoutMap_loop [OF assms(2), of "[]"]
  by (auto simp: CreateShoutMap_def split: option.split)

theorem shout_options_witness:
  "\<exists>options. CreateShoutMap (\<lambda>_ _. Some (YMap [(''host'', Scalar ''h''), (''x'', YList [])])) (YList []) =
     Inr options \<and> gomap_get options ''host'' = Some ''h'' \<and> gomap_get options ''x'' = None"
  using shout_options [of "\<lambda>_ _. Some (YMap [(''host'', Scalar ''h''), (''x'', YList [])])" "YList []"]
  by (auto simp: gomap_wf_def getstring_def)

lemma dsn_params_scalars:
  assumes "list_all (\<lambda>(k, v). \<exists>s. v = Scalar s) ps"
  shows "dsn_params 0 ps = Join (CHR ''&'') (map (\<lambda>(k, v). k @ ''='' @ (case v of Scalar s \<Rightarrow> s | _ \<Rightarrow> [])) ps)"
proof -
  have "dsn_params (Suc i) qs =
      concat (map (\<lambda>(k, v). ''&'' @ k @ ''='' @ (case v of Scalar s \<Rightarrow> s | _ \<Rightarrow> [])) qs)"
    if "list_all (\<lambda>(k, v). \<exists>s. v = Scalar s) qs" for i qs
    using that by (induction qs arbitrary: i) auto
  moreover have "Join c (x # xs) = x @ concat (map (\<lambda>s. c # s) xs)" for c x xs
    by (induction xs arbitrary: x) auto
  ultimately show ?thesis
    using assms by (cases ps) (auto simp: comp_def case_prod_unfold)
qed

text \<open>
  With a complete configuration the DSN has the documented form
  user:password@protocol(address:port)/dbname?key=value&...
\<close>

theorem database_dsn:
  assumes "Child Root ''database'' = Some (YMap m)"
    and "getstring m ''username'' = Some user" and "getstring m ''password'' = Some pass"
    and "getstring m ''protocol'' = Some protocol" and "getstring m ''host'' = Some address"
    and "getstring m ''port'' = Some port" and "getstring m ''dbname'' = Some db"
    and "gomap_get m ''parameters'' = Some (YMap ps)" and "list_all (\<lambda>(k, v). \<exists>s. v = Scalar s) ps"
  shows "CreateDatabaseDSN Child Root =
    Inr (user @ '':'' @ pass @ ''@'' @ protocol @ ''('' @ address @ '':'' @ port @ '')/'' @ db @ ''?'' @
      Join (CHR ''&'') (map (\<lambda>(k, v). k @ ''='' @ (case v of Scalar s \<Rightarrow> s | _ \<Rightarrow> [])) ps))"
  using assms by (simp add: CreateDatabaseDSN_def dsn_params_scalars)

definition demo_database :: "(string \<times> node) list" where
  "demo_database = [(''username'', Scalar ''u''), (''password'', Scalar ''p''), (''protocol'', Scalar ''tcp''),
     (''host'', Scalar ''h''), (''port'', Scalar ''1''), (''dbname'', Scalar ''d''),
     (''parameters'', YMap [(''a'', Scalar ''b''), (''c'', Scalar ''e'')])]"

theorem database_dsn_witness:
  "CreateDatabaseDSN (\<lambda>_ _. Some (YMap demo_database)) (YList []) = Inr ''u:p@tcp(h:1)/d?a=b&c=e''"
  using database_dsn [of "\<lambda>_ _. Some (YMap demo_database)" "YList []" demo_database "''u''" "''p''" "''tcp''" "''h''" "''1''" "''d''"
      "[(''a'', Scalar ''b''), (''c'', Scalar ''e'')]"]
  by (simp add: demo_database_def getstring_def)

end
