(* ===== verification/Shout.thy ===== *)
theory Shout
  imports Gostd
begin

text \<open>
  \<open>shout/shout.go\<close>: the wrapper around libshout. The C library is not part of the repository: its
  functions and constants are the fields of the argument \<open>L\<close>, each a function on the library's state
  \<open>'l\<close>. The setters are one field that takes the call as a value, so that a list of C calls can be
  compared. Allocation and release of C strings are not modelled.
\<close>

section \<open>The C library\<close>

type_synonym shout_t = nat
type_synonym shout_metadata_t = nat

datatype setter =
    set_host string | set_port "16 word" | set_user string | set_password string
  | set_protocol int | set_format int | set_mount string | set_dumpfile string | set_agent string
  | set_public int | set_name string | set_url string | set_genre string | set_description string
  | set_audio_info string string

record 'l libshout =
  shout_new :: "'l \<Rightarrow> shout_t \<times> 'l"
  shout_free :: "shout_t \<Rightarrow> 'l \<Rightarrow> 'l"
  shout_metadata_new :: "'l \<Rightarrow> shout_metadata_t \<times> 'l"
  shout_metadata_free :: "shout_metadata_t \<Rightarrow> 'l \<Rightarrow> 'l"
  shout_metadata_add :: "shout_metadata_t \<Rightarrow> string \<Rightarrow> string \<Rightarrow> 'l \<Rightarrow> int \<times> 'l"
  shout_set_metadata :: "shout_t \<Rightarrow> shout_metadata_t \<Rightarrow> 'l \<Rightarrow> int \<times> 'l"
  shout_set :: "shout_t \<Rightarrow> setter \<Rightarrow> 'l \<Rightarrow> 'l"
  shout_open :: "shout_t \<Rightarrow> 'l \<Rightarrow> int \<times> 'l"
  shout_close :: "shout_t \<Rightarrow> 'l \<Rightarrow> int \<times> 'l"
  shout_send :: "shout_t \<Rightarrow> string \<Rightarrow> 'l \<Rightarrow> int \<times> 'l"
  shout_get_connected :: "shout_t \<Rightarrow> 'l \<Rightarrow> int \<times> 'l"
  shout_get_errno :: "shout_t \<Rightarrow> 'l \<Rightarrow> int"
  shout_get_error :: "shout_t \<Rightarrow> 'l \<Rightarrow> string"
  shout_sync :: "shout_t \<Rightarrow> 'l \<Rightarrow> 'l"
  shout_delay :: "shout_t \<Rightarrow> 'l \<Rightarrow> int"
  SHOUT_PROTOCOL_HTTP :: int
  SHOUT_PROTOCOL_XAUDIOCAST :: int
  SHOUT_PROTOCOL_ICY :: int
  SHOUT_FORMAT_OGG :: int
  SHOUT_FORMAT_MP3 :: int
  SHOUT_AI_BITRATE :: string
  SHOUT_AI_CHANNELS :: string
  SHOUT_AI_SAMPLERATE :: string
  SHOUT_AI_QUALITY :: string
  SHOUTERR_SUCCESS :: int
  SHOUTERR_INSANE :: int
  SHOUTERR_MALLOC :: int
  SHOUTERR_CONNECTED :: int

section \<open>The wrapper\<close>

record Shout =
  sh_shout :: shout_t
  sh_metadata :: shout_metadata_t

record ShoutError =
  Errno :: int
  ErrStr :: string

text \<open>A key that is missing from a Go map reads as the zero value.\<close>

definition Protocols :: "'l libshout \<Rightarrow> string \<Rightarrow> int" where
  "Protocols L k =
     (if k = ''HTTP'' then SHOUT_PROTOCOL_HTTP L
      else if k = ''XAUDIOCAST'' then SHOUT_PROTOCOL_XAUDIOCAST L
      else if k = ''ICY'' then SHOUT_PROTOCOL_ICY L else 0)"

definition Formats :: "'l libshout \<Rightarrow> string \<Rightarrow> int" where
  "Formats L k =
     (if k = ''OGG'' then SHOUT_FORMAT_OGG L else if k = ''MP3'' then SHOUT_FORMAT_MP3 L else 0)"

definition AudioParams :: "'l libshout \<Rightarrow> string \<Rightarrow> string" where
  "AudioParams L k =
     (if k = ''bitrate'' then SHOUT_AI_BITRATE L
      else if k = ''channels'' then SHOUT_AI_CHANNELS L
      else if k = ''samplerate'' then SHOUT_AI_SAMPLERATE L
      else if k = ''quality'' then SHOUT_AI_QUALITY L else [])"

text \<open>One turn of the loop of \<open>ApplyOptions\<close>: the C setter it calls, if any.\<close>

definition apply_option :: "'l libshout \<Rightarrow> string \<Rightarrow> string \<Rightarrow> setter option" where
  "apply_option L key value =
     (if key = ''host'' then Some (set_host value)
      else if key = ''port'' then
        (case Atoi value of None \<Rightarrow> None | Some temp \<Rightarrow> Some (set_port (word_of_int temp)))
      else if key = ''user'' then Some (set_user value)
      else if key = ''passwd'' then Some (set_password value)
      else if key = ''protocol'' then Some (set_protocol (Protocols L value))
      else if key = ''format'' then Some (set_format (Formats L value))
      else if key = ''mount'' then Some (set_mount value)
      else if key = ''dumpfile'' then Some (set_dumpfile value)
      else if key = ''agent'' then Some (set_agent value)
      else if key = ''public'' then
        Some (set_public (if value = ''true'' \<or> value = ''1'' then 1 else 0))
      else if key = ''name'' then Some (set_name value)
      else if key = ''url'' then Some (set_url value)
      else if key = ''genre'' then Some (set_genre value)
      else if key = ''description'' then Some (set_description value)
      else if key = ''bitrate'' \<or> key = ''samplerate'' \<or> key = ''channels'' \<or> key = ''quality'' then
        Some (set_audio_info (AudioParams L value) value)
      else None)"

text \<open>\<open>options\<close> is the map in the order the \<open>range\<close> statement visits it.\<close>

fun ApplyOptions :: "'l libshout \<Rightarrow> Shout \<Rightarrow> (string \<times> string) list \<Rightarrow> 'l \<Rightarrow> 'l" where
  "ApplyOptions L self [] l = l"
| "ApplyOptions L self ((key, value) # options) l =
     ApplyOptions L self options
       (case apply_option L key value of
          None \<Rightarrow> l
        | Some call \<Rightarrow> shout_set L (sh_shout self) call l)"

definition NewShout :: "'l libshout \<Rightarrow> (string \<times> string) list \<Rightarrow> 'l \<Rightarrow> Shout \<times> 'l" where
  "NewShout L options l =
     (case shout_new L l of (s, l1) \<Rightarrow>
      case shout_metadata_new L l1 of (m, l2) \<Rightarrow>
      case shout_metadata_add L m ''charset'' ''UTF8'' l2 of (_, l3) \<Rightarrow>
        (let new = \<lparr>sh_shout = s, sh_metadata = m\<rparr> in (new, ApplyOptions L new options l3)))"

definition DestroyShout :: "'l libshout \<Rightarrow> Shout \<Rightarrow> 'l \<Rightarrow> 'l" where
  "DestroyShout L self l =
     shout_metadata_free L (sh_metadata self) (shout_free L (sh_shout self) l)"

definition createShoutError :: "'l libshout \<Rightarrow> Shout \<Rightarrow> 'l \<Rightarrow> ShoutError" where
  "createShoutError L self l =
     \<lparr>Errno = shout_get_errno L (sh_shout self) l, ErrStr = shout_get_error L (sh_shout self) l\<rparr>"

definition Open :: "'l libshout \<Rightarrow> Shout \<Rightarrow> 'l \<Rightarrow> ShoutError option \<times> 'l" where
  "Open L self l =
     (case shout_open L (sh_shout self) l of (err, l') \<Rightarrow>
        (if err \<noteq> 0 then Some (createShoutError L self l') else None, l'))"

definition Close :: "'l libshout \<Rightarrow> Shout \<Rightarrow> 'l \<Rightarrow> ShoutError option \<times> 'l" where
  "Close L self l =
     (case shout_close L (sh_shout self) l of (err, l') \<Rightarrow>
        (if err \<noteq> 0 then Some (createShoutError L self l') else None, l'))"

text \<open>\<open>Send\<close> takes the address of the first byte, which panics on an empty slice.\<close>

definition Send :: "'l libshout \<Rightarrow> Shout \<Rightarrow> string \<Rightarrow> 'l \<Rightarrow> ('l, ShoutError option) outcome" where
  "Send L self data l =
     (if data = [] then Panic l ''index out of range''
      else (case shout_send L (sh_shout self) data l of (res, l') \<Rightarrow>
              Done l' (if res \<noteq> SHOUTERR_SUCCESS L then Some (createShoutError L self l') else None)))"

definition SendMetadata :: "'l libshout \<Rightarrow> Shout \<Rightarrow> string \<Rightarrow> 'l \<Rightarrow> ShoutError option \<times> 'l" where
  "SendMetadata L self meta l =
     (case shout_metadata_add L (sh_metadata self) ''song'' meta l of (i, l1) \<Rightarrow>
        if i \<noteq> SHOUTERR_SUCCESS L then (Some (createShoutError L self l1), l1)
        else (case shout_set_metadata L (sh_shout self) (sh_metadata self) l1 of (j, l2) \<Rightarrow>
                (if j \<noteq> SHOUTERR_SUCCESS L then Some (createShoutError L self l2) else None, l2)))"

definition Connected :: "'l libshout \<Rightarrow> Shout \<Rightarrow> 'l \<Rightarrow> bool \<times> 'l" where
  "Connected L self l =
     (case shout_get_connected L (sh_shout self) l of (value, l') \<Rightarrow>
        (value = SHOUTERR_CONNECTED L, l'))"

definition Sync :: "'l libshout \<Rightarrow> Shout \<Rightarrow> 'l \<Rightarrow> 'l" where
  "Sync L self l = shout_sync L (sh_shout self) l"

definition Delay :: "'l libshout \<Rightarrow> Shout \<Rightarrow> 'l \<Rightarrow> int" where
  "Delay L self l = shout_delay L (sh_shout self) l"

section \<open>A library that records its calls\<close>

text \<open>
  A concrete instance: the state is a connection flag and the log of the calls, every call
  succeeds, handles are numbered. The concrete runs of the development use it.
\<close>

datatype c_call =
    C_new shout_t | C_free shout_t | C_metadata_new shout_metadata_t
  | C_metadata_free shout_metadata_t | C_metadata_add shout_metadata_t string string
  | C_set_metadata shout_t shout_metadata_t | C_set shout_t setter | C_open shout_t
  | C_close shout_t | C_send shout_t string

record rec_lib =
  rl_conn :: "shout_t list"
  rl_log :: "c_call list"

definition rec_init :: rec_lib where
  "rec_init = \<lparr>rl_conn = [], rl_log = []\<rparr>"

definition rec_log :: "c_call \<Rightarrow> rec_lib \<Rightarrow> rec_lib" where
  "rec_log c l = l\<lparr>rl_log := rl_log l @ [c]\<rparr>"

definition recording :: "rec_lib libshout" where
  "recording =
     \<lparr>shout_new = \<lambda>l. (length (rl_log l), rec_log (C_new (length (rl_log l))) l),
      shout_free = \<lambda>s l. rec_log (C_free s) l,
      shout_metadata_new = \<lambda>l. (length (rl_log l), rec_log (C_metadata_new (length (rl_log l))) l),
      shout_metadata_free = \<lambda>m l. rec_log (C_metadata_free m) l,
      shout_metadata_add = \<lambda>m k v l. (0, rec_log (C_metadata_add m k v) l),
      shout_set_metadata = \<lambda>s m l. (0, rec_log (C_set_metadata s m) l),
      shout_set = \<lambda>s c l. rec_log (C_set s c) l,
      shout_open = \<lambda>s l. (0, rec_log (C_open s) (l\<lparr>rl_conn := s # rl_conn l\<rparr>)),
      shout_close = \<lambda>s l. (0, rec_log (C_close s) (l\<lparr>rl_conn := removeAll s (rl_conn l)\<rparr>)),
      shout_send = \<lambda>s d l. (0, rec_log (C_send s d) l),
      shout_get_connected = \<lambda>s l. (if s \<in> set (rl_conn l) then -7 else -8, l),
      shout_get_errno = \<lambda>s l. 0,
      shout_get_error = \<lambda>s l. [],
      shout_sync = \<lambda>s l. l,
      shout_delay = \<lambda>s l. 0,
      SHOUT_PROTOCOL_HTTP = 0, SHOUT_PROTOCOL_XAUDIOCAST = 1, SHOUT_PROTOCOL_ICY = 2,
      SHOUT_FORMAT_OGG = 0, SHOUT_FORMAT_MP3 = 1,
      SHOUT_AI_BITRATE = ''bitrate'', SHOUT_AI_CHANNELS = ''channels'',
      SHOUT_AI_SAMPLERATE = ''samplerate'', SHOUT_AI_QUALITY = ''quality'',
      SHOUTERR_SUCCESS = 0, SHOUTERR_INSANE = -1, SHOUTERR_MALLOC = -5, SHOUTERR_CONNECTED = -7\<rparr>"

lemmas shout_defs = Open_def Close_def Send_def SendMetadata_def Connected_def NewShout_def
  DestroyShout_def createShoutError_def

lemmas recording_defs = recording_def rec_log_def rec_init_def

section \<open>Properties\<close>

text \<open>Applying options is one C call per recognised option, in the order of the loop.\<close>

lemma ApplyOptions_calls:
  "ApplyOptions L self options l =
     fold (shout_set L (sh_shout self)) (List.map_filter (\<lambda>(k, v). apply_option L k v) options) l"
  by (induction L self options l rule: ApplyOptions.induct)
    (auto simp: map_filter_simps split: option.splits)

text \<open>
  Applying options makes one C call per option it knows, in the order it visits them, and nothing
  for the others; a port outside 16 bits reaches the library reduced modulo 65536.
\<close>

theorem options_applied:
  "ApplyOptions L self options l =
     fold (shout_set L (sh_shout self)) (List.map_filter (\<lambda>(k, v). apply_option L k v) options) l \<and>
   (- (2 ^ 63) \<le> n \<and> n < 2 ^ 63 \<longrightarrow>
      (\<exists>p. apply_option L ''port'' (Itoa n) = Some (set_port p) \<and> uint p = n mod 65536))"
  by (auto simp: ApplyOptions_calls apply_option_def ParseInt_Itoa unsigned_of_int take_bit_int_def)

theorem options_applied_witness:
  "\<exists>p. apply_option recording ''port'' (Itoa 73536) = Some (set_port p) \<and> uint p = 8000"
  using options_applied [of recording undefined "[]" rec_init 73536] by simp

text \<open>
  An audio parameter is set under the name that its value, not its key, stands for: a bitrate
  reaches the library as a parameter without a name.
\<close>

theorem audio_parameter_name:
  "apply_option L ''bitrate'' ''128'' = Some (set_audio_info [] ''128'') \<and>
   apply_option L ''bitrate'' ''quality'' = Some (set_audio_info (SHOUT_AI_QUALITY L) ''quality'')"
  by (simp add: apply_option_def AudioParams_def)

end
