(* ===== verification/Header.thy ===== *)
theory Header
  imports Gostd "HOL-Library.Char_ord" "HOL-Library.List_Lexorder"
begin

unbundle bit_operations_syntax

text \<open>
  \<open>http/header.go\<close>: the header map with its canonical keys, writing a header in wire format, and
  the token search used for the \<open>Connection\<close> header. The methods of \<open>textproto.MIMEHeader\<close> are
  those of the standard library.
\<close>

type_synonym error = string

text \<open>
  An \<open>io.Writer\<close> over a state: a write returns the number of bytes it took and an error, if any.
\<close>

type_synonym 's writer = "'s \<Rightarrow> string \<Rightarrow> 's \<times> nat \<times> error option"

section \<open>Canonical keys\<close>

definition is_alnum :: "char \<Rightarrow> bool" where
  "is_alnum c \<longleftrightarrow> 48 \<le> byte c \<and> byte c \<le> 57 \<or> 65 \<le> byte c \<and> byte c \<le> 90 \<or> 97 \<le> byte c \<and> byte c \<le> 122"

text \<open>\<open>validHeaderFieldByte\<close> of \<open>net/textproto\<close>: the bytes of an HTTP token.\<close>

definition valid_field_byte :: "char \<Rightarrow> bool" where
  "valid_field_byte c \<longleftrightarrow> is_alnum c \<or> c \<in> set ''!#$%&*+-.^_`|~'' \<or> byte c = 39"

fun canonical_bytes :: "bool \<Rightarrow> string \<Rightarrow> string" where
  "canonical_bytes up [] = []"
| "canonical_bytes up (c # s) =
     (if up then upper_byte c else lower_byte c) # canonical_bytes (c = CHR ''-'') s"

definition CanonicalHeaderKey :: "string \<Rightarrow> string" where
  "CanonicalHeaderKey s = (if list_all valid_field_byte s then canonical_bytes True s else s)"

section \<open>The header map\<close>

type_synonym header = "(string, string list) gomap"

definition Add :: "header \<Rightarrow> string \<Rightarrow> string \<Rightarrow> header" where
  "Add h key value =
     (let k = CanonicalHeaderKey key
      in gomap_set k ((case gomap_get h k of None \<Rightarrow> [] | Some vs \<Rightarrow> vs) @ [value]) h)"

definition Set :: "header \<Rightarrow> string \<Rightarrow> string \<Rightarrow> header" where
  "Set h key value = gomap_set (CanonicalHeaderKey key) [value] h"

definition Get :: "header \<Rightarrow> string \<Rightarrow> string" where
  "Get h key = (case gomap_get h (CanonicalHeaderKey key) of Some (v # vs) \<Rightarrow> v | _ \<Rightarrow> [])"

definition Del :: "header \<Rightarrow> string \<Rightarrow> header" where
  "Del h key = gomap_del (CanonicalHeaderKey key) h"

section \<open>Wire format\<close>

definition headerNewlineToSpace :: "string \<Rightarrow> string" where
  "headerNewlineToSpace v = map (\<lambda>c. if byte c = 10 \<or> byte c = 13 then CHR '' '' else c) v"

definition CRLF :: string where
  "CRLF = [char_of (13 :: nat), char_of (10 :: nat)]"

definition header_line :: "string \<Rightarrow> string \<Rightarrow> string" where
  "header_line k v = k @ '': '' @ TrimSpace (headerNewlineToSpace v) @ CRLF"

fun write_all :: "'s writer \<Rightarrow> 's \<Rightarrow> string list \<Rightarrow> 's \<times> error option" where
  "write_all w s [] = (s, None)"
| "write_all w s (l # ls) =
     (case w s l of (s', n, None) \<Rightarrow> write_all w s' ls | (s', n, Some e) \<Rightarrow> (s', Some e))"

definition subset_lines :: "header \<Rightarrow> (string \<Rightarrow> bool) \<Rightarrow> string list" where
  "subset_lines h exclude =
     concat (map (\<lambda>k. map (header_line k) (the (gomap_get h k)))
       (sort (filter (\<lambda>k. \<not> exclude k) (map fst h))))"

text \<open>
  \<open>WriteSubset\<close>: the keys that are not excluded, sorted; each value on a line of its own; the first
  write error ends it. A nil \<open>exclude\<close> map excludes nothing.
\<close>

definition WriteSubset :: "'s writer \<Rightarrow> 's \<Rightarrow> header \<Rightarrow> (string \<Rightarrow> bool) \<Rightarrow> 's \<times> error option" where
  "WriteSubset w s h exclude = write_all w s (subset_lines h exclude)"

definition Write :: "'s writer \<Rightarrow> 's \<Rightarrow> header \<Rightarrow> 's \<times> error option" where
  "Write w s h = WriteSubset w s h (\<lambda>k. False)"

section \<open>Tokens\<close>

definition isTokenBoundary :: "char \<Rightarrow> bool" where
  "isTokenBoundary b \<longleftrightarrow> b = CHR '' '' \<or> b = CHR '','' \<or> byte b = 9"

text \<open>\<open>strings.EqualFold\<close> where one side is ASCII, as the token of \<open>hasToken\<close> is.\<close>

definition EqualFold :: "string \<Rightarrow> string \<Rightarrow> bool" where
  "EqualFold s t \<longleftrightarrow> map lower_byte s = map lower_byte t"

text \<open>The body of the loop at the starting position \<open>sp\<close>; \<open>False\<close> is \<open>continue\<close>.\<close>

definition hasToken_at :: "string \<Rightarrow> string \<Rightarrow> nat \<Rightarrow> bool" where
  "hasToken_at v token sp \<longleftrightarrow>
     (if v ! sp \<noteq> token ! 0 \<and> byte (v ! sp) OR 32 \<noteq> byte (token ! 0) then False
      else if 0 < sp \<and> \<not> isTokenBoundary (v ! (sp - 1)) then False
      else if sp + length token \<noteq> length v \<and> \<not> isTokenBoundary (v ! (sp + length token)) then False
      else EqualFold (take (length token) (drop sp v)) token)"

definition hasToken :: "string \<Rightarrow> string \<Rightarrow> bool" where
  "hasToken v token \<longleftrightarrow>
     (if length v < length token \<or> token = [] then False
      else if v = token then True
      else list_ex (hasToken_at v token) [0 ..< Suc (length v - length token)])"

section \<open>Properties\<close>

lemma Get_Set: "Get (Set h k v) k' = (if CanonicalHeaderKey k' = CanonicalHeaderKey k then v else Get h k')"
  by (simp add: Get_def Set_def gomap_simps)

lemma Get_Del: "Get (Del h k) k' = (if CanonicalHeaderKey k' = CanonicalHeaderKey k then [] else Get h k')"
  by (simp add: Get_def Del_def gomap_simps)

lemma header_wf_ops [simp]:
  "gomap_wf h \<Longrightarrow> gomap_wf (Set h k v)"
  "gomap_wf h \<Longrightarrow> gomap_wf (Add h k v)"
  "gomap_wf h \<Longrightarrow> gomap_wf (Del h k)"
  by (simp_all add: Set_def Add_def Del_def Let_def)

subsection \<open>Canonical keys are a normal form\<close>

lemma byte_upper: "byte (upper_byte c) = (if 97 \<le> byte c \<and> byte c \<le> 122 then byte c - 32 else byte c)"
  by (simp add: upper_byte_def less_imp_diff_less)

lemma byte_lower: "byte (lower_byte c) = (if 65 \<le> byte c \<and> byte c \<le> 90 then byte c + 32 else byte c)"
  by (simp add: lower_byte_def)

lemma case_bytes_idem [simp]:
  "upper_byte (upper_byte c) = upper_byte c" "lower_byte (lower_byte c) = lower_byte c"
  "upper_byte (lower_byte c) = upper_byte c" "lower_byte (upper_byte c) = lower_byte c"
  by (auto simp: upper_byte_def lower_byte_def)

lemma case_bytes_hyphen [simp]:
  "upper_byte c = CHR ''-'' \<longleftrightarrow> c = CHR ''-''" "lower_byte c = CHR ''-'' \<longleftrightarrow> c = CHR ''-''"
proof -
  have "byte (upper_byte c) = 45 \<longleftrightarrow> byte c = 45" "byte (lower_byte c) = 45 \<longleftrightarrow> byte c = 45"
    by (auto simp: byte_upper byte_lower)
  moreover have "byte d = 45 \<longleftrightarrow> d = CHR ''-''" for d
    using of_char_eq_iff [of d "CHR ''-''", where ?'a = nat] by simp
  ultimately show "upper_byte c = CHR ''-'' \<longleftrightarrow> c = CHR ''-''" "lower_byte c = CHR ''-'' \<longleftrightarrow> c = CHR ''-''"
    by auto
qed

lemma canonical_bytes_idem: "canonical_bytes up (canonical_bytes up s) = canonical_bytes up s"
  by (induction s arbitrary: up) auto

lemma is_alnum_case [simp]:
  "is_alnum (upper_byte c) = is_alnum c" "is_alnum (lower_byte c) = is_alnum c"
  by (auto simp: is_alnum_def byte_upper byte_lower)

lemma not_alnum_case [simp]:
  "\<not> is_alnum c \<Longrightarrow> upper_byte c = c" "\<not> is_alnum c \<Longrightarrow> lower_byte c = c"
  by (auto simp: is_alnum_def upper_byte_def lower_byte_def)

lemma valid_field_byte_case [simp]:
  "valid_field_byte (upper_byte c) = valid_field_byte c"
  "valid_field_byte (lower_byte c) = valid_field_byte c"
  by (cases "is_alnum c"; simp add: valid_field_byte_def)+

lemma canonical_bytes_valid:
  "list_all valid_field_byte s \<Longrightarrow> list_all valid_field_byte (canonical_bytes up s)"
  by (induction s arbitrary: up) auto

lemma CanonicalHeaderKey_idem: "CanonicalHeaderKey (CanonicalHeaderKey s) = CanonicalHeaderKey s"
  by (simp add: CanonicalHeaderKey_def canonical_bytes_valid canonical_bytes_idem)

lemma canonical_bytes_lower: "canonical_bytes up (map lower_byte s) = canonical_bytes up s"
  by (induction s arbitrary: up) auto

lemma canonical_bytes_fold:
  assumes "map lower_byte s = map lower_byte t"
  shows "canonical_bytes up s = canonical_bytes up t"
  by (metis assms canonical_bytes_lower)

text \<open>Keys that differ in the case of ASCII letters only are one key.\<close>

lemma CanonicalHeaderKey_fold:
  assumes "map lower_byte s = map lower_byte t"
  shows "list_all valid_field_byte s \<Longrightarrow> CanonicalHeaderKey s = CanonicalHeaderKey t"
proof -
  assume "list_all valid_field_byte s"
  then have "list_all valid_field_byte (map lower_byte s)" by (simp add: list_all_iff)
  then have "list_all valid_field_byte t" unfolding assms by (simp add: list_all_iff)
  with \<open>list_all valid_field_byte s\<close> show ?thesis
    by (simp add: CanonicalHeaderKey_def canonical_bytes_fold [OF assms])
qed

subsection \<open>Writing\<close>

text \<open>A written value holds no line break, so a value cannot start a header line of its own.\<close>

lemma set_trim_with: "set (trim_with ps s) \<subseteq> set s"
proof (induction ps s rule: trim_with.induct)
  case (1 ps s)
  show ?case
  proof (cases "find (\<lambda>p. p \<noteq> [] \<and> HasPrefix s p) ps")
    case None
    then show ?thesis by (subst trim_with.simps) simp
  next
    case (Some p)
    with 1 have "set (trim_with ps (drop (length p) s)) \<subseteq> set s"
      by (meson order_trans set_drop_subset)
    with Some show ?thesis by (subst trim_with.simps) simp
  qed
qed

lemma set_TrimSpace: "set (TrimSpace s) \<subseteq> set s"
  using set_trim_with [of space_runes s]
    set_trim_with [of "map rev space_runes" "rev (trim_with space_runes s)"]
  by (auto simp: TrimSpace_def)

lemma header_value_no_break:
  assumes "c \<in> set (TrimSpace (headerNewlineToSpace v))"
  shows "byte c \<noteq> 10 \<and> byte c \<noteq> 13"
  using assms set_TrimSpace [of "headerNewlineToSpace v"]
  by (auto simp: headerNewlineToSpace_def)

subsection \<open>The token search\<close>

lemma upper_or_32: "65 \<le> n \<Longrightarrow> n \<le> 90 \<Longrightarrow> n OR 32 = n + (32 :: nat)"
proof -
  assume "65 \<le> n" and "n \<le> 90"
  then have "n \<in> set [65 ..< 91]" by (simp only: set_upt atLeastLessThan_iff) simp
  moreover have "list_all (\<lambda>k :: nat. k OR 32 = k + 32) [65 ..< 91]" by code_simp
  ultimately show ?thesis unfolding list_all_iff by blast
qed

text \<open>The test of the first byte only skips positions where the folded comparison fails.\<close>

lemma first_byte_test: "lower_byte c = t \<Longrightarrow> c = t \<or> byte c OR 32 = byte t"
  by (cases "65 \<le> byte c \<and> byte c \<le> 90") (auto simp: lower_byte_def upper_or_32)

definition token_in :: "string \<Rightarrow> string \<Rightarrow> bool" where
  "token_in v t \<longleftrightarrow>
     (\<exists>a w b. v = a @ w @ b \<and> map lower_byte w = t \<and>
        (a = [] \<or> isTokenBoundary (last a)) \<and> (b = [] \<or> isTokenBoundary (hd b)))"

lemma hasToken_atD:
  assumes "hasToken_at v t sp" and "sp + length t \<le> length v" and "map lower_byte t = t"
  shows "token_in v t"
proof -
  let ?a = "take sp v" and ?w = "take (length t) (drop sp v)" and ?b = "drop (sp + length t) v"
  have "v = ?a @ ?w @ ?b"
    by (metis append_take_drop_id drop_drop add.commute)
  moreover from assms have "map lower_byte ?w = t"
    by (auto simp: hasToken_at_def EqualFold_def split: if_splits)
  moreover have "sp = 0 \<or> last ?a = v ! (sp - 1) \<or> v = []"
    using assms(2) by (cases sp) (auto simp: take_Suc_conv_app_nth)
  with assms have "?a = [] \<or> isTokenBoundary (last ?a)"
    by (auto simp: hasToken_at_def split: if_splits)
  moreover have "sp + length t = length v \<or> hd ?b = v ! (sp + length t)"
    using assms(2) by (cases "sp + length t < length v") (auto simp: hd_drop_conv_nth)
  with assms have "?b = [] \<or> isTokenBoundary (hd ?b)"
    by (auto simp: hasToken_at_def split: if_splits)
  ultimately show ?thesis unfolding token_in_def by blast
qed

lemma hasToken_atI:
  assumes v: "v = a @ w @ b" and w: "map lower_byte w = t" and t: "t \<noteq> []" "map lower_byte t = t"
    and a: "a = [] \<or> isTokenBoundary (last a)" and b: "b = [] \<or> isTokenBoundary (hd b)"
  shows "hasToken_at v t (length a)"
proof -
  from w have len: "length w = length t" by auto
  from w t(1) have nth: "v ! length a = w ! 0" "lower_byte (w ! 0) = t ! 0"
    by (cases w; force simp: v nth_append)+
  have first: "v ! length a = t ! 0 \<or> byte (v ! length a) OR 32 = byte (t ! 0)"
    using first_byte_test [OF nth(2)] by (simp only: nth(1))
  have left: "0 < length a \<Longrightarrow> isTokenBoundary (v ! (length a - 1))"
    using a by (auto simp: v nth_append last_conv_nth)
  have right: "length a + length t \<noteq> length v \<Longrightarrow> isTokenBoundary (v ! (length a + length t))"
    using b by (auto simp: v nth_append hd_conv_nth simp flip: len)
  have "take (length t) (drop (length a) v) = w"
    by (simp add: v flip: len)
  then have "EqualFold (take (length t) (drop (length a) v)) t"
    using w t(2) by (simp add: EqualFold_def)
  with first left right show ?thesis unfolding hasToken_at_def by metis
qed

lemma hasToken_token_in:
  assumes t: "t \<noteq> []" "map lower_byte t = t"
  shows "hasToken v t \<longleftrightarrow> token_in v t"
proof
  assume "hasToken v t"
  then consider "v = t" | sp where "hasToken_at v t sp" "sp + length t \<le> length v"
    by (auto simp: hasToken_def list_ex_iff split: if_splits)
  then show "token_in v t"
  proof cases
    case 1
    then have "v = [] @ v @ []" "map lower_byte v = t" using t by auto
    then show ?thesis unfolding token_in_def by blast
  next
    case 2
    then show ?thesis using t(2) by (rule hasToken_atD)
  qed
next
  assume "token_in v t"
  then obtain a w b where v: "v = a @ w @ b" and w: "map lower_byte w = t"
    and ab: "a = [] \<or> isTokenBoundary (last a)" "b = [] \<or> isTokenBoundary (hd b)"
    unfolding token_in_def by blast
  from w have len: "length w = length t" by auto
  have "hasToken_at v t (length a)" using v w t ab by (rule hasToken_atI)
  then show "hasToken v t"
    using t(1) len by (auto simp: hasToken_def list_ex_iff v intro!: bexI [of _ "length a"])
qed

end
