(* ===== verification/Request.thy ===== *)
theory Request
  imports Header
begin

text \<open>
  \<open>http/request.go\<close>: the request type, its small methods, the version parser and the credentials a
  client attaches. The type of the body is a parameter, since the server and the transfer code put
  different readers there. \<open>Form\<close>, \<open>MultipartForm\<close> and \<open>TLS\<close> are left out: no modelled operation
  reads them.
\<close>

section \<open>The request\<close>

text \<open>The parts of \<open>url.URL\<close> (standard library) that the code reads or writes.\<close>

record URL =
  url_Scheme :: string
  url_Opaque :: string
  url_Host :: string
  url_Path :: string
  url_RawQuery :: string

record 'b Request =
  req_Method :: string
  req_URL :: URL
  req_Proto :: string
  req_ProtoMajor :: int
  req_ProtoMinor :: int
  req_Header :: header
  req_Body :: "'b option"
  req_ContentLength :: int
  req_TransferEncoding :: "string list"
  req_Close :: bool
  req_Host :: string
  req_Trailer :: "header option"
  req_RemoteAddr :: string
  req_RequestURI :: string

definition ProtoAtLeast :: "'b Request \<Rightarrow> int \<Rightarrow> int \<Rightarrow> bool" where
  "ProtoAtLeast r major minor \<longleftrightarrow>
     major < req_ProtoMajor r \<or> req_ProtoMajor r = major \<and> minor \<le> req_ProtoMinor r"

definition UserAgent :: "'b Request \<Rightarrow> string" where
  "UserAgent r = Get (req_Header r) ''User-Agent''"

definition Referer :: "'b Request \<Rightarrow> string" where
  "Referer r = Get (req_Header r) ''Referer''"

definition valueOrDefault :: "string \<Rightarrow> string \<Rightarrow> string" where
  "valueOrDefault value def = (if value \<noteq> [] then value else def)"

definition SetBasicAuth :: "'b Request \<Rightarrow> string \<Rightarrow> string \<Rightarrow> 'b Request" where
  "SetBasicAuth r username password =
     (let s = username @ '':'' @ password
      in r\<lparr>req_Header := Set (req_Header r) ''Authorization'' (''Basic '' @ EncodeToString s)\<rparr>)"

definition expectsContinue :: "(string \<Rightarrow> string) \<Rightarrow> 'b Request \<Rightarrow> bool" where
  "expectsContinue ul r \<longleftrightarrow> ToLower ul (Get (req_Header r) ''Expect'') = ''100-continue''"

definition wantsHttp10KeepAlive :: "(string \<Rightarrow> string) \<Rightarrow> 'b Request \<Rightarrow> bool" where
  "wantsHttp10KeepAlive ul r \<longleftrightarrow>
     (if req_ProtoMajor r \<noteq> 1 \<or> req_ProtoMinor r \<noteq> 0 then False
      else Contains (ToLower ul (Get (req_Header r) ''Connection'')) ''keep-alive'')"

section \<open>The protocol version\<close>

definition is_digit :: "char \<Rightarrow> bool" where
  "is_digit c \<longleftrightarrow> 48 \<le> byte c \<and> byte c \<le> 57"

definition Big :: int where
  "Big = 1000000"

text \<open>The loop of \<open>atoi\<close> from position \<open>i\<close> with the value \<open>n\<close> so far; the \<open>bool\<close> is \<open>ok\<close>.\<close>

function atoi_loop :: "string \<Rightarrow> nat \<Rightarrow> int \<Rightarrow> int \<times> nat \<times> bool" where
  "atoi_loop s i n =
     (if i < length s \<and> is_digit (s ! i) then
        (let n' = n * 10 + int (byte (s ! i) - 48)
         in if Big < n' then (0, 0, False) else atoi_loop s (Suc i) n')
      else (n, i, True))"
  by pat_completeness auto
termination
  by (relation "measure (\<lambda>(s, i, n). length s - i)") auto

declare atoi_loop.simps [simp del]

definition atoi :: "string \<Rightarrow> nat \<Rightarrow> int \<times> nat \<times> bool" where
  "atoi s i = (if length s \<le> i \<or> \<not> is_digit (s ! i) then (0, 0, False) else atoi_loop s i 0)"

definition ParseHTTPVersion :: "string \<Rightarrow> int \<times> int \<times> bool" where
  "ParseHTTPVersion vers =
     (if 4 < length vers \<and> take 4 vers = ''ICE/'' then (1, 0, True)
      else if length vers < 5 \<or> take 5 vers \<noteq> ''HTTP/'' then (0, 0, False)
      else (case atoi vers 5 of (major, i, ok) \<Rightarrow>
              if \<not> ok \<or> length vers \<le> i \<or> vers ! i \<noteq> CHR ''.'' then (0, 0, False)
              else (case atoi vers (Suc i) of (minor, j, ok') \<Rightarrow>
                      if \<not> ok' \<or> j \<noteq> length vers then (0, 0, False) else (major, minor, True))))"

section \<open>Properties of the version parser\<close>

lemma atoi_loop_bounds:
  assumes "atoi_loop s i n = (m, j, True)" and "0 \<le> n" and "n \<le> Big"
  shows "0 \<le> m \<and> m \<le> Big \<and> i \<le> j"
  using assms
proof (induction s i n rule: atoi_loop.induct)
  case (1 s i n)
  show ?case
  proof (cases "i < length s \<and> is_digit (s ! i)")
    case True
    let ?n = "n * 10 + int (byte (s ! i) - 48)"
    from True 1(2) have le: "\<not> Big < ?n" and rec: "atoi_loop s (Suc i) ?n = (m, j, True)"
      by (auto simp: atoi_loop.simps [of s i n] Let_def split: if_splits)
    have "0 \<le> m \<and> m \<le> Big \<and> Suc i \<le> j"
      using 1(1) [OF True refl le rec] le 1(3) by simp
    then show ?thesis by simp
  next
    case False
    with 1 show ?thesis by (auto simp: atoi_loop.simps [of s i n])
  qed
qed

lemma atoi_bounds: "atoi s i = (m, j, True) \<Longrightarrow> 0 \<le> m \<and> m \<le> Big"
  using atoi_loop_bounds [of s i 0 m j] by (auto simp: atoi_def Big_def split: if_splits)

text \<open>On a run of digits that ends the string or stops at a byte that is no digit, the loop reads it.\<close>

lemma atoi_loop_reads:
  assumes "list_all is_digit ds" and "r = [] \<or> \<not> is_digit (hd r)"
    and "foldl (\<lambda>a c. a * 10 + int (byte c - 48)) n ds \<le> Big" and "0 \<le> n"
  shows "atoi_loop (p @ ds @ r) (length p) n =
           (foldl (\<lambda>a c. a * 10 + int (byte c - 48)) n ds, length p + length ds, True)"
  using assms
proof (induction ds arbitrary: p n)
  case Nil
  then show ?case
    by (subst atoi_loop.simps) (auto simp: nth_append hd_conv_nth)
next
  case (Cons d ds)
  let ?f = "\<lambda>a c. a * 10 + int (byte c - 48)"
  have mono: "a \<le> foldl ?f a xs" if "0 \<le> a" for a xs
    using that
  proof (induction xs arbitrary: a)
    case (Cons x xs)
    have "a \<le> ?f a x" using Cons.prems by simp
    also have "\<dots> \<le> foldl ?f (?f a x) xs" using Cons.prems by (intro Cons.IH) simp
    finally show ?case by simp
  qed simp
  have "?f n d \<le> Big"
    using Cons.prems mono [of "?f n d" ds] by simp
  moreover have "atoi_loop ((p @ [d]) @ ds @ r) (length (p @ [d])) (?f n d) =
      (foldl ?f (?f n d) ds, length (p @ [d]) + length ds, True)"
    using Cons.prems by (intro Cons.IH) auto
  ultimately show ?case
    using Cons.prems by (subst atoi_loop.simps) (simp add: nth_append Let_def)
qed

lemma digits_foldl_int:
  assumes "list_all is_digit ds"
  shows "foldl (\<lambda>a c. a * 10 + int (byte c - 48)) (int n) ds =
         int (foldl (\<lambda>a c. a * 10 + the (digit_val c)) n ds)"
  using assms
proof (induction ds arbitrary: n)
  case (Cons d ds)
  then have "digit_val d = Some (byte d - 48)" by (simp add: digit_val_def is_digit_def)
  moreover have "int n * 10 + int (byte d - 48) = int (n * 10 + (byte d - 48))" by simp
  ultimately show ?case using Cons by (simp only: foldl_Cons list.pred_inject option.sel)
qed simp

lemma atoi_FormatUint:
  assumes "n \<le> 1000000" and "r = [] \<or> \<not> is_digit (hd r)"
  shows "atoi (p @ FormatUint 10 n @ r) (length p) = (int n, length p + length (FormatUint 10 n), True)"
proof -
  let ?ds = "FormatUint 10 n"
  have ok: "list_all is_digit ?ds"
    using FormatUint_digits [of 10 n] by (simp add: list_all_iff digit_ok_10 is_digit_def)
  have val: "foldl (\<lambda>a c. a * 10 + int (byte c - 48)) 0 ?ds = int n"
    using digits_foldl_int [OF ok, of 0] FormatUint_val [of 10 n] by (simp add: digits_val_def)
  from ok have "is_digit (hd ?ds)" by (cases ?ds) auto
  then have "is_digit ((p @ ?ds @ r) ! length p)" by (simp add: nth_append hd_conv_nth)
  moreover have "length p < length (p @ ?ds @ r)" by simp
  ultimately show ?thesis
    using atoi_loop_reads [OF ok assms(2), of 0 p] val assms(1) by (simp add: atoi_def Big_def)
qed

end
