(* ===== verification/Client.thy ===== *)
theory Client
  imports Request
begin

text \<open>
  \<open>server/client.go\<close>, with \<open>ParseDigest\<close> of \<open>server/auth.go\<close>, which the construction of a client
  identifier calls: permissions, client identifiers and their hash, clients, and the container of the
  clients of one mount. Pointers to identifiers and clients are numbers into the heaps of the manager's
  state; the code compares identifiers by address, so the address is what the container keys on.
\<close>

section \<open>Login status and permissions\<close>

definition LOGIN_ERR_REJECTED :: int where
  "LOGIN_ERR_REJECTED = 1"

definition LOGIN_ERR_EMPTY :: int where
  "LOGIN_ERR_EMPTY = 2"

definition LoginStatus_Error :: "int \<Rightarrow> string" where
  "LoginStatus_Error self =
     (if self = LOGIN_ERR_REJECTED then ''Invalid credentials''
      else if self = LOGIN_ERR_EMPTY then ''Empty credentials'' else [])"

datatype Permission = PERM_NONE | PERM_META | PERM_SOURCE | PERM_ADMIN

text \<open>The \<open>iota\<close> value of a permission; Go compares permissions by it.\<close>

fun perm_iota :: "Permission \<Rightarrow> nat" where
  "perm_iota PERM_NONE = 0"
| "perm_iota PERM_META = 1"
| "perm_iota PERM_SOURCE = 2"
| "perm_iota PERM_ADMIN = 3"

lemma perm_iota_inj: "perm_iota p = perm_iota q \<Longrightarrow> p = q"
  by (cases p; cases q) auto

instantiation Permission :: linorder
begin

definition less_eq_Permission :: "Permission \<Rightarrow> Permission \<Rightarrow> bool" where
  "less_eq_Permission p q \<longleftrightarrow> perm_iota p \<le> perm_iota q"

definition less_Permission :: "Permission \<Rightarrow> Permission \<Rightarrow> bool" where
  "less_Permission p q \<longleftrightarrow> perm_iota p < perm_iota q"

instance
  by standard (auto simp: less_eq_Permission_def less_Permission_def intro: perm_iota_inj)

end

definition NewPermission :: "int \<Rightarrow> Permission" where
  "NewPermission perm =
     (if perm = 5 \<or> perm = 4 then PERM_ADMIN
      else if perm = 3 \<or> perm = 2 then PERM_SOURCE
      else PERM_NONE)"

section \<open>Client identifiers\<close>

record ClientID =
  cid_Name :: string
  cid_Pass :: string
  cid_Perm :: Permission
  cid_Agent :: string
  cid_Addr :: string
  cid_Mount :: string
  cid_AudioFormat :: string

text \<open>\<open>ParseDigest\<close> of \<open>server/auth.go\<close>: the basic credentials of a request, empty if there are none.\<close>

definition ParseDigest :: "'b Request \<Rightarrow> string \<times> string" where
  "ParseDigest r =
     (let authorization = SplitN 2 (CHR '' '') (Get (req_Header r) ''Authorization'')
      in if length authorization \<noteq> 2 \<or> authorization ! 0 \<noteq> ''Basic'' then ([], [])
         else (case DecodeString (authorization ! 1) of
                 None \<Rightarrow> ([], [])
               | Some decoded \<Rightarrow>
                   (let pair = SplitN 2 (CHR '':'') decoded
                    in if length pair \<noteq> 2 then ([], []) else (pair ! 0, pair ! 1))))"

definition NewClientIDFromRequest :: "'b Request \<Rightarrow> ClientID" where
  "NewClientIDFromRequest r =
     (let cont = Get (req_Header r) ''Content-Type'';
          path = url_Path (req_URL r);
          creds = ParseDigest r
      in \<lparr>cid_Name = fst creds, cid_Pass = snd creds, cid_Perm = PERM_NONE,
          cid_Agent = Get (req_Header r) ''User-Agent'',
          cid_Addr = req_RemoteAddr r,
          cid_Mount =
            (if path = ''/admin/metadata'' \<or> path = ''/admin/listclients''
             then query_Get (ParseQuery (url_RawQuery (req_URL r))) ''mount''
             else path),
          cid_AudioFormat =
            (if cont = ''audio/mpeg'' then ''MP3''
             else if cont = ''audio/ogg'' \<or> cont = ''application/ogg'' then ''OGG''
             else [])\<rparr>)"

type_synonym ClientHash = "64 word"

definition Hash :: "ClientID \<Rightarrow> ClientHash" where
  "Hash self =
     (let h0 = fnv64a_write fnv_offset64 (cid_Name self);
          h1 = fnv64a_write h0 (cid_Pass self);
          h2 = fnv64a_write h1 (cid_Mount self);
          s = Split (CHR '':'') (cid_Addr self)
      in fnv64a_write h2 (s ! 0))"

section \<open>Clients\<close>

type_synonym cid_ptr = nat
type_synonym client_ptr = nat
type_synonym conn_ptr = nat

text \<open>The buffered reader and writer of a client wrap its connection and are not modelled apart.\<close>

record Client =
  cl_ClientID :: cid_ptr
  cl_Metadata :: string
  cl_Conn :: conn_ptr

definition NewClient :: "conn_ptr \<Rightarrow> cid_ptr \<Rightarrow> Client" where
  "NewClient conn clientID = \<lparr>cl_ClientID = clientID, cl_Metadata = [], cl_Conn = conn\<rparr>"

section \<open>The container of the clients of a mount\<close>

text \<open>The field \<open>byHash\<close> is never made nor read by the code.\<close>

record ClientContainer =
  cc_byID :: "(cid_ptr, client_ptr) gomap"
  cc_Length :: "32 word"

definition NewClientContainer :: ClientContainer where
  "NewClientContainer = \<lparr>cc_byID = [], cc_Length = 0\<rparr>"

text \<open>
  \<open>GetByHash\<close> ranges over \<open>byID\<close>; \<open>ord\<close> is the order of that loop, \<open>cids\<close> the heap of identifiers.
\<close>

definition GetByHash ::
  "((cid_ptr, client_ptr) gomap \<Rightarrow> (cid_ptr, client_ptr) gomap) \<Rightarrow> (cid_ptr \<Rightarrow> ClientID) \<Rightarrow>
   ClientContainer \<Rightarrow> ClientHash \<Rightarrow> client_ptr option" where
  "GetByHash ord cids self hash =
     map_option snd (find (\<lambda>e. Hash (cids (fst e)) = hash) (ord (cc_byID self)))"

definition GetByID :: "ClientContainer \<Rightarrow> cid_ptr \<Rightarrow> client_ptr option" where
  "GetByID self key = gomap_get (cc_byID self) key"

text \<open>\<open>key\<close> is the identifier pointer of the client, \<open>client.ClientID\<close>.\<close>

definition cc_Add :: "ClientContainer \<Rightarrow> cid_ptr \<Rightarrow> client_ptr \<Rightarrow> ClientContainer" where
  "cc_Add self key client =
     self\<lparr>cc_byID := gomap_set key client (cc_byID self), cc_Length := cc_Length self + 1\<rparr>"

definition cc_Remove :: "ClientContainer \<Rightarrow> cid_ptr \<Rightarrow> ClientContainer" where
  "cc_Remove self key =
     self\<lparr>cc_byID := gomap_del key (cc_byID self), cc_Length := cc_Length self - 1\<rparr>"

text \<open>\<open>Destroy\<close> closes the connection of every client and leaves the map alone.\<close>

definition cc_Destroy :: "(client_ptr \<Rightarrow> Client) \<Rightarrow> ClientContainer \<Rightarrow> conn_ptr set \<Rightarrow> conn_ptr set" where
  "cc_Destroy clients self closed = closed \<union> (\<lambda>e. cl_Conn (clients (snd e))) ` set (cc_byID self)"

section \<open>The container's contract\<close>

text \<open>
  What the manager relies on: a finite map from identifiers to clients with a running count. The
  count is the container's own 32-bit field, so the laws that change it are stated below its limit.
\<close>

locale client_store =
  fixes get :: "'c \<Rightarrow> 'k \<Rightarrow> 'v option"
    and add :: "'c \<Rightarrow> 'k \<Rightarrow> 'v \<Rightarrow> 'c"
    and rem :: "'c \<Rightarrow> 'k \<Rightarrow> 'c"
    and new :: 'c
    and len :: "'c \<Rightarrow> nat"
    and inv :: "'c \<Rightarrow> bool"
  assumes get_new: "get new k = None"
    and len_new: "len new = 0"
    and inv_new: "inv new"
    and get_add: "inv c \<Longrightarrow> get (add c k v) k' = (if k' = k then Some v else get c k')"
    and get_rem: "inv c \<Longrightarrow> get (rem c k) k' = (if k' = k then None else get c k')"
    and add_ok: "inv c \<Longrightarrow> get c k = None \<Longrightarrow> len c < 2147483647 \<Longrightarrow> inv (add c k v) \<and> len (add c k v) = Suc (len c)"
    and rem_ok: "inv c \<Longrightarrow> get c k = Some v \<Longrightarrow> inv (rem c k) \<and> Suc (len (rem c k)) = len c"
    and len_0: "inv c \<Longrightarrow> len c = 0 \<longleftrightarrow> (\<forall>k. get c k = None)"
begin

lemma rem_add:
  assumes "inv c" and "get c k = None" and "len c < 2147483647"
  shows "get (rem (add c k v) k) = get c" and "len (rem (add c k v) k) = len c"
    and "inv (rem (add c k v) k)"
proof -
  from add_ok [OF assms] have a: "inv (add c k v)" "len (add c k v) = Suc (len c)" by auto
  have g: "get (add c k v) k = Some v" using assms(1) by (simp add: get_add)
  from rem_ok [OF a(1) g] a(2) show "len (rem (add c k v) k) = len c"
    and "inv (rem (add c k v) k)" by auto
  show "get (rem (add c k v) k) = get c"
    using assms a(1) by (auto simp: fun_eq_iff get_add get_rem)
qed

lemma member_len: "inv c \<Longrightarrow> get c k = Some v \<Longrightarrow> 0 < len c"
  using len_0 [of c] by auto

lemma last_member:
  assumes "inv c" and "get c k = Some v" and "len (rem c k) = 0"
  shows "get c k' = None \<or> k' = k"
proof -
  from rem_ok [OF assms(1,2)] have "inv (rem c k)" by simp
  with assms(3) have "get (rem c k) k' = None" by (simp add: len_0)
  with assms(1) show ?thesis by (simp add: get_rem split: if_splits)
qed

end

definition cc_wf :: "ClientContainer \<Rightarrow> bool" where
  "cc_wf c \<longleftrightarrow> gomap_wf (cc_byID c) \<and> length (cc_byID c) < 2147483648 \<and>
     cc_Length c = of_nat (length (cc_byID c))"

lemma cc_Length_zero: "cc_wf c \<Longrightarrow> cc_Length c = 0 \<longleftrightarrow> cc_byID c = []"
proof -
  assume "cc_wf c"
  then have "length (cc_byID c) < 2 ^ LENGTH(32)" and l: "cc_Length c = of_nat (length (cc_byID c))"
    by (auto simp: cc_wf_def)
  then have "unat (cc_Length c) = length (cc_byID c)" by (simp add: unsigned_of_nat take_bit_nat_eq_self)
  then show ?thesis by (metis length_0_conv unat_eq_zero)
qed

text \<open>The count, read as the signed number Go compares, is the number of clients.\<close>

lemma cc_Length_sint: "cc_wf c \<Longrightarrow> sint (cc_Length c) = int (length (cc_byID c))"
proof -
  assume "cc_wf c"
  then have "length (cc_byID c) < 2147483648" and "cc_Length c = of_nat (length (cc_byID c))"
    by (auto simp: cc_wf_def)
  then show ?thesis by (simp add: signed_of_nat signed_take_bit_int_eq_self)
qed

interpretation cc: client_store GetByID cc_Add cc_Remove NewClientContainer
  "\<lambda>c. length (cc_byID c)" cc_wf
proof unfold_locales
  fix c :: ClientContainer and k v
  assume wf: "cc_wf c" and get: "GetByID c k = None" and le: "length (cc_byID c) < 2147483647"
  have "gomap_set k v (cc_byID c) = cc_byID c @ [(k, v)]"
    using get by (simp add: GetByID_def gomap_set_fresh)
  with wf le show "cc_wf (cc_Add c k v) \<and> length (cc_byID (cc_Add c k v)) = Suc (length (cc_byID c))"
    using gomap_wf_set [of "cc_byID c" k v] by (auto simp: cc_wf_def cc_Add_def)
next
  fix c :: ClientContainer and k v
  assume wf: "cc_wf c" and get: "GetByID c k = Some v"
  then have "Suc (length (gomap_del k (cc_byID c))) = length (cc_byID c)"
    by (intro length_gomap_del) (auto simp: cc_wf_def GetByID_def)
  moreover from this have "cc_Length c - 1 = of_nat (length (gomap_del k (cc_byID c)))"
    using wf by (simp add: cc_wf_def flip: \<open>Suc (length (gomap_del k (cc_byID c))) = length (cc_byID c)\<close>)
  ultimately show "cc_wf (cc_Remove c k) \<and> Suc (length (cc_byID (cc_Remove c k))) = length (cc_byID c)"
    using wf by (auto simp: cc_wf_def cc_Remove_def)
next
  fix c :: ClientContainer
  show "length (cc_byID c) = 0 \<longleftrightarrow> (\<forall>k. GetByID c k = None)"
    by (cases "cc_byID c") (auto simp: GetByID_def)
qed (auto simp: GetByID_def cc_Add_def cc_Remove_def NewClientContainer_def cc_wf_def gomap_simps)

lemmas container_simps = cc.get_new cc.get_add cc.get_rem

end
