(* ===== verification/Handlers.thy ===== *)
theory Handlers
  imports Client
begin

text \<open>
  \<open>server/handlers.go\<close>: the registry of connected clients per mount that the admin page shows, and
  its mutex. A handler that finds the mutex held blocks for ever, since the goroutine that holds it
  never releases it again in this state of the model: a call that locks and unlocks is one step.
\<close>

section \<open>State\<close>

record hstate =
  HandlerMounts :: "(string, client_ptr list) gomap"
  HandlerLock :: bool

definition handlers_init :: hstate where
  "handlers_init = \<lparr>HandlerMounts = [], HandlerLock = False\<rparr>"

text \<open>The clients registered for a mount, none where the map has no entry.\<close>

definition registered :: "hstate \<Rightarrow> string \<Rightarrow> client_ptr list" where
  "registered h n = (case gomap_get (HandlerMounts h) n of None \<Rightarrow> [] | Some cs \<Rightarrow> cs)"

section \<open>The handlers\<close>

text \<open>\<open>n\<close> is the mount name of the client, \<open>client.ClientID.Mount\<close>; \<open>c\<close> the client pointer.\<close>

definition HandleClientConnect :: "string \<Rightarrow> client_ptr \<Rightarrow> hstate \<Rightarrow> (hstate, unit) outcome" where
  "HandleClientConnect n c h =
     (if HandlerLock h then Block h
      else (let Clients = (case gomap_get (HandlerMounts h) n of Some cs \<Rightarrow> cs | None \<Rightarrow> [])
            in Done (h\<lparr>HandlerMounts := gomap_set n (Clients @ [c]) (HandlerMounts h)\<rparr>) ()))"

text \<open>The early return for an unknown mount leaves the mutex locked.\<close>

definition HandleClientDisconnect :: "string \<Rightarrow> client_ptr \<Rightarrow> hstate \<Rightarrow> (hstate, unit) outcome" where
  "HandleClientDisconnect n c h =
     (if HandlerLock h then Block h
      else (case gomap_get (HandlerMounts h) n of
              None \<Rightarrow> Done (h\<lparr>HandlerLock := True\<rparr>) ()
            | Some Clients \<Rightarrow>
                (let Clients' = remove1 c Clients;
                     m = (if c \<in> set Clients then gomap_set n Clients' (HandlerMounts h)
                          else HandlerMounts h)
                 in Done (h\<lparr>HandlerMounts := (if Clients' = [] then gomap_del n m else m)\<rparr>) ())))"

text \<open>\<open>HandleClientLive\<close> takes no lock.\<close>

definition HandleClientLive :: "string \<Rightarrow> client_ptr \<Rightarrow> hstate \<Rightarrow> hstate" where
  "HandleClientLive n c h =
     (case gomap_get (HandlerMounts h) n of
        None \<Rightarrow> h
      | Some Clients \<Rightarrow>
          if c \<in> set Clients
          then h\<lparr>HandlerMounts := gomap_set n (c # remove1 c Clients) (HandlerMounts h)\<rparr>
          else h)"

definition HandleClientUnlive :: "client_ptr \<Rightarrow> hstate \<Rightarrow> hstate" where
  "HandleClientUnlive c h = h"

definition HandleMetadata :: "client_ptr \<Rightarrow> string \<Rightarrow> hstate \<Rightarrow> hstate" where
  "HandleMetadata c metadata h = h"

section \<open>Invariant\<close>

text \<open>No mount is registered with an empty list, and no client twice.\<close>

definition hs_wf :: "hstate \<Rightarrow> bool" where
  "hs_wf h \<longleftrightarrow> gomap_wf (HandlerMounts h) \<and>
     (\<forall>n. gomap_get (HandlerMounts h) n \<noteq> Some []) \<and>
     (\<forall>n cs. gomap_get (HandlerMounts h) n = Some cs \<longrightarrow> distinct cs)"

lemma hs_wf_init: "hs_wf handlers_init"
  by (simp add: hs_wf_def handlers_init_def)

lemma registered_connect:
  assumes "HandleClientConnect n c h = Done h' u"
  shows "registered h' n' = (if n' = n then registered h n @ [c] else registered h n')"
  using assms by (auto simp: HandleClientConnect_def registered_def gomap_simps split: if_splits)

lemma connect_wf:
  assumes "HandleClientConnect n c h = Done h' u" and "hs_wf h" and "c \<notin> set (registered h n)"
  shows "hs_wf h'"
  using assms by (auto simp: HandleClientConnect_def hs_wf_def registered_def gomap_simps
      split: if_splits option.splits)

lemma registered_disconnect:
  assumes "HandleClientDisconnect n c h = Done h' u" and "hs_wf h"
  shows "registered h' n' = (if n' = n then remove1 c (registered h n) else registered h n')"
  using assms by (auto simp: HandleClientDisconnect_def registered_def gomap_simps remove1_idem Let_def
      hs_wf_def split: if_splits option.splits)

lemma disconnect_wf:
  assumes "HandleClientDisconnect n c h = Done h' u" and "hs_wf h"
  shows "hs_wf h'"
  using assms by (auto simp: HandleClientDisconnect_def hs_wf_def gomap_simps remove1_idem Let_def
      split: if_splits option.splits)

lemma registered_live:
  "registered (HandleClientLive n c h) n' =
     (if n' = n \<and> c \<in> set (registered h n) then c # remove1 c (registered h n) else registered h n')"
  by (auto simp: HandleClientLive_def registered_def gomap_simps split: option.splits)

lemma live_wf: "hs_wf h \<Longrightarrow> hs_wf (HandleClientLive n c h)"
  by (auto simp: HandleClientLive_def hs_wf_def gomap_simps split: option.splits if_splits)

lemma HandleClientLive_lock [simp]: "HandlerLock (HandleClientLive n c h) = HandlerLock h"
  by (simp add: HandleClientLive_def split: option.splits)

section \<open>The registry's contract\<close>

text \<open>
  What the manager relies on when it reports a client: connecting adds it at the end of its mount's
  list, disconnecting removes it, going live moves it to the front, and no other mount changes.
\<close>

locale client_registry =
  fixes reg :: "'s \<Rightarrow> 'n \<Rightarrow> 'c list"
    and conn :: "'n \<Rightarrow> 'c \<Rightarrow> 's \<Rightarrow> ('s, unit) outcome"
    and disc :: "'n \<Rightarrow> 'c \<Rightarrow> 's \<Rightarrow> ('s, unit) outcome"
    and live :: "'n \<Rightarrow> 'c \<Rightarrow> 's \<Rightarrow> 's"
    and inv :: "'s \<Rightarrow> bool"
  assumes reg_conn: "conn n c s = Done s' u \<Longrightarrow> reg s' n' = (if n' = n then reg s n @ [c] else reg s n')"
    and reg_disc: "disc n c s = Done s' u \<Longrightarrow> inv s \<Longrightarrow> reg s' n' = (if n' = n then remove1 c (reg s n) else reg s n')"
    and reg_live: "reg (live n c s) n' = (if n' = n \<and> c \<in> set (reg s n) then c # remove1 c (reg s n) else reg s n')"
    and inv_conn: "conn n c s = Done s' u \<Longrightarrow> inv s \<Longrightarrow> c \<notin> set (reg s n) \<Longrightarrow> inv s'"
    and inv_disc: "disc n c s = Done s' u \<Longrightarrow> inv s \<Longrightarrow> inv s'"
    and inv_live: "inv s \<Longrightarrow> inv (live n c s)"
    and inv_distinct: "inv s \<Longrightarrow> distinct (reg s n)"
begin

text \<open>A client that connects and disconnects again leaves every list as it was.\<close>

lemma conn_disc:
  assumes "conn n c s = Done s1 u" and "disc n c s1 = Done s2 v" and "inv s" and "c \<notin> set (reg s n)"
  shows "reg s2 = reg s"
proof
  fix n'
  from inv_conn [OF assms(1,3,4)] have "inv s1" .
  from reg_disc [OF assms(2) this] reg_conn [OF assms(1)] assms(4) show "reg s2 n' = reg s n'"
    by (simp add: remove1_append)
qed

lemma live_set: "set (reg (live n c s) n') = set (reg s n')"
proof (cases "n' = n \<and> c \<in> set (reg s n)")
  case True
  then have "mset (reg s n) = mset (c # remove1 c (reg s n))" by simp
  then have "set (reg s n) = set (c # remove1 c (reg s n))" by (rule mset_eq_setD)
  with True show ?thesis by (simp only: reg_live if_True simp_thms)
next
  case False
  then show ?thesis by (simp only: reg_live if_False)
qed

lemma disc_set:
  assumes "disc n c s = Done s' u" and "inv s"
  shows "set (reg s' n') = (if n' = n then set (reg s n) - {c} else set (reg s n'))"
  using reg_disc [OF assms] inv_distinct [OF assms(2), of n] by simp

end

interpretation hreg: client_registry registered HandleClientConnect HandleClientDisconnect
  HandleClientLive hs_wf
proof unfold_locales
  fix s :: hstate and n
  assume "hs_wf s"
  then show "distinct (registered s n)"
    by (auto simp: hs_wf_def registered_def split: option.splits)
qed (fact registered_connect registered_disconnect registered_live connect_wf disconnect_wf live_wf)+

end
