(* ===== verification/Mount.thy ===== *)
theory Mount
  imports Config Shout Handlers
begin

text \<open>
  \<open>server/packets.go\<close>, \<open>server/mount.go\<close> and \<open>server/manager.go\<close>: the packets the goroutines
  exchange, mounts, the manager with its channels, and the state of the whole server that the
  manager's loop works on.
\<close>

section \<open>Packets\<close>

record MetaPack =
  mp_Data :: string
  mp_ID :: cid_ptr
  mp_Seen :: bool

record DataPack =
  dp_Data :: string
  dp_Client :: client_ptr

text \<open>The error of a packet is nil when a reader recovered from a panic.\<close>

record ErrPack =
  ep_Err :: "string option"
  ep_Client :: client_ptr

section \<open>Mounts and the manager\<close>

type_synonym mount_ptr = nat

record Mount =
  mnt_ClientQueue :: "cid_ptr list"
  mnt_Clients :: ClientContainer
  mnt_Active :: "cid_ptr option"
  mnt_Mount :: string
  mnt_Shout :: Shout

record Manager =
  man_Mounts :: "(string, mount_ptr) gomap"
  man_Receiver :: "client_ptr list"
  man_MountCollector :: "mount_ptr list"
  man_MetaChan :: "MetaPack list"
  man_metaStore :: "(ClientHash, string) gomap"

text \<open>The capacities given to \<open>make\<close> for the manager's channels.\<close>

definition RECEIVER_CAP :: nat where "RECEIVER_CAP = 5"
definition COLLECTOR_CAP :: nat where "COLLECTOR_CAP = 5"
definition META_CAP :: nat where "META_CAP = 10"

definition NewManager :: Manager where
  "NewManager = \<lparr>man_Mounts = [], man_Receiver = [], man_MountCollector = [], man_MetaChan = [],
     man_metaStore = []\<rparr>"

section \<open>The state of the server\<close>

text \<open>
  The heaps map pointers to objects; a pointer that is not nil always has an object behind it, and
  the counters give the next unused pointer. \<open>w_closed\<close> holds the closed connections. \<open>w_data\<close> and
  \<open>w_err\<close> are the two channels of the running \<open>ProcessClients\<close>; \<open>w_readers\<close> the clients with a running
  \<open>ReadInto\<close>; \<open>w_delayed\<close> the metadata packets whose goroutine is asleep, each with the number of the
  manager it will send to; \<open>w_gen\<close> the number of the current manager.
\<close>

record 'l world =
  w_cids :: "cid_ptr \<Rightarrow> ClientID"
  w_clients :: "client_ptr \<Rightarrow> Client"
  w_mounts :: "mount_ptr \<Rightarrow> Mount"
  w_next_cid :: cid_ptr
  w_next_client :: client_ptr
  w_next_mount :: mount_ptr
  w_closed :: "conn_ptr set"
  w_hs :: hstate
  w_lib :: 'l
  w_man :: Manager
  w_data :: "DataPack list"
  w_err :: "ErrPack list"
  w_readers :: "client_ptr list"
  w_delayed :: "(nat \<times> MetaPack) list"
  w_gen :: nat

text \<open>
  What surrounds the server: libshout, the configuration file with the YAML lookup, and the orders in
  which three \<open>range\<close> statements visit their maps.
\<close>

record 'l env =
  e_lib :: "'l libshout"
  e_Child :: child_fn
  e_Root :: node
  e_opt_order :: "(string \<times> string) list \<Rightarrow> (string \<times> string) list"
  e_id_order :: "(cid_ptr, client_ptr) gomap \<Rightarrow> (cid_ptr, client_ptr) gomap"
  e_mount_order :: "(string, mount_ptr) gomap \<Rightarrow> (string, mount_ptr) gomap"

text \<open>An order is lawful when it visits every entry once.\<close>

definition env_ok :: "'l env \<Rightarrow> bool" where
  "env_ok E \<longleftrightarrow> (\<forall>m. mset (e_opt_order E m) = mset m) \<and> (\<forall>m. mset (e_id_order E m) = mset m) \<and>
     (\<forall>m. mset (e_mount_order E m) = mset m)"

abbreviation client_id :: "'l world \<Rightarrow> client_ptr \<Rightarrow> cid_ptr" where
  "client_id w c \<equiv> cl_ClientID (w_clients w c)"

abbreviation client_mount :: "'l world \<Rightarrow> client_ptr \<Rightarrow> string" where
  "client_mount w c \<equiv> cid_Mount (w_cids w (client_id w c))"

definition upd_mount :: "mount_ptr \<Rightarrow> (Mount \<Rightarrow> Mount) \<Rightarrow> 'l world \<Rightarrow> 'l world" where
  "upd_mount m f w = w\<lparr>w_mounts := (w_mounts w)(m := f (w_mounts w m))\<rparr>"

definition upd_man :: "(Manager \<Rightarrow> Manager) \<Rightarrow> 'l world \<Rightarrow> 'l world" where
  "upd_man f w = w\<lparr>w_man := f (w_man w)\<rparr>"

section \<open>Making and destroying\<close>

definition NewMount :: "'l env \<Rightarrow> string \<Rightarrow> 'l world \<Rightarrow> ('l world, mount_ptr) outcome" where
  "NewMount E mount w =
     (case CreateShoutMap (e_Child E) (e_Root E) of
        Inl msg \<Rightarrow> Panic w msg
      | Inr options \<Rightarrow>
          (case NewShout (e_lib E) (e_opt_order E options) (w_lib w) of (sh, l) \<Rightarrow>
             (let m = w_next_mount w;
                  new = \<lparr>mnt_ClientQueue = [], mnt_Clients = NewClientContainer, mnt_Active = None,
                         mnt_Mount = mount, mnt_Shout = sh\<rparr>
              in Done (w\<lparr>w_mounts := (w_mounts w)(m := new), w_next_mount := Suc m, w_lib := l\<rparr>) m)))"

definition DestroyMount :: "'l env \<Rightarrow> mount_ptr \<Rightarrow> 'l world \<Rightarrow> 'l world" where
  "DestroyMount E m w =
     w\<lparr>w_lib := DestroyShout (e_lib E) (mnt_Shout (w_mounts w m)) (w_lib w),
       w_closed := cc_Destroy (w_clients w) (mnt_Clients (w_mounts w m)) (w_closed w)\<rparr>"

text \<open>
  \<open>DestroyManager\<close> on the old manager's map of mounts. Closing its channels has no effect on the
  state; a goroutine that still sends to one of them panics, see \<open>delayed_send\<close>.
\<close>

definition DestroyManager :: "'l env \<Rightarrow> Manager \<Rightarrow> 'l world \<Rightarrow> 'l world" where
  "DestroyManager E self w =
     fold (\<lambda>e. DestroyMount E (snd e)) (e_mount_order E (man_Mounts self)) w"

definition FullQueue_Error :: string where
  "FullQueue_Error = ''Client queue exceeded, discarding client.''"

section \<open>Frame facts\<close>

lemma upd_mount_sel [simp]:
  "w_mounts (upd_mount m f w) = (w_mounts w)(m := f (w_mounts w m))"
  "w_cids (upd_mount m f w) = w_cids w" "w_clients (upd_mount m f w) = w_clients w"
  "w_next_mount (upd_mount m f w) = w_next_mount w" "w_closed (upd_mount m f w) = w_closed w"
  "w_hs (upd_mount m f w) = w_hs w" "w_lib (upd_mount m f w) = w_lib w"
  "w_man (upd_mount m f w) = w_man w" "w_data (upd_mount m f w) = w_data w"
  "w_err (upd_mount m f w) = w_err w" "w_readers (upd_mount m f w) = w_readers w"
  "w_delayed (upd_mount m f w) = w_delayed w" "w_gen (upd_mount m f w) = w_gen w"
  "w_next_cid (upd_mount m f w) = w_next_cid w" "w_next_client (upd_mount m f w) = w_next_client w"
  by (simp_all add: upd_mount_def)

lemma upd_man_sel [simp]:
  "w_man (upd_man f w) = f (w_man w)" "w_mounts (upd_man f w) = w_mounts w"
  "w_cids (upd_man f w) = w_cids w" "w_clients (upd_man f w) = w_clients w"
  "w_next_mount (upd_man f w) = w_next_mount w" "w_closed (upd_man f w) = w_closed w"
  "w_hs (upd_man f w) = w_hs w" "w_lib (upd_man f w) = w_lib w"
  "w_data (upd_man f w) = w_data w" "w_err (upd_man f w) = w_err w"
  "w_readers (upd_man f w) = w_readers w" "w_delayed (upd_man f w) = w_delayed w"
  "w_gen (upd_man f w) = w_gen w" "w_next_cid (upd_man f w) = w_next_cid w"
  "w_next_client (upd_man f w) = w_next_client w"
  by (simp_all add: upd_man_def)

text \<open>Destroying a mount touches the C library and the connections only.\<close>

lemma DestroyMount_sel [simp]:
  "w_mounts (DestroyMount E m w) = w_mounts w" "w_cids (DestroyMount E m w) = w_cids w"
  "w_clients (DestroyMount E m w) = w_clients w" "w_man (DestroyMount E m w) = w_man w"
  "w_next_mount (DestroyMount E m w) = w_next_mount w" "w_hs (DestroyMount E m w) = w_hs w"
  "w_data (DestroyMount E m w) = w_data w" "w_err (DestroyMount E m w) = w_err w"
  "w_readers (DestroyMount E m w) = w_readers w" "w_delayed (DestroyMount E m w) = w_delayed w"
  "w_gen (DestroyMount E m w) = w_gen w" "w_next_cid (DestroyMount E m w) = w_next_cid w"
  "w_next_client (DestroyMount E m w) = w_next_client w"
  by (simp_all add: DestroyMount_def)

end
