(* ===== verification/Icecast.thy ===== *)
theory Icecast
  imports Mount
begin

text \<open>
  \<open>server/icecast.go\<close>: the manager's loop and everything it calls. Each case of the \<open>select\<close> of
  \<open>ProcessClients\<close> is one event; an event runs to its end before the next one, as the loop's single
  goroutine does. A send of the loop on one of its own full channels never completes (\<open>Block\<close>), a
  panic ends the loop (\<open>Panic\<close>) and leads to \<open>restart\<close>. Log output is not modelled.
\<close>

section \<open>Sending audio\<close>

definition shout_of :: "'l world \<Rightarrow> mount_ptr \<Rightarrow> Shout" where
  "shout_of w m = mnt_Shout (w_mounts w m)"

definition send_data :: "'l env \<Rightarrow> mount_ptr \<Rightarrow> string \<Rightarrow> 'l world \<Rightarrow> ('l world, unit) outcome" where
  "send_data E m data w =
     (case Send (e_lib E) (shout_of w m) data (w_lib w) of
        Panic l msg \<Rightarrow> Panic (w\<lparr>w_lib := l\<rparr>) msg
      | Block l \<Rightarrow> Block (w\<lparr>w_lib := l\<rparr>)
      | Done l None \<Rightarrow> Done (w\<lparr>w_lib := l\<rparr>) ()
      | Done l (Some e) \<Rightarrow>
          if Errno e = SHOUTERR_INSANE (e_lib E) then Panic (w\<lparr>w_lib := l\<rparr>) ''We are insane.''
          else if Errno e = SHOUTERR_MALLOC (e_lib E) then Panic (w\<lparr>w_lib := l\<rparr>) ''Out of memory''
          else Done (w\<lparr>w_lib := snd (Close (e_lib E) (shout_of w m) l)\<rparr>) ())"

definition HandleData :: "'l env \<Rightarrow> mount_ptr \<Rightarrow> string \<Rightarrow> 'l world \<Rightarrow> ('l world, unit) outcome" where
  "HandleData E m data w =
     (case Connected (e_lib E) (shout_of w m) (w_lib w) of
        (True, l) \<Rightarrow> send_data E m data (w\<lparr>w_lib := l\<rparr>)
      | (False, l) \<Rightarrow>
          (case Open (e_lib E) (shout_of w m) (snd (Close (e_lib E) (shout_of w m) l)) of
             (Some err, l') \<Rightarrow> Done (w\<lparr>w_lib := l'\<rparr>) ()
           | (None, l') \<Rightarrow> send_data E m data (w\<lparr>w_lib := l'\<rparr>)))"

section \<open>Sends of the loop on its own channels\<close>

definition send_meta :: "MetaPack \<Rightarrow> 'l world \<Rightarrow> ('l world, unit) outcome" where
  "send_meta p w =
     (if chan_full META_CAP (man_MetaChan (w_man w)) then Block w
      else Done (upd_man (\<lambda>a. a\<lparr>man_MetaChan := man_MetaChan a @ [p]\<rparr>) w) ())"

definition send_collector :: "mount_ptr \<Rightarrow> 'l world \<Rightarrow> ('l world, unit) outcome" where
  "send_collector m w =
     (if chan_full COLLECTOR_CAP (man_MountCollector (w_man w)) then Block w
      else Done (upd_man (\<lambda>a. a\<lparr>man_MountCollector := man_MountCollector a @ [m]\<rparr>) w) ())"

text \<open>Running a handler of \<open>server/handlers.go\<close> on the handlers' part of the state.\<close>

definition on_handlers :: "(hstate \<Rightarrow> (hstate, unit) outcome) \<Rightarrow> 'l world \<Rightarrow> ('l world, unit) outcome" where
  "on_handlers f w =
     (case f (w_hs w) of
        Done h u \<Rightarrow> Done (w\<lparr>w_hs := h\<rparr>) u
      | Panic h msg \<Rightarrow> Panic (w\<lparr>w_hs := h\<rparr>) msg
      | Block h \<Rightarrow> Block (w\<lparr>w_hs := h\<rparr>))"

section \<open>Who is live\<close>

definition SwapLiveClient :: "mount_ptr \<Rightarrow> client_ptr \<Rightarrow> 'l world \<Rightarrow> ('l world, unit) outcome" where
  "SwapLiveClient m c w =
     (if mnt_Active (w_mounts w m) = Some (client_id w c) then Done w ()
      else (let old = (case mnt_Active (w_mounts w m) of
                         None \<Rightarrow> None | Some a \<Rightarrow> GetByID (mnt_Clients (w_mounts w m)) a);
                w1 = upd_mount m (\<lambda>mt. mt\<lparr>mnt_Active := Some (client_id w c)\<rparr>) w;
                w2 = (case old of None \<Rightarrow> w1 | Some o' \<Rightarrow> w1\<lparr>w_hs := HandleClientUnlive o' (w_hs w1)\<rparr>);
                w3 = w2\<lparr>w_hs := HandleClientLive (client_mount w c) c (w_hs w2)\<rparr>
            in send_meta \<lparr>mp_Data = cl_Metadata (w_clients w c), mp_ID = client_id w c, mp_Seen = False\<rparr> w3))"

function NextLiveClient :: "mount_ptr \<Rightarrow> 'l world \<Rightarrow> ('l world, unit) outcome" where
  "NextLiveClient m w =
     (case mnt_ClientQueue (w_mounts w m) of
        [] \<Rightarrow> Done w ()
      | new_id # q \<Rightarrow>
          (let w' = upd_mount m (\<lambda>mt. mt\<lparr>mnt_ClientQueue := q\<rparr>) w
           in case GetByID (mnt_Clients (w_mounts w m)) new_id of
                None \<Rightarrow> NextLiveClient m w'
              | Some new_client \<Rightarrow>
                  if client_id w new_client \<noteq> new_id then NextLiveClient m w'
                  else SwapLiveClient m new_client w'))"
  by pat_completeness auto
termination
  by (relation "measure (\<lambda>(m, w). length (mnt_ClientQueue (w_mounts w m)))") auto

declare NextLiveClient.simps [simp del]

section \<open>Adding and removing clients\<close>

text \<open>The rest of \<open>RemoveClient\<close> once a next client is live.\<close>

definition drop_client :: "mount_ptr \<Rightarrow> client_ptr \<Rightarrow> 'l world \<Rightarrow> ('l world, unit) outcome" where
  "drop_client m c w =
     (let w1 = upd_mount m (\<lambda>mt. mt\<lparr>mnt_Clients := cc_Remove (mnt_Clients mt) (client_id w c)\<rparr>) w;
          w2 = w1\<lparr>w_closed := insert (cl_Conn (w_clients w c)) (w_closed w1)\<rparr>
      in obind (on_handlers (HandleClientDisconnect (client_mount w c) c) w2)
           (\<lambda>w3 _. if cc_Length (mnt_Clients (w_mounts w3 m)) = 0 then send_collector m w3 else Done w3 ()))"

definition RemoveClient :: "client_ptr \<Rightarrow> 'l world \<Rightarrow> ('l world, unit) outcome" where
  "RemoveClient c w =
     (case gomap_get (man_Mounts (w_man w)) (client_mount w c) of
        None \<Rightarrow> Panic w ''Unexisting mountpoint''
      | Some m \<Rightarrow>
          obind (if mnt_Active (w_mounts w m) = Some (client_id w c) then NextLiveClient m w else Done w ())
            (\<lambda>w1 _. drop_client m c w1))"

text \<open>The branch of \<open>AddClient\<close> for a name without a mount.\<close>

definition add_first :: "'l env \<Rightarrow> client_ptr \<Rightarrow> 'l world \<Rightarrow> ('l world, bool) outcome" where
  "add_first E c w =
     obind (NewMount E (client_mount w c) w)
       (\<lambda>w1 m.
          let cid = client_id w c;
              w2 = upd_man (\<lambda>a. a\<lparr>man_Mounts := gomap_set (client_mount w c) m (man_Mounts a)\<rparr>) w1;
              w3 = upd_mount m (\<lambda>mt. mt\<lparr>mnt_Clients := cc_Add (mnt_Clients mt) cid c,
                                          mnt_Active := Some cid\<rparr>) w2
          in obind (case gomap_get (man_metaStore (w_man w3)) (Hash (w_cids w3 cid)) of
                      Some meta \<Rightarrow> send_meta \<lparr>mp_Data = meta, mp_ID = cid, mp_Seen = False\<rparr> w3
                    | None \<Rightarrow> Done w3 ())
               (\<lambda>w4 _.
                  let af = cid_AudioFormat (w_cids w4 cid);
                      audio_format = (if af = [] then ''MP3'' else af)
                  in Done (w4\<lparr>w_lib := ApplyOptions (e_lib E) (shout_of w4 m)
                            (e_opt_order E [(''mount'', client_mount w c), (''format'', audio_format)])
                            (w_lib w4)\<rparr>) False))"

text \<open>The branch for a mount that exists; the flag of the result is the error \<open>FullQueue\<close>.\<close>

definition add_more :: "mount_ptr \<Rightarrow> client_ptr \<Rightarrow> 'l world \<Rightarrow> ('l world, bool) outcome" where
  "add_more m c w =
     (let w1 = upd_mount m (\<lambda>mt. mt\<lparr>mnt_Clients := cc_Add (mnt_Clients mt) (client_id w c) c\<rparr>) w
      in if length (mnt_ClientQueue (w_mounts w1 m)) < QUEUE_LIMIT
         then Done (upd_mount m (\<lambda>mt. mt\<lparr>mnt_ClientQueue := mnt_ClientQueue mt @ [client_id w c]\<rparr>) w1) False
         else Done w1 True)"

definition AddClient :: "'l env \<Rightarrow> client_ptr \<Rightarrow> 'l world \<Rightarrow> ('l world, bool) outcome" where
  "AddClient E c w =
     orecover
       (case gomap_get (man_Mounts (w_man w)) (client_mount w c) of
          None \<Rightarrow> add_first E c w
        | Some m \<Rightarrow> add_more m c w)
       (\<lambda>w' msg. Done w' True)"

section \<open>The events of the loop\<close>

datatype event =
    EvData DataPack | EvErr ErrPack | EvClient client_ptr | EvCollect mount_ptr | EvMeta MetaPack
  | EvTick

definition on_data :: "'l env \<Rightarrow> DataPack \<Rightarrow> 'l world \<Rightarrow> ('l world, unit) outcome" where
  "on_data E data w =
     (case gomap_get (man_Mounts (w_man w)) (client_mount w (dp_Client data)) of
        None \<Rightarrow> Done w ()
      | Some m \<Rightarrow>
          if mnt_Active (w_mounts w m) = Some (client_id w (dp_Client data))
          then HandleData E m (dp_Data data) w else Done w ())"

text \<open>The log line reads the packet's error, which is a nil dereference after a reader's panic.\<close>

definition on_err :: "ErrPack \<Rightarrow> 'l world \<Rightarrow> ('l world, unit) outcome" where
  "on_err err w =
     obind (RemoveClient (ep_Client err) w)
       (\<lambda>w' _. case ep_Err err of None \<Rightarrow> Panic w' ''nil pointer dereference'' | Some e \<Rightarrow> Done w' ())"

definition on_client :: "'l env \<Rightarrow> client_ptr \<Rightarrow> 'l world \<Rightarrow> ('l world, unit) outcome" where
  "on_client E c w =
     obind (AddClient E c w)
       (\<lambda>w1 err.
          if err then RemoveClient c w1
          else obind (on_handlers (HandleClientConnect (client_mount w1 c) c) w1)
                 (\<lambda>w2 _. Done (w2\<lparr>w_readers := w_readers w2 @ [c]\<rparr>) ()))"

definition on_collect :: "'l env \<Rightarrow> mount_ptr \<Rightarrow> 'l world \<Rightarrow> ('l world, unit) outcome" where
  "on_collect E m w =
     (if 0 < sint (cc_Length (mnt_Clients (w_mounts w m))) then Done w ()
      else (let w1 = w\<lparr>w_lib := snd (Close (e_lib E) (shout_of w m) (w_lib w))\<rparr>;
                w2 = upd_man (\<lambda>a. a\<lparr>man_Mounts := gomap_del (mnt_Mount (w_mounts w m)) (man_Mounts a)\<rparr>) w1
            in Done (DestroyMount E m w2) ()))"

definition set_metadata :: "client_ptr \<Rightarrow> string \<Rightarrow> 'l world \<Rightarrow> 'l world" where
  "set_metadata c data w =
     w\<lparr>w_clients := (w_clients w)(c := (w_clients w c)\<lparr>cl_Metadata := data\<rparr>)\<rparr>"

definition on_meta :: "'l env \<Rightarrow> MetaPack \<Rightarrow> 'l world \<Rightarrow> ('l world, unit) outcome" where
  "on_meta E meta w =
     (let meta_hash = Hash (w_cids w (mp_ID meta))
      in case gomap_get (man_Mounts (w_man w)) (cid_Mount (w_cids w (mp_ID meta))) of
           None \<Rightarrow>
             Done (upd_man (\<lambda>a. a\<lparr>man_metaStore := gomap_set meta_hash (mp_Data meta) (man_metaStore a)\<rparr>) w) ()
         | Some m \<Rightarrow>
             (case mnt_Active (w_mounts w m) of
                None \<Rightarrow> Panic w ''nil pointer dereference''
              | Some active \<Rightarrow>
                  (let active_hash = Hash (w_cids w active);
                       found = GetByHash (e_id_order E) (w_cids w) (mnt_Clients (w_mounts w m))
                   in if active_hash \<noteq> meta_hash then
                        (case found meta_hash of
                           Some client \<Rightarrow>
                             (let w1 = set_metadata client (mp_Data meta) w
                              in Done (w1\<lparr>w_hs := HandleMetadata client (mp_Data meta) (w_hs w1)\<rparr>) ())
                         | None \<Rightarrow> Done w ())
                      else
                        (case found active_hash of
                           None \<Rightarrow> Done w ()
                         | Some client \<Rightarrow>
                             (let w1 = set_metadata client (mp_Data meta) w
                              in if mp_Seen meta
                                 then Done (w1\<lparr>w_lib := snd (SendMetadata (e_lib E) (shout_of w1 m) (mp_Data meta) (w_lib w1))\<rparr>) ()
                                 else Done (w1\<lparr>w_delayed := w_delayed w1 @ [(w_gen w1, meta\<lparr>mp_Seen := True\<rparr>)],
                                               w_hs := HandleMetadata client (mp_Data meta) (w_hs w1)\<rparr>) ())))))"

definition on_tick :: "'l world \<Rightarrow> ('l world, unit) outcome" where
  "on_tick w = Done (upd_man (\<lambda>a. a\<lparr>man_metaStore := []\<rparr>) w) ()"

fun ProcessClients :: "'l env \<Rightarrow> event \<Rightarrow> 'l world \<Rightarrow> ('l world, unit) outcome" where
  "ProcessClients E (EvData data) w = on_data E data w"
| "ProcessClients E (EvErr err) w = on_err err w"
| "ProcessClients E (EvClient client) w = on_client E client w"
| "ProcessClients E (EvCollect m) w = on_collect E m w"
| "ProcessClients E (EvMeta meta) w = on_meta E meta w"
| "ProcessClients E EvTick w = on_tick w"

section \<open>The goroutines around the loop\<close>

text \<open>
  One turn of \<open>ReadInto\<close>: what the read of the connection gave. Data goes to the loop; an error, and
  a recovered panic, go to the loop and end the goroutine. A full channel makes the goroutine wait.
\<close>

datatype read_result = ReadData string | ReadError string | ReadPanic

definition DATA_CAP :: nat where "DATA_CAP = 1024"
definition ERR_CAP :: nat where "ERR_CAP = 512"

fun ReadInto :: "client_ptr \<Rightarrow> read_result \<Rightarrow> 'l world \<Rightarrow> ('l world, unit) outcome" where
  "ReadInto c (ReadData d) w =
     (if chan_full DATA_CAP (w_data w) then Block w
      else Done (w\<lparr>w_data := w_data w @ [\<lparr>dp_Data = take BUFFER_SIZE d, dp_Client = c\<rparr>]\<rparr>) ())"
| "ReadInto c (ReadError e) w =
     (if chan_full ERR_CAP (w_err w) then Block w
      else Done (w\<lparr>w_err := w_err w @ [\<lparr>ep_Err = Some e, ep_Client = c\<rparr>],
                   w_readers := remove1 c (w_readers w)\<rparr>) ())"
| "ReadInto c ReadPanic w =
     (if chan_full ERR_CAP (w_err w) then Block w
      else Done (w\<lparr>w_err := w_err w @ [\<lparr>ep_Err = None, ep_Client = c\<rparr>],
                   w_readers := remove1 c (w_readers w)\<rparr>) ())"

text \<open>
  The goroutine that sends a metadata packet a second time, one second later. The channel of a
  manager that was destroyed in between is closed.
\<close>

definition delayed_send :: "nat \<times> MetaPack \<Rightarrow> 'l world \<Rightarrow> ('l world, unit) outcome" where
  "delayed_send p w =
     (if fst p \<noteq> w_gen w then Panic w ''send on closed channel''
      else obind (send_meta (snd p) w) (\<lambda>w' _. Done (w'\<lparr>w_delayed := remove1 p (w_delayed w')\<rparr>) ()))"

text \<open>
  The loop of \<open>init\<close> after a panic: a new manager, then the old one is destroyed. The channels of
  the old \<open>ProcessClients\<close> are gone with it, and its readers feed nobody any more.
\<close>

definition restart :: "'l env \<Rightarrow> 'l world \<Rightarrow> 'l world" where
  "restart E w =
     DestroyManager E (w_man w)
       (w\<lparr>w_man := NewManager, w_gen := Suc (w_gen w), w_data := [], w_err := [], w_readers := []\<rparr>)"

end
