(* ===== verification/Liveness.thy ===== *)
theory Liveness
  imports Icecast
begin

text \<open>
  Which client of a mount is live: what \<open>SwapLiveClient\<close> and \<open>NextLiveClient\<close> leave alone, and that
  the next live client is the first identifier of the queue that is still connected.
\<close>

section \<open>What choosing the next live client may change\<close>

definition live_frame :: "mount_ptr \<Rightarrow> 'l world \<Rightarrow> 'l world \<Rightarrow> bool" where
  "live_frame m w w' \<longleftrightarrow>
     (\<exists>q a h ms.
        w' = (upd_man (\<lambda>x. x\<lparr>man_MetaChan := ms\<rparr>)
               (upd_mount m (\<lambda>mt. mt\<lparr>mnt_ClientQueue := q, mnt_Active := a\<rparr>) w))\<lparr>w_hs := h\<rparr> \<and>
        length q \<le> length (mnt_ClientQueue (w_mounts w m)) \<and>
        set q \<subseteq> set (mnt_ClientQueue (w_mounts w m)) \<and>
        (mnt_Active (w_mounts w m) \<noteq> None \<longrightarrow> a \<noteq> None) \<and>
        (\<forall>n. set (registered h n) = set (registered (w_hs w) n)) \<and>
        (hs_wf (w_hs w) \<longrightarrow> hs_wf h) \<and> HandlerLock h = HandlerLock (w_hs w))"

lemma world_same: "(upd_man (\<lambda>x. x\<lparr>man_MetaChan := man_MetaChan (w_man w)\<rparr>)
    (upd_mount m (\<lambda>mt. mt\<lparr>mnt_ClientQueue := mnt_ClientQueue (w_mounts w m),
       mnt_Active := mnt_Active (w_mounts w m)\<rparr>) w))\<lparr>w_hs := w_hs w\<rparr> = w"
  by (simp add: upd_man_def upd_mount_def)

lemma live_frame_refl: "live_frame m w w"
  unfolding live_frame_def using world_same [of w m, symmetric] by blast

lemma live_frame_swap:
  assumes "SwapLiveClient m c w = Done w' u"
  shows "live_frame m w w'"
proof (cases "mnt_Active (w_mounts w m) = Some (client_id w c)")
  case True
  with assms show ?thesis by (simp add: SwapLiveClient_def live_frame_refl)
next
  case False
  let ?h = "HandleClientLive (client_mount w c) c (w_hs w)"
  let ?p = "\<lparr>mp_Data = cl_Metadata (w_clients w c), mp_ID = client_id w c, mp_Seen = False\<rparr>"
  from False assms have
    "w' = (upd_man (\<lambda>x. x\<lparr>man_MetaChan := man_MetaChan (w_man w) @ [?p]\<rparr>)
      (upd_mount m (\<lambda>mt. mt\<lparr>mnt_ClientQueue := mnt_ClientQueue (w_mounts w m),
         mnt_Active := Some (client_id w c)\<rparr>) w))\<lparr>w_hs := ?h\<rparr>"
    by (auto simp: SwapLiveClient_def send_meta_def Let_def HandleClientUnlive_def upd_mount_def
        upd_man_def split: option.splits if_splits)
  then show ?thesis
    unfolding live_frame_def using hreg.live_set live_wf HandleClientLive_lock by blast
qed

lemma live_frame_pop:
  assumes "mnt_ClientQueue (w_mounts w m) = i # q"
  shows "live_frame m w (upd_mount m (\<lambda>mt. mt\<lparr>mnt_ClientQueue := q\<rparr>) w)"
proof -
  have "upd_mount m (\<lambda>mt. mt\<lparr>mnt_ClientQueue := q\<rparr>) w =
      (upd_man (\<lambda>x. x\<lparr>man_MetaChan := man_MetaChan (w_man w)\<rparr>)
        (upd_mount m (\<lambda>mt. mt\<lparr>mnt_ClientQueue := q,
           mnt_Active := mnt_Active (w_mounts w m)\<rparr>) w))\<lparr>w_hs := w_hs w\<rparr>"
    by (simp add: upd_man_def upd_mount_def)
  with assms show ?thesis unfolding live_frame_def by (intro exI conjI) (assumption | force)+
qed

lemma live_frame_trans:
  assumes "live_frame m u v" and "live_frame m v w"
  shows "live_frame m u w"
proof -
  from assms(1) obtain q a h ms where v: "v = (upd_man (\<lambda>x. x\<lparr>man_MetaChan := ms\<rparr>)
      (upd_mount m (\<lambda>mt. mt\<lparr>mnt_ClientQueue := q, mnt_Active := a\<rparr>) u))\<lparr>w_hs := h\<rparr>"
    and vs: "length q \<le> length (mnt_ClientQueue (w_mounts u m))"
      "set q \<subseteq> set (mnt_ClientQueue (w_mounts u m))" "mnt_Active (w_mounts u m) \<noteq> None \<longrightarrow> a \<noteq> None"
      "\<forall>n. set (registered h n) = set (registered (w_hs u) n)" "hs_wf (w_hs u) \<longrightarrow> hs_wf h"
      "HandlerLock h = HandlerLock (w_hs u)"
    unfolding live_frame_def by blast
  from assms(2) obtain q' a' h' ms' where w: "w = (upd_man (\<lambda>x. x\<lparr>man_MetaChan := ms'\<rparr>)
      (upd_mount m (\<lambda>mt. mt\<lparr>mnt_ClientQueue := q', mnt_Active := a'\<rparr>) v))\<lparr>w_hs := h'\<rparr>"
    and ws: "length q' \<le> length (mnt_ClientQueue (w_mounts v m))"
      "set q' \<subseteq> set (mnt_ClientQueue (w_mounts v m))" "mnt_Active (w_mounts v m) \<noteq> None \<longrightarrow> a' \<noteq> None"
      "\<forall>n. set (registered h' n) = set (registered (w_hs v) n)" "hs_wf (w_hs v) \<longrightarrow> hs_wf h'"
      "HandlerLock h' = HandlerLock (w_hs v)"
    unfolding live_frame_def by blast
  have "w = (upd_man (\<lambda>x. x\<lparr>man_MetaChan := ms'\<rparr>)
      (upd_mount m (\<lambda>mt. mt\<lparr>mnt_ClientQueue := q', mnt_Active := a'\<rparr>) u))\<lparr>w_hs := h'\<rparr>"
    unfolding w v by (simp add: upd_man_def upd_mount_def)
  moreover have "length q' \<le> length (mnt_ClientQueue (w_mounts u m))"
    "set q' \<subseteq> set (mnt_ClientQueue (w_mounts u m))" "mnt_Active (w_mounts u m) \<noteq> None \<longrightarrow> a' \<noteq> None"
    "\<forall>n. set (registered h' n) = set (registered (w_hs u) n)" "hs_wf (w_hs u) \<longrightarrow> hs_wf h'"
    "HandlerLock h' = HandlerLock (w_hs u)"
    using vs ws by (auto simp: v)
  ultimately show ?thesis unfolding live_frame_def by blast
qed

lemma live_frame_next:
  assumes "NextLiveClient m w = Done w' u"
  shows "live_frame m w w'"
  using assms
proof (induction m w rule: NextLiveClient.induct)
  case (1 m w)
  show ?case
  proof (cases "mnt_ClientQueue (w_mounts w m)")
    case Nil
    with 1(3) show ?thesis by (simp add: NextLiveClient.simps [of m w] live_frame_refl)
  next
    case (Cons i q)
    let ?w = "upd_mount m (\<lambda>mt. mt\<lparr>mnt_ClientQueue := q\<rparr>) w"
    have pop: "live_frame m w ?w" using Cons by (rule live_frame_pop)
    have "live_frame m ?w w'"
    proof (cases "GetByID (mnt_Clients (w_mounts w m)) i")
      case None
      with Cons 1 show ?thesis by (simp add: NextLiveClient.simps [of m w] Let_def)
    next
      case (Some c)
      show ?thesis
      proof (cases "client_id w c = i")
        case True
        with Some Cons 1(3) show ?thesis
          by (intro live_frame_swap [of m c]) (simp add: NextLiveClient.simps [of m w] Let_def)
      next
        case False
        with Some Cons 1 show ?thesis by (simp add: NextLiveClient.simps [of m w] Let_def)
      qed
    qed
    with pop show ?thesis by (rule live_frame_trans)
  qed
qed

lemma live_frameD:
  assumes "live_frame m w w'"
  shows "w_cids w' = w_cids w" "w_clients w' = w_clients w" "w_next_mount w' = w_next_mount w"
    "w_closed w' = w_closed w" "w_lib w' = w_lib w" "w_data w' = w_data w" "w_err w' = w_err w"
    "w_readers w' = w_readers w" "w_delayed w' = w_delayed w" "w_gen w' = w_gen w"
    "w_next_cid w' = w_next_cid w" "w_next_client w' = w_next_client w"
    "man_Mounts (w_man w') = man_Mounts (w_man w)" "man_Receiver (w_man w') = man_Receiver (w_man w)"
    "man_MountCollector (w_man w') = man_MountCollector (w_man w)"
    "man_metaStore (w_man w') = man_metaStore (w_man w)"
    "m' \<noteq> m \<Longrightarrow> w_mounts w' m' = w_mounts w m'"
    "mnt_Clients (w_mounts w' m') = mnt_Clients (w_mounts w m')"
    "mnt_Mount (w_mounts w' m') = mnt_Mount (w_mounts w m')"
    "mnt_Shout (w_mounts w' m') = mnt_Shout (w_mounts w m')"
    "length (mnt_ClientQueue (w_mounts w' m')) \<le> length (mnt_ClientQueue (w_mounts w m'))"
    "set (mnt_ClientQueue (w_mounts w' m')) \<subseteq> set (mnt_ClientQueue (w_mounts w m'))"
    "mnt_Active (w_mounts w m') \<noteq> None \<Longrightarrow> mnt_Active (w_mounts w' m') \<noteq> None"
    "set (registered (w_hs w') n) = set (registered (w_hs w) n)" "hs_wf (w_hs w) \<Longrightarrow> hs_wf (w_hs w')"
    "HandlerLock (w_hs w') = HandlerLock (w_hs w)"
  using assms unfolding live_frame_def by (auto split: if_splits)

section \<open>The next live client\<close>

text \<open>
  The identifiers of the queue that are still connected, in order: a container entry under the
  identifier whose client carries that identifier.
\<close>

definition waiting :: "'l world \<Rightarrow> mount_ptr \<Rightarrow> cid_ptr list" where
  "waiting w m =
     filter (\<lambda>i. \<exists>c. GetByID (mnt_Clients (w_mounts w m)) i = Some c \<and> client_id w c = i)
       (mnt_ClientQueue (w_mounts w m))"

lemma waiting_pop:
  assumes "mnt_ClientQueue (w_mounts w m) = i # q"
  shows "waiting (upd_mount m (\<lambda>mt. mt\<lparr>mnt_ClientQueue := q\<rparr>) w) m =
    (if \<exists>c. GetByID (mnt_Clients (w_mounts w m)) i = Some c \<and> client_id w c = i
     then tl (waiting w m) else waiting w m)"
  using assms by (simp add: waiting_def)

lemma NextLiveClient_none:
  assumes "waiting w m = []"
  shows "NextLiveClient m w = Done (upd_mount m (\<lambda>mt. mt\<lparr>mnt_ClientQueue := []\<rparr>) w) ()"
  using assms
proof (induction m w rule: NextLiveClient.induct)
  case (1 m w)
  show ?case
  proof (cases "mnt_ClientQueue (w_mounts w m)")
    case Nil
    then have "upd_mount m (\<lambda>mt. mt\<lparr>mnt_ClientQueue := []\<rparr>) w = w"
      by (simp add: upd_mount_def Nil [symmetric])
    with Nil show ?thesis by (simp add: NextLiveClient.simps [of m w])
  next
    case (Cons i q)
    let ?w = "upd_mount m (\<lambda>mt. mt\<lparr>mnt_ClientQueue := q\<rparr>) w"
    from Cons 1(3) have no: "\<not> (\<exists>c. GetByID (mnt_Clients (w_mounts w m)) i = Some c \<and> client_id w c = i)"
      by (auto simp: waiting_def split: if_splits)
    have "waiting ?w m = []" using waiting_pop [OF Cons] no 1(3) by simp
    with 1 Cons no have "NextLiveClient m w = Done (upd_mount m (\<lambda>mt. mt\<lparr>mnt_ClientQueue := []\<rparr>) ?w) ()"
      by (auto simp: NextLiveClient.simps [of m w] Let_def split: option.splits)
    then show ?thesis by (simp add: upd_mount_def)
  qed
qed

text \<open>With someone waiting, the loop ends in the swap to the first of them.\<close>

lemma NextLiveClient_some:
  assumes "waiting w m = i # r"
  shows "\<exists>q c. GetByID (mnt_Clients (w_mounts w m)) i = Some c \<and> client_id w c = i \<and>
    filter (\<lambda>j. \<exists>c. GetByID (mnt_Clients (w_mounts w m)) j = Some c \<and> client_id w c = j) q = r \<and>
    NextLiveClient m w = SwapLiveClient m c (upd_mount m (\<lambda>mt. mt\<lparr>mnt_ClientQueue := q\<rparr>) w)"
  using assms
proof (induction m w rule: NextLiveClient.induct)
  case (1 m w)
  show ?case
  proof (cases "mnt_ClientQueue (w_mounts w m)")
    case Nil
    with 1(3) show ?thesis by (simp add: waiting_def)
  next
    case (Cons j q)
    let ?w = "upd_mount m (\<lambda>mt. mt\<lparr>mnt_ClientQueue := q\<rparr>) w"
    show ?thesis
    proof (cases "\<exists>c. GetByID (mnt_Clients (w_mounts w m)) j = Some c \<and> client_id w c = j")
      case True
      then obtain c where c: "GetByID (mnt_Clients (w_mounts w m)) j = Some c" "client_id w c = j" by blast
      from Cons 1(3) c have "j = i"
        and "filter (\<lambda>j. \<exists>c. GetByID (mnt_Clients (w_mounts w m)) j = Some c \<and> client_id w c = j) q = r"
        by (auto simp: waiting_def)
      with Cons c show ?thesis by (auto simp: NextLiveClient.simps [of m w] Let_def)
    next
      case False
      have "waiting ?w m = i # r" using waiting_pop [OF Cons] False 1(3) by simp
      then obtain q' c where c: "GetByID (mnt_Clients (w_mounts ?w m)) i = Some c" "client_id ?w c = i"
        and q': "filter (\<lambda>j. \<exists>c. GetByID (mnt_Clients (w_mounts ?w m)) j = Some c \<and> client_id ?w c = j) q' = r"
        and nl: "NextLiveClient m ?w =
          SwapLiveClient m c (upd_mount m (\<lambda>mt. mt\<lparr>mnt_ClientQueue := q'\<rparr>) ?w)"
        using 1(1) [OF Cons refl] 1(2) [OF Cons refl] False
        by (cases "GetByID (mnt_Clients (w_mounts w m)) j") blast+
      have "NextLiveClient m w = NextLiveClient m ?w"
        using Cons False by (auto simp: NextLiveClient.simps [of m w] Let_def split: option.splits)
      moreover have "upd_mount m (\<lambda>mt. mt\<lparr>mnt_ClientQueue := q'\<rparr>) ?w =
          upd_mount m (\<lambda>mt. mt\<lparr>mnt_ClientQueue := q'\<rparr>) w"
        by (simp add: upd_mount_def)
      ultimately show ?thesis using c q' nl by (intro exI [of _ q'] exI [of _ c]) simp
    qed
  qed
qed

lemma SwapLiveClient_Done:
  assumes "SwapLiveClient m c w = Done w' u"
  shows "mnt_Active (w_mounts w' m) = Some (client_id w c)"
    and "mnt_ClientQueue (w_mounts w' m) = mnt_ClientQueue (w_mounts w m)"
    and "mnt_Active (w_mounts w m) \<noteq> Some (client_id w c) \<Longrightarrow>
         man_MetaChan (w_man w') = man_MetaChan (w_man w) @
           [\<lparr>mp_Data = cl_Metadata (w_clients w c), mp_ID = client_id w c, mp_Seen = False\<rparr>]"
  using assms
  by (auto simp: SwapLiveClient_def send_meta_def Let_def HandleClientUnlive_def
      split: if_splits option.splits)

end
