(* ===== verification/Invariant.thy ===== *)
theory Invariant
  imports Liveness
begin

text \<open>
  The invariant of the manager's data: names and mounts agree, every container counts its clients and
  files each under its own identifier, queues stay within their limit, and every mount has an active
  identifier. Every event of the loop keeps it.
\<close>

section \<open>The invariant\<close>

definition mount_ok :: "'l world \<Rightarrow> string \<Rightarrow> mount_ptr \<Rightarrow> bool" where
  "mount_ok w n m \<longleftrightarrow>
     mnt_Mount (w_mounts w m) = n \<and> m < w_next_mount w \<and> cc_wf (mnt_Clients (w_mounts w m)) \<and>
     (\<forall>i c. GetByID (mnt_Clients (w_mounts w m)) i = Some c \<longrightarrow>
        client_id w c = i \<and> cid_Mount (w_cids w i) = n) \<and>
     length (mnt_ClientQueue (w_mounts w m)) \<le> QUEUE_LIMIT \<and> mnt_Active (w_mounts w m) \<noteq> None"

abbreviation mounts_of :: "'l world \<Rightarrow> string \<Rightarrow> mount_ptr option" where
  "mounts_of w n \<equiv> gomap_get (man_Mounts (w_man w)) n"

definition world_wf :: "'l world \<Rightarrow> bool" where
  "world_wf w \<longleftrightarrow> gomap_wf (man_Mounts (w_man w)) \<and> (\<forall>n m. mounts_of w n = Some m \<longrightarrow> mount_ok w n m)"

text \<open>A client is connected when the mount of its name files it under its identifier.\<close>

definition connected :: "'l world \<Rightarrow> client_ptr \<Rightarrow> bool" where
  "connected w c \<longleftrightarrow>
     (\<exists>m. mounts_of w (client_mount w c) = Some m \<and>
          GetByID (mnt_Clients (w_mounts w m)) (client_id w c) = Some c)"

text \<open>A mount has room: the 32-bit count of its container does not overflow.\<close>

definition room :: "'l world \<Rightarrow> client_ptr \<Rightarrow> bool" where
  "room w c \<longleftrightarrow>
     (\<forall>m. mounts_of w (client_mount w c) = Some m \<longrightarrow>
        length (cc_byID (mnt_Clients (w_mounts w m))) < 2147483647 \<and>
        GetByID (mnt_Clients (w_mounts w m)) (client_id w c) = None)"

lemma wf_mount_ok: "world_wf w \<Longrightarrow> mounts_of w n = Some m \<Longrightarrow> mount_ok w n m"
  by (simp add: world_wf_def)

text \<open>Two names have two mounts.\<close>

lemma wf_mounts_inj: "world_wf w \<Longrightarrow> mounts_of w n = Some m \<Longrightarrow> mounts_of w n' = Some m \<Longrightarrow> n = n'"
  by (metis mount_ok_def wf_mount_ok)

lemma wf_cong:
  assumes "world_wf w" and "man_Mounts (w_man w') = man_Mounts (w_man w)"
    and "w_next_mount w \<le> w_next_mount w'"
    and "\<And>c. client_id w' c = client_id w c" and "\<And>i. cid_Mount (w_cids w' i) = cid_Mount (w_cids w i)"
    and "\<And>n m. mounts_of w n = Some m \<Longrightarrow> w_mounts w' m = w_mounts w m"
  shows "world_wf w'"
  using assms unfolding world_wf_def mount_ok_def by fastforce

section \<open>Effects of the operations\<close>

lemma live_frame_connected: "live_frame m w w' \<Longrightarrow> connected w' c \<longleftrightarrow> connected w c"
  by (simp add: connected_def live_frameD)

lemma live_frame_wf:
  assumes f: "live_frame m w w'" and "world_wf w"
  shows "world_wf w'"
proof -
  have "mount_ok w' n k" if "mount_ok w n k" for n k
  proof -
    from that live_frameD(21) [OF f, of k] have "length (mnt_ClientQueue (w_mounts w' k)) \<le> QUEUE_LIMIT"
      unfolding mount_ok_def by linarith
    moreover from that have "mnt_Active (w_mounts w' k) \<noteq> None"
      unfolding mount_ok_def using live_frameD(23) [OF f, of k] by blast
    ultimately show ?thesis using that by (simp add: mount_ok_def live_frameD [OF f] del: not_None_eq)
  qed
  with assms show ?thesis by (simp add: world_wf_def live_frameD [OF f])
qed

definition drop_mount :: "mount_ptr \<Rightarrow> cid_ptr \<Rightarrow> 'l world \<Rightarrow> mount_ptr \<Rightarrow> Mount" where
  "drop_mount m i w =
     (w_mounts w)(m := (w_mounts w m)\<lparr>mnt_Clients := cc_Remove (mnt_Clients (w_mounts w m)) i\<rparr>)"

lemma drop_client_Done:
  assumes "drop_client m c w = Done w' u"
  shows "w_mounts w' = drop_mount m (client_id w c) w"
    and "HandleClientDisconnect (client_mount w c) c (w_hs w) = Done (w_hs w') ()"
    and "w_closed w' = insert (cl_Conn (w_clients w c)) (w_closed w)"
    and "man_MountCollector (w_man w') =
           (if cc_Length (mnt_Clients (drop_mount m (client_id w c) w m)) = 0
            then man_MountCollector (w_man w) @ [m] else man_MountCollector (w_man w))"
    and "w_cids w' = w_cids w" "w_clients w' = w_clients w" "w_next_mount w' = w_next_mount w"
      "w_lib w' = w_lib w" "w_data w' = w_data w" "w_err w' = w_err w"
      "w_readers w' = w_readers w" "w_delayed w' = w_delayed w" "w_gen w' = w_gen w"
      "w_next_cid w' = w_next_cid w" "w_next_client w' = w_next_client w"
      "man_Mounts (w_man w') = man_Mounts (w_man w)" "man_Receiver (w_man w') = man_Receiver (w_man w)"
      "man_MetaChan (w_man w') = man_MetaChan (w_man w)"
      "man_metaStore (w_man w') = man_metaStore (w_man w)"
  using assms
  by (auto simp: drop_client_def drop_mount_def Let_def on_handlers_def send_collector_def
      outcome_simps split: outcome.splits if_splits)

lemma drop_wf:
  assumes "world_wf w" and "w_mounts w' = drop_mount m i w" and "mounts_of w n = Some m"
    and "GetByID (mnt_Clients (w_mounts w m)) i = Some c"
    and "w_cids w' = w_cids w" "w_clients w' = w_clients w" "w_next_mount w' = w_next_mount w"
      "man_Mounts (w_man w') = man_Mounts (w_man w)"
  shows "world_wf w'"
proof -
  from assms(1,3) have ok: "mount_ok w n m" by (rule wf_mount_ok)
  then have cc: "cc_wf (mnt_Clients (w_mounts w m))" by (simp add: mount_ok_def)
  with assms(4) have "cc_wf (cc_Remove (mnt_Clients (w_mounts w m)) i)"
    using cc.rem_ok by blast
  moreover have "mount_ok w' n' m'" if "mounts_of w n' = Some m'" for n' m'
  proof (cases "m' = m")
    case True
    with that assms(1,3) have "n' = n" using wf_mounts_inj by blast
    with True ok calculation cc show ?thesis
      by (auto simp: mount_ok_def assms drop_mount_def cc.get_rem split: if_splits)
  next
    case False
    with wf_mount_ok [OF assms(1) that] show ?thesis
      by (simp add: mount_ok_def assms drop_mount_def)
  qed
  ultimately show ?thesis using assms(1) by (simp add: world_wf_def assms)
qed

text \<open>Who is connected after one client was dropped.\<close>

lemma drop_connected:
  assumes "world_wf w" and "w_mounts w' = drop_mount m (client_id w c) w"
    and "mounts_of w (client_mount w c) = Some m"
    and "w_cids w' = w_cids w" "w_clients w' = w_clients w"
      "man_Mounts (w_man w') = man_Mounts (w_man w)"
  shows "connected w' d \<longleftrightarrow> connected w d \<and> client_id w d \<noteq> client_id w c"
proof -
  have cc: "cc_wf (mnt_Clients (w_mounts w m))"
    using wf_mount_ok [OF assms(1,3)] by (simp add: mount_ok_def)
  show ?thesis
  proof
    assume "connected w' d"
    then obtain k where k: "mounts_of w (client_mount w d) = Some k"
      "GetByID (mnt_Clients (w_mounts w' k)) (client_id w d) = Some d"
      by (auto simp: connected_def assms)
    show "connected w d \<and> client_id w d \<noteq> client_id w c"
    proof (cases "k = m")
      case True
      with k cc show ?thesis
        by (auto simp: connected_def assms drop_mount_def cc.get_rem split: if_splits)
    next
      case False
      with k have "connected w d" by (auto simp: connected_def assms drop_mount_def)
      moreover have "client_id w d \<noteq> client_id w c"
        using False k(1) assms(3) by auto
      ultimately show ?thesis by simp
    qed
  next
    assume d: "connected w d \<and> client_id w d \<noteq> client_id w c"
    then show "connected w' d"
      using cc by (auto simp: connected_def assms drop_mount_def cc.get_rem)
  qed
qed

section \<open>Removing a client\<close>

lemma RemoveClient_split:
  assumes "RemoveClient c w = Done w' u"
  obtains m v where "mounts_of w (client_mount w c) = Some m" and "live_frame m w v"
    and "drop_client m c v = Done w' ()"
    and "if mnt_Active (w_mounts w m) = Some (client_id w c) then NextLiveClient m w = Done v () else v = w"
proof -
  from assms obtain m v where m: "mounts_of w (client_mount w c) = Some m"
    and d: "drop_client m c v = Done w' ()"
    and v: "if mnt_Active (w_mounts w m) = Some (client_id w c) then NextLiveClient m w = Done v () else v = w"
    by (auto simp: RemoveClient_def outcome_simps split: option.splits if_splits)
  from v have "live_frame m w v"
    by (cases "mnt_Active (w_mounts w m) = Some (client_id w c)")
      (auto dest: live_frame_next intro: live_frame_refl)
  with m d v that show ?thesis by blast
qed

lemma RemoveClient_wf:
  assumes "RemoveClient c w = Done w' u" and "world_wf w" and "connected w c"
  shows "world_wf w'" and "connected w' d \<longleftrightarrow> connected w d \<and> client_id w d \<noteq> client_id w c"
proof -
  from assms(1) obtain m v where m: "mounts_of w (client_mount w c) = Some m" and f: "live_frame m w v"
    and d: "drop_client m c v = Done w' ()"
    by (rule RemoveClient_split)
  note fr = live_frameD [OF f]
  from f assms(2) have v: "world_wf v" by (rule live_frame_wf)
  have mv: "mounts_of v (client_mount v c) = Some m" using m by (simp add: fr)
  from assms(3) m have "GetByID (mnt_Clients (w_mounts v m)) (client_id v c) = Some c"
    by (simp add: connected_def fr)
  with v mv show "world_wf w'" by (rule drop_wf [OF _ drop_client_Done(1) [OF d]]) (use drop_client_Done [OF d] in auto)
  have "connected w' d \<longleftrightarrow> connected v d \<and> client_id v d \<noteq> client_id v c"
    by (rule drop_connected [OF v drop_client_Done(1) [OF d] mv]) (use drop_client_Done [OF d] in auto)
  then show "connected w' d \<longleftrightarrow> connected w d \<and> client_id w d \<noteq> client_id w c"
    by (simp add: live_frame_connected [OF f] fr)
qed

lemma RemoveClient_frame:
  assumes "RemoveClient c w = Done w' u"
  shows "w_cids w' = w_cids w" "w_clients w' = w_clients w" "w_next_mount w' = w_next_mount w"
    "w_lib w' = w_lib w" "w_data w' = w_data w" "w_err w' = w_err w"
    "w_readers w' = w_readers w" "w_delayed w' = w_delayed w" "w_gen w' = w_gen w"
    "w_next_cid w' = w_next_cid w" "w_next_client w' = w_next_client w"
    "man_Mounts (w_man w') = man_Mounts (w_man w)" "man_Receiver (w_man w') = man_Receiver (w_man w)"
    "man_metaStore (w_man w') = man_metaStore (w_man w)"
proof -
  from assms obtain m v where f: "live_frame m w v" and d: "drop_client m c v = Done w' ()"
    by (rule RemoveClient_split)
  note fr = live_frameD [OF f] drop_client_Done [OF d]
  show "w_cids w' = w_cids w" "w_clients w' = w_clients w" "w_next_mount w' = w_next_mount w"
    "w_lib w' = w_lib w" "w_data w' = w_data w" "w_err w' = w_err w"
    "w_readers w' = w_readers w" "w_delayed w' = w_delayed w" "w_gen w' = w_gen w"
    "w_next_cid w' = w_next_cid w" "w_next_client w' = w_next_client w"
    "man_Mounts (w_man w') = man_Mounts (w_man w)" "man_Receiver (w_man w') = man_Receiver (w_man w)"
    "man_metaStore (w_man w') = man_metaStore (w_man w)"
    by (simp_all add: fr)
qed

lemma RemoveClient_registered:
  assumes "RemoveClient c w = Done w' u" and "hs_wf (w_hs w)"
  shows "hs_wf (w_hs w')"
    and "set (registered (w_hs w') n) =
      (if n = client_mount w c then set (registered (w_hs w) n) - {c} else set (registered (w_hs w) n))"
proof -
  from assms obtain m v where f: "live_frame m w v" and d: "drop_client m c v = Done w' ()"
    by (blast elim: RemoveClient_split)
  note fr = live_frameD [OF f]
  have hv: "hs_wf (w_hs v)" using assms(2) by (simp add: fr)
  note hd = drop_client_Done(2) [OF d]
  from hd hv show "hs_wf (w_hs w')" by (rule disconnect_wf)
  from hreg.disc_set [OF hd hv] show "set (registered (w_hs w') n) =
      (if n = client_mount w c then set (registered (w_hs w) n) - {c} else set (registered (w_hs w) n))"
    by (simp add: fr)
qed

section \<open>Adding a client\<close>

lemma add_first_Done:
  assumes "add_first E c w = Done w' e"
  obtains mt ms l where "\<not> e"
    and "w' = upd_man (\<lambda>a. a\<lparr>man_Mounts := gomap_set (client_mount w c) (w_next_mount w) (man_Mounts a),
                             man_MetaChan := ms\<rparr>)
             (w\<lparr>w_mounts := (w_mounts w)(w_next_mount w := mt), w_next_mount := Suc (w_next_mount w),
                w_lib := l\<rparr>)"
    and "mnt_Clients mt = cc_Add NewClientContainer (client_id w c) c"
    and "mnt_Active mt = Some (client_id w c)" and "mnt_ClientQueue mt = []"
    and "mnt_Mount mt = client_mount w c"
proof -
  from assms obtain w1 m where nm: "NewMount E (client_mount w c) w = Done w1 m"
    by (auto simp: add_first_def outcome_simps)
  then obtain sh l where w1: "m = w_next_mount w"
    "w1 = w\<lparr>w_mounts := (w_mounts w)(w_next_mount w := \<lparr>mnt_ClientQueue = [], mnt_Clients = NewClientContainer,
            mnt_Active = None, mnt_Mount = client_mount w c, mnt_Shout = sh\<rparr>),
          w_next_mount := Suc (w_next_mount w), w_lib := l\<rparr>"
    by (auto simp: NewMount_def Let_def split: sum.splits prod.splits)
  let ?mt = "\<lparr>mnt_ClientQueue = [], mnt_Clients = cc_Add NewClientContainer (client_id w c) c,
    mnt_Active = Some (client_id w c), mnt_Mount = client_mount w c, mnt_Shout = sh\<rparr>"
  have "\<exists>ms l. w' = upd_man (\<lambda>a. a\<lparr>man_Mounts := gomap_set (client_mount w c) (w_next_mount w) (man_Mounts a),
                             man_MetaChan := ms\<rparr>)
             (w\<lparr>w_mounts := (w_mounts w)(w_next_mount w := ?mt), w_next_mount := Suc (w_next_mount w),
                w_lib := l\<rparr>) \<and> \<not> e"
  proof (cases "gomap_get (man_metaStore (w_man w)) (Hash (w_cids w (client_id w c)))")
    case None
    with assms nm show ?thesis
      by (intro exI [of _ "man_MetaChan (w_man w)"] exI [of _ "w_lib w'"])
        (auto simp: add_first_def w1 Let_def upd_man_def upd_mount_def)
  next
    case (Some meta)
    with assms nm show ?thesis
      by (intro exI [of _ "man_MetaChan (w_man w) @
            [\<lparr>mp_Data = meta, mp_ID = client_id w c, mp_Seen = False\<rparr>]"] exI [of _ "w_lib w'"])
        (auto simp: add_first_def w1 Let_def send_meta_def upd_man_def upd_mount_def split: if_splits)
  qed
  then show ?thesis using that [where mt = ?mt] by auto
qed

lemma add_first_Panic:
  assumes "add_first E c w = Panic w' msg"
  shows "w' = w"
  using assms
  by (auto simp: add_first_def outcome_simps NewMount_def Let_def send_meta_def
      split: sum.splits prod.splits option.splits if_splits)

lemma add_more_Done:
  assumes "add_more m c w = Done w' e"
  shows "w' = upd_mount m (\<lambda>mt. mt\<lparr>mnt_Clients := cc_Add (mnt_Clients mt) (client_id w c) c,
      mnt_ClientQueue := mnt_ClientQueue mt @ (if e then [] else [client_id w c])\<rparr>) w"
    and "e \<longleftrightarrow> QUEUE_LIMIT \<le> length (mnt_ClientQueue (w_mounts w m))"
  using assms by (auto simp: add_more_def Let_def upd_mount_def split: if_splits)

lemma AddClient_cases:
  assumes "AddClient E c w = Done w' e"
  obtains (first) "mounts_of w (client_mount w c) = None" and "add_first E c w = Done w' e"
  | (config) "mounts_of w (client_mount w c) = None" and "w' = w" and e
  | (more) m where "mounts_of w (client_mount w c) = Some m" and "add_more m c w = Done w' e"
proof (cases "mounts_of w (client_mount w c)")
  case None
  with assms first config show ?thesis
    by (cases "add_first E c w") (auto simp: AddClient_def dest: add_first_Panic)
next
  case (Some m)
  with assms more show ?thesis
    by (cases "add_more m c w") (auto simp: AddClient_def add_more_def Let_def split: if_splits)
qed

text \<open>A fresh mount with one client, and a mount with one client more.\<close>

lemma add_first_wf:
  assumes "add_first E c w = Done w' e" and "world_wf w" and "mounts_of w (client_mount w c) = None"
  shows "world_wf w'" and "connected w' d \<longleftrightarrow> connected w d \<or> d = c"
proof -
  obtain mt ms l where w': "w' = upd_man (\<lambda>a. a\<lparr>man_Mounts := gomap_set (client_mount w c) (w_next_mount w) (man_Mounts a),
                             man_MetaChan := ms\<rparr>)
             (w\<lparr>w_mounts := (w_mounts w)(w_next_mount w := mt), w_next_mount := Suc (w_next_mount w),
                w_lib := l\<rparr>)"
    and mt: "mnt_Clients mt = cc_Add NewClientContainer (client_id w c) c"
      "mnt_Active mt = Some (client_id w c)" "mnt_ClientQueue mt = []" "mnt_Mount mt = client_mount w c"
    using assms(1) by (rule add_first_Done)
  have old: "m < w_next_mount w" if "mounts_of w n = Some m" for n m
    using wf_mount_ok [OF assms(2) that] by (simp add: mount_ok_def)
  have "cc_wf (mnt_Clients mt)"
    using cc.add_ok [OF cc.inv_new cc.get_new] by (simp add: mt cc.len_new)
  moreover have get: "GetByID (mnt_Clients mt) i = (if i = client_id w c then Some c else None)" for i
    by (simp add: mt cc.get_add [OF cc.inv_new] cc.get_new)
  ultimately have new: "mount_ok w' (client_mount w c) (w_next_mount w)"
    by (auto simp: mount_ok_def w' mt split: if_splits)
  have "mount_ok w' n m" if "mounts_of w n = Some m" for n m
    using wf_mount_ok [OF assms(2) that] old [OF that] by (auto simp: mount_ok_def w')
  with new assms(2) show "world_wf w'"
    by (auto simp: world_wf_def w' gomap_simps split: if_splits)
  show "connected w' d \<longleftrightarrow> connected w d \<or> d = c"
    using assms(3) get old by (force simp: connected_def w' gomap_simps)
qed

lemma add_more_wf:
  assumes "add_more m c w = Done w' e" and "world_wf w" and "mounts_of w (client_mount w c) = Some m"
    and "room w c"
  shows "world_wf w'" and "connected w' d \<longleftrightarrow> connected w d \<or> d = c"
proof -
  note w' = add_more_Done [OF assms(1)]
  have ok: "mount_ok w (client_mount w c) m" using assms(2,3) by (rule wf_mount_ok)
  then have cc: "cc_wf (mnt_Clients (w_mounts w m))" by (simp add: mount_ok_def)
  from assms(3,4) have r: "GetByID (mnt_Clients (w_mounts w m)) (client_id w c) = None"
    "length (cc_byID (mnt_Clients (w_mounts w m))) < 2147483647"
    by (auto simp: room_def)
  have "cc_wf (cc_Add (mnt_Clients (w_mounts w m)) (client_id w c) c)"
    using cc.add_ok [OF cc r] by blast
  with ok cc w'(2) have new: "mount_ok w' (client_mount w c) m"
    by (auto simp: mount_ok_def w'(1) cc.get_add split: if_splits)
  have "mount_ok w' n k" if "mounts_of w n = Some k" for n k
  proof (cases "k = m")
    case True
    with that assms(2,3) have "n = client_mount w c" using wf_mounts_inj by blast
    with True new show ?thesis by simp
  next
    case False
    with wf_mount_ok [OF assms(2) that] show ?thesis by (auto simp: mount_ok_def w'(1))
  qed
  with assms(2) show "world_wf w'" by (simp add: world_wf_def w'(1))
  show "connected w' d \<longleftrightarrow> connected w d \<or> d = c"
    using assms(3) cc r(1) by (auto simp: connected_def w'(1) cc.get_add)
qed

lemma AddClient_shape:
  assumes "AddClient E c w = Done w' e"
  shows "w' = upd_man (\<lambda>a. a\<lparr>man_Mounts := man_Mounts (w_man w'), man_MetaChan := man_MetaChan (w_man w')\<rparr>)
           (w\<lparr>w_mounts := w_mounts w', w_next_mount := w_next_mount w', w_lib := w_lib w'\<rparr>)"
  using assms
proof (cases rule: AddClient_cases)
  case first
  then show ?thesis by (elim add_first_Done) (simp add: upd_man_def)
next
  case config
  then show ?thesis by (simp add: upd_man_def)
next
  case (more m)
  then show ?thesis by (simp add: add_more_Done(1) [OF more(2)] upd_man_def upd_mount_def)
qed

lemma AddClient_shape_ex:
  assumes "AddClient E c w = Done w' e"
  shows "\<exists>ms mm mts nm l. w' = upd_man (\<lambda>a. a\<lparr>man_Mounts := mm, man_MetaChan := ms\<rparr>)
           (w\<lparr>w_mounts := mts, w_next_mount := nm, w_lib := l\<rparr>)"
  using AddClient_shape [OF assms] by blast

lemma AddClient_frame:
  assumes "AddClient E c w = Done w' e"
  shows "w_cids w' = w_cids w" "w_clients w' = w_clients w" "w_hs w' = w_hs w"
    "w_data w' = w_data w" "w_err w' = w_err w" "w_readers w' = w_readers w"
    "w_next_client w' = w_next_client w" "w_next_cid w' = w_next_cid w"
    "man_Receiver (w_man w') = man_Receiver (w_man w)" "w_gen w' = w_gen w"
    "w_delayed w' = w_delayed w" "w_closed w' = w_closed w"
    "man_MountCollector (w_man w') = man_MountCollector (w_man w)"
  using AddClient_shape_ex [OF assms] by auto

section \<open>The events keep the invariant\<close>

lemma on_client_cases:
  assumes "on_client E c w = Done w' u" and "world_wf w" and "room w c"
  obtains (accepted) w1 where "AddClient E c w = Done w1 False" "world_wf w1"
      "\<And>d. connected w1 d \<longleftrightarrow> connected w d \<or> d = c"
      "HandleClientConnect (client_mount w c) c (w_hs w) = Done (w_hs w') ()"
      "w' = w1\<lparr>w_hs := w_hs w', w_readers := w_readers w @ [c]\<rparr>"
  | (rejected) w1 where "AddClient E c w = Done w1 True" "world_wf w1"
      "\<And>d. connected w1 d \<longleftrightarrow> connected w d \<or> d = c" "RemoveClient c w1 = Done w' ()"
proof -
  from assms(1) obtain w1 e where a: "AddClient E c w = Done w1 e"
    and rest: "(if e then RemoveClient c w1
          else obind (on_handlers (HandleClientConnect (client_mount w1 c) c) w1)
                 (\<lambda>w2 _. Done (w2\<lparr>w_readers := w_readers w2 @ [c]\<rparr>) ())) = Done w' ()"
    by (auto simp: on_client_def outcome_simps)
  note fr = AddClient_frame [OF a]
  have no_config: "\<not> (e \<and> mounts_of w1 (client_mount w1 c) = None)"
    using rest by (auto simp: RemoveClient_def split: option.splits)
  have w1: "world_wf w1 \<and> (\<forall>d. connected w1 d \<longleftrightarrow> connected w d \<or> d = c)"
    using a
  proof (cases rule: AddClient_cases)
    case first
    then show ?thesis using assms(2) add_first_wf by blast
  next
    case config
    with no_config show ?thesis by simp
  next
    case (more m)
    then show ?thesis using assms(2,3) add_more_wf by blast
  qed
  show ?thesis
  proof (cases e)
    case True
    with a w1 rest rejected show ?thesis by auto
  next
    case False
    with rest have "HandleClientConnect (client_mount w c) c (w_hs w) = Done (w_hs w') ()"
      and "w' = w1\<lparr>w_hs := w_hs w', w_readers := w_readers w @ [c]\<rparr>"
      by (auto simp: outcome_simps on_handlers_def fr split: outcome.splits)
    with False a w1 accepted show ?thesis by auto
  qed
qed

lemma on_client_wf:
  assumes "on_client E c w = Done w' u" and "world_wf w" and "room w c"
  shows "world_wf w'"
  using assms
proof (cases rule: on_client_cases)
  case (accepted w1)
  define v where "v = w1\<lparr>w_hs := w_hs w', w_readers := w_readers w @ [c]\<rparr>"
  from accepted(2) have "world_wf v" by (rule wf_cong) (simp_all add: v_def)
  with accepted(5) show ?thesis by (simp add: v_def)
next
  case (rejected w1)
  then show ?thesis using RemoveClient_wf(1) by blast
qed

lemma HandleData_frame:
  assumes "HandleData E m d w = Done w' u"
  shows "w' = w\<lparr>w_lib := w_lib w'\<rparr>"
  using assms
  by (auto simp: HandleData_def send_data_def split: prod.splits bool.splits option.splits
      outcome.splits if_splits)

lemma on_data_frame:
  assumes "on_data E d w = Done w' u"
  shows "w' = w\<lparr>w_lib := w_lib w'\<rparr>"
  using assms by (auto simp: on_data_def intro: HandleData_frame split: option.splits if_splits)

lemma on_meta_frame:
  assumes "on_meta E p w = Done w' u"
  shows "w' = upd_man (\<lambda>a. a\<lparr>man_metaStore := man_metaStore (w_man w')\<rparr>)
           (w\<lparr>w_lib := w_lib w', w_clients := w_clients w', w_delayed := w_delayed w'\<rparr>)"
    and "client_id w' c = client_id w c"
  using assms
  by (auto simp: on_meta_def Let_def set_metadata_def HandleMetadata_def upd_man_def
      split: option.splits if_splits)

lemma on_collect_frame:
  assumes "on_collect E m w = Done w' u"
  shows "w' = (if 0 < sint (cc_Length (mnt_Clients (w_mounts w m))) then w
           else upd_man (\<lambda>a. a\<lparr>man_Mounts := gomap_del (mnt_Mount (w_mounts w m)) (man_Mounts a)\<rparr>)
             (w\<lparr>w_lib := w_lib w', w_closed := w_closed w'\<rparr>))"
  using assms by (auto simp: on_collect_def Let_def DestroyMount_def upd_man_def split: if_splits)

lemma on_collect_man:
  assumes "on_collect E m w = Done w' u"
  shows "w_mounts w' = w_mounts w" "w_cids w' = w_cids w" "w_clients w' = w_clients w"
    "w_next_mount w' = w_next_mount w" "w_hs w' = w_hs w"
    "man_Mounts (w_man w') = (if 0 < sint (cc_Length (mnt_Clients (w_mounts w m))) then man_Mounts (w_man w)
       else gomap_del (mnt_Mount (w_mounts w m)) (man_Mounts (w_man w)))"
    "w_data w' = w_data w" "w_err w' = w_err w" "w_readers w' = w_readers w"
    "w_next_client w' = w_next_client w" "w_next_cid w' = w_next_cid w"
    "man_Receiver (w_man w') = man_Receiver (w_man w)"
  using assms by (auto simp: on_collect_def Let_def split: if_splits)

lemma on_collect_wf:
  assumes "on_collect E m w = Done w' u" and "world_wf w"
  shows "world_wf w'"
  using assms(2) by (auto simp: world_wf_def mount_ok_def on_collect_man [OF assms(1)] gomap_simps
      split: if_splits)

text \<open>Which events the invariant needs a condition for.\<close>

fun event_ok :: "'l world \<Rightarrow> event \<Rightarrow> bool" where
  "event_ok w (EvErr e) = connected w (ep_Client e)"
| "event_ok w (EvClient c) = room w c"
| "event_ok w _ = True"

lemma ProcessClients_wf:
  assumes "ProcessClients E ev w = Done w' u" and "world_wf w" and "event_ok w ev"
  shows "world_wf w'"
proof (cases ev)
  case (EvData d)
  with assms(1) have w': "w' = w\<lparr>w_lib := w_lib w'\<rparr>" by (simp add: on_data_frame)
  from assms(2) have "world_wf (w\<lparr>w_lib := w_lib w'\<rparr>)" by (rule wf_cong) simp_all
  with w' show ?thesis by simp
next
  case (EvErr e)
  with assms show ?thesis
    by (auto simp: on_err_def outcome_simps split: option.splits dest: RemoveClient_wf(1))
next
  case (EvClient c)
  with assms show ?thesis by (auto intro: on_client_wf)
next
  case (EvCollect m)
  with assms show ?thesis by (auto intro: on_collect_wf)
next
  case (EvMeta p)
  with assms(1) have m: "on_meta E p w = Done w' ()" by simp
  let ?v = "upd_man (\<lambda>a. a\<lparr>man_metaStore := man_metaStore (w_man w')\<rparr>)
    (w\<lparr>w_lib := w_lib w', w_clients := w_clients w', w_delayed := w_delayed w'\<rparr>)"
  from assms(2) have "world_wf ?v" by (rule wf_cong) (simp_all add: on_meta_frame(2) [OF m])
  with on_meta_frame(1) [OF m] show ?thesis by simp
next
  case EvTick
  with assms(1) have "w' = upd_man (\<lambda>a. a\<lparr>man_metaStore := []\<rparr>) w" by (simp add: on_tick_def)
  with assms(2) show ?thesis by (elim wf_cong) auto
qed

end
