(* ===== verification/LiveSpec.thy ===== *)
theory LiveSpec
  imports Invariant
begin

text \<open>
  What a mount promises its sources, without queues of pointers and stale entries: one source is on
  the air, the others wait in line. \<open>line\<close> reads this picture off the server's state; joining and leaving
  in the code are the two operations on it.
\<close>

section \<open>The specification\<close>

record line =
  on_air :: "cid_ptr option"
  in_line :: "cid_ptr list"

definition line_join :: "cid_ptr \<Rightarrow> line \<Rightarrow> line" where
  "line_join i l = l\<lparr>in_line := in_line l @ [i]\<rparr>"

text \<open>
  When the source on the air leaves, the next in line takes over; if there is none the mount keeps
  its old identifier. Anyone else just leaves the line.
\<close>

definition line_leave :: "cid_ptr \<Rightarrow> line \<Rightarrow> line" where
  "line_leave i l =
     (if on_air l = Some i then
        (case in_line l of
           [] \<Rightarrow> l
         | j # r \<Rightarrow> \<lparr>on_air = Some j, in_line = filter (\<lambda>k. k \<noteq> i) r\<rparr>)
      else l\<lparr>in_line := filter (\<lambda>k. k \<noteq> i) (in_line l)\<rparr>)"

definition line_of :: "'l world \<Rightarrow> mount_ptr \<Rightarrow> line" where
  "line_of w m = \<lparr>on_air = mnt_Active (w_mounts w m), in_line = waiting w m\<rparr>"

section \<open>The code refines it\<close>

text \<open>With a well-formed mount, waiting is being in the queue and in the container.\<close>

lemma waiting_wf:
  assumes "world_wf w" and "mounts_of w n = Some m"
  shows "waiting w m = filter (\<lambda>i. GetByID (mnt_Clients (w_mounts w m)) i \<noteq> None) (mnt_ClientQueue (w_mounts w m))"
proof -
  from wf_mount_ok [OF assms] have "\<And>i c. GetByID (mnt_Clients (w_mounts w m)) i = Some c \<Longrightarrow> client_id w c = i"
    by (auto simp: mount_ok_def)
  then show ?thesis unfolding waiting_def by (intro filter_cong) auto
qed

lemma waiting_drop:
  assumes "world_wf w" and "mounts_of w (client_mount w c) = Some m" and "drop_client m c w = Done w' u"
  shows "waiting w' m = filter (\<lambda>k. k \<noteq> client_id w c) (waiting w m)"
    and "mnt_Active (w_mounts w' m) = mnt_Active (w_mounts w m)"
proof -
  note d = drop_client_Done [OF assms(3)]
  have cc: "cc_wf (mnt_Clients (w_mounts w m))" using wf_mount_ok [OF assms(1,2)] by (simp add: mount_ok_def)
  then show "waiting w' m = filter (\<lambda>k. k \<noteq> client_id w c) (waiting w m)"
    by (auto simp: waiting_def d drop_mount_def container_simps intro!: filter_cong)
  show "mnt_Active (w_mounts w' m) = mnt_Active (w_mounts w m)"
    by (simp add: d drop_mount_def)
qed

text \<open>One turn of the line at the switch, before the leaving client is dropped.\<close>

lemma NextLiveClient_line:
  assumes "NextLiveClient m w = Done v u" and "mnt_Active (w_mounts w m) = Some a"
  shows "case waiting w m of
      [] \<Rightarrow> line_of v m = line_of w m
    | j # r \<Rightarrow> line_of v m = \<lparr>on_air = Some j, in_line = r\<rparr>"
proof (cases "waiting w m")
  case Nil
  with NextLiveClient_none [OF Nil] assms show ?thesis
    by (auto simp: line_of_def waiting_def)
next
  case (Cons j r)
  from NextLiveClient_some [OF Cons] obtain q c where
    c: "GetByID (mnt_Clients (w_mounts w m)) j = Some c" "client_id w c = j"
    and q: "filter (\<lambda>j. \<exists>c. GetByID (mnt_Clients (w_mounts w m)) j = Some c \<and> client_id w c = j) q = r"
    and nl: "NextLiveClient m w = SwapLiveClient m c (upd_mount m (\<lambda>mt. mt\<lparr>mnt_ClientQueue := q\<rparr>) w)"
    by blast
  let ?v = "upd_mount m (\<lambda>mt. mt\<lparr>mnt_ClientQueue := q\<rparr>) w"
  from nl assms(1) have s: "SwapLiveClient m c ?v = Done v u" by simp
  note fr = live_frameD [OF live_frame_swap [OF s]]
  have "waiting v m = r"
    unfolding waiting_def using q by (simp add: SwapLiveClient_Done(2) [OF s] fr)
  with SwapLiveClient_Done(1) [OF s] c Cons show ?thesis by (simp add: line_of_def)
qed

lemma leave_line:
  assumes "RemoveClient c w = Done w' u" and "world_wf w" and m: "mounts_of w (client_mount w c) = Some m"
  shows "line_of w' m = line_leave (client_id w c) (line_of w m)"
proof -
  from assms(1) obtain m' v where "mounts_of w (client_mount w c) = Some m'" and f: "live_frame m' w v"
    and d: "drop_client m' c v = Done w' ()"
    and v: "if mnt_Active (w_mounts w m') = Some (client_id w c) then NextLiveClient m' w = Done v () else v = w"
    by (elim RemoveClient_split)
  with m have [simp]: "m' = m" by simp
  note fr = live_frameD [OF f]
  have wv: "world_wf v" using f assms(2) by (rule live_frame_wf)
  have "mounts_of v (client_mount v c) = Some m" using m by (simp add: fr)
  note dr = waiting_drop [OF wv this d [unfolded \<open>m' = m\<close>]]
  have l': "line_of w' m = (line_of v m)\<lparr>in_line := filter (\<lambda>k. k \<noteq> client_id w c) (in_line (line_of v m))\<rparr>"
    using dr by (simp add: line_of_def fr)
  show ?thesis
  proof (cases "mnt_Active (w_mounts w m) = Some (client_id w c)")
    case True
    with v have "NextLiveClient m w = Done v ()" by simp
    from NextLiveClient_line [OF this True] l' True show ?thesis
      by (auto simp: line_leave_def line_of_def split: list.splits)
  next
    case False
    with v l' show ?thesis by (simp add: line_leave_def line_of_def)
  qed
qed

lemma join_line:
  assumes "AddClient E c w = Done w' e" and "world_wf w" and m: "mounts_of w (client_mount w c) = Some m"
    and "room w c"
  shows "e \<longleftrightarrow> QUEUE_LIMIT \<le> length (mnt_ClientQueue (w_mounts w m))"
    and "\<not> e \<Longrightarrow> client_id w c \<notin> set (mnt_ClientQueue (w_mounts w m)) \<Longrightarrow>
         line_of w' m = line_join (client_id w c) (line_of w m)"
proof -
  from assms(1) m have a: "add_more m c w = Done w' e"
    by (cases rule: AddClient_cases) auto
  note d = add_more_Done [OF a]
  show "e \<longleftrightarrow> QUEUE_LIMIT \<le> length (mnt_ClientQueue (w_mounts w m))" by (rule d(2))
  assume e: "\<not> e" and fresh: "client_id w c \<notin> set (mnt_ClientQueue (w_mounts w m))"
  have cc: "cc_wf (mnt_Clients (w_mounts w m))" using wf_mount_ok [OF assms(2) m] by (simp add: mount_ok_def)
  have "waiting w' m = waiting w m @ [client_id w c]"
    using e fresh cc by (auto simp: waiting_def d(1) container_simps intro!: filter_cong)
  then show "line_of w' m = line_join (client_id w c) (line_of w m)"
    by (simp add: line_of_def line_join_def d(1))
qed

lemma first_line:
  assumes "AddClient E c w = Done w' False" and "mounts_of w (client_mount w c) = None"
  shows "\<exists>m. mounts_of w' (client_mount w c) = Some m \<and>
    line_of w' m = \<lparr>on_air = Some (client_id w c), in_line = []\<rparr>"
proof -
  from assms have "add_first E c w = Done w' False" by (cases rule: AddClient_cases) auto
  then show ?thesis
    by (rule add_first_Done) (auto simp: line_of_def waiting_def gomap_simps)
qed

text \<open>A refused source leaves the line as it was; a new mount is refused for the configuration only.\<close>

lemma refused_line:
  assumes "add_more m c w = Done w' True" and "world_wf w" and m: "mounts_of w (client_mount w c) = Some m"
    and "client_id w c \<notin> set (mnt_ClientQueue (w_mounts w m))"
  shows "line_of w' m = line_of w m"
proof -
  note d = add_more_Done [OF assms(1)]
  have cc: "cc_wf (mnt_Clients (w_mounts w m))" using wf_mount_ok [OF assms(2) m] by (simp add: mount_ok_def)
  have "waiting w' m = waiting w m"
    using assms(4) cc by (auto simp: waiting_def d(1) container_simps intro!: filter_cong)
  then show ?thesis by (simp add: line_of_def d(1))
qed

lemma first_refused:
  assumes "AddClient E c w = Done w' refused" and "mounts_of w (client_mount w c) = None"
  shows "refused \<longleftrightarrow> (\<exists>err. CreateShoutMap (e_Child E) (e_Root E) = Inl err)"
    and "refused \<Longrightarrow> w' = w"
proof -
  have made: "\<exists>opts. CreateShoutMap (e_Child E) (e_Root E) = Inr opts" if "add_first E c w = Done w' e" for e
    using that by (auto simp: add_first_def NewMount_def outcome_simps split: sum.splits)
  have "(refused \<longleftrightarrow> (\<exists>err. CreateShoutMap (e_Child E) (e_Root E) = Inl err)) \<and> (refused \<longrightarrow> w' = w)"
    using assms(1)
  proof (cases rule: AddClient_cases)
    case first
    then have "\<not> refused" by (elim add_first_Done)
    with made [OF first(2)] show ?thesis by auto
  next
    case config
    from assms(1) config have "\<exists>v m. add_first E c w = Panic v m"
      by (cases "add_first E c w") (auto simp: AddClient_def elim: add_first_Done)
    then have "\<exists>err. CreateShoutMap (e_Child E) (e_Root E) = Inl err"
      by (auto simp: add_first_def NewMount_def outcome_simps Let_def send_meta_def
          split: sum.splits prod.splits option.splits if_splits)
    with config show ?thesis by simp
  next
    case (more m)
    with assms(2) show ?thesis by simp
  qed
  then show "refused \<longleftrightarrow> (\<exists>err. CreateShoutMap (e_Child E) (e_Root E) = Inl err)" and "refused \<Longrightarrow> w' = w"
    by blast+
qed

text \<open>The successor's metadata goes into the loop's channel.\<close>

lemma leave_announces:
  assumes "RemoveClient c w = Done w' u" and m: "mounts_of w (client_mount w c) = Some m"
    and a: "mnt_Active (w_mounts w m) = Some (client_id w c)" and "waiting w m = i # r"
    and "i \<noteq> client_id w c"
  shows "\<exists>d. GetByID (mnt_Clients (w_mounts w m)) i = Some d \<and>
    man_MetaChan (w_man w') = man_MetaChan (w_man w) @
      [\<lparr>mp_Data = cl_Metadata (w_clients w d), mp_ID = i, mp_Seen = False\<rparr>]"
proof -
  from assms(1) obtain m' v where m': "mounts_of w (client_mount w c) = Some m'"
    and d: "drop_client m' c v = Done w' ()"
    and v: "if mnt_Active (w_mounts w m') = Some (client_id w c) then NextLiveClient m' w = Done v () else v = w"
    by (elim RemoveClient_split)
  from m m' have "m' = m" by simp
  with v a have nl: "NextLiveClient m w = Done v ()" by simp
  from NextLiveClient_some [OF assms(4)] obtain q e where
    e: "GetByID (mnt_Clients (w_mounts w m)) i = Some e" "client_id w e = i"
    and nl': "NextLiveClient m w = SwapLiveClient m e (upd_mount m (\<lambda>mt. mt\<lparr>mnt_ClientQueue := q\<rparr>) w)"
    by blast
  from nl nl' have s: "SwapLiveClient m e (upd_mount m (\<lambda>mt. mt\<lparr>mnt_ClientQueue := q\<rparr>) w) = Done v ()" by simp
  have "man_MetaChan (w_man w') = man_MetaChan (w_man v)" using drop_client_Done [OF d] by simp
  with SwapLiveClient_Done(3) [OF s] a e assms(5) show ?thesis by auto
qed

end
