(* ===== verification/Metadata.thy ===== *)
theory Metadata
  imports LiveSpec
begin

text \<open>
  The way of a piece of metadata through the server, and the panics the loop can end in: lemmas on
  \<open>on_meta\<close> for each case of the packet's sender, and on what makes an operation panic.
\<close>

section \<open>Where a packet goes\<close>

text \<open>The client the loop finds for a hash is one of the mount's with that hash; there is one if any has it.\<close>

lemma GetByHash_Some:
  assumes "mset (ord (cc_byID cc)) = mset (cc_byID cc)" and "cc_wf cc"
    and "GetByHash ord cids cc h = Some c"
  shows "\<exists>i. GetByID cc i = Some c \<and> Hash (cids i) = h"
proof -
  from assms(3) obtain e where f: "find (\<lambda>e. Hash (cids (fst e)) = h) (ord (cc_byID cc)) = Some e"
    and c: "snd e = c" by (auto simp: GetByHash_def)
  from f have "e \<in> set (ord (cc_byID cc))" and h: "Hash (cids (fst e)) = h"
    by (auto simp: find_Some_iff)
  then have "e \<in> set (cc_byID cc)" using assms(1) by (metis mset_eq_setD)
  with assms(2) c h show ?thesis
    by (intro exI [of _ "fst e"]) (auto simp: GetByID_def cc_wf_def gomap_get_in)
qed

lemma GetByHash_None:
  assumes "mset (ord (cc_byID cc)) = mset (cc_byID cc)" and "cc_wf cc"
    and "GetByHash ord cids cc h = None"
  shows "GetByID cc i = Some c \<Longrightarrow> Hash (cids i) \<noteq> h"
proof -
  assume "GetByID cc i = Some c"
  with assms(1,2) have "(i, c) \<in> set (ord (cc_byID cc))"
    by (metis GetByID_def cc_wf_def gomap_get_in mset_eq_setD)
  with assms(3) show ?thesis by (auto simp: GetByHash_def find_None_iff)
qed

text \<open>With hashes that tell a mount's clients apart, the client found is the one meant.\<close>

definition hashes_distinct :: "'l world \<Rightarrow> mount_ptr \<Rightarrow> bool" where
  "hashes_distinct w m \<longleftrightarrow>
     (\<forall>(i, c) \<in> set (cc_byID (mnt_Clients (w_mounts w m))).
        \<forall>(j, d) \<in> set (cc_byID (mnt_Clients (w_mounts w m))).
          Hash (w_cids w i) = Hash (w_cids w j) \<longrightarrow> i = j)"

lemma GetByHash_exact:
  assumes "env_ok E" and "mount_ok w n m" and "hashes_distinct w m"
    and i: "GetByID (mnt_Clients (w_mounts w m)) i = Some c"
  shows "GetByHash (e_id_order E) (w_cids w) (mnt_Clients (w_mounts w m)) (Hash (w_cids w i)) = Some c"
proof -
  let ?cc = "mnt_Clients (w_mounts w m)"
  have ord: "mset (e_id_order E (cc_byID ?cc)) = mset (cc_byID ?cc)" using assms(1) by (simp add: env_ok_def)
  have wf: "cc_wf ?cc" using assms(2) by (simp add: mount_ok_def)
  show ?thesis
  proof (cases "GetByHash (e_id_order E) (w_cids w) ?cc (Hash (w_cids w i))")
    case None
    from GetByHash_None [OF ord wf None i] show ?thesis by simp
  next
    case (Some d)
    from GetByHash_Some [OF ord wf Some] obtain j where j: "GetByID ?cc j = Some d"
      and h: "Hash (w_cids w j) = Hash (w_cids w i)" by blast
    have "(j, d) \<in> set (cc_byID ?cc)" "(i, c) \<in> set (cc_byID ?cc)"
      using i j wf by (auto simp: GetByID_def cc_wf_def gomap_get_in)
    with assms(3) h have "j = i" unfolding hashes_distinct_def by blast
    with i j Some show ?thesis by simp
  qed
qed

section \<open>Panics\<close>

lemma SwapLiveClient_no_panic [simp]: "SwapLiveClient m c w \<noteq> Panic w' msg"
  by (simp add: SwapLiveClient_def send_meta_def Let_def)

lemma NextLiveClient_no_panic [simp]: "NextLiveClient m w \<noteq> Panic w' msg"
proof (cases "waiting w m")
  case Nil
  then show ?thesis by (simp add: NextLiveClient_none)
next
  case (Cons i r)
  from NextLiveClient_some [OF this] SwapLiveClient_no_panic show ?thesis by metis
qed

lemma drop_client_no_panic [simp]: "drop_client m c w \<noteq> Panic w' msg"
  by (auto simp: drop_client_def Let_def outcome_simps on_handlers_def HandleClientDisconnect_def
      send_collector_def split: outcome.splits if_splits option.splits)

lemma RemoveClient_Panic: "RemoveClient c w = Panic w' msg \<Longrightarrow> mounts_of w (client_mount w c) = None"
  by (auto simp: RemoveClient_def outcome_simps split: option.splits if_splits)

lemma on_client_Panic:
  assumes "on_client E c w = Panic w' msg"
  shows "\<exists>err. CreateShoutMap (e_Child E) (e_Root E) = Inl err"
proof -
  have a: "AddClient E c w \<noteq> Panic v m" for v m
    by (cases "case gomap_get (man_Mounts (w_man w)) (client_mount w c) of None \<Rightarrow> add_first E c w
        | Some m \<Rightarrow> add_more m c w") (simp_all add: AddClient_def)
  have h: "on_handlers (HandleClientConnect n c) v \<noteq> Panic u m" for n v u m
    by (auto simp: on_handlers_def HandleClientConnect_def Let_def split: outcome.splits if_splits)
  from assms a h obtain w1 where add: "AddClient E c w = Done w1 True" and "RemoveClient c w1 = Panic w' msg"
    unfolding on_client_def obind_Panic_iff by (auto simp: outcome_simps h split: if_splits)
  from RemoveClient_Panic [OF this(2)] have none: "mounts_of w1 (client_mount w1 c) = None" .
  from add show ?thesis
  proof (cases rule: AddClient_cases)
    case first
    then show ?thesis by (auto elim: add_first_Done)
  next
    case config
    from add config(1) have "\<exists>v m. add_first E c w = Panic v m"
      by (cases "add_first E c w") (auto simp: AddClient_def elim: add_first_Done)
    then show ?thesis
      by (auto simp: add_first_def NewMount_def outcome_simps Let_def send_meta_def
          split: sum.splits prod.splits option.splits if_splits)
  next
    case (more m)
    with none show ?thesis by (simp add: add_more_Done(1) [OF more(2)])
  qed
qed

lemma HandleData_Panic:
  "HandleData E m d w = Panic w' msg \<Longrightarrow>
     msg = ''We are insane.'' \<or> msg = ''Out of memory'' \<or> d = []"
  by (auto simp: HandleData_def send_data_def Send_def
      split: prod.splits bool.splits option.splits outcome.splits if_splits)

end
