(* ===== verification/Status.thy ===== *)
theory Status
  imports Gostd
begin

text \<open>
  \<open>http/status.go\<close>: the status codes and their texts. Both are kept in the order of the source; an
  absent key of the map reads as the empty text.
\<close>

section \<open>The codes\<close>

abbreviation StatusContinue :: int where "StatusContinue \<equiv> 100"
abbreviation StatusSwitchingProtocols :: int where "StatusSwitchingProtocols \<equiv> 101"
abbreviation StatusOK :: int where "StatusOK \<equiv> 200"
abbreviation StatusCreated :: int where "StatusCreated \<equiv> 201"
abbreviation StatusAccepted :: int where "StatusAccepted \<equiv> 202"
abbreviation StatusNonAuthoritativeInfo :: int where "StatusNonAuthoritativeInfo \<equiv> 203"
abbreviation StatusNoContent :: int where "StatusNoContent \<equiv> 204"
abbreviation StatusResetContent :: int where "StatusResetContent \<equiv> 205"
abbreviation StatusPartialContent :: int where "StatusPartialContent \<equiv> 206"
abbreviation StatusMultipleChoices :: int where "StatusMultipleChoices \<equiv> 300"
abbreviation StatusMovedPermanently :: int where "StatusMovedPermanently \<equiv> 301"
abbreviation StatusFound :: int where "StatusFound \<equiv> 302"
abbreviation StatusSeeOther :: int where "StatusSeeOther \<equiv> 303"
abbreviation StatusNotModified :: int where "StatusNotModified \<equiv> 304"
abbreviation StatusUseProxy :: int where "StatusUseProxy \<equiv> 305"
abbreviation StatusTemporaryRedirect :: int where "StatusTemporaryRedirect \<equiv> 307"
abbreviation StatusBadRequest :: int where "StatusBadRequest \<equiv> 400"
abbreviation StatusUnauthorized :: int where "StatusUnauthorized \<equiv> 401"
abbreviation StatusPaymentRequired :: int where "StatusPaymentRequired \<equiv> 402"
abbreviation StatusForbidden :: int where "StatusForbidden \<equiv> 403"
abbreviation StatusNotFound :: int where "StatusNotFound \<equiv> 404"
abbreviation StatusMethodNotAllowed :: int where "StatusMethodNotAllowed \<equiv> 405"
abbreviation StatusNotAcceptable :: int where "StatusNotAcceptable \<equiv> 406"
abbreviation StatusProxyAuthRequired :: int where "StatusProxyAuthRequired \<equiv> 407"
abbreviation StatusRequestTimeout :: int where "StatusRequestTimeout \<equiv> 408"
abbreviation StatusConflict :: int where "StatusConflict \<equiv> 409"
abbreviation StatusGone :: int where "StatusGone \<equiv> 410"
abbreviation StatusLengthRequired :: int where "StatusLengthRequired \<equiv> 411"
abbreviation StatusPreconditionFailed :: int where "StatusPreconditionFailed \<equiv> 412"
abbreviation StatusRequestEntityTooLarge :: int where "StatusRequestEntityTooLarge \<equiv> 413"
abbreviation StatusRequestURITooLong :: int where "StatusRequestURITooLong \<equiv> 414"
abbreviation StatusUnsupportedMediaType :: int where "StatusUnsupportedMediaType \<equiv> 415"
abbreviation StatusRequestedRangeNotSatisfiable :: int where "StatusRequestedRangeNotSatisfiable \<equiv> 416"
abbreviation StatusExpectationFailed :: int where "StatusExpectationFailed \<equiv> 417"
abbreviation StatusTeapot :: int where "StatusTeapot \<equiv> 418"
abbreviation StatusInternalServerError :: int where "StatusInternalServerError \<equiv> 500"
abbreviation StatusNotImplemented :: int where "StatusNotImplemented \<equiv> 501"
abbreviation StatusBadGateway :: int where "StatusBadGateway \<equiv> 502"
abbreviation StatusServiceUnavailable :: int where "StatusServiceUnavailable \<equiv> 503"
abbreviation StatusGatewayTimeout :: int where "StatusGatewayTimeout \<equiv> 504"
abbreviation StatusHTTPVersionNotSupported :: int where "StatusHTTPVersionNotSupported \<equiv> 505"

section \<open>The texts\<close>

definition statusText :: "(int, string) gomap" where
  "statusText =
    [(StatusContinue, ''Continue''),
     (StatusSwitchingProtocols, ''Switching Protocols''),
     (StatusOK, ''OK''),
     (StatusCreated, ''Created''),
     (StatusAccepted, ''Accepted''),
     (StatusNonAuthoritativeInfo, ''Non-Authoritative Information''),
     (StatusNoContent, ''No Content''),
     (StatusResetContent, ''Reset Content''),
     (StatusPartialContent, ''Partial Content''),
     (StatusMultipleChoices, ''Multiple Choices''),
     (StatusMovedPermanently, ''Moved Permanently''),
     (StatusFound, ''Found''),
     (StatusSeeOther, ''See Other''),
     (StatusNotModified, ''Not Modified''),
     (StatusUseProxy, ''Use Proxy''),
     (StatusTemporaryRedirect, ''Temporary Redirect''),
     (StatusBadRequest, ''Bad Request''),
     (StatusUnauthorized, ''Unauthorized''),
     (StatusPaymentRequired, ''Payment Required''),
     (StatusForbidden, ''Forbidden''),
     (StatusNotFound, ''Not Found''),
     (StatusMethodNotAllowed, ''Method Not Allowed''),
     (StatusNotAcceptable, ''Not Acceptable''),
     (StatusProxyAuthRequired, ''Proxy Authentication Required''),
     (StatusRequestTimeout, ''Request Timeout''),
     (StatusConflict, ''Conflict''),
     (StatusGone, ''Gone''),
     (StatusLengthRequired, ''Length Required''),
     (StatusPreconditionFailed, ''Precondition Failed''),
     (StatusRequestEntityTooLarge, ''Request Entity Too Large''),
     (StatusRequestURITooLong, ''Request URI Too Long''),
     (StatusUnsupportedMediaType, ''Unsupported Media Type''),
     (StatusRequestedRangeNotSatisfiable, ''Requested Range Not Satisfiable''),
     (StatusExpectationFailed, ''Expectation Failed''),
     (StatusTeapot, ''I'' @ [CHR 0x27] @ ''m a teapot''),
     (StatusInternalServerError, ''Internal Server Error''),
     (StatusNotImplemented, ''Not Implemented''),
     (StatusBadGateway, ''Bad Gateway''),
     (StatusServiceUnavailable, ''Service Unavailable''),
     (StatusGatewayTimeout, ''Gateway Timeout''),
     (StatusHTTPVersionNotSupported, ''HTTP Version Not Supported'')]"

definition StatusText :: "int \<Rightarrow> string" where
  "StatusText code = (case gomap_get statusText code of None \<Rightarrow> [] | Some t \<Rightarrow> t)"

text \<open>The known codes have three digits, each has a text of its own, and every other code has none.\<close>

lemma statusText_wf: "gomap_wf statusText"
  by (simp add: statusText_def gomap_wf_def)

lemma statusText_range: "(c, t) \<in> set statusText \<Longrightarrow> 100 \<le> c \<and> c \<le> 505 \<and> t \<noteq> []"
  by (auto simp: statusText_def)

lemma statusText_texts_distinct: "distinct (map snd statusText)"
  by (simp add: statusText_def)

end
