(* ===== verification/Reply.thy ===== *)
theory Reply
  imports Request Status
begin

text \<open>
  What handlers do to the interface \<open>ResponseWriter\<close> of \<open>http/server.go\<close>, and the two helpers that
  reply with an error.
\<close>

text \<open>
  What a handler does to its \<open>ResponseWriter\<close>, as the list of its calls. A handler is a function on
  the server's state that returns these calls, or panics, or blocks.
\<close>

datatype rw_call =
    RW_Set string string | RW_WriteHeader int | RW_Write string | RW_Flush | RW_Hijack

type_synonym 's handler = "'s \<Rightarrow> ('s, rw_call list) outcome"

text \<open>\<open>http.Error\<close> of \<open>http/server.go\<close>.\<close>

definition Error :: "string \<Rightarrow> int \<Rightarrow> rw_call list" where
  "Error error code =
     [RW_Set ''Content-Type'' ''text/plain; charset=utf-8'', RW_WriteHeader code,
      RW_Write (error @ ''\<newline>'')]"

definition NotFound :: "rw_call list" where
  "NotFound = Error ''404 page not found'' 404"

end
