(* ===== verification/Auth.thy ===== *)
theory Auth
  imports Client Reply
begin

text \<open>
  \<open>server/auth.go\<close>: looking up a user, logging a client in, and the wrapper that lets a request through
  to its handler only with sufficient permissions. The database and the bcrypt package are not part of
  the repository; they are fields of the argument \<open>A\<close>, with the \<open>Authentication\<close> switch of
  \<open>config/config.go\<close>.
\<close>

section \<open>The services behind a login\<close>

text \<open>
  \<open>db_Begin\<close>: a transaction can be started. \<open>db_query u\<close>: the row (password hash, privileges) the
  prepared statement returns for \<open>u\<close>, \<open>None\<close> for no row or a scan error. \<open>bcrypt h p\<close>:
  \<open>CompareHashAndPassword\<close> accepts. \<open>unicode_lower\<close>: \<open>strings.ToLower\<close> beyond ASCII.
\<close>

record auth_env =
  Authentication :: bool
  db_Begin :: bool
  db_query :: "string \<Rightarrow> (string \<times> int) option"
  bcrypt :: "string \<Rightarrow> string \<Rightarrow> bool"
  unicode_lower :: "string \<Rightarrow> string"

section \<open>Login\<close>

definition FetchUser :: "auth_env \<Rightarrow> string \<Rightarrow> string \<times> Permission \<times> int option" where
  "FetchUser A user =
     (let user = ToLower (unicode_lower A) user
      in if \<not> db_Begin A then ([], PERM_NONE, Some LOGIN_ERR_REJECTED)
         else (case db_query A user of
                 None \<Rightarrow> ([], PERM_NONE, Some LOGIN_ERR_REJECTED)
               | Some (hash, tmpPerm) \<Rightarrow> (hash, NewPermission tmpPerm, None)))"

definition LoginClient :: "auth_env \<Rightarrow> ClientID \<Rightarrow> ClientID \<times> int option" where
  "LoginClient A client =
     (case FetchUser A (cid_Name client) of
        (hash, perm, Some err) \<Rightarrow> (client, Some LOGIN_ERR_REJECTED)
      | (hash, perm, None) \<Rightarrow>
          if bcrypt A hash (cid_Pass client) then (client\<lparr>cid_Perm := perm\<rparr>, None)
          else (client, Some LOGIN_ERR_REJECTED))"

text \<open>A source client may carry its user name in the password field, before a bar.\<close>

definition split_source :: "ClientID \<Rightarrow> ClientID" where
  "split_source c =
     (if cid_Name c = ''source'' \<and> Contains (cid_Pass c) ''|''
      then (let temp = SplitN 2 (CHR ''|'') (cid_Pass c)
            in c\<lparr>cid_Name := temp ! 0, cid_Pass := temp ! 1\<rparr>)
      else c)"

definition Login :: "auth_env \<Rightarrow> ClientID \<Rightarrow> ClientID \<times> int option" where
  "Login A c =
     (let c = split_source c
      in if \<not> Authentication A then (c\<lparr>cid_Perm := PERM_ADMIN\<rparr>, None) else LoginClient A c)"

section \<open>The wrapper\<close>

definition realm :: string where
  "realm = ''R/a/dio''"

definition AuthenticationError :: "int option \<Rightarrow> rw_call list" where
  "AuthenticationError err =
     [RW_Set ''WWW-Authenticate'' (''Basic realm=\"'' @ realm @ ''\"''),
      RW_WriteHeader 401,
      RW_Write (''401 Unauthorized\<newline>'' @
        (case err of Some e \<Rightarrow> LoginStatus_Error e | None \<Rightarrow> []))]"

definition makeAuthHandler ::
  "auth_env \<Rightarrow> (ClientID \<Rightarrow> 's handler) \<Rightarrow> Permission \<Rightarrow> 'b Request \<Rightarrow> 's handler" where
  "makeAuthHandler A fn perm r s =
     (let user = NewClientIDFromRequest r
      in if cid_Pass user = [] \<and> cid_Name user = [] then Done s (AuthenticationError None)
         else (case Login A user of
                 (user, Some err) \<Rightarrow> Done s (AuthenticationError (Some err))
               | (user, None) \<Rightarrow>
                   if cid_Perm user < perm then Done s (AuthenticationError None) else fn user s))"

section \<open>Facts\<close>

lemma split_source_frame [simp]:
  "cid_Mount (split_source c) = cid_Mount c" "cid_Addr (split_source c) = cid_Addr c"
  "cid_Perm (split_source c) = cid_Perm c" "cid_Agent (split_source c) = cid_Agent c"
  "cid_AudioFormat (split_source c) = cid_AudioFormat c"
  by (simp_all add: split_source_def Let_def)

text \<open>A successful login changes the permission and, for a source client, the split credentials.\<close>

lemma Login_success:
  assumes "Login A c = (u, None)"
  shows "u = (split_source c)\<lparr>cid_Perm := cid_Perm u\<rparr>"
    and "Authentication A \<Longrightarrow>
         \<exists>hash p. db_Begin A \<and>
           db_query A (ToLower (unicode_lower A) (cid_Name (split_source c))) = Some (hash, p) \<and>
           bcrypt A hash (cid_Pass (split_source c)) \<and> cid_Perm u = NewPermission p"
    and "\<not> Authentication A \<Longrightarrow> cid_Perm u = PERM_ADMIN"
  using assms
  by (auto simp: Login_def LoginClient_def FetchUser_def Let_def
      split: if_splits option.splits prod.splits)

lemma Login_fields:
  assumes "Login A c = (u, None)"
  shows "cid_Name u = cid_Name (split_source c)" "cid_Pass u = cid_Pass (split_source c)"
    "cid_Mount u = cid_Mount c" "cid_Addr u = cid_Addr c"
  by (subst Login_success(1) [OF assms], simp)+

text \<open>The credentials a client attaches to a request are the ones the server reads back.\<close>

lemma valid_Authorization: "CanonicalHeaderKey ''Authorization'' = ''Authorization''"
  by code_simp

lemma Get_SetBasicAuth:
  "Get (req_Header (SetBasicAuth r u p)) ''Authorization'' = ''Basic '' @ EncodeToString (u @ '':'' @ p)"
  by (simp add: SetBasicAuth_def Let_def Get_Set)

lemma SplitN_Basic: "SplitN 2 (CHR '' '') (''Basic '' @ s) = [''Basic'', s]"
  using SplitN_2 [of "CHR '' ''" "''Basic''" s] by simp

lemma ParseDigest_of_auth:
  assumes "Get (req_Header r) ''Authorization'' = ''Basic '' @ EncodeToString (u @ '':'' @ p)"
    and "CHR '':'' \<notin> set u"
  shows "ParseDigest r = (u, p)"
proof -
  have "SplitN 2 (CHR '':'') (u @ CHR '':'' # p) = [u, p]"
    using assms(2) by (rule SplitN_2)
  moreover have "SplitN 2 (CHR '' '') (Get (req_Header r) ''Authorization'') =
      [''Basic'', EncodeToString (u @ '':'' @ p)]"
    unfolding assms(1) by (rule SplitN_Basic)
  ultimately show ?thesis
    by (simp add: ParseDigest_def DecodeString_Encode)
qed

end
