(* ===== verification/Web.thy ===== *)
theory Web
  imports Auth Icecast
begin

text \<open>
  \<open>server/http.go\<close> and \<open>server/encoding.go\<close>: the HTTP handlers in front of the manager. A handler
  returns the calls it makes on its \<open>ResponseWriter\<close>; what it does to the manager, it does to the state.
  The iconv package is not part of the repository: \<open>conv s to from\<close> is its conversion, \<open>None\<close> an error.
\<close>

section \<open>Metadata encoding\<close>

type_synonym iconv = "string \<Rightarrow> string \<Rightarrow> string \<Rightarrow> string option"

definition ParseMetadata :: "iconv \<Rightarrow> string \<Rightarrow> string \<Rightarrow> string" where
  "ParseMetadata conv charset meta =
     (if charset = ''latin1'' then
        (case conv meta ''UTF-8'' ''UTF-8'' of
           Some res \<Rightarrow> res
         | None \<Rightarrow> (case conv meta ''UTF-8'' ''SHIFT_JIS'' of Some res \<Rightarrow> res | None \<Rightarrow> []))
      else meta)"

section \<open>Pages\<close>

definition AdminHTML :: "string \<Rightarrow> string" where
  "AdminHTML body =
     ''\<newline><html><head><title>Icecast Proxy</title>\<newline>'' @
     ''<style type=\"text/css\">\<newline>'' @
     ''table{border: 1px solid #999;border-right:0;border-bottom:0;margin-top:4px;}\<newline>'' @
     ''td, th{border-bottom:1px solid #ccc;border-right:1px solid #eee;padding: .2em .5em;}\<newline>'' @
     ''form{margin:0;padding:0;}\<newline></style></head>\<newline><body>\<newline><h3>Icecast Proxy</h3>\<newline>'' @
     body @ ''\<newline></body></html>\<newline>''"

definition MountHTML :: "string \<Rightarrow> string \<Rightarrow> string" where
  "MountHTML mount rows =
     ''\<newline><table width=\"800px\" cellspacing=\"0\" cellpadding=\"2\">\<newline>'' @
     ''<tr><th align=\"left\" colspan=\"5\">'' @ mount @ ''</th></tr>\<newline>'' @
     ''<tr><th width=\"80px\">Username</th>\<newline><th>Metadata</th>\<newline>'' @
     ''<th width=\"150px\">Useragent</th>\<newline><th width=\"50px\">Kick</th></tr>\<newline>'' @
     rows @ ''\<newline></table>\<newline>''"

definition ClientHTML :: "string \<Rightarrow> string \<Rightarrow> string \<Rightarrow> string \<Rightarrow> nat \<Rightarrow> string \<Rightarrow> string" where
  "ClientHTML name metadata agent mount num attr =
     ''\<newline><tr>\<newline><td>'' @ name @ '' &nbsp;</td>\<newline><td>'' @ metadata @
     '' &nbsp;</td>\<newline><td>'' @ agent @ '' &nbsp;</td>\<newline><td>\<newline>'' @
     ''<form action=\"/admin/kick\" method=\"GET\">\<newline><input type=\"hidden\" name=\"mount\" value=\"'' @
     mount @ ''\" />\<newline><input type=\"hidden\" name=\"num\" value=\"'' @ FormatUint 10 num @
     ''\" />\<newline><input type=\"submit\" value=\"Kick\" '' @ attr @
     '' />\<newline></form></td></tr>\<newline>''"

text \<open>The rows of one mount; the first client of the list, the live one, is shown in bold.\<close>

definition client_row :: "'l world \<Rightarrow> string \<Rightarrow> nat \<times> client_ptr \<Rightarrow> string" where
  "client_row w mount ic =
     (let cid = w_cids w (client_id w (snd ic));
          name = (if fst ic = 0 then ''<b>'' @ cid_Name cid @ ''</b>'' else cid_Name cid)
      in ClientHTML name (cl_Metadata (w_clients w (snd ic))) (cid_Agent cid) mount (fst ic) [])"

definition mount_table :: "'l world \<Rightarrow> string \<times> client_ptr list \<Rightarrow> string" where
  "mount_table w e = MountHTML (fst e) (concat (map (client_row w (fst e)) (List.enumerate 0 (snd e))))"

section \<open>Handlers\<close>

definition set_lock :: "bool \<Rightarrow> 'l world \<Rightarrow> 'l world" where
  "set_lock b w = w\<lparr>w_hs := (w_hs w)\<lparr>HandlerLock := b\<rparr>\<rparr>"

text \<open>
  \<open>ord\<close> is the order in which the page's loop visits \<open>HandlerMounts\<close>. The index of the client to kick
  is used unchecked, under the lock.
\<close>

definition adminHandler ::
  "((string, client_ptr list) gomap \<Rightarrow> (string, client_ptr list) gomap) \<Rightarrow> 'b Request \<Rightarrow> ClientID \<Rightarrow>
   'l world handler" where
  "adminHandler ord r clientID w =
     (if HandlerLock (w_hs w) then Block w
      else (let w1 = set_lock True w; path = url_Path (req_URL r);
                q = ParseQuery (url_RawQuery (req_URL r))
            in if path = ''/admin'' then
                 Done (set_lock False w1)
                   [RW_Write (AdminHTML (concat (map (mount_table w1) (ord (HandlerMounts (w_hs w1))))))]
               else if path = ''/admin/kick'' then
                 (let reply = [RW_Set ''Location'' ''/admin'', RW_WriteHeader 301]
                  in case Atoi (query_Get q ''num'') of
                       None \<Rightarrow> Done (set_lock False w1) reply
                     | Some num \<Rightarrow>
                         (case gomap_get (HandlerMounts (w_hs w1)) (query_Get q ''mount'') of
                            None \<Rightarrow> Done (set_lock False w1) reply
                          | Some clients \<Rightarrow>
                              if num < 0 \<or> int (length clients) \<le> num
                              then Panic w1 ''index out of range''
                              else Done (set_lock False (w1\<lparr>w_closed :=
                                     insert (cl_Conn (w_clients w1 (clients ! nat num))) (w_closed w1)\<rparr>)) reply))
               else Done (set_lock False w1) []))"

definition listclientsHandler :: "ClientID \<Rightarrow> 'l world handler" where
  "listclientsHandler clientID w =
     (let response = ''<?xml version=\"1.0\"?>\<newline><icestats><source mount=\"'' @ cid_Mount clientID @
            ''\"><Listeners>0</Listeners></source></icestats>\<newline>''
      in Done w [RW_Set ''Content-Length'' (Itoa (int (length response))), RW_Write response])"

text \<open>Allocating the identifier a handler passes on by pointer.\<close>

definition new_cid :: "ClientID \<Rightarrow> 'l world \<Rightarrow> 'l world \<times> cid_ptr" where
  "new_cid cid w =
     (w\<lparr>w_cids := (w_cids w)(w_next_cid w := cid), w_next_cid := Suc (w_next_cid w)\<rparr>, w_next_cid w)"

definition metadataHandler :: "iconv \<Rightarrow> 'b Request \<Rightarrow> ClientID \<Rightarrow> 'l world handler" where
  "metadataHandler conv r clientID w =
     (let parsed = ParseQuery (url_RawQuery (req_URL r));
          meta0 = query_Get parsed ''song''
      in if meta0 = [] then Done w []
         else (let e = query_Get parsed ''charset'';
                   charset = (if e \<noteq> [] then e else ''latin1'');
                   meta = ParseMetadata conv charset meta0;
                   response = ''<?xml version=\"1.0\"?>\<newline><iceresponse><message>Metadata update successful</message><return>1</return></iceresponse>\<newline>'';
                   reply = [RW_Set ''Content-Length'' (Itoa (int (length response))), RW_Write response]
               in if meta \<noteq> [] then
                    (case new_cid clientID w of (w1, i) \<Rightarrow>
                       obind (send_meta \<lparr>mp_Data = meta, mp_ID = i, mp_Seen = False\<rparr> w1)
                         (\<lambda>w2 _. Done w2 reply))
                  else Done w reply))"

text \<open>
  What the \<open>ResponseWriter\<close> of a source request can do: whether it flushes, and what \<open>Hijack\<close> gives
  (\<open>None\<close> if it is no \<open>Hijacker\<close>, an error, or the connection).
\<close>

record rw_caps =
  rw_Flusher :: bool
  rw_Hijack :: "(string + conn_ptr) option"

definition new_client :: "conn_ptr \<Rightarrow> cid_ptr \<Rightarrow> 'l world \<Rightarrow> 'l world \<times> client_ptr" where
  "new_client conn i w =
     (w\<lparr>w_clients := (w_clients w)(w_next_client w := NewClient conn i),
        w_next_client := Suc (w_next_client w)\<rparr>, w_next_client w)"

definition send_receiver :: "client_ptr \<Rightarrow> 'l world \<Rightarrow> ('l world, unit) outcome" where
  "send_receiver c w =
     (if chan_full RECEIVER_CAP (man_Receiver (w_man w)) then Block w
      else Done (upd_man (\<lambda>a. a\<lparr>man_Receiver := man_Receiver a @ [c]\<rparr>) w) ())"

definition sourceHandler :: "rw_caps \<Rightarrow> ClientID \<Rightarrow> 'l world handler" where
  "sourceHandler caps clientID w =
     (let ack = [RW_WriteHeader 200, RW_Write CRLF] @ (if rw_Flusher caps then [RW_Flush] else [])
      in case rw_Hijack caps of
           None \<Rightarrow> Done w (ack @ Error (''Webserver doesn'' @ [char_of (39 :: nat)] @ ''t support hijacking.'') 500)
         | Some (Inl err) \<Rightarrow> Done w (ack @ [RW_Hijack] @ Error err 500)
         | Some (Inr conn) \<Rightarrow>
             (case new_cid clientID w of (w1, i) \<Rightarrow>
                case new_client conn i w1 of (w2, c) \<Rightarrow>
                  obind (send_receiver c w2) (\<lambda>w3 _. Done w3 (ack @ [RW_Hijack]))))"

definition errorHandler :: "'l world handler" where
  "errorHandler w = Done w []"

record web_env =
  we_auth :: auth_env
  we_conv :: iconv
  we_caps :: rw_caps
  we_order :: "(string, client_ptr list) gomap \<Rightarrow> (string, client_ptr list) gomap"

definition mainHandler :: "web_env \<Rightarrow> 'b Request \<Rightarrow> 'l world handler" where
  "mainHandler W r w =
     (let path = url_Path (req_URL r); A = we_auth W
      in if req_Method r = ''SOURCE'' then
           makeAuthHandler A (sourceHandler (we_caps W)) PERM_SOURCE r w
         else if req_Method r = ''GET'' then
           (if path = ''/admin/metadata'' then
              makeAuthHandler A (metadataHandler (we_conv W) r) PERM_META r w
            else if path = ''/admin/listclients'' then
              makeAuthHandler A listclientsHandler PERM_SOURCE r w
            else if 6 \<le> length path \<and> take 6 path = ''/admin'' then
              makeAuthHandler A (adminHandler (we_order W) r) PERM_ADMIN r w
            else Done w NotFound)
         else errorHandler w)"

section \<open>Facts\<close>

lemma makeAuthHandler_cases:
  obtains (denied) e where "makeAuthHandler A fn perm r s = Done s (AuthenticationError e)"
  | (granted) u where "Login A (NewClientIDFromRequest r) = (u, None)" and "perm \<le> cid_Perm u"
      and "\<not> (cid_Pass (NewClientIDFromRequest r) = [] \<and> cid_Name (NewClientIDFromRequest r) = [])"
      and "makeAuthHandler A fn perm r s = fn u s"
proof -
  let ?c = "NewClientIDFromRequest r"
  obtain u e where l: "Login A ?c = (u, e)" by fastforce
  consider "cid_Pass ?c = [] \<and> cid_Name ?c = []"
    | err where "\<not> (cid_Pass ?c = [] \<and> cid_Name ?c = [])" "e = Some err"
    | "\<not> (cid_Pass ?c = [] \<and> cid_Name ?c = [])" "e = None" "cid_Perm u < perm"
    | "\<not> (cid_Pass ?c = [] \<and> cid_Name ?c = [])" "e = None" "perm \<le> cid_Perm u"
    using not_less by (cases e) blast+
  then show thesis
  proof cases
    case 1
    then show thesis by (intro denied [of None]) (simp add: makeAuthHandler_def)
  next
    case (2 err)
    with l show thesis by (intro denied [of "Some err"]) (auto simp: makeAuthHandler_def)
  next
    case 3
    with l show thesis by (intro denied [of None]) (auto simp: makeAuthHandler_def)
  next
    case 4
    with l show thesis by (intro granted [of u]) (auto simp: makeAuthHandler_def not_less)
  qed
qed

text \<open>Behind the wrapper a state change needs a login with the permission asked for.\<close>

lemma auth_gate:
  assumes "makeAuthHandler A fn perm r w = Done w' calls" and "w' \<noteq> w"
  shows "\<exists>user. Login A (NewClientIDFromRequest r) = (user, None) \<and> perm \<le> cid_Perm user \<and>
    (Authentication A \<longrightarrow>
       (\<exists>hash p. db_query A (ToLower (unicode_lower A) (cid_Name user)) = Some (hash, p) \<and>
          bcrypt A hash (cid_Pass user) \<and> cid_Perm user = NewPermission p))"
proof (cases rule: makeAuthHandler_cases [of A fn perm r w])
  case (denied e)
  with assms show ?thesis by simp
next
  case (granted u)
  from Login_success(2) [OF granted(1)] Login_fields [OF granted(1)] granted(1,2) show ?thesis by auto
qed

end
