(* ===== verification/System.thy ===== *)
theory System
  imports Metadata Web
begin

text \<open>
  The whole server as a step relation: the loop takes an event from one of its channels, a reader
  passes on what it read, a sleeping goroutine sends its packet again, an HTTP request is handled, or the
  loop panics and is started again with a new manager. The invariant has three layers: what holds in
  every state of every run, what holds while no turn has disturbed the manager's books since the last
  restart (a client is connected to a mount exactly while a reader runs for it or its error is on the
  way), and what holds until the first restart (nobody else is registered for the admin page).
\<close>

section \<open>Steps\<close>

text \<open>The loop's \<open>select\<close> takes the oldest value of one of its channels, or a tick of the timer.\<close>

inductive receive :: "'l world \<Rightarrow> event \<Rightarrow> 'l world \<Rightarrow> bool" where
  data: "w_data w = d # ds \<Longrightarrow> receive w (EvData d) (w\<lparr>w_data := ds\<rparr>)"
| err: "w_err w = e # es \<Longrightarrow> receive w (EvErr e) (w\<lparr>w_err := es\<rparr>)"
| client: "man_Receiver (w_man w) = c # cs \<Longrightarrow>
    receive w (EvClient c) (upd_man (\<lambda>a. a\<lparr>man_Receiver := cs\<rparr>) w)"
| collect: "man_MountCollector (w_man w) = m # ms \<Longrightarrow>
    receive w (EvCollect m) (upd_man (\<lambda>a. a\<lparr>man_MountCollector := ms\<rparr>) w)"
| meta: "man_MetaChan (w_man w) = p # ps \<Longrightarrow>
    receive w (EvMeta p) (upd_man (\<lambda>a. a\<lparr>man_MetaChan := ps\<rparr>) w)"
| tick: "receive w EvTick w"

inductive_cases receive_data: "receive w (EvData d) v"
inductive_cases receive_err: "receive w (EvErr e) v"
inductive_cases receive_client: "receive w (EvClient c) v"
inductive_cases receive_collect: "receive w (EvCollect m) v"
inductive_cases receive_meta: "receive w (EvMeta p) v"
inductive_cases receive_tick: "receive w EvTick v"

lemmas receive_elims = receive_data receive_err receive_client receive_collect receive_meta receive_tick

text \<open>The steps of the other goroutines: readers, sleeping packets and HTTP requests.\<close>

inductive other_step :: "'l world \<Rightarrow> 'l world \<Rightarrow> bool" where
  read: "c \<in> set (w_readers w) \<Longrightarrow> ReadInto c res w = Done w' u \<Longrightarrow> other_step w w'"
| resend: "p \<in> set (w_delayed w) \<Longrightarrow> delayed_send p w = Done w' u \<Longrightarrow> other_step w w'"
| web: "mainHandler W (r :: unit Request) w = Done w' calls \<Longrightarrow> other_step w w'"
| web_panic: "mainHandler W (r :: unit Request) w = Panic w' msg \<Longrightarrow> other_step w w'"

text \<open>
  A step of the whole server is a turn of the loop, a step of another goroutine, or a turn that panics:
  then the goroutine of \<open>init\<close> recovers, makes a new manager and destroys the old one, and until it has
  done so the other goroutines may go on with the old one. A turn that blocks never ends, and a
  sleeping packet of a manager that is gone ends the process; no step follows either.
\<close>

datatype label = Turn event | Restart event | Other

inductive step :: "'l world \<Rightarrow> label \<Rightarrow> 'l world \<Rightarrow> bool" where
  loop: "receive w ev v \<Longrightarrow> env_ok E \<Longrightarrow> ProcessClients E ev v = Done w' u \<Longrightarrow> step w (Turn ev) w'"
| loop_panic: "receive w ev v \<Longrightarrow> env_ok E \<Longrightarrow> ProcessClients E ev v = Panic x msg \<Longrightarrow> other_step\<^sup>*\<^sup>* x y \<Longrightarrow>
    step w (Restart ev) (restart E y)"
| other: "other_step w w' \<Longrightarrow> step w Other w'"

definition initial :: "'l world \<Rightarrow> bool" where
  "initial w \<longleftrightarrow> w_man w = NewManager \<and> w_hs w = handlers_init \<and> w_data w = [] \<and> w_err w = [] \<and>
     w_readers w = [] \<and> w_delayed w = [] \<and> w_next_client w = 0"

text \<open>A run of the server: the steps so far with the states they were taken in, the last one first.\<close>

type_synonym 'l steps = "('l world \<times> label) list"

inductive history :: "'l steps \<Rightarrow> 'l world \<Rightarrow> bool" where
  start: "initial w \<Longrightarrow> history [] w"
| step: "history tr w \<Longrightarrow> step w l w' \<Longrightarrow> history ((w, l) # tr) w'"

text \<open>
  Two turns disturb the manager's books. A collection is stale when the mount's name no longer stands
  for that mount, and a client overflows the 32-bit count of a container that is full.
\<close>

fun disturbed :: "'l world \<Rightarrow> label \<Rightarrow> bool" where
  "disturbed w (Turn (EvCollect m)) = (mounts_of w (mnt_Mount (w_mounts w m)) \<noteq> Some m)"
| "disturbed w (Turn (EvClient c)) =
     (case mounts_of w (client_mount w c) of
        None \<Rightarrow> False | Some m \<Rightarrow> 2147483647 \<le> length (cc_byID (mnt_Clients (w_mounts w m))))"
| "disturbed w _ = False"

fun restarts :: "'l world \<times> label \<Rightarrow> bool" where
  "restarts (w, Restart ev) = True"
| "restarts _ = False"

text \<open>No turn since the last restart disturbed the books; the loop never restarted.\<close>

definition settled :: "'l steps \<Rightarrow> bool" where
  "settled tr \<longleftrightarrow> (\<forall>s \<in> set (takeWhile (\<lambda>s. \<not> restarts s) tr). \<not> disturbed (fst s) (snd s))"

definition never_restarted :: "'l steps \<Rightarrow> bool" where
  "never_restarted tr \<longleftrightarrow> (\<forall>s \<in> set tr. \<not> restarts s)"

section \<open>The invariant of the server\<close>

text \<open>A reader runs for the client, or its error is on the way to the loop.\<close>

definition served :: "'l world \<Rightarrow> client_ptr \<Rightarrow> bool" where
  "served w c \<longleftrightarrow> c \<in> set (w_readers w) \<union> ep_Client ` set (w_err w)"

definition mounts_ok :: "'l world \<Rightarrow> bool" where
  "mounts_ok w \<longleftrightarrow> gomap_wf (man_Mounts (w_man w)) \<and>
     (\<forall>n m. mounts_of w n = Some m \<longrightarrow>
        mnt_Mount (w_mounts w m) = n \<and> m < w_next_mount w \<and>
        length (mnt_ClientQueue (w_mounts w m)) \<le> QUEUE_LIMIT \<and> mnt_Active (w_mounts w m) \<noteq> None)"

definition ids_ok :: "'l world \<Rightarrow> bool" where
  "ids_ok w \<longleftrightarrow>
     (\<forall>c d. c < w_next_client w \<longrightarrow> d < w_next_client w \<longrightarrow> client_id w c = client_id w d \<longrightarrow> c = d) \<and>
     (\<forall>c < w_next_client w. client_id w c < w_next_cid w)"

definition chans_ok :: "'l world \<Rightarrow> bool" where
  "chans_ok w \<longleftrightarrow>
     distinct (man_Receiver (w_man w) @ w_readers w @ map ep_Client (w_err w)) \<and>
     (\<forall>c \<in> set (man_Receiver (w_man w)). c < w_next_client w)"

definition reg_ok :: "'l world \<Rightarrow> bool" where
  "reg_ok w \<longleftrightarrow> hs_wf (w_hs w) \<and>
     (\<forall>n. \<forall>c \<in> set (registered (w_hs w) n).
        c < w_next_client w \<and> client_mount w c = n \<and> c \<notin> set (man_Receiver (w_man w))) \<and>
     (\<forall>c. served w c \<longrightarrow> c \<in> set (registered (w_hs w) (client_mount w c)))"

text \<open>What holds in every state, whatever happened.\<close>

definition base_inv :: "'l world \<Rightarrow> bool" where
  "base_inv w \<longleftrightarrow> mounts_ok w \<and> ids_ok w \<and> chans_ok w \<and> reg_ok w"

text \<open>What holds while the books are not disturbed, and what holds until the first restart.\<close>

definition live_inv :: "'l world \<Rightarrow> bool" where
  "live_inv w \<longleftrightarrow> world_wf w \<and> (\<forall>c. served w c \<longleftrightarrow> connected w c)"

definition exact_registry :: "'l world \<Rightarrow> bool" where
  "exact_registry w \<longleftrightarrow> (\<forall>n. \<forall>c \<in> set (registered (w_hs w) n). served w c)"

lemmas base_defs = base_inv_def mounts_ok_def ids_ok_def chans_ok_def reg_ok_def served_def

lemma initial_inv: "initial w \<Longrightarrow> base_inv w \<and> live_inv w \<and> exact_registry w"
  by (auto simp: initial_def base_defs live_inv_def exact_registry_def NewManager_def handlers_init_def
      world_wf_def connected_def hs_wf_def registered_def)

lemma served_old: "base_inv w \<Longrightarrow> served w c \<Longrightarrow> c < w_next_client w"
  unfolding base_inv_def reg_ok_def by blast

text \<open>A step that keeps all three; \<open>ok\<close> says that it does not disturb the books.\<close>

definition keeps :: "bool \<Rightarrow> 'l world \<Rightarrow> 'l world \<Rightarrow> bool" where
  "keeps ok w w' \<longleftrightarrow> base_inv w' \<and> (ok \<longrightarrow> live_inv w \<longrightarrow> live_inv w') \<and>
     (exact_registry w \<longrightarrow> exact_registry w')"

lemma keepsI:
  assumes "mounts_ok w'" "ids_ok w'" "chans_ok w'" "reg_ok w'"
    and "ok \<Longrightarrow> live_inv w \<Longrightarrow> live_inv w'" and "exact_registry w \<Longrightarrow> exact_registry w'"
  shows "keeps ok w w'"
  using assms by (simp add: keeps_def base_inv_def)

text \<open>Every entry of a container is a connected client of that mount.\<close>

lemma entry_connected:
  assumes "world_wf w" and "mounts_of w n = Some m" and "GetByID (mnt_Clients (w_mounts w m)) i = Some c"
  shows "connected w c" and "client_id w c = i" and "client_mount w c = n"
  using wf_mount_ok [OF assms(1,2)] assms(2,3) by (auto simp: mount_ok_def connected_def)

text \<open>States that agree on what the invariant reads.\<close>

lemma keeps_cong:
  assumes "base_inv w"
    and "man_Mounts (w_man w') = man_Mounts (w_man w)" "w_mounts w' = w_mounts w"
      "w_cids w' = w_cids w" "\<And>c. client_id w' c = client_id w c"
      "w_next_mount w' = w_next_mount w" "w_next_client w' = w_next_client w" "w_next_cid w' = w_next_cid w"
      "HandlerMounts (w_hs w') = HandlerMounts (w_hs w)" "w_err w' = w_err w" "w_readers w' = w_readers w"
      "man_Receiver (w_man w') = man_Receiver (w_man w)"
  shows "keeps ok w w'"
proof -
  have c: "connected w' c \<longleftrightarrow> connected w c" for c by (simp add: connected_def assms)
  have r: "registered (w_hs w') = registered (w_hs w)" by (simp add: registered_def fun_eq_iff assms)
  have s: "served w' c \<longleftrightarrow> served w c" for c by (simp add: served_def assms)
  have "world_wf w \<Longrightarrow> world_wf w'" by (erule wf_cong) (use assms in auto)
  with assms(1) show ?thesis
    by (intro keepsI) (simp_all add: base_inv_def live_inv_def exact_registry_def mounts_ok_def ids_ok_def
        chans_ok_def reg_ok_def c r s assms hs_wf_def)
qed

section \<open>The turns of the loop\<close>

lemma keeps_data:
  assumes "on_data E d (w\<lparr>w_data := ds\<rparr>) = Done w' u" and "base_inv w"
  shows "keeps ok w w'"
proof -
  have "keeps ok w (w\<lparr>w_data := ds, w_lib := w_lib w'\<rparr>)"
    using assms(2) by (rule keeps_cong) simp_all
  with on_data_frame [OF assms(1)] show ?thesis by simp
qed

lemma keeps_meta:
  assumes "on_meta E p v = Done w' u" and "base_inv w" and "v = upd_man (\<lambda>a. a\<lparr>man_MetaChan := ps\<rparr>) w"
  shows "keeps ok w w'"
proof -
  let ?v = "upd_man (\<lambda>a. a\<lparr>man_metaStore := man_metaStore (w_man w')\<rparr>)
    (v\<lparr>w_lib := w_lib w', w_clients := w_clients w', w_delayed := w_delayed w'\<rparr>)"
  have "keeps ok w ?v"
    using assms(2) by (rule keeps_cong) (simp_all add: assms(3) on_meta_frame(2) [OF assms(1)])
  with on_meta_frame(1) [OF assms(1)] show ?thesis by simp
qed

lemma keeps_tick: "on_tick w = Done w' u \<Longrightarrow> base_inv w \<Longrightarrow> keeps ok w w'"
  by (erule keeps_cong) (auto simp: on_tick_def)

text \<open>Removing a client keeps the mounts, whether or not the client was filed there.\<close>

lemma RemoveClient_mounts:
  assumes "RemoveClient c w = Done w' u" and ok: "mounts_ok w"
  shows "mounts_ok w'"
proof -
  from assms(1) obtain m v where f: "live_frame m w v" and d: "drop_client m c v = Done w' ()"
    by (rule RemoveClient_split)
  have drop: "mnt_Mount (drop_mount k i v x) = mnt_Mount (w_mounts v x)"
    "mnt_ClientQueue (drop_mount k i v x) = mnt_ClientQueue (w_mounts v x)"
    "mnt_Active (drop_mount k i v x) = mnt_Active (w_mounts v x)" for k i x
    by (simp_all add: drop_mount_def)
  have "length (mnt_ClientQueue (w_mounts v k)) \<le> QUEUE_LIMIT"
    if "length (mnt_ClientQueue (w_mounts w k)) \<le> QUEUE_LIMIT" for k
    using that live_frameD(21) [OF f, of k] by linarith
  moreover have "mnt_Active (w_mounts v k) \<noteq> None" if "mnt_Active (w_mounts w k) \<noteq> None" for k
    using that live_frameD(23) [OF f, of k] by blast
  ultimately show ?thesis
    using ok by (simp add: mounts_ok_def drop_client_Done [OF d] live_frameD [OF f] drop del: not_None_eq)
qed

lemma keeps_err:
  assumes rem: "RemoveClient (ep_Client e) (w\<lparr>w_err := es\<rparr>) = Done w' ()"
    and e: "w_err w = e # es" and base: "base_inv w"
  shows "keeps ok w w'"
proof (rule keepsI)
  let ?v = "w\<lparr>w_err := es\<rparr>" and ?c = "ep_Client e"
  note fr = RemoveClient_frame [OF rem]
  have "hs_wf (w_hs ?v)" using base by (simp add: base_defs)
  note reg = RemoveClient_registered [OF rem this]
  have "mounts_ok ?v" using base by (simp add: base_inv_def mounts_ok_def)
  then show "mounts_ok w'" by (rule RemoveClient_mounts [OF rem])
  show "ids_ok w'" using base by (simp add: base_inv_def ids_ok_def fr)
  show "chans_ok w'" using base e by (simp add: base_inv_def chans_ok_def fr)
  have s: "served w' d \<longleftrightarrow> served w d \<and> d \<noteq> ?c" for d
    using base e by (auto simp: base_inv_def chans_ok_def served_def fr) (metis imageI)
  have own: "client_mount w d = n" if "d \<in> set (registered (w_hs w) n)" for d n
    using base that by (simp add: base_inv_def reg_ok_def)
  have reg': "set (registered (w_hs w') n) = set (registered (w_hs w) n) - {?c}" for n
    using reg(2) [of n] own [of ?c n] by auto
  show "reg_ok w'" using base reg(1) unfolding base_inv_def reg_ok_def by (auto simp: reg' fr s)
  show "exact_registry w'" if "exact_registry w"
    using that by (auto simp: exact_registry_def reg' s)
  show "live_inv w'" if live: "live_inv w"
  proof -
    have ww: "world_wf w" and sc: "\<And>d. served w d \<longleftrightarrow> connected w d" using live by (simp_all add: live_inv_def)
    have served: "served w ?c" using e by (simp add: served_def)
    then have con: "connected w ?c" by (simp add: sc)
    from ww have wv: "world_wf ?v" by (rule wf_cong) simp_all
    have cv: "connected ?v d \<longleftrightarrow> connected w d" for d by (simp add: connected_def)
    with con have "connected ?v ?c" by simp
    note rw = RemoveClient_wf [OF rem wv this]
    have "connected w' d \<longleftrightarrow> connected w d \<and> d \<noteq> ?c" for d
    proof -
      have "d = ?c" if "connected w d" and "client_id w d = client_id w ?c"
        using that base served_old [OF base] served by (simp add: base_inv_def ids_ok_def sc)
      with rw(2) [of d] show ?thesis by (auto simp: cv)
    qed
    with rw(1) show ?thesis by (simp add: live_inv_def s sc)
  qed
qed

text \<open>What adding a client leaves alone, and what it does to the mounts.\<close>

lemma AddClient_mounts:
  assumes "AddClient E c w = Done w' e" and ok: "mounts_ok w"
  shows "mounts_ok w'"
  using assms(1)
proof (cases rule: AddClient_cases)
  case first
  then obtain mt ms l where w': "w' = upd_man (\<lambda>a. a\<lparr>man_Mounts := gomap_set (client_mount w c) (w_next_mount w) (man_Mounts a),
                             man_MetaChan := ms\<rparr>)
             (w\<lparr>w_mounts := (w_mounts w)(w_next_mount w := mt), w_next_mount := Suc (w_next_mount w), w_lib := l\<rparr>)"
    and mt: "mnt_Active mt = Some (client_id w c)" "mnt_ClientQueue mt = []" "mnt_Mount mt = client_mount w c"
    by (elim add_first_Done)
  have "m < w_next_mount w" if "mounts_of w n = Some m" for n m using that ok by (simp add: mounts_ok_def)
  with ok show ?thesis by (fastforce simp: mounts_ok_def w' mt gomap_simps split: if_splits)
next
  case config
  with ok show ?thesis by simp
next
  case (more m)
  then show ?thesis
    using ok by (auto simp: mounts_ok_def add_more_Done [OF more(2)] split: if_splits)
qed

text \<open>A client the loop takes from its channel has an identifier of its own.\<close>

lemma received_fresh:
  assumes base: "base_inv w" and live: "live_inv w" and r: "man_Receiver (w_man w) = c # cs"
  shows "\<not> connected w c" and "connected w d \<Longrightarrow> client_id w d \<noteq> client_id w c"
    and "\<not> disturbed w (Turn (EvClient c)) \<Longrightarrow> room w c"
proof -
  have c: "\<not> served w c" and lt: "c < w_next_client w"
    using base r by (auto simp: base_inv_def chans_ok_def served_def)
  with live show n: "\<not> connected w c" by (simp add: live_inv_def)
  show other: "client_id w d \<noteq> client_id w c" if "connected w d" for d
  proof
    assume eq: "client_id w d = client_id w c"
    from that live have "d < w_next_client w" using served_old [OF base] by (simp add: live_inv_def)
    with lt eq base have "d = c" by (simp add: base_inv_def ids_ok_def)
    with that n show False by simp
  qed
  show "room w c" if "\<not> disturbed w (Turn (EvClient c))"
  proof -
    have "GetByID (mnt_Clients (w_mounts w m)) (client_id w c) = None" if m: "mounts_of w n = Some m" for n m
    proof (rule ccontr)
      assume "\<not> ?thesis"
      then obtain d where d: "GetByID (mnt_Clients (w_mounts w m)) (client_id w c) = Some d" by auto
      have "world_wf w" using live by (simp add: live_inv_def)
      from entry_connected [OF this m d] other show False by blast
    qed
    with that show ?thesis by (auto simp: room_def)
  qed
qed

text \<open>The two ways in which the loop takes a new client.\<close>

lemma on_client_split:
  assumes "on_client E c v = Done w' u"
  obtains (accepted) w1 where "AddClient E c v = Done w1 False"
      "HandleClientConnect (client_mount v c) c (w_hs v) = Done (w_hs w') ()"
      "w' = w1\<lparr>w_hs := w_hs w', w_readers := w_readers v @ [c]\<rparr>"
  | (rejected) w1 where "AddClient E c v = Done w1 True" "RemoveClient c w1 = Done w' ()"
proof -
  from assms obtain w1 e where a: "AddClient E c v = Done w1 e"
    and rest: "(if e then RemoveClient c w1
          else obind (on_handlers (HandleClientConnect (client_mount w1 c) c) w1)
                 (\<lambda>w2 _. Done (w2\<lparr>w_readers := w_readers w2 @ [c]\<rparr>) ())) = Done w' ()"
    by (auto simp: on_client_def outcome_simps)
  show ?thesis
  proof (cases e)
    case True
    with a rest rejected show ?thesis by auto
  next
    case False
    with rest have "HandleClientConnect (client_mount v c) c (w_hs v) = Done (w_hs w') ()"
      and "w' = w1\<lparr>w_hs := w_hs w', w_readers := w_readers v @ [c]\<rparr>"
      by (auto simp: outcome_simps on_handlers_def AddClient_frame [OF a] split: outcome.splits)
    with False a accepted show ?thesis by auto
  qed
qed

lemma client_base:
  assumes "on_client E c v = Done w' u" and v: "v = upd_man (\<lambda>a. a\<lparr>man_Receiver := cs\<rparr>) w"
    and r: "man_Receiver (w_man w) = c # cs" and base: "base_inv w"
  shows "base_inv w'" and "exact_registry w \<Longrightarrow> exact_registry w'"
proof -
  from base r have lt: "c < w_next_client w" and fresh: "\<not> served w c"
    and unreg: "\<And>n. c \<notin> set (registered (w_hs w) n)" and cs: "c \<notin> set cs" "distinct cs"
    by (auto simp: base_inv_def chans_ok_def reg_ok_def served_def)
  have mv: "mounts_ok v" using base by (simp add: base_inv_def mounts_ok_def v)
  have "base_inv w' \<and> (exact_registry w \<longrightarrow> exact_registry w')"
    using assms(1)
  proof (cases rule: on_client_split)
    case (accepted w1)
    note fr = AddClient_frame [OF accepted(1)] and w' = accepted(3)
    have fw: "w_cids w' = w_cids w" "w_clients w' = w_clients w" "w_next_client w' = w_next_client w"
      "w_next_cid w' = w_next_cid w" "w_err w' = w_err w" "man_Receiver (w_man w') = cs"
      "w_readers w' = w_readers w @ [c]"
      using fr by (subst w', simp add: v)+
    have hc: "HandleClientConnect (client_mount w c) c (w_hs w) = Done (w_hs w') ()"
      using accepted(2) by (simp add: v)
    have s: "served w' d \<longleftrightarrow> served w d \<or> d = c" for d by (auto simp: served_def fw)
    have reg: "set (registered (w_hs w') n) =
        set (registered (w_hs w) n) \<union> (if n = client_mount w c then {c} else {})" for n
      by (simp add: registered_connect [OF hc])
    have "mounts_ok w1" using AddClient_mounts [OF accepted(1) mv] .
    then have "mounts_ok w'" by (subst w') (simp add: mounts_ok_def)
    moreover have "ids_ok w'" using base by (simp add: base_inv_def ids_ok_def fw)
    moreover have "chans_ok w'"
      using base fresh r by (auto simp: base_inv_def chans_ok_def served_def fw)
    moreover have "hs_wf (w_hs w')" using connect_wf [OF hc] base unreg by (simp add: base_inv_def reg_ok_def)
    then have "reg_ok w'"
      using base lt cs r by (auto simp: base_inv_def reg_ok_def reg fw s split: if_splits)
    ultimately show ?thesis by (auto simp: base_inv_def exact_registry_def reg s split: if_splits)
  next
    case (rejected w1)
    note fr = AddClient_frame [OF rejected(1)] RemoveClient_frame [OF rejected(2)]
    have s: "served w' d \<longleftrightarrow> served w d" for d by (simp add: served_def fr v)
    have "hs_wf (w_hs w1)" using base by (simp add: base_inv_def reg_ok_def fr v)
    note reg1 = RemoveClient_registered [OF rejected(2) this]
    have reg: "set (registered (w_hs w') n) = set (registered (w_hs w) n)" for n
      using reg1(2) [of n] unreg by (simp add: fr v)
    have "mounts_ok w'" using RemoveClient_mounts [OF rejected(2) AddClient_mounts [OF rejected(1) mv]] .
    moreover have "ids_ok w'" using base by (simp add: base_inv_def ids_ok_def fr v)
    moreover have "chans_ok w'" using base r by (auto simp: base_inv_def chans_ok_def fr v)
    moreover have "reg_ok w'" using base reg1(1) r by (auto simp: base_inv_def reg_ok_def reg s fr v)
    ultimately show ?thesis by (simp add: base_inv_def exact_registry_def reg s)
  qed
  then show "base_inv w'" and "exact_registry w \<Longrightarrow> exact_registry w'" by blast+
qed

lemma client_live:
  assumes "on_client E c v = Done w' u" and v: "v = upd_man (\<lambda>a. a\<lparr>man_Receiver := cs\<rparr>) w"
    and r: "man_Receiver (w_man w) = c # cs" and base: "base_inv w" and live: "live_inv w"
    and ok: "\<not> disturbed w (Turn (EvClient c))"
  shows "live_inv w'"
proof -
  have cv: "connected v d \<longleftrightarrow> connected w d" for d by (simp add: connected_def v)
  have "world_wf w" using live by (simp add: live_inv_def)
  then have wv: "world_wf v" by (rule wf_cong) (simp_all add: v)
  note fresh = received_fresh [OF base live r]
  have rv: "room v c" using fresh(3) [OF ok] by (simp add: room_def v)
  have s: "served w d \<longleftrightarrow> connected w d" for d using live by (simp add: live_inv_def)
  from assms(1) wv rv show ?thesis
  proof (cases rule: on_client_cases)
    case (accepted w1)
    note w' = accepted(5)
    have rw: "w_readers w' = w_readers w @ [c]" "w_err w' = w_err w"
      using AddClient_frame [OF accepted(1)] by (subst w', simp add: v)+
    have "connected w' d \<longleftrightarrow> connected w1 d" for d by (subst w') (simp add: connected_def)
    then have conn: "connected w' d \<longleftrightarrow> connected w d \<or> d = c" for d by (simp add: accepted(3) cv)
    have "world_wf w'" using accepted(2) by (rule wf_cong) (subst w', simp)+
    moreover have "served w' d \<longleftrightarrow> connected w' d" for d
      using s [of d] by (auto simp: served_def rw conn)
    ultimately show ?thesis by (simp add: live_inv_def)
  next
    case (rejected w1)
    note fr = AddClient_frame [OF rejected(1)] RemoveClient_frame [OF rejected(4)]
    have "connected w1 c" by (simp add: rejected(3))
    note rw = RemoveClient_wf [OF rejected(4,2) this]
    have "connected w' d \<longleftrightarrow> (connected w d \<or> d = c) \<and> client_id w d \<noteq> client_id w c" for d
      using rw(2) [of d] unfolding rejected(3) cv AddClient_frame(2) [OF rejected(1)] by (simp add: v)
    then have "connected w' d \<longleftrightarrow> connected w d" for d using fresh(2) by auto
    moreover have "served w' d \<longleftrightarrow> served w d" for d by (simp add: served_def fr v)
    ultimately show ?thesis using rw(1) s by (simp add: live_inv_def)
  qed
qed

lemma keeps_collect:
  assumes "on_collect E m v = Done w' u" and v: "v = upd_man (\<lambda>a. a\<lparr>man_MountCollector := ms\<rparr>) w"
    and base: "base_inv w" and ok: "ok \<Longrightarrow> mounts_of w (mnt_Mount (w_mounts w m)) = Some m"
  shows "keeps ok w w'"
proof (rule keepsI)
  note fr = on_collect_man [OF assms(1)]
  have s: "served w' d \<longleftrightarrow> served w d" for d by (simp add: served_def fr v)
  show "mounts_ok w'"
    using base by (auto simp: base_inv_def mounts_ok_def fr v gomap_simps)
  show "ids_ok w'" "chans_ok w'" "reg_ok w'"
    using base by (simp_all add: base_inv_def ids_ok_def chans_ok_def reg_ok_def fr v s)
  show "exact_registry w'" if "exact_registry w" using that by (simp add: exact_registry_def fr v s)
  show "live_inv w'" if "ok" and live: "live_inv w"
  proof -
    have cur: "mounts_of w (mnt_Mount (w_mounts w m)) = Some m" using ok that(1) .
    have ww: "world_wf w" using live by (simp add: live_inv_def)
    then have wv: "world_wf v" by (rule wf_cong) (simp_all add: v)
    have wfm: "gomap_wf (man_Mounts (w_man w))" using base by (simp add: base_inv_def mounts_ok_def)
    have "GetByID (mnt_Clients (w_mounts w m)) i = None"
      if "\<not> 0 < sint (cc_Length (mnt_Clients (w_mounts w m)))" for i
    proof -
      have "cc_wf (mnt_Clients (w_mounts w m))"
        using wf_mount_ok [OF ww cur] by (simp add: mount_ok_def)
      with that have "cc_byID (mnt_Clients (w_mounts w m)) = []" by (simp add: cc_Length_sint)
      then show ?thesis by (simp add: GetByID_def)
    qed
    then have "connected w' c \<longleftrightarrow> connected w c" for c
      using cur by (auto simp: connected_def fr v gomap_simps wfm)
    with live on_collect_wf [OF assms(1) wv] show ?thesis by (simp add: live_inv_def s)
  qed
qed

section \<open>The other goroutines\<close>

text \<open>A reader that ends hands its client over to the error channel.\<close>

lemma reader_ends:
  assumes base: "base_inv w" and "c \<in> set (w_readers w)"
  shows "keeps ok w (w\<lparr>w_err := w_err w @ [\<lparr>ep_Err = x, ep_Client = c\<rparr>], w_readers := remove1 c (w_readers w)\<rparr>)"
    (is "keeps ok w ?w")
proof (rule keepsI)
  have conn: "connected ?w d \<longleftrightarrow> connected w d" for d by (simp add: connected_def)
  have "distinct (w_readers w)" using base by (simp add: base_inv_def chans_ok_def)
  then have s: "served ?w d \<longleftrightarrow> served w d" for d using assms(2) by (auto simp: served_def)
  show "mounts_ok ?w" "ids_ok ?w" "reg_ok ?w"
    using base by (simp_all add: base_inv_def mounts_ok_def ids_ok_def reg_ok_def s)
  show "chans_ok ?w" using base assms(2) by (auto simp: base_inv_def chans_ok_def)
  show "live_inv ?w" if "live_inv w"
  proof -
    from that have "world_wf w" by (simp add: live_inv_def)
    then have "world_wf ?w" by (rule wf_cong) simp_all
    with that show ?thesis by (simp add: live_inv_def s conn)
  qed
  show "exact_registry ?w" if "exact_registry w" using that by (simp add: exact_registry_def s)
qed

lemma keeps_read:
  assumes "ReadInto c res w = Done w' u" and "c \<in> set (w_readers w)" and base: "base_inv w"
  shows "keeps ok w w'"
proof (cases res)
  case (ReadData d)
  with assms(1) show ?thesis by (intro keeps_cong [OF base]) (auto split: if_splits)
next
  case (ReadError e)
  with assms(1) have w': "w' = w\<lparr>w_err := w_err w @ [\<lparr>ep_Err = Some e, ep_Client = c\<rparr>],
      w_readers := remove1 c (w_readers w)\<rparr>" by (auto split: if_splits)
  show ?thesis unfolding w' using base assms(2) by (rule reader_ends)
next
  case ReadPanic
  with assms(1) have w': "w' = w\<lparr>w_err := w_err w @ [\<lparr>ep_Err = None, ep_Client = c\<rparr>],
      w_readers := remove1 c (w_readers w)\<rparr>" by (auto split: if_splits)
  show ?thesis unfolding w' using base assms(2) by (rule reader_ends)
qed

lemma keeps_resend:
  assumes "delayed_send p w = Done w' u" and base: "base_inv w"
  shows "keeps ok w w'"
proof -
  from assms(1) have w': "w' = (upd_man (\<lambda>a. a\<lparr>man_MetaChan := man_MetaChan a @ [snd p]\<rparr>) w)
      \<lparr>w_delayed := remove1 p (w_delayed w)\<rparr>"
    by (auto simp: delayed_send_def send_meta_def outcome_simps split: if_splits)
  show ?thesis by (rule keeps_cong [OF base]) (simp_all add: w')
qed

section \<open>Requests keep the invariant\<close>

text \<open>
  What a request can do to the state: nothing but the lock and closed connections, a metadata packet
  for the loop, or a new client for the loop.
\<close>

definition web_quiet :: "'l world \<Rightarrow> 'l world \<Rightarrow> bool" where
  "web_quiet w w' \<longleftrightarrow> w' = (set_lock (HandlerLock (w_hs w')) w)\<lparr>w_closed := w_closed w'\<rparr>"

definition web_meta :: "'l world \<Rightarrow> 'l world \<Rightarrow> bool" where
  "web_meta w w' \<longleftrightarrow>
     (\<exists>cid p. w' = upd_man (\<lambda>a. a\<lparr>man_MetaChan := man_MetaChan a @ [p]\<rparr>) (fst (new_cid cid w)))"

definition web_source :: "'l world \<Rightarrow> 'l world \<Rightarrow> bool" where
  "web_source w w' \<longleftrightarrow>
     (\<exists>cid conn. w' = upd_man (\<lambda>a. a\<lparr>man_Receiver := man_Receiver a @ [w_next_client w]\<rparr>)
        (fst (new_client conn (w_next_cid w) (fst (new_cid cid w)))))"

definition web_change :: "'l world \<Rightarrow> 'l world \<Rightarrow> bool" where
  "web_change w w' \<longleftrightarrow> web_quiet w w' \<or> web_meta w w' \<or> web_source w w'"

lemma web_quiet_refl: "web_quiet w w"
  by (simp add: web_quiet_def set_lock_def)

text \<open>A handler that ends, by returning or by a panic, in one of these ways.\<close>

definition web_ends :: "'l world \<Rightarrow> ('l world, 'a) outcome \<Rightarrow> bool" where
  "web_ends w out \<longleftrightarrow> (case out of Block _ \<Rightarrow> True | _ \<Rightarrow> web_change w (out_state out))"

lemma web_ends_Done [simp]: "web_ends w (Done w' a) \<longleftrightarrow> web_change w w'"
  and web_ends_Panic [simp]: "web_ends w (Panic w' m) \<longleftrightarrow> web_change w w'"
  and web_ends_Block [simp]: "web_ends w (Block w')"
  by (simp_all add: web_ends_def)

lemma web_change_refl [simp]: "web_change w w"
  by (simp add: web_change_def web_quiet_refl)

lemma admin_ends: "web_ends w (adminHandler ord r cid w)"
  by (simp add: adminHandler_def Let_def web_change_def web_quiet_def set_lock_def split: option.split)

lemma listclients_ends: "web_ends w (listclientsHandler cid w)"
  by (simp add: listclientsHandler_def Let_def)

lemma metadata_ends: "web_ends w (metadataHandler conv r cid w)"
  by (auto simp: metadataHandler_def Let_def web_change_def web_quiet_refl web_meta_def new_cid_def
      send_meta_def)

lemma source_ends: "web_ends w (sourceHandler caps cid w)"
  by (auto simp: sourceHandler_def Let_def web_change_def web_quiet_refl web_source_def new_cid_def
      new_client_def send_receiver_def split: option.split sum.split)

lemma auth_ends: "(\<And>u. web_ends w (fn u w)) \<Longrightarrow> web_ends w (makeAuthHandler A fn perm r w)"
  by (rule makeAuthHandler_cases [of A fn perm r w]) auto

lemma main_ends: "web_ends w (mainHandler W r w)"
  by (simp add: mainHandler_def Let_def auth_ends admin_ends listclients_ends metadata_ends source_ends
      errorHandler_def)

text \<open>
  New objects behind unused pointers, and at most a new client in the channel of the loop, change
  nothing for the objects in use.
\<close>

lemma keeps_alloc:
  assumes base: "base_inv w"
    and same: "man_Mounts (w_man w') = man_Mounts (w_man w)" "w_mounts w' = w_mounts w"
      "w_next_mount w' = w_next_mount w" "w_hs w' = w_hs w" "w_err w' = w_err w" "w_readers w' = w_readers w"
    and old: "\<And>i. i < w_next_cid w \<Longrightarrow> w_cids w' i = w_cids w i"
      "\<And>c. c < w_next_client w \<Longrightarrow> client_id w' c = client_id w c"
    and "ids_ok w'" "chans_ok w'" and mono: "w_next_client w \<le> w_next_client w'"
    and receiver: "\<And>c. c < w_next_client w \<Longrightarrow> c \<in> set (man_Receiver (w_man w')) \<Longrightarrow> c \<in> set (man_Receiver (w_man w))"
  shows "keeps ok w w'"
proof (rule keepsI)
  have s: "served w' d \<longleftrightarrow> served w d" for d by (simp add: served_def same)
  have cm: "client_mount w' d = client_mount w d" if "d < w_next_client w" for d
    using that base old by (simp add: base_inv_def ids_ok_def)
  show "mounts_ok w'" using base by (simp add: base_inv_def mounts_ok_def same)
  show "reg_ok w'"
    unfolding reg_ok_def same s
  proof (intro conjI allI ballI impI)
    show "hs_wf (w_hs w)" using base by (simp add: base_inv_def reg_ok_def)
    show "c \<in> set (registered (w_hs w) (client_mount w' c))" if "served w c" for c
      using that base served_old [OF base that] by (simp add: base_inv_def reg_ok_def cm)
    fix n c assume "c \<in> set (registered (w_hs w) n)"
    then have c: "c < w_next_client w" "client_mount w c = n" "c \<notin> set (man_Receiver (w_man w))"
      using base by (auto simp: base_inv_def reg_ok_def)
    then show "c < w_next_client w'" "client_mount w' c = n" "c \<notin> set (man_Receiver (w_man w'))"
      using mono receiver by (auto simp: cm)
  qed
  show "exact_registry w'" if "exact_registry w" using that by (simp add: exact_registry_def s same)
  show "live_inv w'" if live: "live_inv w"
  proof -
    have ww: "world_wf w" and sc: "\<And>d. served w d \<longleftrightarrow> connected w d" using live by (simp_all add: live_inv_def)
    have entry: "c < w_next_client w \<and> i < w_next_cid w"
      if "mounts_of w n = Some m" "GetByID (mnt_Clients (w_mounts w m)) i = Some c" for n m i c
    proof -
      note e = entry_connected [OF ww that]
      from e(1) have "c < w_next_client w" using served_old [OF base] by (simp add: sc)
      with e(2) base show ?thesis by (auto simp: base_inv_def ids_ok_def)
    qed
    have "mount_ok w' n m" if m: "mounts_of w n = Some m" for n m
      using wf_mount_ok [OF ww m] entry [OF m] by (auto simp: mount_ok_def same old)
    with ww have "world_wf w'" by (simp add: world_wf_def same)
    moreover have "connected w' d \<longleftrightarrow> connected w d" for d
    proof
      assume "connected w' d"
      then obtain m where m: "mounts_of w (client_mount w' d) = Some m"
        and e: "GetByID (mnt_Clients (w_mounts w m)) (client_id w' d) = Some d"
        by (auto simp: connected_def same)
      from entry_connected(1) [OF ww m e] show "connected w d" .
    next
      assume d: "connected w d"
      then have "d < w_next_client w" using served_old [OF base] by (simp add: sc)
      with d cm [OF this] show "connected w' d" by (simp add: connected_def same old(2))
    qed
    ultimately show ?thesis by (simp add: live_inv_def s sc)
  qed
qed (fact assms)+

lemma keeps_source:
  assumes base: "base_inv w" and src: "web_source w w'"
  shows "keeps ok w w'"
proof -
  let ?c = "w_next_client w" and ?i = "w_next_cid w"
  from src obtain cid conn where w': "w_cids w' = (w_cids w)(?i := cid)"
    "w_clients w' = (w_clients w)(?c := NewClient conn ?i)" "w_next_client w' = Suc ?c"
    "w_next_cid w' = Suc ?i" "man_Receiver (w_man w') = man_Receiver (w_man w) @ [?c]"
    and same: "man_Mounts (w_man w') = man_Mounts (w_man w)" "w_mounts w' = w_mounts w"
      "w_next_mount w' = w_next_mount w" "w_hs w' = w_hs w" "w_err w' = w_err w" "w_readers w' = w_readers w"
    by (auto simp: web_source_def new_cid_def new_client_def)
  have "ids_ok w'"
    using base by (auto simp: base_inv_def ids_ok_def w' NewClient_def less_Suc_eq)
  moreover have "chans_ok w'"
    using base served_old [OF base]
    by (auto simp: base_inv_def chans_ok_def served_def w' same less_Suc_eq)
  ultimately show ?thesis
    by (intro keeps_alloc [OF base same]) (auto simp: w')
qed

lemma keeps_web_meta:
  assumes base: "base_inv w" and src: "web_meta w w'"
  shows "keeps ok w w'"
proof -
  let ?i = "w_next_cid w"
  from src obtain cid where w': "w_cids w' = (w_cids w)(?i := cid)" "w_clients w' = w_clients w"
    "w_next_client w' = w_next_client w" "w_next_cid w' = Suc ?i"
    "man_Receiver (w_man w') = man_Receiver (w_man w)"
    and same: "man_Mounts (w_man w') = man_Mounts (w_man w)" "w_mounts w' = w_mounts w"
      "w_next_mount w' = w_next_mount w" "w_hs w' = w_hs w" "w_err w' = w_err w" "w_readers w' = w_readers w"
    by (auto simp: web_meta_def new_cid_def)
  have "ids_ok w'" "chans_ok w'"
    using base by (simp_all add: base_inv_def ids_ok_def chans_ok_def w' same less_Suc_eq)
  then show ?thesis by (intro keeps_alloc [OF base same]) (simp_all add: w')
qed

lemma keeps_web: "base_inv w \<Longrightarrow> web_change w w' \<Longrightarrow> keeps ok w w'"
  unfolding web_change_def
proof (elim disjE)
  assume "base_inv w" and q: "web_quiet w w'"
  then show "keeps ok w w'"
    by (elim keeps_cong) (subst q [unfolded web_quiet_def], simp add: set_lock_def)+
qed (rule keeps_source keeps_web_meta, assumption+)+

lemma other_keeps: "other_step w w' \<Longrightarrow> base_inv w \<Longrightarrow> keeps ok w w'"
proof (induction rule: other_step.induct)
  case (web W r w w' calls)
  with main_ends [of w W r] show ?case by (auto intro: keeps_web)
next
  case (web_panic W r w w' msg)
  with main_ends [of w W r] show ?case by (auto intro: keeps_web)
qed (auto intro: keeps_read keeps_resend)

lemma others_base: "other_step\<^sup>*\<^sup>* w w' \<Longrightarrow> base_inv w \<Longrightarrow> base_inv w'"
proof (induction rule: rtranclp.induct)
  case (rtrancl_into_rtrancl a b c)
  with other_keeps [of b c True] show ?case by (simp add: keeps_def)
qed

section \<open>Panics and the restart\<close>

lemma RemoveClient_Panic_same: "RemoveClient c w = Panic x msg \<Longrightarrow> x = w"
  by (auto simp: RemoveClient_def outcome_simps split: option.splits if_splits)

lemma on_client_Panic_split:
  assumes "on_client E c v = Panic x msg"
  shows "AddClient E c v = Done x True"
proof -
  have "AddClient E c v \<noteq> Panic u m" for u m
    by (cases "case gomap_get (man_Mounts (w_man v)) (client_mount v c) of None \<Rightarrow> add_first E c v
        | Some m \<Rightarrow> add_more m c v") (simp_all add: AddClient_def)
  moreover have h: "on_handlers (HandleClientConnect n c) u \<noteq> Panic y m" for n u y m
    by (auto simp: on_handlers_def HandleClientConnect_def Let_def split: outcome.splits if_splits)
  ultimately obtain w1 where add: "AddClient E c v = Done w1 True" and rem: "RemoveClient c w1 = Panic x msg"
    using assms unfolding on_client_def obind_Panic_iff by (auto simp: outcome_simps h split: if_splits)
  from RemoveClient_Panic_same [OF rem] add show ?thesis by simp
qed

lemma HandleData_Panic_frame: "HandleData E m d w = Panic x msg \<Longrightarrow> x = w\<lparr>w_lib := w_lib x\<rparr>"
  by (auto simp: HandleData_def send_data_def split: prod.splits bool.splits option.splits
      outcome.splits if_splits)

text \<open>A turn that panics leaves the state in order as well.\<close>

lemma panic_base:
  assumes "receive w ev v" and "ProcessClients E ev v = Panic x msg" and base: "base_inv w"
  shows "base_inv x"
  using assms(1)
proof cases
  case (data d ds)
  with assms(2) obtain m where "HandleData E m (dp_Data d) v = Panic x msg"
    by (auto simp: on_data_def split: option.splits if_splits)
  then have x: "x = v\<lparr>w_lib := w_lib x\<rparr>" by (rule HandleData_Panic_frame)
  have "keeps True w (v\<lparr>w_lib := w_lib x\<rparr>)" using base by (rule keeps_cong) (simp_all add: data)
  with x show ?thesis by (simp add: keeps_def)
next
  case (err e es)
  consider (gone) "RemoveClient (ep_Client e) v = Panic x msg" | (removed) "RemoveClient (ep_Client e) v = Done x ()"
    using assms(2) err by (auto simp: on_err_def outcome_simps split: option.splits)
  then show ?thesis
  proof cases
    case gone
    from RemoveClient_Panic_same [OF this] have x: "x = w\<lparr>w_err := es\<rparr>" by (simp add: err)
    have s: "served x d \<Longrightarrow> served w d" for d using err by (auto simp: x served_def)
    show ?thesis
      using base err s by (auto simp: base_inv_def mounts_ok_def ids_ok_def chans_ok_def reg_ok_def x)
  next
    case removed
    then have "RemoveClient (ep_Client e) (w\<lparr>w_err := es\<rparr>) = Done x ()" by (simp add: err)
    from keeps_err [OF this err(3) base, of True] show ?thesis by (simp add: keeps_def)
  qed
next
  case (client c cs)
  then have add: "AddClient E c v = Done x True" using assms(2) by (simp add: on_client_Panic_split)
  note fr = AddClient_frame [OF add]
  have "mounts_ok v" using base by (simp add: base_inv_def mounts_ok_def client)
  then have "mounts_ok x" by (rule AddClient_mounts [OF add])
  moreover have "served x d \<longleftrightarrow> served w d" for d by (simp add: served_def fr client)
  ultimately show ?thesis
    using base client by (auto simp: base_inv_def ids_ok_def chans_ok_def reg_ok_def fr)
next
  case (collect m ms)
  with assms(2) show ?thesis by (auto simp: on_collect_def Let_def split: if_splits)
next
  case (meta p ps)
  with assms(2) have x: "x = v" by (auto simp: on_meta_def Let_def split: option.splits if_splits)
  have "keeps True w v" using base by (rule keeps_cong) (simp_all add: meta)
  with x show ?thesis by (simp add: keeps_def)
next
  case tick
  with assms(2) show ?thesis by (simp add: on_tick_def)
qed

lemma DestroyManager_sel [simp]:
  "w_mounts (DestroyManager E a w) = w_mounts w" "w_cids (DestroyManager E a w) = w_cids w"
  "w_clients (DestroyManager E a w) = w_clients w" "w_man (DestroyManager E a w) = w_man w"
  "w_next_mount (DestroyManager E a w) = w_next_mount w" "w_hs (DestroyManager E a w) = w_hs w"
  "w_err (DestroyManager E a w) = w_err w" "w_readers (DestroyManager E a w) = w_readers w"
  "w_next_cid (DestroyManager E a w) = w_next_cid w" "w_next_client (DestroyManager E a w) = w_next_client w"
proof -
  have "w_mounts (fold (\<lambda>e. DestroyMount E (snd e)) es w) = w_mounts w \<and>
    w_cids (fold (\<lambda>e. DestroyMount E (snd e)) es w) = w_cids w \<and>
    w_clients (fold (\<lambda>e. DestroyMount E (snd e)) es w) = w_clients w \<and>
    w_man (fold (\<lambda>e. DestroyMount E (snd e)) es w) = w_man w \<and>
    w_next_mount (fold (\<lambda>e. DestroyMount E (snd e)) es w) = w_next_mount w \<and>
    w_hs (fold (\<lambda>e. DestroyMount E (snd e)) es w) = w_hs w \<and>
    w_err (fold (\<lambda>e. DestroyMount E (snd e)) es w) = w_err w \<and>
    w_readers (fold (\<lambda>e. DestroyMount E (snd e)) es w) = w_readers w \<and>
    w_next_cid (fold (\<lambda>e. DestroyMount E (snd e)) es w) = w_next_cid w \<and>
    w_next_client (fold (\<lambda>e. DestroyMount E (snd e)) es w) = w_next_client w" for es :: "(string \<times> mount_ptr) list"
    by (induction es arbitrary: w) simp_all
  then show "w_mounts (DestroyManager E a w) = w_mounts w" "w_cids (DestroyManager E a w) = w_cids w"
    "w_clients (DestroyManager E a w) = w_clients w" "w_man (DestroyManager E a w) = w_man w"
    "w_next_mount (DestroyManager E a w) = w_next_mount w" "w_hs (DestroyManager E a w) = w_hs w"
    "w_err (DestroyManager E a w) = w_err w" "w_readers (DestroyManager E a w) = w_readers w"
    "w_next_cid (DestroyManager E a w) = w_next_cid w" "w_next_client (DestroyManager E a w) = w_next_client w"
    by (simp_all add: DestroyManager_def)
qed

lemma restart_inv:
  assumes "base_inv w"
  shows "base_inv (restart E w)" and "live_inv (restart E w)"
proof -
  have s: "\<not> served (restart E w) c" for c by (simp add: served_def restart_def)
  show "base_inv (restart E w)"
    using assms s by (auto simp: base_inv_def mounts_ok_def ids_ok_def chans_ok_def reg_ok_def restart_def
        NewManager_def gomap_wf_def)
  show "live_inv (restart E w)"
    using s by (simp add: live_inv_def world_wf_def connected_def restart_def NewManager_def gomap_wf_def)
qed

section \<open>The invariant on every run\<close>

lemma loop_keeps:
  assumes "receive w ev v" and "ProcessClients E ev v = Done w' u" and base: "base_inv w"
  shows "keeps (\<not> disturbed w (Turn ev)) w w'"
  using assms(1)
proof cases
  case (data d ds)
  with assms(2) base show ?thesis by (auto intro: keeps_data)
next
  case (err e es)
  with assms(2) have "RemoveClient (ep_Client e) (w\<lparr>w_err := es\<rparr>) = Done w' ()"
    by (auto simp: on_err_def outcome_simps split: option.splits)
  then show ?thesis using err(3) base by (rule keeps_err)
next
  case (client c cs)
  with assms(2) have on: "on_client E c v = Done w' ()" by simp
  note client_base [OF on client(2,3) base] client_live [OF on client(2,3) base]
  with client(1) show ?thesis by (simp add: keeps_def)
next
  case (collect m ms)
  with assms(2) have "on_collect E m v = Done w' ()" by simp
  then show ?thesis using collect(2) base by (rule keeps_collect) (simp add: collect(1))
next
  case (meta p ps)
  with assms(2) have "on_meta E p v = Done w' ()" by simp
  then show ?thesis using base meta(2) by (rule keeps_meta)
next
  case tick
  with assms(2) have "on_tick w = Done w' ()" by simp
  then show ?thesis using base by (rule keeps_tick)
qed

text \<open>One step, and with it every run: the three layers of the invariant.\<close>

lemma step_keeps:
  assumes "step w l w'" and "base_inv w"
  shows "base_inv w'"
    and "restarts (w, l) \<or> live_inv w \<and> \<not> disturbed w l \<Longrightarrow> live_inv w'"
    and "\<not> restarts (w, l) \<Longrightarrow> exact_registry w \<Longrightarrow> exact_registry w'"
proof -
  have "base_inv w' \<and> (restarts (w, l) \<or> live_inv w \<and> \<not> disturbed w l \<longrightarrow> live_inv w') \<and>
    (\<not> restarts (w, l) \<longrightarrow> exact_registry w \<longrightarrow> exact_registry w')"
    using assms(1)
  proof cases
    case (loop ev v E u)
    with loop_keeps [OF loop(2,4) assms(2)] show ?thesis by (auto simp: keeps_def)
  next
    case (loop_panic ev v E x msg y)
    from panic_base [OF loop_panic(3,5) assms(2)] have "base_inv y" by (rule others_base [OF loop_panic(6)])
    with restart_inv [of y E] loop_panic(1,2) show ?thesis by simp
  next
    case other
    with other_keeps [OF other(2) assms(2), of True] show ?thesis by (simp add: keeps_def)
  qed
  then show "base_inv w'"
    and "restarts (w, l) \<or> live_inv w \<and> \<not> disturbed w l \<Longrightarrow> live_inv w'"
    and "\<not> restarts (w, l) \<Longrightarrow> exact_registry w \<Longrightarrow> exact_registry w'" by blast+
qed

lemma history_inv:
  assumes "history tr w"
  shows "base_inv w" and "settled tr \<Longrightarrow> live_inv w" and "never_restarted tr \<Longrightarrow> exact_registry w"
proof -
  have "base_inv w \<and> (settled tr \<longrightarrow> live_inv w) \<and> (never_restarted tr \<longrightarrow> exact_registry w)"
    using assms
  proof induction
    case (start w)
    then show ?case by (simp add: initial_inv)
  next
    case (step tr w l w')
    note k = step_keeps [OF step(2) conjunct1 [OF step(3)]]
    have "live_inv w'" if "settled ((w, l) # tr)"
      using that step(3) k(2) by (cases "restarts (w, l)") (auto simp: settled_def)
    moreover have "exact_registry w'" if "never_restarted ((w, l) # tr)"
      using that step(3) k(3) by (simp add: never_restarted_def)
    ultimately show ?case using k(1) by blast
  qed
  then show "base_inv w" and "settled tr \<Longrightarrow> live_inv w" and "never_restarted tr \<Longrightarrow> exact_registry w"
    by blast+
qed

text \<open>What \<open>reg_ok\<close> and \<open>exact_registry\<close> say together of the registry.\<close>

lemma registry_served:
  assumes "base_inv w" and "exact_registry w"
  shows "set (registered (w_hs w) n) = {c. served w c \<and> client_mount w c = n}"
  using assms unfolding base_inv_def reg_ok_def exact_registry_def by blast

end
