(* ===== verification/Demo.thy ===== *)
theory Demo
  imports System
begin

text \<open>
  A concrete server: the recording library, a small configuration, and three sources of one mount.
  The concrete runs of the development start from here.
\<close>

section \<open>Surroundings\<close>

definition demo_child :: child_fn where
  "demo_child n k = (case n of YMap m \<Rightarrow> gomap_get m k | _ \<Rightarrow> None)"

definition demo_root :: node where
  "demo_root = YMap [(''icecast'', YMap [(''host'', Scalar ''radio'')])]"

definition demo_env_with :: "'l libshout \<Rightarrow> 'l env" where
  "demo_env_with L = \<lparr>e_lib = L, e_Child = demo_child, e_Root = demo_root, e_opt_order = \<lambda>m. m,
     e_id_order = \<lambda>m. m, e_mount_order = \<lambda>m. m\<rparr>"

definition demo_env :: "rec_lib env" where
  "demo_env = demo_env_with recording"

lemma demo_env_ok: "env_ok (demo_env_with L)" "env_ok demo_env"
  by (simp_all add: env_ok_def demo_env_def demo_env_with_def)

definition demo_auth :: auth_env where
  "demo_auth = \<lparr>Authentication = True, db_Begin = True,
     db_query = \<lambda>u. if u = ''dj'' then Some (''hash'', 3) else None,
     bcrypt = \<lambda>h p. h = ''hash'' \<and> p = ''secret'', unicode_lower = \<lambda>s. s\<rparr>"

section \<open>Clients and states\<close>

definition demo_cid :: "string \<Rightarrow> ClientID" where
  "demo_cid name = \<lparr>cid_Name = name, cid_Pass = ''p'', cid_Perm = PERM_SOURCE, cid_Agent = [],
     cid_Addr = ''10.0.0.1:99'', cid_Mount = ''/main'', cid_AudioFormat = []\<rparr>"

definition demo_empty_with :: "'l \<Rightarrow> 'l world" where
  "demo_empty_with l = \<lparr>w_cids = \<lambda>_. demo_cid [], w_clients = \<lambda>_. NewClient 0 0, w_mounts = \<lambda>_.
      \<lparr>mnt_ClientQueue = [], mnt_Clients = NewClientContainer, mnt_Active = None, mnt_Mount = [],
       mnt_Shout = \<lparr>sh_shout = 0, sh_metadata = 0\<rparr>\<rparr>,
     w_next_cid = 0, w_next_client = 0, w_next_mount = 0, w_closed = {}, w_hs = handlers_init,
     w_lib = l, w_man = NewManager, w_data = [], w_err = [], w_readers = [], w_delayed = [],
     w_gen = 1\<rparr>"

definition demo_empty :: "rec_lib world" where
  "demo_empty = demo_empty_with rec_init"

lemma demo_empty_initial: "initial demo_empty"
  by (simp add: initial_def demo_empty_def demo_empty_with_def)

text \<open>Three sources, numbered like their identifiers, none of them added yet.\<close>

definition demo_three_with :: "'l \<Rightarrow> 'l world" where
  "demo_three_with l = (demo_empty_with l)\<lparr>w_cids := \<lambda>i. if i = 0 then demo_cid ''a'' else if i = 1 then demo_cid ''b'' else demo_cid ''c'',
     w_clients := \<lambda>c. NewClient c c, w_next_cid := 3, w_next_client := 3\<rparr>"

definition demo_three :: "rec_lib world" where
  "demo_three = demo_three_with rec_init"

text \<open>A run of the loop over a sequence of events.\<close>

fun run :: "'l env \<Rightarrow> event list \<Rightarrow> 'l world \<Rightarrow> ('l world, unit) outcome" where
  "run E [] w = Done w ()"
| "run E (ev # evs) w = obind (ProcessClients E ev w) (\<lambda>w' _. run E evs w')"

text \<open>The state once all three have joined, and that the loop gets there.\<close>

definition demo_mount :: Mount where
  "demo_mount = \<lparr>mnt_ClientQueue = [1, 2],
     mnt_Clients = \<lparr>cc_byID = [(0, 0), (1, 1), (2, 2)], cc_Length = 3\<rparr>, mnt_Active = Some 0,
     mnt_Mount = ''/main'', mnt_Shout = \<lparr>sh_shout = 0, sh_metadata = 1\<rparr>\<rparr>"

definition demo_joined_with :: "'l \<Rightarrow> 'l world" where
  "demo_joined_with l = (demo_three_with l)\<lparr>w_mounts := (w_mounts (demo_three_with l))(0 := demo_mount), w_next_mount := 1,
     w_hs := \<lparr>HandlerMounts = [(''/main'', [0, 1, 2])], HandlerLock = False\<rparr>,
     w_man := NewManager\<lparr>man_Mounts := [(''/main'', 0)]\<rparr>, w_readers := [0, 1, 2]\<rparr>"

definition demo_joined :: "rec_lib world" where
  "demo_joined = demo_joined_with \<lparr>rl_conn = [], rl_log = [C_new 0, C_metadata_new 1, C_metadata_add 1 ''charset'' ''UTF8'',
       C_set 0 (set_host ''radio''), C_set 0 (set_mount ''/main''), C_set 0 (set_format 1)]\<rparr>"

lemmas demo_state_defs = demo_three_with_def demo_three_def demo_env_with_def demo_env_def demo_empty_with_def
  demo_empty_def demo_joined_with_def demo_child_def demo_root_def demo_cid_def
  NewManager_def NewClient_def NewClientContainer_def handlers_init_def demo_joined_def demo_mount_def

lemmas server_defs = on_client_def AddClient_def add_first_def add_more_def NewMount_def
  CreateShoutMap_def on_handlers_def HandleClientConnect_def upd_man_def upd_mount_def shout_of_def
  cc_Add_def cc_Remove_def GetByID_def Let_def QUEUE_LIMIT_def apply_option_def Formats_def

lemma demo_joined_run:
  "run demo_env [EvClient 0, EvClient 1, EvClient 2] demo_three = Done demo_joined ()"
  by (simp add: server_defs shout_defs recording_defs demo_state_defs)

lemma demo_joined_wf: "world_wf (demo_joined_with l)"
  by (simp add: world_wf_def mount_ok_def demo_state_defs cc_wf_def gomap_wf_def GetByID_def QUEUE_LIMIT_def)

section \<open>A state reached through a request\<close>

text \<open>A source request with the credentials of a user who may stream.\<close>

definition demo_request :: "unit Request" where
  "demo_request = SetBasicAuth
     \<lparr>req_Method = ''SOURCE'',
      req_URL = \<lparr>url_Scheme = [], url_Opaque = [], url_Host = [], url_Path = ''/main'', url_RawQuery = []\<rparr>,
      req_Proto = ''HTTP/1.0'', req_ProtoMajor = 1, req_ProtoMinor = 0, req_Header = [],
      req_Body = None, req_ContentLength = 0, req_TransferEncoding = [], req_Close = True,
      req_Host = [], req_Trailer = None, req_RemoteAddr = ''10.0.0.1:99'', req_RequestURI = ''/main''\<rparr>
     ''dj'' ''secret''"

text \<open>A metadata update of the same user, with the user name in the password.\<close>

definition demo_update :: "unit Request" where
  "demo_update = SetBasicAuth
     (demo_request\<lparr>req_Method := ''GET'', req_Header := [],
      req_URL := \<lparr>url_Scheme = [], url_Opaque = [], url_Host = [], url_Path = ''/admin/metadata'',
        url_RawQuery = ''mount=/main''\<rparr>, req_RemoteAddr := ''10.0.0.1:7''\<rparr>)
     ''source'' ''dj|secret''"

definition demo_web :: web_env where
  "demo_web = \<lparr>we_auth = demo_auth, we_conv = \<lambda>s _ _. Some s,
     we_caps = \<lparr>rw_Flusher = True, rw_Hijack = Some (Inr 7)\<rparr>, we_order = \<lambda>m. m\<rparr>"

definition demo_dj :: ClientID where
  "demo_dj = \<lparr>cid_Name = ''dj'', cid_Pass = ''secret'', cid_Perm = PERM_SOURCE, cid_Agent = [],
     cid_Addr = ''10.0.0.1:99'', cid_Mount = ''/main'', cid_AudioFormat = []\<rparr>"

lemma demo_digest: "ParseDigest demo_request = (''dj'', ''secret'')"
  unfolding demo_request_def by (rule ParseDigest_of_auth [OF Get_SetBasicAuth]) simp

lemma demo_update_digest: "ParseDigest demo_update = (''source'', ''dj|secret'')"
  unfolding demo_update_def by (rule ParseDigest_of_auth [OF Get_SetBasicAuth]) simp

lemma demo_header: "Get (req_Header demo_request) ''Content-Type'' = []"
  "Get (req_Header demo_request) ''User-Agent'' = []"
  by code_simp+

lemma demo_user: "NewClientIDFromRequest demo_request = demo_dj\<lparr>cid_Perm := PERM_NONE\<rparr>"
  unfolding NewClientIDFromRequest_def demo_digest demo_header
  by (simp add: demo_request_def SetBasicAuth_def demo_dj_def)

lemma demo_login: "Login demo_auth (demo_dj\<lparr>cid_Perm := PERM_NONE\<rparr>) = (demo_dj, None)"
  by code_simp

text \<open>The source is in the channel of the loop.\<close>

definition demo_sent :: "rec_lib world" where
  "demo_sent = demo_empty\<lparr>w_cids := (w_cids demo_empty)(0 := demo_dj),
     w_clients := (w_clients demo_empty)(0 := NewClient 7 0), w_next_cid := 1, w_next_client := 1,
     w_man := NewManager\<lparr>man_Receiver := [0]\<rparr>\<rparr>"

lemma demo_source:
  "mainHandler demo_web demo_request demo_empty =
     Done demo_sent [RW_WriteHeader 200, RW_Write CRLF, RW_Flush, RW_Hijack]"
proof -
  have "makeAuthHandler demo_auth fn PERM_SOURCE demo_request w = fn demo_dj w"
    for fn and w :: "rec_lib world"
    by (simp add: makeAuthHandler_def demo_user demo_login) (simp add: demo_dj_def)
  then show ?thesis
    by (simp add: mainHandler_def demo_request_def SetBasicAuth_def demo_web_def sourceHandler_def Let_def
        new_cid_def new_client_def send_receiver_def demo_sent_def demo_empty_def demo_empty_with_def upd_man_def
        RECEIVER_CAP_def NewManager_def)
qed

lemma demo_sent_history: "history [(demo_empty, Other)] demo_sent"
  by (rule history.step [OF history.start [OF demo_empty_initial] step.other [OF other_step.web [OF demo_source]]])

text \<open>The loop has made the mount, and the source is on the air.\<close>

definition demo_live :: "rec_lib world" where
  "demo_live = demo_sent\<lparr>w_mounts := (w_mounts demo_empty)(0 := demo_mount\<lparr>mnt_ClientQueue := [],
       mnt_Clients := \<lparr>cc_byID = [(0, 0)], cc_Length = 1\<rparr>\<rparr>), w_next_mount := 1,
     w_hs := \<lparr>HandlerMounts = [(''/main'', [0])], HandlerLock = False\<rparr>,
     w_lib := w_lib demo_joined,
     w_man := NewManager\<lparr>man_Mounts := [(''/main'', 0)]\<rparr>, w_readers := [0]\<rparr>"

lemmas demo_live_defs = demo_live_def demo_sent_def demo_dj_def demo_state_defs

lemma demo_sent_receive: "receive demo_sent (EvClient 0) (upd_man (\<lambda>a. a\<lparr>man_Receiver := []\<rparr>) demo_sent)"
  by (rule receive.client) (simp add: demo_sent_def)

definition demo_steps :: "rec_lib steps" where
  "demo_steps = [(demo_sent, Turn (EvClient 0)), (demo_empty, Other)]"

lemma demo_live_history: "history demo_steps demo_live"
  unfolding demo_steps_def
proof (rule history.step [OF demo_sent_history])
  have "ProcessClients demo_env (EvClient 0) (upd_man (\<lambda>a. a\<lparr>man_Receiver := []\<rparr>) demo_sent) = Done demo_live ()"
    by (simp add: server_defs shout_defs recording_defs demo_live_defs)
  with demo_sent_receive demo_env_ok(2) show "step demo_sent (Turn (EvClient 0)) demo_live"
    by (rule step.loop)
qed

lemma demo_steps_quiet: "settled demo_steps" "never_restarted demo_steps"
  by (simp_all add: demo_steps_def settled_def never_restarted_def demo_live_defs)

text \<open>Its reader has panicked.\<close>

definition demo_lost :: "rec_lib world" where
  "demo_lost = demo_live\<lparr>w_err := [\<lparr>ep_Err = None, ep_Client = 0\<rparr>], w_readers := []\<rparr>"

lemma demo_lost_history: "history ((demo_live, Other) # demo_steps) demo_lost"
proof (rule history.step [OF demo_live_history])
  have "ReadInto 0 ReadPanic demo_live = Done demo_lost ()"
    by (simp add: demo_lost_def demo_live_defs ERR_CAP_def chan_full_def)
  then show "step demo_live Other demo_lost"
    by (intro step.other, elim other_step.read [rotated]) (simp add: demo_live_def)
qed

text \<open>Its reader has sent an empty piece of audio instead, and the loop has restarted.\<close>

definition demo_idle :: "rec_lib world" where
  "demo_idle = demo_live\<lparr>w_data := [\<lparr>dp_Data = [], dp_Client = 0\<rparr>]\<rparr>"

lemma demo_restart_history:
  "\<exists>w. history [(demo_idle, Restart (EvData \<lparr>dp_Data = [], dp_Client = 0\<rparr>)), (demo_live, Other),
      (demo_sent, Turn (EvClient 0)), (demo_empty, Other)] w \<and>
     registered (w_hs w) ''/main'' = [0] \<and> \<not> served w 0"
proof -
  let ?d = "\<lparr>dp_Data = [], dp_Client = 0\<rparr>"
  have "ReadInto 0 (ReadData []) demo_live = Done demo_idle ()"
    by (simp add: demo_idle_def demo_live_defs DATA_CAP_def chan_full_def)
  then have "step demo_live Other demo_idle"
    by (intro step.other, elim other_step.read [rotated]) (simp add: demo_live_def)
  note h = history.step [OF demo_live_history [unfolded demo_steps_def] this]
  have r: "receive demo_idle (EvData ?d) (demo_idle\<lparr>w_data := []\<rparr>)"
    by (rule receive.data) (simp add: demo_idle_def)
  have "\<exists>x msg. ProcessClients demo_env (EvData ?d) (demo_idle\<lparr>w_data := []\<rparr>) = Panic x msg \<and>
      w_hs x = w_hs demo_live"
    by (simp add: on_data_def HandleData_def send_data_def demo_idle_def server_defs shout_defs recording_defs
        demo_live_defs)
  then obtain x msg where p: "ProcessClients demo_env (EvData ?d) (demo_idle\<lparr>w_data := []\<rparr>) = Panic x msg"
    and x: "w_hs x = w_hs demo_live" by blast
  note history.step [OF h step.loop_panic [OF r demo_env_ok(2) p rtranclp.rtrancl_refl]]
  moreover have "w_hs (restart demo_env x) = w_hs demo_live" by (simp add: restart_def x)
  then have "registered (w_hs (restart demo_env x)) ''/main'' = [0]"
    by (simp add: registered_def demo_live_def)
  moreover have "\<not> served (restart demo_env x) 0" by (simp add: served_def restart_def)
  ultimately show ?thesis by blast
qed

end
