(* ===== verification/Audio.thy ===== *)
theory Audio
  imports Metadata
begin

text \<open>
  What reaches the icecast server: any libshout with a ghost log of the audio handed to it. The log
  grows on audio of the source that is on the air, and on nothing else.
\<close>

section \<open>A log around a library\<close>

definition log_step :: "('l \<Rightarrow> 'a \<times> 'l) \<Rightarrow> 'l \<times> 'g \<Rightarrow> 'a \<times> 'l \<times> 'g" where
  "log_step f s = (case f (fst s) of (a, l) \<Rightarrow> (a, l, snd s))"

definition audio_log :: "'l libshout \<Rightarrow> ('l \<times> (shout_t \<times> string) list) libshout" where
  "audio_log L =
     \<lparr>shout_new = log_step (shout_new L),
      shout_free = \<lambda>s l. apfst (shout_free L s) l,
      shout_metadata_new = log_step (shout_metadata_new L),
      shout_metadata_free = \<lambda>m l. apfst (shout_metadata_free L m) l,
      shout_metadata_add = \<lambda>m k v. log_step (shout_metadata_add L m k v),
      shout_set_metadata = \<lambda>s m. log_step (shout_set_metadata L s m),
      shout_set = \<lambda>s c l. apfst (shout_set L s c) l,
      shout_open = \<lambda>s. log_step (shout_open L s),
      shout_close = \<lambda>s. log_step (shout_close L s),
      shout_send = \<lambda>s d l. apsnd (apsnd (\<lambda>g. g @ [(s, d)])) (log_step (shout_send L s d) l),
      shout_get_connected = \<lambda>s. log_step (shout_get_connected L s),
      shout_get_errno = \<lambda>s l. shout_get_errno L s (fst l),
      shout_get_error = \<lambda>s l. shout_get_error L s (fst l),
      shout_sync = \<lambda>s l. apfst (shout_sync L s) l,
      shout_delay = \<lambda>s l. shout_delay L s (fst l),
      SHOUT_PROTOCOL_HTTP = SHOUT_PROTOCOL_HTTP L, SHOUT_PROTOCOL_XAUDIOCAST = SHOUT_PROTOCOL_XAUDIOCAST L,
      SHOUT_PROTOCOL_ICY = SHOUT_PROTOCOL_ICY L,
      SHOUT_FORMAT_OGG = SHOUT_FORMAT_OGG L, SHOUT_FORMAT_MP3 = SHOUT_FORMAT_MP3 L,
      SHOUT_AI_BITRATE = SHOUT_AI_BITRATE L, SHOUT_AI_CHANNELS = SHOUT_AI_CHANNELS L,
      SHOUT_AI_SAMPLERATE = SHOUT_AI_SAMPLERATE L, SHOUT_AI_QUALITY = SHOUT_AI_QUALITY L,
      SHOUTERR_SUCCESS = SHOUTERR_SUCCESS L, SHOUTERR_INSANE = SHOUTERR_INSANE L,
      SHOUTERR_MALLOC = SHOUTERR_MALLOC L, SHOUTERR_CONNECTED = SHOUTERR_CONNECTED L\<rparr>"

lemma log_step_snd [simp]: "snd (snd (log_step f s)) = snd s"
  by (simp add: log_step_def split: prod.split)

section \<open>Only \<open>Send\<close> writes the log\<close>

lemma audio_quiet [simp]:
  "snd (snd (shout_new (audio_log L) l)) = snd l"
  "snd (shout_free (audio_log L) s l) = snd l"
  "snd (snd (shout_metadata_new (audio_log L) l)) = snd l"
  "snd (shout_metadata_free (audio_log L) m l) = snd l"
  "snd (snd (shout_metadata_add (audio_log L) m k v l)) = snd l"
  "snd (snd (shout_set_metadata (audio_log L) s m l)) = snd l"
  "snd (shout_set (audio_log L) s c l) = snd l"
  "snd (snd (shout_open (audio_log L) s l)) = snd l"
  "snd (snd (shout_close (audio_log L) s l)) = snd l"
  "snd (snd (shout_get_connected (audio_log L) s l)) = snd l"
  by (simp_all add: audio_log_def)

lemma ApplyOptions_quiet [simp]: "snd (ApplyOptions (audio_log L) sh opts l) = snd l"
  by (induction "audio_log L" sh opts l rule: ApplyOptions.induct) (auto split: option.splits)

lemma wrapper_quiet [simp]:
  "snd (snd (Open (audio_log L) sh l)) = snd l"
  "snd (snd (Close (audio_log L) sh l)) = snd l"
  "snd (snd (Connected (audio_log L) sh l)) = snd l"
  by (simp_all add: Open_def Close_def Connected_def case_prod_unfold)

lemma NewShout_quiet [simp]: "snd (snd (NewShout (audio_log L) opts l)) = snd l"
  by (simp add: NewShout_def case_prod_unfold Let_def)

lemma SendMetadata_quiet [simp]: "snd (snd (SendMetadata (audio_log L) sh m l)) = snd l"
  by (simp add: SendMetadata_def case_prod_unfold)

lemma DestroyShout_quiet [simp]: "snd (DestroyShout (audio_log L) sh l) = snd l"
  by (simp add: DestroyShout_def)

lemma Send_log:
  "Send (audio_log L) sh d l = Done l' r \<Longrightarrow> snd l' = snd l @ [(sh_shout sh, d)]"
  by (auto simp: Send_def audio_log_def log_step_def split: if_splits prod.splits)

lemma send_data_log:
  assumes "e_lib E = audio_log L" and "send_data E m d w = Done w' u"
  shows "snd (w_lib w') = snd (w_lib w) @ [(sh_shout (mnt_Shout (w_mounts w m)), d)]"
  using assms by (auto simp: send_data_def shout_of_def dest!: Send_log
      split: outcome.splits option.splits if_splits)

lemma HandleData_log:
  assumes "e_lib E = audio_log L" and "HandleData E m d w = Done w' u"
  shows "snd (w_lib w') = snd (w_lib w) \<or>
         snd (w_lib w') = snd (w_lib w) @ [(sh_shout (mnt_Shout (w_mounts w m)), d)]"
proof -
  obtain b l where c: "Connected (e_lib E) (shout_of w m) (w_lib w) = (b, l)" by (rule prod.exhaust)
  have l: "snd l = snd (w_lib w)" using c assms(1) wrapper_quiet(3) by (metis snd_conv)
  show ?thesis
  proof (cases b)
    case True
    with c assms(2) have "send_data E m d (w\<lparr>w_lib := l\<rparr>) = Done w' u" by (simp add: HandleData_def)
    from send_data_log [OF assms(1) this] l show ?thesis by simp
  next
    case False
    obtain e l' where o: "Open (e_lib E) (shout_of w m) (snd (Close (e_lib E) (shout_of w m) l)) = (e, l')"
      by (rule prod.exhaust)
    have l': "snd l' = snd (w_lib w)" using o l assms(1) wrapper_quiet by (metis snd_conv)
    from False c o assms(2) have "w' = w\<lparr>w_lib := l'\<rparr> \<or> send_data E m d (w\<lparr>w_lib := l'\<rparr>) = Done w' u"
      by (auto simp: HandleData_def split: option.splits)
    with send_data_log [OF assms(1), of m d "w\<lparr>w_lib := l'\<rparr>" w' u] l' show ?thesis by auto
  qed
qed

section \<open>The other events\<close>

lemma AddClient_log:
  assumes "e_lib E = audio_log L" and "AddClient E c w = Done w' e"
  shows "snd (w_lib w') = snd (w_lib w)"
  using assms(2)
proof (cases rule: AddClient_cases)
  case first
  then show ?thesis
    by (auto simp: add_first_def NewMount_def Let_def send_meta_def outcome_simps assms(1) case_prod_unfold
        split: sum.splits option.splits if_splits)
next
  case (more m)
  then show ?thesis by (simp add: add_more_Done(1) [OF more(2)])
qed simp

lemma on_client_log:
  assumes "e_lib E = audio_log L" and "on_client E c w = Done w' u"
  shows "snd (w_lib w') = snd (w_lib w)"
proof -
  from assms(2) obtain w1 e where a: "AddClient E c w = Done w1 e" and "w_lib w' = w_lib w1"
    by (auto simp: on_client_def outcome_simps on_handlers_def dest: RemoveClient_frame(4)
        split: if_splits outcome.splits)
  with AddClient_log [OF assms(1) a] show ?thesis by simp
qed

lemma on_collect_log:
  "e_lib E = audio_log L \<Longrightarrow> on_collect E m w = Done w' u \<Longrightarrow> snd (w_lib w') = snd (w_lib w)"
  by (auto simp: on_collect_def Let_def DestroyMount_def split: if_splits)

lemma on_meta_log:
  "e_lib E = audio_log L \<Longrightarrow> on_meta E p w = Done w' u \<Longrightarrow> snd (w_lib w') = snd (w_lib w)"
  by (auto simp: on_meta_def Let_def set_metadata_def split: option.splits if_splits)

end
