(* ===== verification/Orphan.thy ===== *)
theory Orphan
  imports Metadata
begin

text \<open>
  A mount whose active source has left with nobody waiting keeps the old identifier. Until it is
  collected, no event makes another source of the mount the active one.
\<close>

definition orphaned :: "'l world \<Rightarrow> mount_ptr \<Rightarrow> cid_ptr \<Rightarrow> bool" where
  "orphaned w m a \<longleftrightarrow> mnt_Active (w_mounts w m) = Some a \<and> GetByID (mnt_Clients (w_mounts w m)) a = None"

lemma orphaned_cong: "w_mounts w' m = w_mounts w m \<Longrightarrow> orphaned w m a \<Longrightarrow> orphaned w' m a"
  by (simp add: orphaned_def)

text \<open>The last source leaves: the mount is orphaned.\<close>

lemma last_leaves:
  assumes "RemoveClient c w = Done w' u" and wfw: "world_wf w" and m: "mounts_of w (client_mount w c) = Some m"
    and a: "mnt_Active (w_mounts w m) = Some (client_id w c)" and "waiting w m = []"
  shows "orphaned w' m (client_id w c)"
proof -
  from assms(1) obtain m' v where m': "mounts_of w (client_mount w c) = Some m'"
    and d: "drop_client m' c v = Done w' ()"
    and v: "if mnt_Active (w_mounts w m') = Some (client_id w c) then NextLiveClient m' w = Done v () else v = w"
    by (elim RemoveClient_split)
  from m m' v a NextLiveClient_none [OF assms(5)] have v: "m' = m"
    "v = upd_mount m (\<lambda>mt. mt\<lparr>mnt_ClientQueue := []\<rparr>) w" by auto
  have "cc_wf (mnt_Clients (w_mounts w m))" using wf_mount_ok [OF wfw m] by (simp add: mount_ok_def)
  with a show ?thesis
    by (simp add: orphaned_def drop_client_Done(1) [OF d] drop_mount_def v container_simps)
qed

lemma orphaned_remove:
  assumes "RemoveClient c w = Done w' u" and wfw: "world_wf w" and "connected w c" and o: "orphaned w m a"
    and m: "mounts_of w n = Some m"
  shows "orphaned w' m a"
proof -
  from assms(1) obtain k v where k: "mounts_of w (client_mount w c) = Some k" and f: "live_frame k w v"
    and d: "drop_client k c v = Done w' ()"
    and v: "if mnt_Active (w_mounts w k) = Some (client_id w c) then NextLiveClient k w = Done v () else v = w"
    by (elim RemoveClient_split)
  show ?thesis
  proof (cases "k = m")
    case True
    from assms(3) k True have "GetByID (mnt_Clients (w_mounts w m)) (client_id w c) = Some c"
      by (auto simp: connected_def)
    with o have ne: "client_id w c \<noteq> a" by (auto simp: orphaned_def)
    with v o True have "v = w" by (auto simp: orphaned_def)
    moreover have "cc_wf (mnt_Clients (w_mounts w m))" using wf_mount_ok [OF wfw m] by (simp add: mount_ok_def)
    ultimately show ?thesis
      using o ne True by (simp add: orphaned_def drop_client_Done(1) [OF d] drop_mount_def container_simps)
  next
    case False
    then have "w_mounts w' m = w_mounts w m"
      using live_frameD(17) [OF f, of m] by (simp add: drop_client_Done(1) [OF d] drop_mount_def)
    with o show ?thesis by (rule orphaned_cong [rotated])
  qed
qed

lemma orphaned_add:
  assumes "AddClient E c w = Done w' e" and wfw: "world_wf w" and o: "orphaned w m a"
    and m: "mounts_of w n = Some m" and ne: "client_id w c \<noteq> a"
  shows "orphaned w' m a"
  using assms(1)
proof (cases rule: AddClient_cases)
  case first
  have "m < w_next_mount w" using wf_mount_ok [OF wfw m] by (simp add: mount_ok_def)
  with first(2) o show ?thesis by (elim add_first_Done) (simp add: orphaned_def)
next
  case config
  with o show ?thesis by simp
next
  case (more k)
  have "cc_wf (mnt_Clients (w_mounts w m))" using wf_mount_ok [OF wfw m] by (simp add: mount_ok_def)
  with o ne show ?thesis by (auto simp: orphaned_def add_more_Done(1) [OF more(2)] container_simps)
qed

lemma orphaned_event:
  assumes r: "ProcessClients E ev w = Done w' u" and wfw: "world_wf w" and "event_ok w ev"
    and o: "orphaned w m a" and m: "mounts_of w n = Some m"
    and other: "\<And>c. ev = EvClient c \<Longrightarrow> client_id w c \<noteq> a"
  shows "orphaned w' m a"
proof (cases ev)
  case (EvData d)
  with r have "w' = w\<lparr>w_lib := w_lib w'\<rparr>" by (simp add: on_data_frame)
  then have "w_mounts w' m = w_mounts w m" by (metis world.select_convs(3) world.surjective world.update_convs(9))
  with o show ?thesis by (rule orphaned_cong [rotated])
next
  case (EvErr e)
  with r have "RemoveClient (ep_Client e) w = Done w' ()"
    by (auto simp: on_err_def outcome_simps split: option.splits)
  with wfw assms(3) o m EvErr orphaned_remove show ?thesis by fastforce
next
  case (EvClient c)
  with r have cl: "on_client E c w = Done w' u" and room: "room w c" using assms(3) by auto
  from cl wfw room show ?thesis
  proof (cases rule: on_client_cases)
    case (accepted w1)
    have "orphaned w1 m a" using accepted(1) wfw o m other [OF EvClient] by (rule orphaned_add)
    then have "orphaned (w1\<lparr>w_hs := w_hs w', w_readers := w_readers w @ [c]\<rparr>) m a"
      by (rule orphaned_cong [rotated]) simp
    with accepted(5) show ?thesis by simp
  next
    case (rejected w1)
    have o1: "orphaned w1 m a" using rejected(1) wfw o m other [OF EvClient] by (rule orphaned_add)
    have "mounts_of w1 n = Some m"
      using rejected(1) m by (cases rule: AddClient_cases)
        (auto elim!: add_first_Done simp: gomap_simps dest: add_more_Done(1))
    with rejected(2-4) o1 show ?thesis using orphaned_remove by blast
  qed
next
  case (EvCollect k)
  with r have "w_mounts w' m = w_mounts w m" by (simp add: on_collect_man(1))
  with o show ?thesis by (rule orphaned_cong [rotated])
next
  case (EvMeta p)
  with r have "w' = upd_man (\<lambda>x. x\<lparr>man_metaStore := man_metaStore (w_man w')\<rparr>)
      (w\<lparr>w_lib := w_lib w', w_clients := w_clients w', w_delayed := w_delayed w'\<rparr>)"
    using on_meta_frame(1) by simp
  then have "w_mounts w' m = w_mounts w m"
    by (rule ssubst [of w' _ "\<lambda>x. w_mounts x m = w_mounts w m"]) simp
  with o show ?thesis by (rule orphaned_cong [rotated])
next
  case EvTick
  with r o show ?thesis by (auto simp: on_tick_def orphaned_def)
qed

text \<open>Its sources are not heard.\<close>

lemma orphaned_silent:
  assumes "orphaned w m a" and "mounts_of w (client_mount w (dp_Client d)) = Some m" and "connected w (dp_Client d)"
  shows "ProcessClients E (EvData d) w = Done w ()"
  using assms by (auto simp: on_data_def orphaned_def connected_def)

end
