(* ===== verification/Lex.thy ===== *)
theory Lex
  imports Gostd
begin

text \<open>
  \<open>http/lex.go\<close>: the classes of bytes, quoted strings, and the splitting of a field value.
\<close>

section \<open>Classes of bytes\<close>

definition isSeparator :: "char \<Rightarrow> bool" where
  "isSeparator c \<longleftrightarrow> c \<in> set (''()<>@,;:'' @ [CHR 0x5C, CHR 0x22] @ ''/[]?={} '' @ [CHR 0x09])"

definition isCtl :: "char \<Rightarrow> bool" where
  "isCtl c \<longleftrightarrow> byte c \<le> 31 \<or> byte c = 127"

definition isChar :: "char \<Rightarrow> bool" where
  "isChar c \<longleftrightarrow> byte c \<le> 127"

definition isAnyText :: "char \<Rightarrow> bool" where
  "isAnyText c \<longleftrightarrow> \<not> isCtl c"

definition isQdText :: "char \<Rightarrow> bool" where
  "isQdText c \<longleftrightarrow> isAnyText c \<and> c \<noteq> CHR 0x22"

definition isToken :: "char \<Rightarrow> bool" where
  "isToken c \<longleftrightarrow> isChar c \<and> \<not> isCtl c \<and> \<not> isSeparator c"

section \<open>Quoted strings\<close>

definition dquote :: char where "dquote = CHR 0x22"
definition backslash :: char where "backslash = CHR 0x5C"

definition httpUnquotePair :: "char \<Rightarrow> char" where
  "httpUnquotePair b =
     (if b = CHR ''a'' then CHR 0x07 else if b = CHR ''b'' then CHR 0x08
      else if b = CHR ''f'' then CHR 0x0C else if b = CHR ''n'' then CHR 0x0A
      else if b = CHR ''r'' then CHR 0x0D else if b = CHR ''t'' then CHR 0x09
      else if b = CHR ''v'' then CHR 0x0B else if b = backslash then backslash
      else if b = CHR 0x27 then b else if b = dquote then dquote
      else CHR ''?'')"

text \<open>The loop at index \<open>i\<close>, with the bytes from there on and the bytes written to the buffer so far.\<close>

fun unquote_loop :: "nat \<Rightarrow> string \<Rightarrow> string \<Rightarrow> int \<times> string" where
  "unquote_loop i [] buf = (-1, [])"
| "unquote_loop i (b # r) buf =
     (if b = dquote then (int i + 1, buf)
      else if b = backslash then
        (case r of [] \<Rightarrow> (-1, []) | c # r' \<Rightarrow> unquote_loop (i + 2) r' (buf @ [httpUnquotePair c]))
      else unquote_loop (Suc i) r (buf @ [if isQdText b then b else CHR ''?'']))"

text \<open>Indexing the first byte of an empty slice panics.\<close>

definition httpUnquote :: "string \<Rightarrow> (unit, int \<times> string) outcome" where
  "httpUnquote raw =
     (case raw of
        [] \<Rightarrow> Panic () ''index out of range''
      | b # r \<Rightarrow> Done () (if b \<noteq> dquote then (-1, []) else unquote_loop 1 r []))"

section \<open>Field values\<close>

lemma unquote_loop_eaten:
  "fst (unquote_loop i r buf) = -1 \<or>
     int i < fst (unquote_loop i r buf) \<and> fst (unquote_loop i r buf) \<le> int (i + length r)"
proof (induction i r buf rule: unquote_loop.induct)
  case (2 i b r buf)
  consider "b = dquote" | "b \<noteq> dquote" "b = backslash" "r = []"
    | c r' where "b \<noteq> dquote" "b = backslash" "r = c # r'" | "b \<noteq> dquote" "b \<noteq> backslash"
    by (cases r) auto
  then show ?case
  proof cases
    case 3
    with 2(1) [OF 3(1,2,3)] show ?thesis by auto
  next
    case 4
    with 2(2) show ?thesis by auto
  qed simp_all
qed simp

lemma httpUnquote_eaten:
  assumes "httpUnquote raw = Done () (eaten, unq)" and "0 \<le> eaten"
  shows "1 < eaten" and "eaten \<le> int (length raw)"
  using assms unquote_loop_eaten [of 1 "tl raw" "[]"]
  by (auto simp: httpUnquote_def split: list.splits if_splits)

lemma unquote_progress:
  "httpUnquote (b # r) = Done u (eaten, unq) \<Longrightarrow> \<not> eaten < 0 \<Longrightarrow> Suc (length r) - nat eaten < Suc (length r)"
  using httpUnquote_eaten(1) [of "b # r" eaten unq] by (cases u) simp

text \<open>
  The loop at index \<open>i\<close>, on the bytes from there on. The result slice is made with room for as many
  strings as the value has bytes.
\<close>

function split_loop :: "nat \<Rightarrow> string \<Rightarrow> string \<Rightarrow> string list \<Rightarrow> nat \<times> string list" where
  "split_loop i [] chunk result = (i, if chunk \<noteq> [] then result @ [chunk] else result)"
| "split_loop i (b # r) chunk result =
     (if b = dquote then
        (case httpUnquote (b # r) of
           Done _ (eaten, unq) \<Rightarrow>
             if eaten < 0 then (i, result)
             else split_loop (i + nat eaten) (drop (nat eaten) (b # r)) (chunk @ unq) result
         | _ \<Rightarrow> (i, result))
      else if isSeparator b then
        split_loop (Suc i) r [] (if chunk \<noteq> [] then result @ [chunk] else result)
      else if isToken b then split_loop (Suc i) r (chunk @ [b]) result
      else if byte b = 10 \<or> byte b = 13 then split_loop (Suc i) r chunk result
      else split_loop (Suc i) r (chunk @ ''?'') result)"
  by pat_completeness auto
termination
  by (relation "measure (\<lambda>(i, raw, chunk, result). length raw)") (auto simp: unquote_progress)

definition httpSplitFieldValue :: "string \<Rightarrow> nat \<times> string list" where
  "httpSplitFieldValue fv = split_loop 0 fv [] []"

section \<open>Properties\<close>

text \<open>Quoting: every byte that needs it is escaped, \<open>None\<close> if a byte has no escape.\<close>

definition quote_byte :: "char \<Rightarrow> string option" where
  "quote_byte c =
     (if c = dquote then Some [backslash, dquote] else if c = backslash then Some [backslash, backslash]
      else if c = CHR 0x07 then Some [backslash, CHR ''a''] else if c = CHR 0x08 then Some [backslash, CHR ''b'']
      else if c = CHR 0x09 then Some [backslash, CHR ''t''] else if c = CHR 0x0A then Some [backslash, CHR ''n'']
      else if c = CHR 0x0B then Some [backslash, CHR ''v''] else if c = CHR 0x0C then Some [backslash, CHR ''f'']
      else if c = CHR 0x0D then Some [backslash, CHR ''r'']
      else if isQdText c then Some [c] else None)"

definition quoted :: "string \<Rightarrow> string" where
  "quoted s = dquote # concat (map (\<lambda>c. the (quote_byte c)) s) @ [dquote]"

lemma dquote_not_backslash [simp]: "dquote \<noteq> backslash" "backslash \<noteq> dquote"
  by (simp_all add: dquote_def backslash_def)

lemma unquote_quote_byte:
  assumes "quote_byte c \<noteq> None"
  shows "unquote_loop i (the (quote_byte c) @ t) buf =
    unquote_loop (i + length (the (quote_byte c))) t (buf @ [c])"
proof -
  have esc: "unquote_loop i ([backslash, d] @ t) buf = unquote_loop (i + 2) t (buf @ [httpUnquotePair d])" for d
    by simp
  show ?thesis
    using assms esc [of dquote] esc [of backslash] esc [of "CHR ''a''"] esc [of "CHR ''b''"] esc [of "CHR ''t''"]
      esc [of "CHR ''n''"] esc [of "CHR ''v''"] esc [of "CHR ''f''"] esc [of "CHR ''r''"]
    by (simp add: quote_byte_def httpUnquotePair_def dquote_def backslash_def split: if_splits)
qed

lemma unquote_quoted_loop:
  "list_all (\<lambda>c. quote_byte c \<noteq> None) s \<Longrightarrow>
     unquote_loop i (concat (map (\<lambda>c. the (quote_byte c)) s) @ dquote # t) buf =
     (int (i + length (concat (map (\<lambda>c. the (quote_byte c)) s))) + 1, buf @ s)"
proof (induction s arbitrary: i buf)
  case (Cons c s)
  from Cons.prems unquote_quote_byte [of c i _ buf] Cons.IH [of _ "buf @ [c]"] show ?case
    by (simp add: ac_simps)
qed simp

text \<open>
  Unquoting reads back every string that can be quoted, and consumes exactly the quoted string,
  whatever follows it.
\<close>

theorem unquote_quoted:
  assumes "list_all (\<lambda>c. quote_byte c \<noteq> None) s"
  shows "httpUnquote (quoted s @ t) = Done () (int (length (quoted s)), s)"
  using unquote_quoted_loop [OF assms, of 1 t "[]"] by (simp add: httpUnquote_def quoted_def)

theorem unquote_quoted_witness:
  "httpUnquote (quoted ''a b'' @ '', c'') = Done () (5, ''a b'')"
  using unquote_quoted [of "''a b''" "'', c''"]
  by (simp add: quote_byte_def quoted_def dquote_def backslash_def isQdText_def isAnyText_def isCtl_def)

text \<open>Tokens and separators, for the split.\<close>

lemma split_tokens:
  "list_all isToken s \<Longrightarrow> split_loop i (s @ t) chunk result = split_loop (i + length s) t (chunk @ s) result"
proof (induction s arbitrary: i chunk)
  case (Cons c s)
  then have "isToken c" by simp
  then have "c \<noteq> dquote" "\<not> isSeparator c" by (auto simp: isToken_def isSeparator_def dquote_def)
  with Cons show ?case by simp
qed simp

lemma split_separators:
  "list_all (\<lambda>c. isSeparator c \<and> c \<noteq> dquote) s \<Longrightarrow> s \<noteq> [] \<Longrightarrow>
     split_loop i (s @ t) chunk result =
     split_loop (i + length s) t [] (if chunk \<noteq> [] then result @ [chunk] else result)"
proof (induction s arbitrary: i chunk result)
  case (Cons c s)
  show ?case
  proof (cases "s = []")
    case True
    with Cons.prems show ?thesis by simp
  next
    case False
    with Cons.IH [of "Suc i" "[]" "if chunk \<noteq> [] then result @ [chunk] else result"] Cons.prems show ?thesis
      by simp
  qed
qed simp

text \<open>
  A field value of tokens, each followed by separators, splits into exactly these tokens, and all
  of it is eaten.
\<close>

theorem split_field_value:
  assumes "list_all (\<lambda>(t, s). t \<noteq> [] \<and> list_all isToken t \<and> s \<noteq> [] \<and>
    list_all (\<lambda>c. isSeparator c \<and> c \<noteq> dquote) s) xs"
  shows "httpSplitFieldValue (concat (map (\<lambda>(t, s). t @ s) xs)) =
    (length (concat (map (\<lambda>(t, s). t @ s) xs)), map fst xs)"
proof -
  have "split_loop i (concat (map (\<lambda>(t, s). t @ s) xs)) [] result =
      (i + length (concat (map (\<lambda>(t, s). t @ s) xs)), result @ map fst xs)" for i result
    using assms
  proof (induction xs arbitrary: i result)
    case (Cons x xs)
    then show ?case by (cases x) (simp add: split_tokens split_separators)
  qed simp
  then show ?thesis by (simp add: httpSplitFieldValue_def)
qed

theorem split_field_value_witness:
  "httpSplitFieldValue ''gzip, br;'' = (9, [''gzip'', ''br''])"
  using split_field_value [of "[(''gzip'', '', ''), (''br'', '';'')]"]
  by (simp add: isToken_def isChar_def isCtl_def isSeparator_def dquote_def numeral_eq_Suc)

text \<open>
  Whatever the value, the split stays within it and yields at most one string per byte, so the
  result slice, made with that capacity, never overflows.
\<close>

theorem split_within_bounds:
  "fst (httpSplitFieldValue fv) \<le> length fv \<and> length (snd (httpSplitFieldValue fv)) \<le> length fv"
proof -
  have "fst (split_loop i r chunk result) \<le> i + length r \<and>
      length (snd (split_loop i r chunk result)) \<le> length result + length r + (if chunk = [] then 0 else 1)"
    for i r chunk result
  proof (induction i r chunk result rule: split_loop.induct)
    case (2 i b r chunk result)
    show ?case
    proof (cases "b = dquote")
      case True
      obtain eaten unq where u: "httpUnquote (b # r) = Done () (eaten, unq)"
        by (cases "if b \<noteq> dquote then (- 1, []) else unquote_loop 1 r []") (simp add: httpUnquote_def)
      show ?thesis
      proof (cases "eaten < 0")
        case False
        let ?n = "nat eaten"
        let ?s = "split_loop (i + ?n) (drop ?n (b # r)) (chunk @ unq) result"
        from False httpUnquote_eaten [OF u] have n: "1 < ?n" "?n \<le> Suc (length r)" by auto
        have e: "split_loop i (b # r) chunk result = ?s" using True u False by simp
        have "fst ?s \<le> i + ?n + length (drop ?n (b # r))"
          "length (snd ?s) \<le> length result + length (drop ?n (b # r)) + 1"
          using 2(1) [OF True u refl False] by (force split: if_splits)+
        with n show ?thesis unfolding e length_drop by simp
      qed (use True u in simp)
    next
      case False
      consider "isSeparator b" | "\<not> isSeparator b" "isToken b" | "\<not> isSeparator b" "\<not> isToken b" by blast
      then show ?thesis
        by cases (use 2(2-5) False in \<open>auto split: if_splits\<close>)
    qed
  qed auto
  from this [of 0 fv "[]" "[]"] show ?thesis by (simp add: httpSplitFieldValue_def)
qed

end
