(* ===== verification/Bufio.thy ===== *)
theory Bufio
  imports Header
begin

text \<open>
  The readers and writers of the standard library that the http package works on. A source of bytes is
  what the connection will deliver, piece by piece, and the error after the last piece; the pieces
  make every split of the input into reads possible. \<open>bufio.Reader\<close> of the default size sits on it.
\<close>

section \<open>Errors\<close>

definition io_EOF :: error where "io_EOF = ''EOF''"
definition io_ErrUnexpectedEOF :: error where "io_ErrUnexpectedEOF = ''unexpected EOF''"
definition io_ErrShortWrite :: error where "io_ErrShortWrite = ''short write''"
definition bufio_ErrBufferFull :: error where "bufio_ErrBufferFull = ''bufio: buffer full''"

lemma errors_differ [simp]:
  "io_EOF \<noteq> io_ErrUnexpectedEOF" "io_ErrUnexpectedEOF \<noteq> io_EOF" "bufio_ErrBufferFull \<noteq> io_EOF"
  "io_EOF \<noteq> bufio_ErrBufferFull"
  by (simp_all add: io_EOF_def io_ErrUnexpectedEOF_def bufio_ErrBufferFull_def)

section \<open>A buffered reader\<close>

definition defaultBufSize :: nat where "defaultBufSize = 4096"

record bufreader =
  br_segs :: "string list"
  br_end :: error

definition br_rest :: "bufreader \<Rightarrow> string" where
  "br_rest r = concat (br_segs r)"

text \<open>Removing the first \<open>n\<close> bytes.\<close>

fun drop_bytes :: "nat \<Rightarrow> string list \<Rightarrow> string list" where
  "drop_bytes n [] = []"
| "drop_bytes n (s # r) =
     (if n = 0 then s # r
      else if length s \<le> n then drop_bytes (n - length s) r
      else drop n s # r)"

definition br_skip :: "nat \<Rightarrow> bufreader \<Rightarrow> bufreader" where
  "br_skip n r = r\<lparr>br_segs := drop_bytes n (br_segs r)\<rparr>"

text \<open>\<open>Read\<close> into a buffer of \<open>n\<close> bytes: at most what the next piece holds.\<close>

definition br_Read :: "nat \<Rightarrow> bufreader \<Rightarrow> bufreader \<times> string \<times> error option" where
  "br_Read n r =
     (if n = 0 then (r, [], None)
      else (case dropWhile (\<lambda>s. s = []) (br_segs r) of
              [] \<Rightarrow> (r\<lparr>br_segs := []\<rparr>, [], Some (br_end r))
            | s # ss \<Rightarrow> (r\<lparr>br_segs := drop n s # ss\<rparr>, take n s, None)))"

text \<open>\<open>ReadSlice(delim)\<close>: up to and including the delimiter, if it comes within the buffer.\<close>

definition ReadSlice :: "char \<Rightarrow> bufreader \<Rightarrow> bufreader \<times> string \<times> error option" where
  "ReadSlice delim r =
     (let s = br_rest r; a = takeWhile (\<lambda>c. c \<noteq> delim) s
      in if delim \<in> set s \<and> length a < defaultBufSize
         then (br_skip (Suc (length a)) r, a @ [delim], None)
         else if defaultBufSize \<le> length s
         then (br_skip defaultBufSize r, take defaultBufSize s, Some bufio_ErrBufferFull)
         else (r\<lparr>br_segs := []\<rparr>, s, Some (br_end r)))"

text \<open>\<open>io.ReadFull\<close> of \<open>n\<close> bytes.\<close>

definition ReadFull :: "nat \<Rightarrow> bufreader \<Rightarrow> bufreader \<times> string \<times> error option" where
  "ReadFull n r =
     (let s = br_rest r
      in if n \<le> length s then (br_skip n r, take n s, None)
         else (r\<lparr>br_segs := []\<rparr>, s,
               Some (if s \<noteq> [] \<and> br_end r = io_EOF then io_ErrUnexpectedEOF else br_end r)))"

section \<open>Facts\<close>

lemma concat_drop_bytes [simp]: "concat (drop_bytes n ss) = drop n (concat ss)"
  by (induction n ss rule: drop_bytes.induct) auto

lemma br_rest_skip [simp]: "br_rest (br_skip n r) = drop n (br_rest r)"
  by (simp add: br_rest_def br_skip_def)

lemma br_end_skip [simp]: "br_end (br_skip n r) = br_end r"
  by (simp add: br_skip_def)

lemma br_rest_segs [simp]: "br_rest (r\<lparr>br_segs := ss\<rparr>) = concat ss"
  by (simp add: br_rest_def)

lemma concat_dropWhile_Nil: "concat (dropWhile (\<lambda>s. s = []) ss) = concat ss"
  by (induction ss) auto

lemma br_Read_cases:
  assumes "0 < n"
  obtains (eof) "br_rest r = []" and "br_Read n r = (r\<lparr>br_segs := []\<rparr>, [], Some (br_end r))"
  | (some) k r' where "0 < k" and "k \<le> n" and "k \<le> length (br_rest r)" and "br_Read n r = (r', take k (br_rest r), None)"
      and "br_rest r' = drop k (br_rest r)" and "br_end r' = br_end r"
proof (cases "dropWhile (\<lambda>s. s = []) (br_segs r)")
  case Nil
  then have "concat (br_segs r) = []" by (metis concat.simps(1) concat_dropWhile_Nil)
  moreover have "br_Read n r = (r\<lparr>br_segs := []\<rparr>, [], Some (br_end r))"
    unfolding br_Read_def Nil using assms by simp
  ultimately show ?thesis using eof by (simp add: br_rest_def)
next
  case (Cons s ss)
  have s: "s \<noteq> []" using hd_dropWhile [of "\<lambda>s. s = []" "br_segs r"] Cons by simp
  have c: "br_rest r = s @ concat ss" using concat_dropWhile_Nil [of "br_segs r"] Cons by (simp add: br_rest_def)
  let ?k = "min n (length s)"
  have "take n s = take ?k (br_rest r)" using c by (simp add: min_def)
  moreover have "drop n s @ concat ss = drop ?k (br_rest r)" using c by (simp add: min_def)
  ultimately show ?thesis
    using assms s c Cons by (intro some [of ?k "r\<lparr>br_segs := drop n s # ss\<rparr>"]) (simp_all add: br_Read_def)
qed

lemma ReadSlice_found:
  assumes "br_rest r = a @ delim # b" and "delim \<notin> set a" and "length a < defaultBufSize"
  shows "ReadSlice delim r = (br_skip (Suc (length a)) r, a @ [delim], None)"
  using assms by (simp add: ReadSlice_def Let_def)

lemma ReadFull_enough:
  "n \<le> length (br_rest r) \<Longrightarrow> ReadFull n r = (br_skip n r, take n (br_rest r), None)"
  by (simp add: ReadFull_def Let_def)

section \<open>A writer that keeps what it got\<close>

text \<open>\<open>bytes.Buffer\<close>: every write succeeds.\<close>

definition buffer_write :: "string writer" where
  "buffer_write s d = (s @ d, length d, None)"

text \<open>A writer never claims more than it got, and a short write comes with an error.\<close>

locale io_writer =
  fixes wr :: "'s writer"
  assumes count_le: "wr s d = (s', n, e) \<Longrightarrow> n \<le> length d"
    and short_err: "wr s d = (s', n, None) \<Longrightarrow> n = length d"
begin

lemma write_all_append:
  "write_all wr s (xs @ ys) =
     (case write_all wr s xs of (s', None) \<Rightarrow> write_all wr s' ys | (s', Some e) \<Rightarrow> (s', Some e))"
  by (induction wr s xs rule: write_all.induct) (auto split: prod.splits option.splits)

end

interpretation buf: io_writer buffer_write
  by unfold_locales (auto simp: buffer_write_def)

lemma write_all_buffer [simp]: "write_all buffer_write s xs = (s @ concat xs, None)"
  by (induction buffer_write s xs rule: write_all.induct) (simp_all add: buffer_write_def)

section \<open>Copying\<close>

text \<open>
  \<open>io.Copy\<close> from a reader to a writer, in pieces of at most \<open>n\<close> bytes. The fuel bounds the number of
  reads; \<open>None\<close> is a loop that has not ended.
\<close>

fun Copy :: "(nat \<Rightarrow> 'r \<Rightarrow> 'r \<times> string \<times> error option) \<Rightarrow> 's writer \<Rightarrow> nat \<Rightarrow> nat \<Rightarrow> 'r \<Rightarrow> 's \<Rightarrow> nat \<Rightarrow>
  ('r \<times> 's \<times> nat \<times> error option) option" where
  "Copy rd wr n 0 r s written = None"
| "Copy rd wr n (Suc fuel) r s written =
     (case rd n r of (r1, d, er) \<Rightarrow>
        let (s1, nw, ew) = (if d \<noteq> [] then wr s d else (s, 0, None))
        in if ew \<noteq> None then Some (r1, s1, written + nw, ew)
           else if d \<noteq> [] \<and> nw \<noteq> length d then Some (r1, s1, written + nw, Some io_ErrShortWrite)
           else (case er of
                   Some e \<Rightarrow> Some (r1, s1, written + nw, if e = io_EOF then None else Some e)
                 | None \<Rightarrow> Copy rd wr n fuel r1 s1 (written + nw)))"

text \<open>
  A reader whose every successful read takes at least one unit of what is left to read. A copy from it
  ends, whatever the writer does.
\<close>

locale io_reader =
  fixes rd :: "nat \<Rightarrow> 'r \<Rightarrow> 'r \<times> string \<times> error option" and left :: "'r \<Rightarrow> nat"
  assumes progress: "0 < n \<Longrightarrow> rd n r = (r', d, None) \<Longrightarrow> left r' < left r"
begin

lemma Copy_returns:
  assumes "0 < n" and "left r < fuel"
  shows "\<exists>x. Copy rd w n fuel r s k = Some x"
  using assms(2)
proof (induction fuel arbitrary: r s k)
  case (Suc fuel)
  obtain r1 d er where rd: "rd n r = (r1, d, er)" by (rule prod_cases3)
  obtain s1 nw ew where w: "(if d \<noteq> [] then w s d else (s, 0, None)) = (s1, nw, ew)" by (rule prod_cases3)
  have "\<exists>x. Copy rd w n fuel r1 s1 (k + nw) = Some x" if "er = None"
    using that Suc.IH [of r1 s1 "k + nw"] Suc.prems progress [OF assms(1), of r r1 d] rd by simp
  with rd w show ?case by (auto simp: Let_def split: option.split)
qed simp

end

interpretation brd: io_reader br_Read "\<lambda>r. length (br_rest r)"
proof unfold_locales
  fix n and r r' :: bufreader and d
  assume n: "0 < n" and r: "br_Read n r = (r', d, None)"
  from n show "length (br_rest r') < length (br_rest r)"
    by (cases rule: br_Read_cases [of n r]) (use r in auto)
qed

end
