(* ===== verification/Chunked.thy ===== *)
theory Chunked
  imports Bufio
begin

text \<open>
  \<open>http/chunked.go\<close>: the writer and the reader of the chunked transfer encoding. The unread bytes of
  a chunk, a \<open>uint64\<close>, are a natural number below 2 to the 64: it comes out of \<open>ParseUint\<close> and only
  shrinks.
\<close>

definition maxLineLength :: nat where
  "maxLineLength = 4096"

definition ErrLineTooLong :: error where
  "ErrLineTooLong = ''header line too long''"

definition errMalformedChunk :: error where
  "errMalformedChunk = ''malformed chunked encoding''"

section \<open>Reading lines\<close>

definition readLineBytes :: "bufreader \<Rightarrow> bufreader \<times> (error + string)" where
  "readLineBytes b =
     (case ReadSlice (char_of (10 :: nat)) b of
        (b', p, Some err) \<Rightarrow>
          (b', Inl (if err = io_EOF then io_ErrUnexpectedEOF
                    else if err = bufio_ErrBufferFull then ErrLineTooLong else err))
      | (b', p, None) \<Rightarrow>
          if maxLineLength \<le> length p then (b', Inl ErrLineTooLong)
          else (b', Inr (TrimRight ('' '' @ map char_of [13 :: nat, 9, 10]) p)))"

definition readLine :: "bufreader \<Rightarrow> bufreader \<times> (error + string)" where
  "readLine b =
     (case readLineBytes b of (b', Inl e) \<Rightarrow> (b', Inl e) | (b', Inr p) \<Rightarrow> (b', Inr p))"

section \<open>The reader\<close>

record chunkedReader =
  cr_r :: bufreader
  cr_n :: nat
  cr_err :: "error option"

definition newChunkedReader :: "bufreader \<Rightarrow> chunkedReader" where
  "newChunkedReader r = \<lparr>cr_r = r, cr_n = 0, cr_err = None\<rparr>"

text \<open>
  The error of \<open>ParseUint\<close> names the line; a failed parse leaves the number it returns in \<open>n\<close>, which no
  later call reads, because \<open>err\<close> stays set.
\<close>

definition errParseUint :: "string \<Rightarrow> error" where
  "errParseUint line = ''strconv.ParseUint: parsing '' @ line"

definition beginChunk :: "chunkedReader \<Rightarrow> chunkedReader" where
  "beginChunk cr =
     (case readLine (cr_r cr) of
        (b, Inl e) \<Rightarrow> cr\<lparr>cr_r := b, cr_err := Some e\<rparr>
      | (b, Inr line) \<Rightarrow>
          (case ParseUint line 16 of
             None \<Rightarrow> cr\<lparr>cr_r := b, cr_n := 0, cr_err := Some (errParseUint line)\<rparr>
           | Some n \<Rightarrow> cr\<lparr>cr_r := b, cr_n := n, cr_err := (if n = 0 then Some io_EOF else None)\<rparr>))"

text \<open>The end of \<open>Read\<close>, once the chunk's size is known: \<open>len\<close> is the length of the caller's buffer.\<close>

definition readChunk :: "nat \<Rightarrow> chunkedReader \<Rightarrow> chunkedReader \<times> string \<times> error option" where
  "readChunk len cr =
     (case br_Read (min len (cr_n cr)) (cr_r cr) of
        (b, d, e) \<Rightarrow>
          (let cr1 = cr\<lparr>cr_r := b, cr_n := cr_n cr - length d, cr_err := e\<rparr>;
               cr2 = (if cr_n cr1 = 0 \<and> e = None
                      then (case ReadFull 2 b of
                              (b', t, Some e') \<Rightarrow> cr1\<lparr>cr_r := b', cr_err := Some e'\<rparr>
                            | (b', t, None) \<Rightarrow>
                                cr1\<lparr>cr_r := b', cr_err := (if t \<noteq> CRLF then Some errMalformedChunk else None)\<rparr>)
                      else cr1)
           in (cr2, d, cr_err cr2)))"

definition chunkedReader_Read :: "nat \<Rightarrow> chunkedReader \<Rightarrow> chunkedReader \<times> string \<times> error option" where
  "chunkedReader_Read len cr =
     (case cr_err cr of
        Some e \<Rightarrow> (cr, [], Some e)
      | None \<Rightarrow>
          (let cr1 = (if cr_n cr = 0 then beginChunk cr else cr)
           in case cr_err cr1 of Some e \<Rightarrow> (cr1, [], Some e) | None \<Rightarrow> readChunk len cr1))"

section \<open>The writer\<close>

text \<open>The writer over the wire \<open>w\<close>; it has no state of its own.\<close>

definition chunkedWriter_Write :: "'s writer \<Rightarrow> 's writer" where
  "chunkedWriter_Write w s data =
     (if data = [] then (s, 0, None)
      else (case w s (FormatInt 16 (int (length data)) @ CRLF) of
              (s1, _, Some e) \<Rightarrow> (s1, 0, Some e)
            | (s1, _, None) \<Rightarrow>
                (case w s1 data of
                   (s2, n, Some e) \<Rightarrow> (s2, n, Some e)
                 | (s2, n, None) \<Rightarrow>
                     if n \<noteq> length data then (s2, n, Some io_ErrShortWrite)
                     else (case w s2 CRLF of (s3, _, e) \<Rightarrow> (s3, n, e)))))"

definition chunkedWriter_Close :: "'s writer \<Rightarrow> 's \<Rightarrow> 's \<times> error option" where
  "chunkedWriter_Close w s = (case w s (''0'' @ CRLF) of (s', _, e) \<Rightarrow> (s', e))"

section \<open>The wire format\<close>

definition chunk :: "string \<Rightarrow> string" where
  "chunk d = (if d = [] then [] else FormatUint 16 (length d) @ CRLF @ d @ CRLF)"

text \<open>The chunks of the writes \<open>ds\<close>, the final chunk, and what follows on the wire.\<close>

definition chunks :: "string list \<Rightarrow> string \<Rightarrow> string" where
  "chunks ds tail = concat (map chunk ds) @ ''0'' @ CRLF @ tail"

lemma FormatInt_length: "FormatInt b (int n) = FormatUint b n"
  by (simp add: FormatInt_def)

lemma chunkedWriter_buffer:
  "chunkedWriter_Write buffer_write s d = (s @ chunk d, length d, None)"
  by (simp add: chunkedWriter_Write_def buffer_write_def chunk_def FormatInt_length)

text \<open>A chunked writer over a well-behaved wire is a well-behaved writer.\<close>

context io_writer
begin

lemma chunked_count: "chunkedWriter_Write wr s d = (s', n, e) \<Longrightarrow> n \<le> length d \<and> (e = None \<longrightarrow> n = length d)"
  by (auto simp: chunkedWriter_Write_def split: if_splits prod.splits option.splits
      dest: count_le short_err)

end

interpretation cw: io_writer "chunkedWriter_Write buffer_write"
  by unfold_locales (use buf.chunked_count in blast)+

lemma write_chunks: "write_all (chunkedWriter_Write buffer_write) s ds = (s @ concat (map chunk ds), None)"
  by (induction ds arbitrary: s) (simp_all add: chunkedWriter_buffer)

section \<open>Reading a size line\<close>

lemma CRLF_eq: "CRLF = [char_of (13 :: nat), char_of (10 :: nat)]" by (rule CRLF_def)

lemma length_CRLF [simp]: "length CRLF = 2" by (simp add: CRLF_def)

lemma length_FormatUint: "n < b ^ k \<Longrightarrow> 0 < k \<Longrightarrow> 2 \<le> b \<Longrightarrow> length (FormatUint b n) \<le> k"
proof (induction k arbitrary: n)
  case (Suc k)
  show ?case
  proof (cases "n < b")
    case True
    then show ?thesis by (simp add: FormatUint.simps [of b n])
  next
    case False
    with Suc.prems have "k \<noteq> 0" "n div b < b ^ k"
      by (auto simp: less_mult_imp_div_less mult.commute intro: Nat.gr0I)
    with Suc.IH [of "n div b"] Suc.prems False show ?thesis by (simp add: FormatUint.simps [of b n])
  qed
qed simp

lemma hex_not_space:
  assumes "digit_ok 16 c"
  shows "c \<noteq> CHR '' ''" and "byte c \<notin> {9, 10, 13}"
  using assms by (auto simp: digit_ok_def digit_val_def split: if_splits)

lemma readLine_hex:
  assumes rest: "br_rest r = h @ CRLF @ t" and hex: "list_all (digit_ok 16) h" and len: "length h \<le> 16"
  shows "readLine r = (br_skip (length h + 2) r, Inr h)"
proof -
  have ok: "c \<notin> set ('' '' @ map char_of [13 :: nat, 9, 10])" if "c \<in> set h" for c
    using hex_not_space [of c] that hex by (auto simp: list_all_iff)
  have "br_rest r = (h @ [char_of (13 :: nat)]) @ char_of (10 :: nat) # t" using rest by (simp add: CRLF_def)
  moreover have "char_of (10 :: nat) \<notin> set (h @ [char_of (13 :: nat)])" using ok by auto
  ultimately have "ReadSlice (char_of (10 :: nat)) r = (br_skip (Suc (length (h @ [char_of (13 :: nat)]))) r,
      (h @ [char_of (13 :: nat)]) @ [char_of (10 :: nat)], None)"
    by (rule ReadSlice_found) (use len in \<open>simp add: defaultBufSize_def\<close>)
  moreover have "TrimRight ('' '' @ map char_of [13 :: nat, 9, 10]) (h @ CRLF) = h"
  proof -
    have "dropWhile (\<lambda>c. c \<in> set ('' '' @ map char_of [13 :: nat, 9, 10])) (rev h) = rev h"
      by (cases "rev h") (use ok in \<open>auto dest!: arg_cong [of "rev h" _ set]\<close>)
    then show ?thesis by (simp add: TrimRight_def CRLF_def)
  qed
  ultimately show ?thesis
    using len by (simp add: readLine_def readLineBytes_def maxLineLength_def CRLF_def)
qed

section \<open>Every read makes progress\<close>

lemma readLine_le: "readLine r = (r', x) \<Longrightarrow> length (br_rest r') \<le> length (br_rest r)"
  by (auto simp: readLine_def readLineBytes_def ReadSlice_def Let_def split: prod.splits option.splits if_splits)

lemma beginChunk_le: "length (br_rest (cr_r (beginChunk cr))) \<le> length (br_rest (cr_r cr))"
  using readLine_le by (auto simp: beginChunk_def split: prod.split sum.split option.split)

lemma beginChunk_n: "cr_err (beginChunk cr) = None \<Longrightarrow> 0 < cr_n (beginChunk cr)"
  by (auto simp: beginChunk_def split: prod.splits sum.splits option.splits if_splits)

lemma readChunk_progress:
  assumes "0 < len" and "0 < cr_n cr" and "readChunk len cr = (cr', d, None)"
  shows "length (br_rest (cr_r cr')) < length (br_rest (cr_r cr))"
proof -
  have pos: "0 < min len (cr_n cr)" using assms by simp
  then show ?thesis
  proof (cases rule: br_Read_cases [of _ "cr_r cr"])
    case eof
    with assms(3) show ?thesis by (simp add: readChunk_def Let_def)
  next
    case (some k r')
    have "length (br_rest (fst (ReadFull 2 r'))) \<le> length (br_rest r')"
      by (simp add: ReadFull_def Let_def)
    with some assms(3) show ?thesis
      by (auto simp: readChunk_def Let_def split: prod.splits option.splits if_splits)
  qed
qed

interpretation crd: io_reader chunkedReader_Read "\<lambda>cr. length (br_rest (cr_r cr))"
proof unfold_locales
  fix n and cr cr' :: chunkedReader and d
  assume n: "0 < n" and r: "chunkedReader_Read n cr = (cr', d, None)"
  let ?cr = "if cr_n cr = 0 then beginChunk cr else cr"
  from r have ok: "cr_err cr = None" "cr_err ?cr = None" and rc: "readChunk n ?cr = (cr', d, None)"
    by (auto simp: chunkedReader_Read_def Let_def split: option.splits if_splits)
  have "0 < cr_n ?cr" using ok beginChunk_n by auto
  from readChunk_progress [OF n this rc] beginChunk_le [of cr]
  show "length (br_rest (cr_r cr')) < length (br_rest (cr_r cr))" by (auto split: if_splits)
qed

section \<open>Decoding\<close>

text \<open>
  A reader that still has to deliver \<open>out\<close>: between two chunks, or inside one with \<open>d\<close> left of it.
\<close>

definition decodes :: "chunkedReader \<Rightarrow> string \<Rightarrow> string \<Rightarrow> bool" where
  "decodes cr out tail \<longleftrightarrow> cr_err cr = None \<and>
     (\<exists>d ds. out = d @ concat ds \<and> list_all (\<lambda>x. length x < 2 ^ 64) ds \<and> cr_n cr = length d \<and>
        br_rest (cr_r cr) = (if d = [] then [] else d @ CRLF) @ chunks ds tail)"

lemma decodes_start:
  "br_rest r = chunks ds tail \<Longrightarrow> list_all (\<lambda>x. length x < 2 ^ 64) ds \<Longrightarrow>
     decodes (newChunkedReader r) (concat ds) tail"
  unfolding decodes_def newChunkedReader_def by (intro conjI exI [of _ "[]"] exI [of _ ds]) simp_all

lemma beginChunk_size:
  assumes "br_rest (cr_r cr) = FormatUint 16 n @ CRLF @ t" and "n < 2 ^ 64"
  shows "beginChunk cr = cr\<lparr>cr_r := br_skip (length (FormatUint 16 n) + 2) (cr_r cr), cr_n := n,
    cr_err := (if n = 0 then Some io_EOF else None)\<rparr>"
proof -
  have "list_all (digit_ok 16) (FormatUint 16 n)" by (rule FormatUint_digits) simp_all
  moreover have "length (FormatUint 16 n) \<le> 16" by (rule length_FormatUint) (use assms(2) in simp_all)
  ultimately have "readLine (cr_r cr) = (br_skip (length (FormatUint 16 n) + 2) (cr_r cr), Inr (FormatUint 16 n))"
    by (rule readLine_hex [OF assms(1)])
  with assms(2) show ?thesis by (simp add: beginChunk_def ParseUint_FormatUint)
qed

text \<open>Reading from inside a chunk.\<close>

lemma readChunk_inside:
  assumes "0 < len" and n: "cr_n cr = length d" "d \<noteq> []"
    and rest: "br_rest (cr_r cr) = d @ CRLF @ chunks ds tail" and ds: "list_all (\<lambda>x. length x < 2 ^ 64) ds"
  shows "\<exists>k cr'. 0 < k \<and> k \<le> length d \<and> readChunk len cr = (cr', take k d, None) \<and>
    decodes cr' (drop k d @ concat ds) tail"
proof -
  have pos: "0 < min len (cr_n cr)" using assms(1) n by simp
  from pos show ?thesis
  proof (cases rule: br_Read_cases [of "min len (cr_n cr)" "cr_r cr"])
    case eof
    with rest n show ?thesis by simp
  next
    case (some k r')
    then have k: "0 < k" "k \<le> length d" using n by auto
    with some rest have rd: "br_Read (min len (cr_n cr)) (cr_r cr) = (r', take k d, None)"
      and rr: "br_rest r' = drop k d @ CRLF @ chunks ds tail" by auto
    show ?thesis
    proof (cases "k = length d")
      case True
      have "ReadFull 2 r' = (br_skip 2 r', CRLF, None)"
        using ReadFull_enough [of 2 r'] rr True by simp
      then have "readChunk len cr = (cr\<lparr>cr_r := br_skip 2 r', cr_n := 0, cr_err := None\<rparr>, take k d, None)"
        using rd True n by (simp add: readChunk_def Let_def)
      moreover have "decodes (cr\<lparr>cr_r := br_skip 2 r', cr_n := 0, cr_err := None\<rparr>) (drop k d @ concat ds) tail"
        unfolding decodes_def using True rr ds by (intro conjI exI [of _ "[]"] exI [of _ ds]) simp_all
      ultimately show ?thesis using k by blast
    next
      case False
      with k have lt: "k < length d" by simp
      then have "readChunk len cr = (cr\<lparr>cr_r := r', cr_n := length d - k, cr_err := None\<rparr>, take k d, None)"
        using rd n by (simp add: readChunk_def Let_def)
      moreover have "decodes (cr\<lparr>cr_r := r', cr_n := length d - k, cr_err := None\<rparr>) (drop k d @ concat ds) tail"
        unfolding decodes_def using lt rr ds by (intro conjI exI [of _ "drop k d"] exI [of _ ds]) simp_all
      ultimately show ?thesis using k by blast
    qed
  qed
qed

lemma hex_0: "FormatUint 16 0 = ''0''"
  by code_simp

text \<open>Leading empty writes leave nothing on the wire.\<close>

lemma chunks_skip:
  obtains (last) "concat ds = []" and "chunks ds tail = FormatUint 16 0 @ CRLF @ tail"
  | (more) d es where "d \<noteq> []" and "concat ds = d @ concat es" and "set es \<subseteq> set ds" and "d \<in> set ds"
      and "chunks ds tail = FormatUint 16 (length d) @ CRLF @ d @ CRLF @ chunks es tail"
proof (induction ds arbitrary: thesis)
  case Nil
  show ?case by (rule Nil(1)) (simp_all add: chunks_def hex_0)
next
  case (Cons x ds)
  show ?case
  proof (cases "x = []")
    case True
    show ?thesis
    proof (rule Cons.IH)
      assume "concat ds = []" "chunks ds tail = FormatUint 16 0 @ CRLF @ tail"
      with True show thesis by (intro Cons.prems(1)) (simp_all add: chunks_def chunk_def)
    next
      fix d es
      assume "d \<noteq> []" "concat ds = d @ concat es" "set es \<subseteq> set ds" "d \<in> set ds"
        "chunks ds tail = FormatUint 16 (length d) @ CRLF @ d @ CRLF @ chunks es tail"
      with True show thesis by (intro Cons.prems(2) [of d es]) (auto simp: chunks_def chunk_def)
    qed
  next
    case False
    then show ?thesis by (intro Cons.prems(2) [of x ds]) (auto simp: chunks_def chunk_def)
  qed
qed

lemma decodes_read:
  assumes dec: "decodes cr out tail" and len: "0 < len"
  shows "(out = [] \<and> (\<exists>cr'. chunkedReader_Read len cr = (cr', [], Some io_EOF) \<and> br_rest (cr_r cr') = tail)) \<or>
    (\<exists>k cr'. 0 < k \<and> k \<le> length out \<and> chunkedReader_Read len cr = (cr', take k out, None) \<and>
       decodes cr' (drop k out) tail)"
proof -
  from dec obtain d ds where err: "cr_err cr = None" and out: "out = d @ concat ds"
    and ds: "list_all (\<lambda>x. length x < 2 ^ 64) ds" and n: "cr_n cr = length d"
    and rest: "br_rest (cr_r cr) = (if d = [] then [] else d @ CRLF) @ chunks ds tail"
    unfolding decodes_def by blast
  show ?thesis
  proof (cases "d = []")
    case False
    with n err have "chunkedReader_Read len cr = readChunk len cr" by (simp add: chunkedReader_Read_def)
    moreover from readChunk_inside [OF len n False _ ds, of tail] rest False obtain k cr' where
      "0 < k" "k \<le> length d" "readChunk len cr = (cr', take k d, None)" "decodes cr' (drop k d @ concat ds) tail"
      by auto
    ultimately show ?thesis using out by (intro disjI2 exI [of _ k] exI [of _ cr']) simp
  next
    case True
    with rest have w: "br_rest (cr_r cr) = chunks ds tail" by simp
    show ?thesis
    proof (cases rule: chunks_skip [of ds tail])
      case last
      with w have "br_rest (cr_r cr) = FormatUint 16 0 @ CRLF @ tail" by simp
      from beginChunk_size [OF this] n True err have
        "chunkedReader_Read len cr = (beginChunk cr, [], Some io_EOF)" "br_rest (cr_r (beginChunk cr)) = tail"
        by (simp_all add: chunkedReader_Read_def w last)
      with last True out show ?thesis by auto
    next
      case (more x es)
      let ?cr = "cr\<lparr>cr_r := br_skip (length (FormatUint 16 (length x)) + 2) (cr_r cr), cr_n := length x, cr_err := None\<rparr>"
      have lx: "length x < 2 ^ 64" and es: "list_all (\<lambda>x. length x < 2 ^ 64) es"
        using ds more by (auto simp: list_all_iff)
      from w more have "br_rest (cr_r cr) = FormatUint 16 (length x) @ CRLF @ x @ CRLF @ chunks es tail" by simp
      from beginChunk_size [OF this lx] more have bc: "beginChunk cr = ?cr" by simp
      with n True err have rd: "chunkedReader_Read len cr = readChunk len ?cr"
        by (simp add: chunkedReader_Read_def)
      have "br_rest (cr_r ?cr) = x @ CRLF @ chunks es tail" using w more by simp
      from readChunk_inside [OF len _ more(1) this es] obtain k cr' where
        "0 < k" "k \<le> length x" "readChunk len ?cr = (cr', take k x, None)" "decodes cr' (drop k x @ concat es) tail"
        by auto
      with rd out True more show ?thesis by (intro disjI2 exI [of _ k] exI [of _ cr']) simp
    qed
  qed
qed

lemma decodes_copy:
  assumes "decodes cr out tail" and "0 < n" and "length out < fuel"
  shows "\<exists>cr'. Copy chunkedReader_Read buffer_write n fuel cr s w = Some (cr', s @ out, w + length out, None) \<and>
    br_rest (cr_r cr') = tail"
  using assms
proof (induction fuel arbitrary: cr out s w)
  case (Suc fuel)
  from decodes_read [OF Suc.prems(1,2)] consider
    (eof) cr' where "out = []" "chunkedReader_Read n cr = (cr', [], Some io_EOF)" "br_rest (cr_r cr') = tail"
  | (some) k cr' where "0 < k" "k \<le> length out" "chunkedReader_Read n cr = (cr', take k out, None)"
      "decodes cr' (drop k out) tail" by blast
  then show ?case
  proof cases
    case eof
    then show ?thesis by simp
  next
    case (some k cr')
    from some(1,2) Suc.prems(3) have "length (drop k out) < fuel" by simp
    from Suc.IH [OF some(4) Suc.prems(2) this, of "s @ take k out" "w + k"] some show ?thesis
      by (auto simp: buffer_write_def)
  qed
qed simp

text \<open>
  C12: The chunked encoding loses nothing: what any sequence of writes and the close put on the wire, a
  reader decodes to the bytes of the writes, however the network cuts the wire into pieces and
  whatever the size of the read buffer, and leaves what follows on the connection untouched. The copy
  ends after at most one read per byte and the final one.
\<close>

theorem chunked_round_trip:
  assumes "write_all (chunkedWriter_Write buffer_write) [] ds = (body, None)"
    and "chunkedWriter_Close buffer_write body = (sent, None)"
    and "list_all (\<lambda>x. length x < 2 ^ 64) ds" and "br_rest r = sent @ tail"
    and "0 < n" and "length (concat ds) < fuel"
  shows "\<exists>cr. Copy chunkedReader_Read buffer_write n fuel (newChunkedReader r) [] 0 =
    Some (cr, concat ds, length (concat ds), None) \<and> br_rest (cr_r cr) = tail"
proof -
  have "br_rest r = chunks ds tail"
    using assms(1,2,4) by (auto simp: write_chunks chunkedWriter_Close_def buffer_write_def chunks_def)
  from decodes_copy [OF decodes_start [OF this assms(3)] assms(5,6), of "[]" 0] show ?thesis by simp
qed

theorem chunked_round_trip_witness:
  "\<exists>cr. Copy chunkedReader_Read buffer_write 2 9
     (newChunkedReader \<lparr>br_segs = [''3'', CRLF @ ''ab'', ''c'' @ CRLF @ ''1'' @ CRLF @ ''d'' @ CRLF @ ''0'' @ CRLF @ ''next''],
        br_end = io_EOF\<rparr>) [] 0 = Some (cr, ''abcd'', 4, None) \<and> br_rest (cr_r cr) = ''next''"
proof -
  let ?b = "''3'' @ CRLF @ ''abc'' @ CRLF @ ''1'' @ CRLF @ ''d'' @ CRLF" and ?ds = "[''abc'', [], ''d'']"
  let ?r = "\<lparr>br_segs = [''3'', CRLF @ ''ab'', ''c'' @ CRLF @ ''1'' @ CRLF @ ''d'' @ CRLF @ ''0'' @ CRLF @ ''next''],
    br_end = io_EOF\<rparr>"
  have "FormatUint 16 3 = ''3''" "FormatUint 16 1 = ''1''" by code_simp+
  then have w: "write_all (chunkedWriter_Write buffer_write) [] ?ds = (?b, None)"
    by (simp add: chunkedWriter_buffer chunk_def numeral_3_eq_3)
  have c: "chunkedWriter_Close buffer_write ?b = (?b @ ''0'' @ CRLF, None)"
    by (simp add: chunkedWriter_Close_def buffer_write_def)
  have r: "br_rest ?r = (?b @ ''0'' @ CRLF) @ ''next''" by (simp add: br_rest_def)
  have l: "concat ?ds = ''abcd''" "length ''abcd'' = 4" "list_all (\<lambda>x. length x < 2 ^ 64) ?ds"
    "length (concat ?ds) < 9" "0 < (2 :: nat)" by simp_all
  show ?thesis using chunked_round_trip [OF w c l(3) r l(5,4)] unfolding l(1,2) .
qed

end
