(* ===== verification/Textproto.thy ===== *)
theory Textproto
  imports Bufio
begin

text \<open>
  What the http package uses of \<open>net/textproto\<close> and \<open>bufio\<close> to read lines and headers: a line with
  its line break removed, continuation lines, and \<open>ReadMIMEHeader\<close>, which accepts blanks before the
  colon of a key.
\<close>

section \<open>Lines\<close>

definition LF :: char where "LF = CHR 0x0A"
definition CR :: char where "CR = CHR 0x0D"

definition chop_CR :: "string \<Rightarrow> string" where
  "chop_CR l = (if l \<noteq> [] \<and> last l = CR then butlast l else l)"

text \<open>\<open>ReadLine\<close>: the last line may lack its line break; no bytes at all are the reader's error.\<close>

definition tp_ReadLine :: "bufreader \<Rightarrow> bufreader \<times> (error + string)" where
  "tp_ReadLine r =
     (let s = br_rest r; a = takeWhile (\<lambda>c. c \<noteq> LF) s
      in if LF \<in> set s then (br_skip (Suc (length a)) r, Inr (chop_CR a))
         else if s = [] then (r, Inl (br_end r))
         else (r\<lparr>br_segs := []\<rparr>, Inr s))"

definition is_blank :: "char \<Rightarrow> bool" where
  "is_blank c \<longleftrightarrow> c = CHR '' '' \<or> c = CHR 0x09"

definition trim_blanks :: "string \<Rightarrow> string" where
  "trim_blanks s = rev (dropWhile is_blank (rev (dropWhile is_blank s)))"

lemma tp_ReadLine_shorter:
  assumes "tp_ReadLine r = (r', Inr l)"
  shows "length (br_rest r') < length (br_rest r)" and "br_end r' = br_end r"
proof -
  have "LF \<in> set (br_rest r) \<Longrightarrow> br_rest r \<noteq> []" by auto
  with assms show "length (br_rest r') < length (br_rest r)" "br_end r' = br_end r"
    by (auto simp: tp_ReadLine_def Let_def split: if_splits)
qed

text \<open>Continuation lines start with blanks, which are skipped; each adds one blank and its text.\<close>

definition skipSpace :: "bufreader \<Rightarrow> bufreader \<times> nat" where
  "skipSpace r = (let n = length (takeWhile is_blank (br_rest r)) in (br_skip n r, n))"

lemma skipSpace_rest [simp]: "length (br_rest (fst (skipSpace r))) \<le> length (br_rest r)"
  by (simp add: skipSpace_def Let_def)

lemma skip_then_read:
  assumes "(r1, n) = skipSpace r" and "(r2, Inr l) = tp_ReadLine r1"
  shows "length (br_rest r2) < length (br_rest r)"
  using tp_ReadLine_shorter(1) [OF assms(2) [symmetric]] skipSpace_rest [of r] by (simp flip: assms(1))

function continued :: "bufreader \<Rightarrow> string \<Rightarrow> bufreader \<times> string" where
  "continued r buf =
     (case skipSpace r of (r1, n) \<Rightarrow>
        if n = 0 then (r1, buf)
        else (case tp_ReadLine r1 of
                (r2, Inl e) \<Rightarrow> (r2, buf)
              | (r2, Inr l) \<Rightarrow> continued r2 (buf @ '' '' @ trim_blanks l)))"
  by pat_completeness auto
termination
  by (relation "measure (\<lambda>(r, buf). length (br_rest r))") (auto simp: skip_then_read)

declare continued.simps [simp del]

definition ReadContinuedLine :: "bufreader \<Rightarrow> bufreader \<times> (error + string)" where
  "ReadContinuedLine r =
     (case tp_ReadLine r of
        (r1, Inl e) \<Rightarrow> (r1, Inl e)
      | (r1, Inr l) \<Rightarrow>
          if l = [] then (r1, Inr [])
          else (case continued r1 (trim_blanks l) of (r2, s) \<Rightarrow> (r2, Inr s)))"

lemma continued_shorter: "length (br_rest (fst (continued r buf))) \<le> length (br_rest r)"
proof (induction r buf rule: continued.induct)
  case (1 r buf)
  obtain r1 n where s: "skipSpace r = (r1, n)" by (rule prod.exhaust)
  have r1: "length (br_rest r1) \<le> length (br_rest r)" using skipSpace_rest [of r] s by simp
  show ?case
  proof (cases "n = 0")
    case True
    with s r1 show ?thesis by (subst continued.simps) simp
  next
    case False
    show ?thesis
    proof (cases "tp_ReadLine r1")
      case (Pair r2 x)
      show ?thesis
      proof (cases x)
        case (Inl e)
        with Pair have "length (br_rest r2) \<le> length (br_rest r1)"
          by (auto simp: tp_ReadLine_def Let_def split: if_splits)
        with Inl Pair s r1 False show ?thesis by (subst continued.simps) simp
      next
        case (Inr l)
        from tp_ReadLine_shorter(1) [of r1 r2 l] Pair Inr 1 [OF s [symmetric] False] r1 s False show ?thesis
          by (subst continued.simps) fastforce
      qed
    qed
  qed
qed

lemma ReadContinuedLine_shorter:
  "ReadContinuedLine r = (r', Inr l) \<Longrightarrow> length (br_rest r') < length (br_rest r)"
proof -
  assume a: "ReadContinuedLine r = (r', Inr l)"
  then obtain r1 k where k: "tp_ReadLine r = (r1, Inr k)"
    by (auto simp: ReadContinuedLine_def split: prod.splits sum.splits)
  with a have "length (br_rest r') \<le> length (br_rest r1)"
    using continued_shorter [of r1 "trim_blanks k"]
    by (auto simp: ReadContinuedLine_def split: if_splits prod.splits)
  with tp_ReadLine_shorter(1) [OF k] show ?thesis by simp
qed

section \<open>Headers\<close>

definition header_append :: "header \<Rightarrow> string \<Rightarrow> string \<Rightarrow> header" where
  "header_append h k v =
     gomap_set k ((case gomap_get h k of None \<Rightarrow> [] | Some vs \<Rightarrow> vs) @ [v]) h"

definition errMalformedMIME :: "string \<Rightarrow> error" where
  "errMalformedMIME kv = ''malformed MIME header line: '' @ kv"

function read_mime :: "bufreader \<Rightarrow> header \<Rightarrow> bufreader \<times> header \<times> error option" where
  "read_mime r m =
     (case ReadContinuedLine r of
        (r1, Inl e) \<Rightarrow> (r1, m, Some e)
      | (r1, Inr kv) \<Rightarrow>
          if kv = [] then (r1, m, None)
          else if CHR '':'' \<notin> set kv then (r1, m, Some (errMalformedMIME kv))
          else (let key = TrimRight '' '' (takeWhile (\<lambda>c. c \<noteq> CHR '':'') kv);
                    value = dropWhile is_blank (tl (dropWhile (\<lambda>c. c \<noteq> CHR '':'') kv))
                in read_mime r1 (header_append m (CanonicalHeaderKey key) value)))"
  by pat_completeness auto
termination
  by (relation "measure (\<lambda>(r, m). length (br_rest r))")
    (auto simp: ReadContinuedLine_shorter [OF sym])

declare read_mime.simps [simp del]

definition ReadMIMEHeader :: "bufreader \<Rightarrow> bufreader \<times> header \<times> error option" where
  "ReadMIMEHeader r = read_mime r []"

end
