(* ===== verification/TransferCoding.thy ===== *)
theory TransferCoding
  imports Chunked Textproto Request
begin

text \<open>
  \<open>http/transfer.go\<close>: how a message decides between a length, the chunked encoding and the end of the
  connection, writing and reading. The body a caller hands over is a buffered reader with the result of
  its \<open>Close\<close>. The \<open>%q\<close> quoting inside error texts is left out.
\<close>

section \<open>Messages\<close>

definition badStringError :: "string \<Rightarrow> string \<Rightarrow> error" where
  "badStringError what str = what @ '' '' @ str"

definition ErrMissingContentLength :: error where
  "ErrMissingContentLength = ''missing ContentLength in HEAD response''"
definition ErrNotSupported :: error where
  "ErrNotSupported = ''feature not supported''"
definition ErrUnexpectedTrailer :: error where
  "ErrUnexpectedTrailer = ''trailer header without chunked transfer encoding''"

record user_body =
  ub_reader :: bufreader
  ub_close :: "error option"

text \<open>The response of \<open>http/response.go\<close>; of its request only the method is used.\<close>

record 'b Response =
  resp_Status :: string
  resp_StatusCode :: int
  resp_Proto :: string
  resp_ProtoMajor :: int
  resp_ProtoMinor :: int
  resp_Header :: header
  resp_Body :: "'b option"
  resp_ContentLength :: int
  resp_TransferEncoding :: "string list"
  resp_Close :: bool
  resp_Trailer :: "header option"
  resp_Method :: "string option"

datatype 'b message = MRequest "'b Request" | MResponse "'b Response"

definition resp_ProtoAtLeast :: "'b Response \<Rightarrow> int \<Rightarrow> int \<Rightarrow> bool" where
  "resp_ProtoAtLeast r major minor \<longleftrightarrow>
     major < resp_ProtoMajor r \<or> resp_ProtoMajor r = major \<and> minor \<le> resp_ProtoMinor r"

text \<open>Whether chunked is part of the encodings stack, and whether the encoding is explicitly identity.\<close>

definition chunked :: "string list \<Rightarrow> bool" where
  "chunked te \<longleftrightarrow> 0 < length te \<and> te ! 0 = ''chunked''"

definition isIdentity :: "string list \<Rightarrow> bool" where
  "isIdentity te \<longleftrightarrow> length te = 1 \<and> te ! 0 = ''identity''"

definition noBodyExpected :: "string \<Rightarrow> bool" where
  "noBodyExpected requestMethod \<longleftrightarrow> requestMethod = ''HEAD''"

definition bodyAllowedForStatus :: "int \<Rightarrow> bool" where
  "bodyAllowedForStatus status \<longleftrightarrow>
     (if 100 \<le> status \<and> status \<le> 199 then False
      else if status = 204 then False
      else if status = 304 then False
      else True)"

section \<open>The transfer writer\<close>

record transferWriter =
  tw_Method :: string
  tw_Body :: "user_body option"
  tw_ResponseToHEAD :: bool
  tw_ContentLength :: int
  tw_Close :: bool
  tw_TransferEncoding :: "string list"
  tw_Trailer :: "header option"

text \<open>
  A request without a length: one byte is read to see whether the body is empty; if not, it is put
  back in front. Errors of that read are ignored.
\<close>

definition probe_body :: "transferWriter \<Rightarrow> transferWriter" where
  "probe_body t =
     (case tw_Body t of
        None \<Rightarrow> t
      | Some b \<Rightarrow>
          (case br_rest (ub_reader b) of
             [] \<Rightarrow> t\<lparr>tw_Body := None\<rparr>
           | c # _ \<Rightarrow>
               t\<lparr>tw_ContentLength := -1,
                 tw_Body := Some (b\<lparr>ub_reader := (ub_reader b)\<lparr>br_segs := [c] # drop_bytes 1 (br_segs (ub_reader b))\<rparr>\<rparr>)\<rparr>))"

definition request_writer :: "user_body Request \<Rightarrow> transferWriter" where
  "request_writer rr =
     (let t = \<lparr>tw_Method = req_Method rr, tw_Body = req_Body rr, tw_ResponseToHEAD = False,
               tw_ContentLength = req_ContentLength rr, tw_Close = req_Close rr,
               tw_TransferEncoding = req_TransferEncoding rr, tw_Trailer = req_Trailer rr\<rparr>
      in if tw_Body t \<noteq> None \<and> length (tw_TransferEncoding t) = 0 \<and> ProtoAtLeast rr 1 1
         then (let t1 = (if tw_ContentLength t = 0 then probe_body t else t)
               in if tw_ContentLength t1 < 0 then t1\<lparr>tw_TransferEncoding := [''chunked'']\<rparr> else t1)
         else t)"

definition response_writer :: "user_body Response \<Rightarrow> transferWriter" where
  "response_writer rr =
     (let m = (case resp_Method rr of None \<Rightarrow> [] | Some m \<Rightarrow> m)
      in \<lparr>tw_Method = m, tw_Body = resp_Body rr, tw_ResponseToHEAD = noBodyExpected m,
          tw_ContentLength = resp_ContentLength rr, tw_Close = resp_Close rr,
          tw_TransferEncoding = resp_TransferEncoding rr, tw_Trailer = resp_Trailer rr\<rparr>)"

text \<open>The part that sanitizes body, length, encoding and trailer.\<close>

definition sanitize :: "bool \<Rightarrow> transferWriter \<Rightarrow> error + transferWriter" where
  "sanitize atLeastHTTP11 t =
     (let r = (if tw_ResponseToHEAD t then
                 (if tw_ContentLength t < 0 then Inl ErrMissingContentLength
                  else Inr (t\<lparr>tw_Body := None, tw_TransferEncoding := []\<rparr>))
               else
                 (let t1 = (if \<not> atLeastHTTP11 \<or> tw_Body t = None then t\<lparr>tw_TransferEncoding := []\<rparr> else t)
                  in Inr (if chunked (tw_TransferEncoding t1) then t1\<lparr>tw_ContentLength := -1\<rparr>
                          else if tw_Body t1 = None then t1\<lparr>tw_ContentLength := 0\<rparr>
                          else t1)))
      in case r of
           Inl e \<Rightarrow> Inl e
         | Inr t2 \<Rightarrow> Inr (if \<not> chunked (tw_TransferEncoding t2) then t2\<lparr>tw_Trailer := None\<rparr> else t2))"

definition newTransferWriter :: "user_body message \<Rightarrow> error + transferWriter" where
  "newTransferWriter r =
     (case r of
        MRequest rr \<Rightarrow>
          if req_ContentLength rr \<noteq> 0 \<and> req_Body rr = None
          then Inl (''http: Request.ContentLength='' @ Itoa (req_ContentLength rr) @ '' with nil Body'')
          else sanitize (ProtoAtLeast rr 1 1) (request_writer rr)
      | MResponse rr \<Rightarrow> sanitize (resp_ProtoAtLeast rr 1 1) (response_writer rr))"

definition shouldSendContentLength :: "transferWriter \<Rightarrow> bool" where
  "shouldSendContentLength t \<longleftrightarrow>
     (if chunked (tw_TransferEncoding t) then False
      else if 0 < tw_ContentLength t then True
      else if tw_ResponseToHEAD t then True
      else if tw_Method t = ''POST'' \<or> tw_Method t = ''PUT'' then True
      else if tw_ContentLength t = 0 \<and> isIdentity (tw_TransferEncoding t) then True
      else False)"

section \<open>Writing the header\<close>

text \<open>\<open>io.WriteString\<close> with its error ignored.\<close>

definition put :: "'s writer \<Rightarrow> 's \<Rightarrow> string \<Rightarrow> 's" where
  "put w s d = fst (w s d)"

definition put_err :: "'s writer \<Rightarrow> 's \<Rightarrow> string \<Rightarrow> 's \<times> error option" where
  "put_err w s d = (case w s d of (s', _, e) \<Rightarrow> (s', e))"

definition forbidden_trailer :: "string \<Rightarrow> bool" where
  "forbidden_trailer k \<longleftrightarrow> k = ''Transfer-Encoding'' \<or> k = ''Trailer'' \<or> k = ''Content-Length''"

text \<open>The keys of the trailer, in the order the loop visits them; \<open>needComma\<close> is the last argument.\<close>

fun trailer_keys :: "'s writer \<Rightarrow> 's \<Rightarrow> string list \<Rightarrow> bool \<Rightarrow> 's \<times> error option" where
  "trailer_keys w s [] c = put_err w s CRLF"
| "trailer_keys w s (k # ks) c =
     (let k' = CanonicalHeaderKey k
      in if forbidden_trailer k' then (s, Some (badStringError ''invalid Trailer key'' k'))
         else trailer_keys w (put w (if c then put w s '','' else s) k') ks True)"

definition tw_WriteHeader :: "transferWriter \<Rightarrow> 's writer \<Rightarrow> 's \<Rightarrow> 's \<times> error option" where
  "tw_WriteHeader t w s =
     (case (if tw_Close t then put_err w s (''Connection: close'' @ CRLF) else (s, None)) of
        (s1, Some e) \<Rightarrow> (s1, Some e)
      | (s1, None) \<Rightarrow>
          (case (if shouldSendContentLength t
                 then put_err w (put w s1 ''Content-Length: '') (Itoa (tw_ContentLength t) @ CRLF)
                 else if chunked (tw_TransferEncoding t)
                 then put_err w s1 (''Transfer-Encoding: chunked'' @ CRLF)
                 else (s1, None)) of
             (s2, Some e) \<Rightarrow> (s2, Some e)
           | (s2, None) \<Rightarrow>
               (case tw_Trailer t of
                  None \<Rightarrow> (s2, None)
                | Some tr \<Rightarrow> trailer_keys w (put w s2 ''Trailer: '') (map fst tr) False)))"

section \<open>Writing the body\<close>

text \<open>\<open>io.LimitReader\<close>: the reader and the bytes that may still be read.\<close>

definition limit_Read :: "nat \<Rightarrow> bufreader \<times> int \<Rightarrow> (bufreader \<times> int) \<times> string \<times> error option" where
  "limit_Read len l =
     (if snd l \<le> 0 then (l, [], Some io_EOF)
      else (case br_Read (if snd l < int len then nat (snd l) else len) (fst l) of
              (r, d, e) \<Rightarrow> ((r, snd l - int (length d)), d, e)))"

definition copy_size :: nat where "copy_size = 32 * 1024"

text \<open>
  Each read of these readers delivers a byte or ends the copy, so one turn more than there are
  bytes left is enough.
\<close>

definition copy_fuel :: "bufreader \<Rightarrow> nat" where
  "copy_fuel r = Suc (length (br_rest r))"

definition discard :: "unit writer" where
  "discard s d = (s, length d, None)"

definition errBodyLength :: "int \<Rightarrow> int \<Rightarrow> error" where
  "errBodyLength want got =
     ''http: Request.ContentLength='' @ Itoa want @ '' with Body length '' @ Itoa got"

text \<open>
  The copy of the body: the writer's state, the number of bytes counted in \<open>ncopy\<close> and the error, with
  \<open>Inl\<close> for the return from within the branch that discards what is beyond the length.
\<close>

definition copy_body ::
  "transferWriter \<Rightarrow> 's writer \<Rightarrow> user_body \<Rightarrow> 's \<Rightarrow> ('s \<times> (error + int \<times> error option)) option" where
  "copy_body t w b s =
     (let r = ub_reader b
      in if chunked (tw_TransferEncoding t) then
           (case Copy br_Read (chunkedWriter_Write w) copy_size (copy_fuel r) r s 0 of
              None \<Rightarrow> None
            | Some (_, s1, _, Some e) \<Rightarrow> Some (s1, Inr (0, Some e))
            | Some (_, s1, _, None) \<Rightarrow>
                (case chunkedWriter_Close w s1 of (s2, e) \<Rightarrow> Some (s2, Inr (0, e))))
         else if tw_ContentLength t = -1 then
           (case Copy br_Read w copy_size (copy_fuel r) r s 0 of
              None \<Rightarrow> None
            | Some (_, s1, n, e) \<Rightarrow> Some (s1, Inr (int n, e)))
         else
           (case Copy limit_Read w copy_size (copy_fuel r) (r, tw_ContentLength t) s 0 of
              None \<Rightarrow> None
            | Some ((r1, _), s1, n, e) \<Rightarrow>
                (case Copy br_Read discard copy_size (copy_fuel r1) r1 () 0 of
                   None \<Rightarrow> None
                 | Some (_, _, _, Some e') \<Rightarrow> Some (s1, Inl e')
                 | Some (_, _, extra, None) \<Rightarrow> Some (s1, Inr (int n + int extra, e)))))"

definition tw_WriteBody :: "transferWriter \<Rightarrow> 's writer \<Rightarrow> 's \<Rightarrow> ('s \<times> error option) option" where
  "tw_WriteBody t w s =
     (let finish = (\<lambda>s1 ncopy.
            if tw_ContentLength t \<noteq> -1 \<and> tw_ContentLength t \<noteq> ncopy
            then (s1, Some (errBodyLength (tw_ContentLength t) ncopy))
            else if chunked (tw_TransferEncoding t) then put_err w s1 CRLF
            else (s1, None))
      in case tw_Body t of
           None \<Rightarrow> Some (finish s 0)
         | Some b \<Rightarrow>
             (case copy_body t w b s of
                None \<Rightarrow> None
              | Some (s1, Inl e) \<Rightarrow> Some (s1, Some e)
              | Some (s1, Inr (n, Some e)) \<Rightarrow> Some (s1, Some e)
              | Some (s1, Inr (n, None)) \<Rightarrow>
                  (case ub_close b of
                     Some e \<Rightarrow> Some (s1, Some e)
                   | None \<Rightarrow> Some (finish s1 n))))"

section \<open>Reading the header\<close>

text \<open>
  \<open>ul\<close> is the lower-casing of non-ASCII text. Where a function changes the header it is given, the
  changed header is part of the result.
\<close>

fun te_loop :: "(string \<Rightarrow> string) \<Rightarrow> string list \<Rightarrow> string list \<Rightarrow> error + string list" where
  "te_loop ul [] te = Inr te"
| "te_loop ul (e # es) te =
     (let encoding = ToLower ul (TrimSpace e)
      in if encoding = ''identity'' then Inr te
         else if encoding \<noteq> ''chunked'' then Inl (badStringError ''unsupported transfer encoding'' encoding)
         else te_loop ul es (te @ [encoding]))"

text \<open>\<open>None\<close> is the panic on a header entry without a value.\<close>

definition fixTransferEncoding ::
  "(string \<Rightarrow> string) \<Rightarrow> string \<Rightarrow> header \<Rightarrow> (header \<times> (error + string list)) option" where
  "fixTransferEncoding ul requestMethod h =
     (case gomap_get h ''Transfer-Encoding'' of
        None \<Rightarrow> Some (h, Inr [])
      | Some raw \<Rightarrow>
          (let h1 = gomap_del ''Transfer-Encoding'' h
           in if requestMethod = ''HEAD'' then Some (h1, Inr [])
              else (case raw of
                      [] \<Rightarrow> None
                    | v # _ \<Rightarrow>
                        Some (case te_loop ul (Split (CHR '','') v) [] of
                                Inl e \<Rightarrow> (h1, Inl e)
                              | Inr te \<Rightarrow>
                                  if 1 < length te
                                  then (h1, Inl (badStringError ''too many transfer encodings'' (Join (CHR '','') te)))
                                  else if 0 < length te then (gomap_del ''Content-Length'' h1, Inr te)
                                  else (h1, Inr [])))))"

definition fixLength ::
  "(string \<Rightarrow> string) \<Rightarrow> bool \<Rightarrow> int \<Rightarrow> string \<Rightarrow> header \<Rightarrow> string list \<Rightarrow> header \<times> (error + int)" where
  "fixLength ul isResponse status requestMethod h te =
     (if noBodyExpected requestMethod then (h, Inr 0)
      else if status div 100 = 1 then (h, Inr 0)
      else if status = 204 \<or> status = 304 then (h, Inr 0)
      else if chunked te then (h, Inr (-1))
      else (let cl = TrimSpace (Get h ''Content-Length'')
            in if cl \<noteq> [] then
                 (h, case ParseInt cl of
                       Some n \<Rightarrow> if n < 0 then Inl (badStringError ''bad Content-Length'' cl) else Inr n
                     | None \<Rightarrow> Inl (badStringError ''bad Content-Length'' cl))
               else (let h1 = Del h ''Content-Length''
                     in if \<not> isResponse \<and> requestMethod = ''GET'' then (h1, Inr 0)
                        else if Contains (ToLower ul (Get h1 ''Content-Type'')) ''multipart/byteranges''
                        then (h1, Inl ErrNotSupported)
                        else (h1, Inr (-1)))))"

definition shouldClose :: "(string \<Rightarrow> string) \<Rightarrow> int \<Rightarrow> int \<Rightarrow> header \<Rightarrow> header \<times> bool" where
  "shouldClose ul major minor h =
     (if major < 1 then (h, True)
      else if major = 1 \<and> minor = 0 then (h, \<not> Contains (ToLower ul (Get h ''Connection'')) ''keep-alive'')
      else if ToLower ul (Get h ''Connection'') = ''close'' then (Del h ''Connection'', True)
      else (h, False))"

text \<open>The loop over the announced trailer keys, which deletes each of them from the new map.\<close>

fun trailer_loop :: "string list \<Rightarrow> header \<Rightarrow> error + header" where
  "trailer_loop [] trailer = Inr trailer"
| "trailer_loop (key # keys) trailer =
     (let k = CanonicalHeaderKey (TrimSpace key)
      in if forbidden_trailer k then Inl (badStringError ''bad trailer key'' k)
         else trailer_loop keys (Del trailer k))"

definition fixTrailer :: "header \<Rightarrow> string list \<Rightarrow> header \<times> (error + header option)" where
  "fixTrailer h te =
     (let raw = Get h ''Trailer''
      in if raw = [] then (h, Inr None)
         else (Del h ''Trailer'',
               case trailer_loop (Split (CHR '','') raw) [] of
                 Inl e \<Rightarrow> Inl e
               | Inr trailer \<Rightarrow>
                   if length trailer = 0 then Inr None
                   else if \<not> chunked te then Inl ErrUnexpectedTrailer
                   else Inr (Some trailer)))"

section \<open>The body of a message that is read\<close>

datatype body_src = SrcChunked chunkedReader | SrcLimit bufreader int | SrcPlain bufreader

text \<open>
  \<open>bd_hdr\<close>: the field \<open>hdr\<close> is not nil; \<open>bd_trailer\<close>: the trailer stored in that message;
  \<open>bd_limitHit\<close>: there is a response writer and it has hit its body limit.
\<close>

record body =
  bd_src :: body_src
  bd_hdr :: bool
  bd_closing :: bool
  bd_closed :: bool
  bd_limitHit :: bool
  bd_trailer :: "header option"

definition ErrBodyReadAfterClose :: error where
  "ErrBodyReadAfterClose = ''http: invalid Read on closed request Body''"

definition errLongTrailer :: error where
  "errLongTrailer = ''http: suspiciously long trailer after chunked body''"

fun src_reader :: "body_src \<Rightarrow> bufreader" where
  "src_reader (SrcChunked cr) = cr_r cr"
| "src_reader (SrcLimit r n) = r"
| "src_reader (SrcPlain r) = r"

fun src_set :: "body_src \<Rightarrow> bufreader \<Rightarrow> body_src" where
  "src_set (SrcChunked cr) r = SrcChunked (cr\<lparr>cr_r := r\<rparr>)"
| "src_set (SrcLimit _ n) r = SrcLimit r n"
| "src_set (SrcPlain _) r = SrcPlain r"

fun src_Read :: "nat \<Rightarrow> body_src \<Rightarrow> body_src \<times> string \<times> error option" where
  "src_Read len (SrcChunked cr) = (case chunkedReader_Read len cr of (cr', d, e) \<Rightarrow> (SrcChunked cr', d, e))"
| "src_Read len (SrcLimit r n) = (case limit_Read len (r, n) of ((r', n'), d, e) \<Rightarrow> (SrcLimit r' n', d, e))"
| "src_Read len (SrcPlain r) = (case br_Read len r of (r', d, e) \<Rightarrow> (SrcPlain r', d, e))"

text \<open>Some prefix of what is buffered, of at least four bytes, ends in two line breaks.\<close>

definition seeUpcomingDoubleCRLF :: "bufreader \<Rightarrow> bool" where
  "seeUpcomingDoubleCRLF r =
     list_ex (\<lambda>n. drop (n - 4) (take n (br_rest r)) = CRLF @ CRLF)
       [4 ..< Suc (min defaultBufSize (length (br_rest r)))]"

definition readTrailer :: "bufreader \<Rightarrow> bufreader \<times> header option \<times> error option" where
  "readTrailer r =
     (if take 2 (br_rest r) = CRLF then (br_skip 2 r, None, None)
      else if \<not> seeUpcomingDoubleCRLF r then (r, None, Some errLongTrailer)
      else (case ReadMIMEHeader r of
              (r', hdr, Some e) \<Rightarrow> (r', None, Some e)
            | (r', hdr, None) \<Rightarrow> (r', Some hdr, None)))"

definition body_Read :: "nat \<Rightarrow> body \<Rightarrow> body \<times> string \<times> error option" where
  "body_Read len b =
     (if bd_closed b then (b, [], Some ErrBodyReadAfterClose)
      else (case src_Read len (bd_src b) of
              (src, d, err) \<Rightarrow>
                if err = Some io_EOF \<and> bd_hdr b
                then (case readTrailer (src_reader src) of
                        (r, tr, e) \<Rightarrow>
                          (b\<lparr>bd_src := src_set src r, bd_hdr := False,
                             bd_trailer := (case tr of None \<Rightarrow> bd_trailer b | Some h \<Rightarrow> Some h)\<rparr>,
                           d, case e of None \<Rightarrow> err | Some e' \<Rightarrow> Some e'))
                else (b\<lparr>bd_src := src\<rparr>, d, err)))"

definition body_Close :: "body \<Rightarrow> (body \<times> error option) option" where
  "body_Close b =
     (if bd_closed b then Some (b, None)
      else if \<not> bd_hdr b \<and> bd_closing b then Some (b\<lparr>bd_closed := True\<rparr>, None)
      else if bd_limitHit b then Some (b\<lparr>bd_closed := True\<rparr>, None)
      else (case Copy body_Read discard copy_size (copy_fuel (src_reader (bd_src b))) b () 0 of
              None \<Rightarrow> None
            | Some (b', _, _, e) \<Rightarrow> Some (b'\<lparr>bd_closed := True\<rparr>, e)))"

section \<open>Reading a message's transfer fields\<close>

definition new_body :: "body_src \<Rightarrow> bool \<Rightarrow> bool \<Rightarrow> body" where
  "new_body src hdr closing =
     \<lparr>bd_src = src, bd_hdr = hdr, bd_closing = closing, bd_closed = False, bd_limitHit = False,
      bd_trailer = None\<rparr>"

text \<open>The choice of the body's reader.\<close>

definition choose_body :: "string list \<Rightarrow> int \<Rightarrow> bool \<Rightarrow> bufreader \<Rightarrow> body" where
  "choose_body te n close r =
     (if chunked te then new_body (SrcChunked (newChunkedReader r)) True close
      else if 0 \<le> n then new_body (SrcLimit r n) False close
      else if close then new_body (SrcPlain r) False close
      else new_body (SrcLimit r 0) False close)"

text \<open>\<open>None\<close> is a panic: a header entry without a value, or a response without its request.\<close>

definition readTransfer ::
  "(string \<Rightarrow> string) \<Rightarrow> body message \<Rightarrow> bufreader \<Rightarrow> (error + body message) option" where
  "readTransfer ul msg r =
     (let inputs = (case msg of
            MResponse rr \<Rightarrow>
              (case resp_Method rr of
                 None \<Rightarrow> None
               | Some m \<Rightarrow>
                   (case shouldClose ul (resp_ProtoMajor rr) (resp_ProtoMinor rr) (resp_Header rr) of
                      (h, c) \<Rightarrow> Some (h, resp_StatusCode rr, m, c, True)))
          | MRequest rr \<Rightarrow> Some (req_Header rr, 200, ''GET'', False, False))
      in case inputs of
           None \<Rightarrow> None
         | Some (h, status, meth, close, isResponse) \<Rightarrow>
             (case fixTransferEncoding ul meth h of
                None \<Rightarrow> None
              | Some (h1, Inl e) \<Rightarrow> Some (Inl e)
              | Some (h1, Inr te) \<Rightarrow>
                  (case fixLength ul isResponse status meth h1 te of
                     (h2, Inl e) \<Rightarrow> Some (Inl e)
                   | (h2, Inr len) \<Rightarrow>
                       (case fixTrailer h2 te of
                          (h3, Inl e) \<Rightarrow> Some (Inl e)
                        | (h3, Inr tr) \<Rightarrow>
                            (let close' = (if isResponse \<and> len = -1 \<and> \<not> chunked te \<and> bodyAllowedForStatus status
                                           then True else close);
                                 b = choose_body te len close' r
                             in Some (Inr (case msg of
                                  MRequest rr \<Rightarrow> MRequest (rr\<lparr>req_Header := h3, req_Body := Some b, req_ContentLength := len,
                                    req_TransferEncoding := te, req_Close := close', req_Trailer := tr\<rparr>)
                                | MResponse rr \<Rightarrow> MResponse (rr\<lparr>resp_Header := h3, resp_Body := Some b, resp_ContentLength := len,
                                    resp_TransferEncoding := te, resp_Close := close', resp_Trailer := tr\<rparr>))))))))"

end
