(* ===== verification/Framing.thy ===== *)
theory Framing
  imports TransferCoding
begin

text \<open>
  What the transfer code of \<open>http/transfer.go\<close> promises: its copies end, a body that is written is the
  body that is read, and the header of a request determines where its body ends.
\<close>

section \<open>Progress\<close>

interpretation lrd: io_reader limit_Read "\<lambda>l. length (br_rest (fst l))"
proof unfold_locales
  fix n and l l' :: "bufreader \<times> int" and d
  assume n: "0 < n" and r: "limit_Read n l = (l', d, None)"
  let ?k = "if snd l < int n then nat (snd l) else n"
  from r have "0 < ?k" and "br_Read ?k (fst l) = (fst l', d, None)"
    using n by (auto simp: limit_Read_def split: if_splits prod.splits)
  then show "length (br_rest (fst l')) < length (br_rest (fst l))" by (rule brd.progress)
qed

interpretation srd: io_reader src_Read "\<lambda>s. length (br_rest (src_reader s))"
proof unfold_locales
  fix n and s s' :: body_src and d
  assume n: "0 < n" and r: "src_Read n s = (s', d, None)"
  show "length (br_rest (src_reader s')) < length (br_rest (src_reader s))"
  proof (cases s)
    case (SrcChunked cr)
    with r crd.progress [OF n, of cr] show ?thesis by (auto split: prod.splits)
  next
    case (SrcLimit q k)
    with r lrd.progress [OF n, of "(q, k)"] show ?thesis by (fastforce split: prod.splits)
  next
    case (SrcPlain q)
    with r brd.progress [OF n, of q] show ?thesis by (auto split: prod.splits)
  qed
qed

interpretation bdr: io_reader body_Read "\<lambda>b. length (br_rest (src_reader (bd_src b)))"
proof unfold_locales
  fix n and b b' :: body and d
  assume n: "0 < n" and r: "body_Read n b = (b', d, None)"
  then obtain src where "src_Read n (bd_src b) = (src, d, None)" and "bd_src b' = src"
    by (auto simp: body_Read_def split: if_splits prod.splits option.splits)
  with srd.progress [OF n] show "length (br_rest (src_reader (bd_src b'))) < length (br_rest (src_reader (bd_src b)))"
    by blast
qed

lemma copy_size_pos [simp]: "0 < copy_size" by (simp add: copy_size_def)

lemma copy_fuel_enough [simp]: "length (br_rest r) < copy_fuel r" by (simp add: copy_fuel_def)

lemmas copies_return = brd.Copy_returns [OF copy_size_pos copy_fuel_enough]

lemma copy_body_returns: "\<exists>x. copy_body t w b s = Some x"
proof -
  let ?r = "ub_reader b"
  obtain x1 where x1: "Copy br_Read (chunkedWriter_Write w) copy_size (copy_fuel ?r) ?r s 0 = Some x1"
    using copies_return [of "chunkedWriter_Write w" ?r s 0] by (rule exE)
  obtain x2 where x2: "Copy br_Read w copy_size (copy_fuel ?r) ?r s 0 = Some x2"
    using copies_return [of w ?r s 0] by (rule exE)
  obtain r1 l1 s1 n1 e1 where x3:
    "Copy limit_Read w copy_size (copy_fuel ?r) (?r, tw_ContentLength t) s 0 = Some ((r1, l1), s1, n1, e1)"
    using lrd.Copy_returns [OF copy_size_pos, of "(?r, tw_ContentLength t)" "copy_fuel ?r" w s 0] by auto
  obtain x4 where x4: "Copy br_Read discard copy_size (copy_fuel r1) r1 () 0 = Some x4"
    using copies_return [of discard r1 "()" 0] by (rule exE)
  show ?thesis
    by (cases x1; cases x2; cases x4)
      (simp add: copy_body_def Let_def x1 x2 x3 x4 split: prod.splits option.splits)
qed

lemma WriteBody_returns: "\<exists>r. tw_WriteBody t w s = Some r"
proof (cases "tw_Body t")
  case None
  then show ?thesis by (simp add: tw_WriteBody_def Let_def)
next
  case (Some u)
  obtain s1 x where "copy_body t w u s = Some (s1, x)" using copy_body_returns [of t w u s] by auto
  with Some show ?thesis by (cases x) (auto simp: tw_WriteBody_def Let_def split: option.split)
qed

lemma body_Close_returns: "\<exists>r. body_Close b = Some r"
proof -
  obtain x where "Copy body_Read discard copy_size (copy_fuel (src_reader (bd_src b))) b () 0 = Some x"
    using bdr.Copy_returns [OF copy_size_pos copy_fuel_enough, of discard b "()" 0] by (rule exE)
  then show ?thesis by (cases x) (simp add: body_Close_def)
qed

text \<open>
  Writing and closing a body always return: with the fuel the model gives their copies, one turn more
  than there are bytes left, no copy runs out, whatever the writer does and however the bytes arrive.
\<close>

theorem body_operations_return:
  "(\<exists>r. tw_WriteBody t w s = Some r) \<and> (\<exists>r. body_Close b = Some r)"
  by (intro conjI WriteBody_returns body_Close_returns)

section \<open>What a copy carries\<close>

lemma Copy_buffer:
  assumes "0 < n" and "length (br_rest r) < fuel"
  shows "\<exists>r'. Copy br_Read buffer_write n fuel r s k =
    Some (r', s @ br_rest r, k + length (br_rest r), if br_end r = io_EOF then None else Some (br_end r)) \<and>
    br_rest r' = []"
  using assms(2)
proof (induction fuel arbitrary: r s k)
  case (Suc fuel)
  from assms(1) show ?case
  proof (cases rule: br_Read_cases [of n r])
    case eof
    then show ?thesis by simp
  next
    case (some j r')
    have "length (br_rest r') < fuel" using some Suc.prems by simp
    from Suc.IH [OF this, of "s @ take j (br_rest r)" "k + j"] some show ?thesis
      by (auto simp: buffer_write_def)
  qed
qed simp

lemma Copy_discard:
  assumes "0 < n" and "length (br_rest r) < fuel"
  shows "\<exists>r'. Copy br_Read discard n fuel r () k =
    Some (r', (), k + length (br_rest r), if br_end r = io_EOF then None else Some (br_end r))"
  using assms(2)
proof (induction fuel arbitrary: r k)
  case (Suc fuel)
  from assms(1) show ?case
  proof (cases rule: br_Read_cases [of n r])
    case eof
    then show ?thesis by simp
  next
    case (some j r')
    have "length (br_rest r') < fuel" using some Suc.prems by simp
    from Suc.IH [OF this, of "k + j"] some show ?thesis by (auto simp: discard_def)
  qed
qed simp

lemma limit_Read_cases:
  assumes "0 < n"
  obtains (zero) "l \<le> 0" and "limit_Read n (r, l) = ((r, l), [], Some io_EOF)"
  | (eof) "0 < l" and "br_rest r = []" and "limit_Read n (r, l) = ((r\<lparr>br_segs := []\<rparr>, l), [], Some (br_end r))"
  | (some) k r' where "0 < k" and "int k \<le> l" and "k \<le> length (br_rest r)"
      and "limit_Read n (r, l) = ((r', l - int k), take k (br_rest r), None)"
      and "br_rest r' = drop k (br_rest r)" and "br_end r' = br_end r"
proof (cases "l \<le> 0")
  case True
  with zero show ?thesis by (simp add: limit_Read_def)
next
  case False
  let ?k = "if l < int n then nat l else n"
  have eq: "limit_Read n (r, l) = (case br_Read ?k r of (r', d, e) \<Rightarrow> ((r', l - int (length d)), d, e))"
    unfolding limit_Read_def fst_conv snd_conv using False by simp
  have "0 < ?k" using False assms by auto
  then show ?thesis
  proof (cases rule: br_Read_cases [of ?k r])
    case eof1: eof
    with False eof eq show ?thesis by simp
  next
    case some1: (some j r')
    with False show ?thesis
      by (intro some [of j r']) (auto simp: eq split: if_splits)
  qed
qed

text \<open>A copy through a limit stops after that many bytes, or at the end.\<close>

lemma Copy_limit:
  assumes "0 < n" and "length (br_rest r) < fuel" and "br_end r = io_EOF"
  shows "\<exists>r' l'. Copy limit_Read buffer_write n fuel (r, l) s k =
      Some ((r', l'), s @ take (nat l) (br_rest r), k + length (take (nat l) (br_rest r)), None) \<and>
    br_rest r' = drop (nat l) (br_rest r) \<and> br_end r' = io_EOF"
  using assms(2,3)
proof (induction fuel arbitrary: r l s k)
  case (Suc fuel)
  from assms(1) show ?case
  proof (cases rule: limit_Read_cases [of n l r])
    case zero
    with Suc.prems show ?thesis by simp
  next
    case eof
    with Suc.prems show ?thesis by simp
  next
    case (some j r')
    have "length (br_rest r') < fuel" "br_end r' = io_EOF" using some Suc.prems by simp_all
    note IH = Suc.IH [OF this, of "l - int j" "s @ take j (br_rest r)" "k + j"]
    from some have "nat l = j + nat (l - int j)" by simp
    then have "take (nat l) (br_rest r) = take j (br_rest r) @ take (nat (l - int j)) (drop j (br_rest r))"
      "drop (nat l) (br_rest r) = drop (nat (l - int j)) (drop j (br_rest r))"
      by (simp_all add: take_add add.commute)
    with IH some show ?thesis by (auto simp: buffer_write_def)
  qed
qed simp

lemma limited_WriteBody:
  assumes "\<not> chunked (tw_TransferEncoding t)" and "tw_Body t = Some b" and "0 \<le> tw_ContentLength t"
    and "br_end (ub_reader b) = io_EOF" and "ub_close b = None"
  shows "tw_WriteBody t buffer_write s =
    Some (s @ take (nat (tw_ContentLength t)) (br_rest (ub_reader b)),
      if int (length (br_rest (ub_reader b))) = tw_ContentLength t then None
      else Some (errBodyLength (tw_ContentLength t) (int (length (br_rest (ub_reader b))))))"
proof -
  let ?r = "ub_reader b" and ?l = "tw_ContentLength t"
  from Copy_limit [OF copy_size_pos copy_fuel_enough assms(4), of ?l s 0] obtain r' l' where
    c: "Copy limit_Read buffer_write copy_size (copy_fuel ?r) (?r, ?l) s 0 =
      Some ((r', l'), s @ take (nat ?l) (br_rest ?r), length (take (nat ?l) (br_rest ?r)), None)"
    and r': "br_rest r' = drop (nat ?l) (br_rest ?r)" "br_end r' = io_EOF" by auto
  from Copy_discard [OF copy_size_pos copy_fuel_enough, of r' 0] r' obtain r'' where
    d: "Copy br_Read discard copy_size (copy_fuel r') r' () 0 = Some (r'', (), length (br_rest r'), None)" by auto
  have "length (take (nat ?l) (br_rest ?r)) + length (br_rest r') = length (br_rest ?r)"
    unfolding r' by (metis append_take_drop_id length_append)
  then have "copy_body t buffer_write b s =
      Some (s @ take (nat ?l) (br_rest ?r), Inr (int (length (br_rest ?r)), None))"
    using assms(1,3) c d by (simp add: copy_body_def Let_def flip: of_nat_add)
  with assms show ?thesis by (auto simp: tw_WriteBody_def Let_def)
qed

text \<open>
  C14: A body with a length puts at most that many of its bytes on the wire, and writing it succeeds
  exactly if the body has that length; otherwise the error names both lengths.
\<close>

theorem content_length_body:
  assumes "\<not> chunked (tw_TransferEncoding t)" and "tw_Body t = Some b" and "0 \<le> tw_ContentLength t"
    and "br_end (ub_reader b) = io_EOF" and "ub_close b = None"
  shows "tw_WriteBody t buffer_write s =
    Some (s @ take (nat (tw_ContentLength t)) (br_rest (ub_reader b)),
      if int (length (br_rest (ub_reader b))) = tw_ContentLength t then None
      else Some (errBodyLength (tw_ContentLength t) (int (length (br_rest (ub_reader b))))))"
  using assms by (rule limited_WriteBody)

theorem content_length_body_witness:
  "tw_WriteBody \<lparr>tw_Method = ''PUT'', tw_Body = Some \<lparr>ub_reader = \<lparr>br_segs = [''ab'', ''c''], br_end = io_EOF\<rparr>, ub_close = None\<rparr>,
      tw_ResponseToHEAD = False, tw_ContentLength = 2, tw_Close = False, tw_TransferEncoding = [], tw_Trailer = None\<rparr>
     buffer_write [] = Some (''ab'', Some (errBodyLength 2 3))"
  using content_length_body [of "\<lparr>tw_Method = ''PUT'', tw_Body = Some \<lparr>ub_reader = \<lparr>br_segs = [''ab'', ''c''], br_end = io_EOF\<rparr>, ub_close = None\<rparr>,
      tw_ResponseToHEAD = False, tw_ContentLength = 2, tw_Close = False, tw_TransferEncoding = [], tw_Trailer = None\<rparr>"
      "\<lparr>ub_reader = \<lparr>br_segs = [''ab'', ''c''], br_end = io_EOF\<rparr>, ub_close = None\<rparr>" "[]"]
  by (simp add: chunked_def br_rest_def)

section \<open>Chunked bodies\<close>

lemma Copy_chunks:
  assumes "0 < n" and "n < 2 ^ 64" and "length (br_rest r) < fuel" and "br_end r = io_EOF"
  shows "\<exists>r' ds. Copy br_Read (chunkedWriter_Write buffer_write) n fuel r s k =
      Some (r', s @ concat (map chunk ds), k + length (br_rest r), None) \<and>
    concat ds = br_rest r \<and> list_all (\<lambda>x. length x < 2 ^ 64) ds"
  using assms(3,4)
proof (induction fuel arbitrary: r s k)
  case (Suc fuel)
  from assms(1) show ?case
  proof (cases rule: br_Read_cases [of n r])
    case eof
    with Suc.prems show ?thesis by (intro exI [of _ "r\<lparr>br_segs := []\<rparr>"] exI [of _ "[]"]) simp
  next
    case (some j r')
    let ?d = "take j (br_rest r)"
    have "length (br_rest r') < fuel" "br_end r' = io_EOF" using some Suc.prems by simp_all
    from Suc.IH [OF this, of "s @ chunk ?d" "k + j"] obtain r'' ds where
      IH: "Copy br_Read (chunkedWriter_Write buffer_write) n fuel r' (s @ chunk ?d) (k + j) =
        Some (r'', (s @ chunk ?d) @ concat (map chunk ds), k + j + length (br_rest r'), None)"
      "concat ds = br_rest r'" "list_all (\<lambda>x. length x < 2 ^ 64) ds" by blast
    from some assms(2) have "length ?d < 2 ^ 64" and "br_rest r \<noteq> []" by auto
    with IH some show ?thesis
      by (intro exI [of _ r''] exI [of _ "?d # ds"]) (simp add: chunkedWriter_buffer [of s ?d])
  qed
qed simp

lemma chunked_WriteBody:
  assumes "chunked (tw_TransferEncoding t)" and "tw_Body t = Some b" and "tw_ContentLength t = -1"
    and "br_end (ub_reader b) = io_EOF" and "ub_close b = None"
  shows "\<exists>ds. tw_WriteBody t buffer_write s = Some (s @ chunks ds CRLF, None) \<and>
    concat ds = br_rest (ub_reader b) \<and> list_all (\<lambda>x. length x < 2 ^ 64) ds"
proof -
  let ?r = "ub_reader b"
  have "copy_size < 2 ^ 64" by (simp add: copy_size_def)
  from Copy_chunks [OF copy_size_pos this copy_fuel_enough assms(4), of s 0] obtain r' ds where
    "Copy br_Read (chunkedWriter_Write buffer_write) copy_size (copy_fuel ?r) ?r s 0 =
      Some (r', s @ concat (map chunk ds), length (br_rest ?r), None)"
    and ds: "concat ds = br_rest ?r" "list_all (\<lambda>x. length x < 2 ^ 64) ds" by auto
  then have "copy_body t buffer_write b s = Some (s @ concat (map chunk ds) @ ''0'' @ CRLF, Inr (0, None))"
    using assms(1) by (simp add: copy_body_def Let_def chunkedWriter_Close_def buffer_write_def)
  with assms ds show ?thesis
    by (intro exI [of _ ds]) (simp add: tw_WriteBody_def Let_def put_err_def buffer_write_def chunks_def)
qed

text \<open>Reading it back: the chunks, then the empty trailer.\<close>

lemma body_copy:
  assumes "decodes cr out (CRLF @ tail)" and "0 < n" and "length out < fuel"
    and "bd_src b = SrcChunked cr" and "bd_hdr b" and "\<not> bd_closed b"
  shows "\<exists>b'. Copy body_Read buffer_write n fuel b s w = Some (b', s @ out, w + length out, None) \<and>
    br_rest (src_reader (bd_src b')) = tail \<and> bd_trailer b' = bd_trailer b"
  using assms(1,3-6)
proof (induction fuel arbitrary: cr out b s w)
  case (Suc fuel)
  from decodes_read [OF Suc.prems(1) assms(2)] consider
    (eof) cr' where "out = []" "chunkedReader_Read n cr = (cr', [], Some io_EOF)" "br_rest (cr_r cr') = CRLF @ tail"
  | (some) k cr' where "0 < k" "k \<le> length out" "chunkedReader_Read n cr = (cr', take k out, None)"
      "decodes cr' (drop k out) (CRLF @ tail)" by blast
  then show ?case
  proof cases
    case eof
    then have "readTrailer (cr_r cr') = (br_skip 2 (cr_r cr'), None, None)" by (simp add: readTrailer_def)
    with eof Suc.prems(3-5) show ?thesis by (simp add: body_Read_def)
  next
    case (some k cr')
    let ?b = "b\<lparr>bd_src := SrcChunked cr'\<rparr>"
    from some(1,2) Suc.prems(2) have "length (drop k out) < fuel" by simp
    from Suc.IH [OF some(4) this, of ?b "s @ take k out" "w + k"] some Suc.prems(3-5) show ?thesis
      by (auto simp: buffer_write_def body_Read_def)
  qed
qed simp

text \<open>
  C13: A chunked body survives the transfer: what the transfer writer puts on the wire for it, the body
  reader of the receiving side reads back byte for byte, in whatever pieces either side reads, and
  leaves the connection at the first byte after the message.
\<close>

theorem chunked_body_round_trip:
  assumes "chunked (tw_TransferEncoding t)" and "tw_Body t = Some b" and "tw_ContentLength t = -1"
    and "br_end (ub_reader b) = io_EOF" and "ub_close b = None"
    and "tw_WriteBody t buffer_write [] = Some (wire, None)" and "br_rest r = wire @ tail"
    and "0 < n" and "length (br_rest (ub_reader b)) < fuel"
  shows "\<exists>b'. Copy body_Read buffer_write n fuel (choose_body (tw_TransferEncoding t) (-1) close r) [] 0 =
      Some (b', br_rest (ub_reader b), length (br_rest (ub_reader b)), None) \<and>
    br_rest (src_reader (bd_src b')) = tail"
proof -
  from chunked_WriteBody [OF assms(1-5), of "[]"] assms(6) obtain ds where
    wire: "wire = chunks ds CRLF" and ds: "concat ds = br_rest (ub_reader b)"
      "list_all (\<lambda>x. length x < 2 ^ 64) ds" by auto
  have "br_rest r = chunks ds (CRLF @ tail)" using assms(7) by (simp add: wire chunks_def)
  from decodes_start [OF this ds(2)] have
    "decodes (newChunkedReader r) (br_rest (ub_reader b)) (CRLF @ tail)" unfolding ds(1) .
  from body_copy [OF this assms(8,9), of "choose_body (tw_TransferEncoding t) (-1) close r" "[]" 0] assms(1)
  show ?thesis by (auto simp: choose_body_def new_body_def)
qed

definition demo_upload :: transferWriter where
  "demo_upload = \<lparr>tw_Method = ''PUT'',
     tw_Body = Some \<lparr>ub_reader = \<lparr>br_segs = [''ab'', ''c''], br_end = io_EOF\<rparr>, ub_close = None\<rparr>,
     tw_ResponseToHEAD = False, tw_ContentLength = -1, tw_Close = False,
     tw_TransferEncoding = [''chunked''], tw_Trailer = None\<rparr>"

theorem chunked_body_round_trip_witness:
  "\<exists>wire b'. tw_WriteBody demo_upload buffer_write [] = Some (wire, None) \<and>
     Copy body_Read buffer_write 2 9 (choose_body [''chunked''] (-1) False \<lparr>br_segs = [wire, ''next''], br_end = io_EOF\<rparr>) [] 0 =
       Some (b', ''abc'', 3, None) \<and> br_rest (src_reader (bd_src b')) = ''next''"
proof -
  let ?b = "\<lparr>ub_reader = \<lparr>br_segs = [''ab'', ''c''], br_end = io_EOF\<rparr>, ub_close = None\<rparr>"
  have h: "chunked (tw_TransferEncoding demo_upload)" "tw_Body demo_upload = Some ?b"
    "tw_ContentLength demo_upload = -1" "br_end (ub_reader ?b) = io_EOF" "ub_close ?b = None"
    by (simp_all add: demo_upload_def chunked_def)
  from chunked_WriteBody [OF h, of "[]"] obtain wire where
    w: "tw_WriteBody demo_upload buffer_write [] = Some (wire, None)" by auto
  have r: "br_rest \<lparr>br_segs = [wire, ''next''], br_end = io_EOF\<rparr> = wire @ ''next''" by (simp add: br_rest_def)
  have te: "tw_TransferEncoding demo_upload = [''chunked'']" by (simp add: demo_upload_def)
  have l: "br_rest (ub_reader ?b) = ''abc''" "length ''abc'' = 3" "length (br_rest (ub_reader ?b)) < 9" "0 < (2 :: nat)"
    by (simp_all add: br_rest_def)
  show ?thesis
    using w chunked_body_round_trip [OF h w r l(4,3), where close = False] unfolding te l(1,2) by blast
qed

section \<open>Where a request ends\<close>

lemma te_loop_chunked:
  "te_loop ul es te = Inr te' \<Longrightarrow> set te \<subseteq> {''chunked''} \<Longrightarrow> set te' \<subseteq> {''chunked''}"
  by (induction ul es te rule: te_loop.induct) (auto simp: Let_def split: if_splits)

lemma fixTransferEncoding_result:
  assumes "fixTransferEncoding ul m h = Some (h', Inr te)"
  shows "te = [] \<or> te = [''chunked'']" and "gomap_get h' ''Transfer-Encoding'' = None"
    and "te \<noteq> [] \<Longrightarrow> gomap_get h' ''Content-Length'' = None"
proof -
  have one: "te' = [''chunked'']" if "te_loop ul es [] = Inr te'" "\<not> 1 < length te'" "te' \<noteq> []" for es te'
    using te_loop_chunked [OF that(1)] that(2,3) by (cases te') auto
  from assms one show "te = [] \<or> te = [''chunked'']"
    by (auto simp: fixTransferEncoding_def Let_def split: option.splits if_splits list.splits sum.splits)
  from assms show "gomap_get h' ''Transfer-Encoding'' = None"
    by (auto simp: fixTransferEncoding_def Let_def gomap_simps split: option.splits if_splits list.splits sum.splits)
  from assms show "te \<noteq> [] \<Longrightarrow> gomap_get h' ''Content-Length'' = None"
    by (auto simp: fixTransferEncoding_def Let_def gomap_simps split: option.splits if_splits list.splits sum.splits)
qed

lemma fixLength_result:
  assumes "fixLength ul False 200 ''GET'' h te = (h', Inr n)"
  shows "if chunked te then n = -1 \<and> h' = h else 0 \<le> n \<and> n < 2 ^ 63"
  using assms ParseInt_bounds [of "TrimSpace (Get h ''Content-Length'')"]
  by (auto simp: fixLength_def noBodyExpected_def Let_def split: if_splits option.splits)

text \<open>The map a trailer is collected in only ever has keys deleted from it.\<close>

lemma trailer_loop_empty: "trailer_loop keys [] = Inr tr \<Longrightarrow> tr = []"
  by (induction keys) (auto simp: Let_def Del_def split: if_splits)

text \<open>
  No trailer is ever announced to the caller: the code that reads the Trailer header deletes the
  announced keys from the new map instead of adding them, so its result is empty, and the check that
  a trailer comes with chunking never fires.
\<close>

theorem trailer_never_announced:
  "snd (fixTrailer h te) = Inr None \<or> (\<exists>k. snd (fixTrailer h te) = Inl (badStringError ''bad trailer key'' k))"
proof -
  have bad: "trailer_loop keys tr = Inl e \<Longrightarrow> \<exists>k. e = badStringError ''bad trailer key'' k" for keys tr e
    by (induction keys tr rule: trailer_loop.induct) (auto simp: Let_def split: if_splits)
  show ?thesis
  proof (cases "trailer_loop (Split (CHR '','') (Get h ''Trailer'')) []")
    case (Inl e)
    with bad [OF this] show ?thesis by (simp add: fixTrailer_def Let_def)
  next
    case (Inr tr)
    with trailer_loop_empty [OF this] show ?thesis by (simp add: fixTrailer_def Let_def)
  qed
qed

text \<open>
  C15: The header of a request decides where its body ends, and only one way: either the encoding is
  chunked, then the Content-Length header is gone and the length is unknown, or the body is limited
  to a length from 0 to 2 to the 63. A request is never read to the end of the connection.
\<close>

theorem request_framing:
  assumes "readTransfer ul (MRequest rr) r = Some (Inr (MRequest rr'))"
  shows "\<exists>b. req_Body rr' = Some b \<and>
    (if req_TransferEncoding rr' = [''chunked'']
     then req_ContentLength rr' = -1 \<and> gomap_get (req_Header rr') ''Content-Length'' = None \<and>
       bd_src b = SrcChunked (newChunkedReader r)
     else req_TransferEncoding rr' = [] \<and> 0 \<le> req_ContentLength rr' \<and> req_ContentLength rr' < 2 ^ 63 \<and>
       bd_src b = SrcLimit r (req_ContentLength rr'))"
proof -
  obtain h1 te where te: "fixTransferEncoding ul ''GET'' (req_Header rr) = Some (h1, Inr te)"
    using assms by (cases "fixTransferEncoding ul ''GET'' (req_Header rr)")
      (auto simp: readTransfer_def split: sum.splits)
  obtain h2 len where len: "fixLength ul False 200 ''GET'' h1 te = (h2, Inr len)"
    using assms te by (cases "fixLength ul False 200 ''GET'' h1 te") (auto simp: readTransfer_def split: sum.splits)
  obtain h3 tr where tr: "fixTrailer h2 te = (h3, Inr tr)"
    using assms te len by (cases "fixTrailer h2 te") (auto simp: readTransfer_def split: sum.splits)
  have rr': "rr' = rr\<lparr>req_Header := h3, req_Body := Some (choose_body te len False r), req_ContentLength := len,
        req_TransferEncoding := te, req_Close := False, req_Trailer := tr\<rparr>"
    using assms te len tr by (simp add: readTransfer_def Let_def)
  from fixTransferEncoding_result(1) [OF te] consider "te = []" | "te = [''chunked'']" by blast
  then show ?thesis
  proof cases
    case 1
    with fixLength_result [OF len] rr' show ?thesis by (simp add: chunked_def choose_body_def new_body_def)
  next
    case 2
    then have c: "chunked te" by (simp add: chunked_def)
    with fixLength_result [OF len] have "len = -1" "h2 = h1" by auto
    moreover have "gomap_get h3 ''Content-Length'' = None"
      using tr fixTransferEncoding_result(3) [OF te] 2 \<open>h2 = h1\<close>
      by (auto simp: fixTrailer_def Let_def Del_def gomap_simps split: if_splits)
    ultimately show ?thesis using 2 c rr' by (simp add: choose_body_def new_body_def)
  qed
qed

definition demo_post :: "body Request" where
  "demo_post = \<lparr>req_Method = ''POST'',
     req_URL = \<lparr>url_Scheme = [], url_Opaque = [], url_Host = [], url_Path = ''/'', url_RawQuery = []\<rparr>,
     req_Proto = ''HTTP/1.1'', req_ProtoMajor = 1, req_ProtoMinor = 1,
     req_Header = [(''Content-Length'', [''5'']), (''Transfer-Encoding'', ['' Chunked''])],
     req_Body = None, req_ContentLength = 0, req_TransferEncoding = [], req_Close = False, req_Host = [],
     req_Trailer = None, req_RemoteAddr = [], req_RequestURI = ''/''\<rparr>"

theorem request_framing_witness:
  "\<exists>rr b. readTransfer (\<lambda>s. s) (MRequest demo_post) \<lparr>br_segs = [], br_end = io_EOF\<rparr> = Some (Inr (MRequest rr)) \<and>
     req_ContentLength rr = -1 \<and> gomap_get (req_Header rr) ''Content-Length'' = None \<and> req_Body rr = Some b \<and>
     bd_src b = SrcChunked (newChunkedReader \<lparr>br_segs = [], br_end = io_EOF\<rparr>)"
proof -
  let ?r = "\<lparr>br_segs = [], br_end = io_EOF\<rparr>"
  have t: "ToLower (\<lambda>s. s) (TrimSpace '' Chunked'') = ''chunked''" by code_simp
  have "\<exists>rr. readTransfer (\<lambda>s. s) (MRequest demo_post) ?r = Some (Inr (MRequest rr)) \<and>
      req_TransferEncoding rr = [''chunked'']"
    by (simp add: readTransfer_def demo_post_def fixTransferEncoding_def t fixLength_def noBodyExpected_def
        chunked_def fixTrailer_def Get_def CanonicalHeaderKey_def split: list.split)
  then obtain rr where rr: "readTransfer (\<lambda>s. s) (MRequest demo_post) ?r = Some (Inr (MRequest rr))"
    "req_TransferEncoding rr = [''chunked'']" by blast
  from request_framing [OF rr(1)] rr show ?thesis by auto
qed

end
