(* ===== verification/Cookie.thy ===== *)
theory Cookie
  imports Lex Request
begin

text \<open>
  \<open>http/cookie.go\<close> and the cookie methods of \<open>http/request.go\<close> and \<open>http/response.go\<close>. Points in
  time are values of a type \<open>'t\<close>; what the code uses of package \<open>time\<close> is the record \<open>time_lib\<close>:
  \<open>Parse\<close> with a layout, \<open>Format\<close> with the layout RFC1123, \<open>UTC\<close>, \<open>Unix\<close> and the zero time. \<open>ul\<close>
  is the lower-casing of non-ASCII text.
\<close>

record 't time_lib =
  t_Parse :: "string \<Rightarrow> string \<Rightarrow> 't option"
  t_Format1123 :: "'t \<Rightarrow> string"
  t_UTC :: "'t \<Rightarrow> 't"
  t_Unix :: "'t \<Rightarrow> int"
  t_zero :: 't

definition RFC1123 :: string where
  "RFC1123 = ''Mon, 02 Jan 2006 15:04:05 MST''"

definition dashed_layout :: string where
  "dashed_layout = ''Mon, 02-Jan-2006 15:04:05 MST''"

section \<open>unicode/utf8\<close>

text \<open>
  The rune at the start of a string and the bytes it takes; a byte that starts no valid encoding gives
  the replacement rune and takes one byte.
\<close>

definition is_cont :: "char \<Rightarrow> bool" where
  "is_cont c \<longleftrightarrow> 0x80 \<le> byte c \<and> byte c < 0xC0"

definition RuneError :: nat where
  "RuneError = 0xFFFD"

definition rune2 :: "char \<Rightarrow> char \<Rightarrow> nat" where
  "rune2 a b = byte a mod 32 * 64 + byte b mod 64"

definition rune3 :: "char \<Rightarrow> char \<Rightarrow> char \<Rightarrow> nat" where
  "rune3 a b c = byte a mod 16 * 4096 + byte b mod 64 * 64 + byte c mod 64"

definition rune4 :: "char \<Rightarrow> char \<Rightarrow> char \<Rightarrow> char \<Rightarrow> nat" where
  "rune4 a b c d = byte a mod 8 * 262144 + byte b mod 64 * 4096 + byte c mod 64 * 64 + byte d mod 64"

definition DecodeRune :: "string \<Rightarrow> nat \<times> nat" where
  "DecodeRune s =
     (let err = (RuneError, 1)
      in case s of
           [] \<Rightarrow> err
         | a # r1 \<Rightarrow>
             if byte a < 0x80 then (byte a, 1)
             else if byte a < 0xC0 then err
             else (case r1 of
                     [] \<Rightarrow> err
                   | b # r2 \<Rightarrow>
                       if \<not> is_cont b then err
                       else if byte a < 0xE0
                       then (if rune2 a b \<le> 0x7F then err else (rune2 a b, 2))
                       else (case r2 of
                               [] \<Rightarrow> err
                             | c # r3 \<Rightarrow>
                                 if \<not> is_cont c then err
                                 else if byte a < 0xF0
                                 then (if rune3 a b c \<le> 0x7FF \<or> 0xD800 \<le> rune3 a b c \<and> rune3 a b c \<le> 0xDFFF
                                       then err else (rune3 a b c, 3))
                                 else (case r3 of
                                         [] \<Rightarrow> err
                                       | d # _ \<Rightarrow>
                                           if \<not> is_cont d \<or> 0xF8 \<le> byte a \<or> rune4 a b c d \<le> 0xFFFF \<or>
                                              0x10FFFF < rune4 a b c d
                                           then err else (rune4 a b c d, 4)))))"

lemma DecodeRune_size: "0 < snd (DecodeRune s)"
  by (simp add: DecodeRune_def Let_def split: list.splits)

text \<open>The runes a \<open>range\<close> loop over a string visits.\<close>

function runes :: "string \<Rightarrow> nat list" where
  "runes [] = []"
| "runes (x # xs) = (case DecodeRune (x # xs) of (r, n) \<Rightarrow> r # runes (drop n (x # xs)))"
  by pat_completeness auto
termination runes
proof (relation "measure length", goal_cases)
  case (2 x xs r n)
  then show ?case using DecodeRune_size [of "x # xs"] by (cases n) (auto simp: less_Suc_eq_le dest: sym)
qed simp

lemma runes_ascii: "list_all is_ascii s \<Longrightarrow> runes s = map byte s"
  by (induction s) (simp_all add: DecodeRune_def is_ascii_def Let_def)

section \<open>Cookies\<close>

record 't Cookie =
  ck_Name :: string
  ck_Value :: string
  ck_Path :: string
  ck_Domain :: string
  ck_Expires :: 't
  ck_RawExpires :: string
  ck_MaxAge :: int
  ck_Secure :: bool
  ck_HttpOnly :: bool
  ck_Raw :: string
  ck_Unparsed :: "string list"

text \<open>A cookie literal with the zero value in every field but the first two.\<close>

definition new_Cookie :: "'t time_lib \<Rightarrow> string \<Rightarrow> string \<Rightarrow> 't Cookie" where
  "new_Cookie tm name value =
     \<lparr>ck_Name = name, ck_Value = value, ck_Path = [], ck_Domain = [], ck_Expires = t_zero tm, ck_RawExpires = [],
      ck_MaxAge = 0, ck_Secure = False, ck_HttpOnly = False, ck_Raw = [], ck_Unparsed = []\<rparr>"

definition sanitizeName :: "string \<Rightarrow> string" where
  "sanitizeName n = map (\<lambda>c. if c = CHR 0x0A \<or> c = CHR 0x0D then CHR ''-'' else c) n"

definition sanitizeValue :: "string \<Rightarrow> string" where
  "sanitizeValue v = map (\<lambda>c. if c = CHR 0x0A \<or> c = CHR 0x0D \<or> c = CHR '';'' then CHR '' '' else c) v"

definition unquoteCookieValue :: "string \<Rightarrow> string" where
  "unquoteCookieValue v =
     (if 1 < length v \<and> v ! 0 = dquote \<and> v ! (length v - 1) = dquote then take (length v - 2) (drop 1 v) else v)"

definition isCookieByte :: "char \<Rightarrow> bool" where
  "isCookieByte c \<longleftrightarrow>
     byte c = 0x21 \<or> 0x23 \<le> byte c \<and> byte c \<le> 0x2b \<or> 0x2d \<le> byte c \<and> byte c \<le> 0x3a \<or>
     0x3c \<le> byte c \<and> byte c \<le> 0x5b \<or> 0x5d \<le> byte c \<and> byte c \<le> 0x7e"

definition isCookieExpiresByte :: "char \<Rightarrow> bool" where
  "isCookieExpiresByte c \<longleftrightarrow> isCookieByte c \<or> c = CHR '','' \<or> c = CHR '' ''"

text \<open>\<open>None\<close> is the result that was not successful.\<close>

definition parseCookieValueUsing :: "string \<Rightarrow> (char \<Rightarrow> bool) \<Rightarrow> string option" where
  "parseCookieValueUsing raw validByte =
     (let raw' = unquoteCookieValue raw in if list_all validByte raw' then Some raw' else None)"

definition parseCookieValue :: "string \<Rightarrow> string option" where
  "parseCookieValue raw = parseCookieValueUsing raw isCookieByte"

definition parseCookieExpiresValue :: "string \<Rightarrow> string option" where
  "parseCookieExpiresValue raw = parseCookieValueUsing raw isCookieExpiresByte"

text \<open>The loop visits runes and cuts each to its lowest byte.\<close>

definition isCookieNameValid :: "string \<Rightarrow> bool" where
  "isCookieNameValid raw \<longleftrightarrow> list_all (\<lambda>c. isToken (char_of c)) (runes raw)"

text \<open>A string around the first occurrence of a byte, by \<open>strings.Index\<close> and two slices.\<close>

definition cut :: "char \<Rightarrow> string \<Rightarrow> (string \<times> string) option" where
  "cut c s =
     (if c \<in> set s then Some (takeWhile (\<lambda>x. x \<noteq> c) s, tl (dropWhile (\<lambda>x. x \<noteq> c) s)) else None)"

section \<open>Writing\<close>

definition Cookie_String :: "'t time_lib \<Rightarrow> 't Cookie \<Rightarrow> string" where
  "Cookie_String tm c =
     sanitizeName (ck_Name c) @ ''='' @ sanitizeValue (ck_Value c) @
     (if 0 < length (ck_Path c) then ''; Path='' @ sanitizeValue (ck_Path c) else []) @
     (if 0 < length (ck_Domain c) then ''; Domain='' @ sanitizeValue (ck_Domain c) else []) @
     (if 0 < t_Unix tm (ck_Expires c) then ''; Expires='' @ t_Format1123 tm (t_UTC tm (ck_Expires c)) else []) @
     (if 0 < ck_MaxAge c then ''; Max-Age='' @ Itoa (ck_MaxAge c)
      else if ck_MaxAge c < 0 then ''; Max-Age=0'' else []) @
     (if ck_HttpOnly c then ''; HttpOnly'' else []) @
     (if ck_Secure c then ''; Secure'' else [])"

definition SetCookie :: "'t time_lib \<Rightarrow> header \<Rightarrow> 't Cookie \<Rightarrow> header" where
  "SetCookie tm h c = Add h ''Set-Cookie'' (Cookie_String tm c)"

definition AddCookie :: "header \<Rightarrow> 't Cookie \<Rightarrow> header" where
  "AddCookie h c =
     (let s = sanitizeName (ck_Name c) @ ''='' @ sanitizeValue (ck_Value c); old = Get h ''Cookie''
      in if old \<noteq> [] then Set h ''Cookie'' (old @ ''; '' @ s) else Set h ''Cookie'' s)"

section \<open>Reading\<close>

text \<open>The value of a header key that may be absent.\<close>

definition header_values :: "header \<Rightarrow> string \<Rightarrow> string list" where
  "header_values h k = (case gomap_get h k of None \<Rightarrow> [] | Some vs \<Rightarrow> vs)"

text \<open>One attribute of a Set-Cookie line, already trimmed and not empty.\<close>

definition unparsed :: "string \<Rightarrow> 't Cookie \<Rightarrow> 't Cookie" where
  "unparsed part c = c\<lparr>ck_Unparsed := ck_Unparsed c @ [part]\<rparr>"

definition set_attribute :: "(string \<Rightarrow> string) \<Rightarrow> 't time_lib \<Rightarrow> string \<Rightarrow> 't Cookie \<Rightarrow> 't Cookie" where
  "set_attribute ul tm part c =
     (case (case cut (CHR ''='') part of Some p \<Rightarrow> p | None \<Rightarrow> (part, [])) of
        (attr, val0) \<Rightarrow>
          (let lowerAttr = ToLower ul attr
           in case (if lowerAttr = ''expires'' then parseCookieExpiresValue val0 else parseCookieValue val0) of
                None \<Rightarrow> unparsed part c
              | Some val \<Rightarrow>
                  if lowerAttr = ''secure'' then c\<lparr>ck_Secure := True\<rparr>
                  else if lowerAttr = ''httponly'' then c\<lparr>ck_HttpOnly := True\<rparr>
                  else if lowerAttr = ''domain'' then c\<lparr>ck_Domain := val\<rparr>
                  else if lowerAttr = ''max-age'' then
                    (case Atoi val of
                       None \<Rightarrow> unparsed part c
                     | Some secs \<Rightarrow>
                         if secs \<noteq> 0 \<and> val ! 0 = CHR ''0'' then unparsed part c
                         else if secs \<le> 0 then c\<lparr>ck_MaxAge := -1\<rparr> else c\<lparr>ck_MaxAge := secs\<rparr>)
                  else if lowerAttr = ''expires'' then
                    (let c1 = c\<lparr>ck_RawExpires := val\<rparr>
                     in case (case t_Parse tm RFC1123 val of
                                None \<Rightarrow> t_Parse tm dashed_layout val | Some e \<Rightarrow> Some e) of
                          None \<Rightarrow> unparsed part (c1\<lparr>ck_Expires := t_zero tm\<rparr>)
                        | Some exptime \<Rightarrow> c1\<lparr>ck_Expires := t_UTC tm exptime\<rparr>)
                  else if lowerAttr = ''path'' then c\<lparr>ck_Path := val\<rparr>
                  else unparsed part c))"

text \<open>The loop over the attributes.\<close>

fun set_attributes :: "(string \<Rightarrow> string) \<Rightarrow> 't time_lib \<Rightarrow> string list \<Rightarrow> 't Cookie \<Rightarrow> 't Cookie" where
  "set_attributes ul tm [] c = c"
| "set_attributes ul tm (p # parts) c =
     (let part = TrimSpace p
      in set_attributes ul tm parts (if length part = 0 then c else set_attribute ul tm part c))"

text \<open>One line; \<open>None\<close> is a line that gives no cookie.\<close>

definition readSetCookie :: "(string \<Rightarrow> string) \<Rightarrow> 't time_lib \<Rightarrow> string \<Rightarrow> 't Cookie option" where
  "readSetCookie ul tm line =
     (let parts = Split (CHR '';'') (TrimSpace line)
      in if length parts = 1 \<and> parts ! 0 = [] then None
         else (case cut (CHR ''='') (TrimSpace (parts ! 0)) of
                 None \<Rightarrow> None
               | Some (name, value) \<Rightarrow>
                   if \<not> isCookieNameValid name then None
                   else (case parseCookieValue value of
                           None \<Rightarrow> None
                         | Some v \<Rightarrow>
                             Some (set_attributes ul tm (tl parts) ((new_Cookie tm name v)\<lparr>ck_Raw := line\<rparr>)))))"

definition readSetCookies :: "(string \<Rightarrow> string) \<Rightarrow> 't time_lib \<Rightarrow> header \<Rightarrow> 't Cookie list" where
  "readSetCookies ul tm h = List.map_filter (readSetCookie ul tm) (header_values h ''Set-Cookie'')"

text \<open>One pair of a Cookie line.\<close>

definition readCookie :: "'t time_lib \<Rightarrow> string \<Rightarrow> string \<Rightarrow> 't Cookie option" where
  "readCookie tm flt p =
     (let part = TrimSpace p
      in if length part = 0 then None
         else (case (case cut (CHR ''='') part of Some q \<Rightarrow> q | None \<Rightarrow> (part, [])) of
                 (name, val) \<Rightarrow>
                   if \<not> isCookieNameValid name then None
                   else if flt \<noteq> [] \<and> flt \<noteq> name then None
                   else map_option (new_Cookie tm name) (parseCookieValue val)))"

definition readCookieLine :: "'t time_lib \<Rightarrow> string \<Rightarrow> string \<Rightarrow> 't Cookie list" where
  "readCookieLine tm flt line =
     (let parts = Split (CHR '';'') (TrimSpace line)
      in if length parts = 1 \<and> parts ! 0 = [] then [] else List.map_filter (readCookie tm flt) parts)"

definition readCookies :: "'t time_lib \<Rightarrow> header \<Rightarrow> string \<Rightarrow> 't Cookie list" where
  "readCookies tm h flt = concat (map (readCookieLine tm flt) (header_values h ''Cookie''))"

definition ErrNoCookie :: string where
  "ErrNoCookie = ''http: named cookie not present''"

definition req_Cookies :: "'t time_lib \<Rightarrow> 'b Request \<Rightarrow> 't Cookie list" where
  "req_Cookies tm r = readCookies tm (req_Header r) []"

definition req_Cookie :: "'t time_lib \<Rightarrow> 'b Request \<Rightarrow> string \<Rightarrow> string + 't Cookie" where
  "req_Cookie tm r name =
     (case readCookies tm (req_Header r) name of [] \<Rightarrow> Inl ErrNoCookie | c # _ \<Rightarrow> Inr c)"

definition req_AddCookie :: "'b Request \<Rightarrow> 't Cookie \<Rightarrow> 'b Request" where
  "req_AddCookie r c = r\<lparr>req_Header := AddCookie (req_Header r) c\<rparr>"

section \<open>Lines of pairs and attributes\<close>

lemma isToken_graphic: "isToken c \<Longrightarrow> graphic c \<and> c \<noteq> CHR ''='' \<and> c \<noteq> CHR '';'' \<and> c \<noteq> CHR 0x0A \<and> c \<noteq> CHR 0x0D"
proof -
  assume t: "isToken c"
  have "\<not> isToken (CHR '' '')" "\<not> isToken (CHR ''='')" "\<not> isToken (CHR '';'')" "\<not> isToken CHR 0x0A"
      "\<not> isToken CHR 0x0D"
    by (simp_all add: isToken_def isSeparator_def isCtl_def)
  with t have ne: "c \<noteq> CHR '' ''" "c \<noteq> CHR ''=''" "c \<noteq> CHR '';''" "c \<noteq> CHR 0x0A" "c \<noteq> CHR 0x0D" by auto
  then have "byte c \<noteq> byte (CHR '' '')" unfolding of_char_eq_iff by simp
  moreover have "31 < byte c" "byte c < 128" using t by (auto simp: isToken_def isCtl_def isChar_def)
  ultimately show ?thesis using ne by (simp add: graphic_def)
qed

lemma isCookieByte_graphic: "isCookieByte c \<Longrightarrow> graphic c \<and> c \<noteq> CHR '';'' \<and> c \<noteq> dquote \<and> c \<noteq> CHR 0x0A \<and> c \<noteq> CHR 0x0D"
  by (auto simp: isCookieByte_def graphic_def dquote_def)

text \<open>Names of token bytes and values of cookie bytes are written and read as they are.\<close>

lemma sanitizeName_token: "list_all isToken n \<Longrightarrow> sanitizeName n = n"
  by (induction n) (auto simp: sanitizeName_def dest: isToken_graphic)

lemma sanitizeValue_cookie: "list_all isCookieByte v \<Longrightarrow> sanitizeValue v = v"
  by (induction v) (auto simp: sanitizeValue_def dest: isCookieByte_graphic)

lemma isCookieNameValid_token: "list_all isToken n \<Longrightarrow> isCookieNameValid n"
proof -
  assume t: "list_all isToken n"
  then have "list_all is_ascii n" by (auto simp: list_all_iff is_ascii_def isToken_def isChar_def)
  with t show ?thesis by (simp add: isCookieNameValid_def runes_ascii list_all_iff)
qed

lemma parse_unquoted:
  assumes "list_all P v" and "\<And>c. P c \<Longrightarrow> c \<noteq> dquote"
  shows "parseCookieValueUsing v P = Some v"
proof -
  have "v \<noteq> [] \<Longrightarrow> v ! 0 \<noteq> dquote" using assms by (cases v) auto
  then have "unquoteCookieValue v = v" by (cases "v = []") (auto simp: unquoteCookieValue_def)
  then show ?thesis using assms(1) by (simp add: parseCookieValueUsing_def)
qed

lemma parseCookieValue_cookie: "list_all isCookieByte v \<Longrightarrow> parseCookieValue v = Some v"
  by (auto simp: parseCookieValue_def intro!: parse_unquoted dest: isCookieByte_graphic)

lemma cut_at: "c \<notin> set a \<Longrightarrow> cut c (a @ c # b) = Some (a, b)"
  by (simp add: cut_def takeWhile_append2 dropWhile_append2)

text \<open>The line of a first part and further parts, each after a semicolon and a blank.\<close>

definition cookie_line :: "string \<Rightarrow> string list \<Rightarrow> string" where
  "cookie_line p as = p @ concat (map (\<lambda>a. ''; '' @ a) as)"

text \<open>A part that survives splitting and trimming.\<close>

definition solid :: "string \<Rightarrow> bool" where
  "solid s \<longleftrightarrow> s \<noteq> [] \<and> graphic (hd s) \<and> graphic (last s) \<and> CHR '';'' \<notin> set s"

lemma solid_trim: "solid s \<Longrightarrow> TrimSpace s = s"
  by (simp add: solid_def TrimSpace_graphic)

lemma cookie_line_Split:
  assumes "CHR '';'' \<notin> set p" and "list_all solid as"
  shows "Split (CHR '';'') (cookie_line p as) = p # map ((#) CHR '' '') as"
  using assms
proof (induction as arbitrary: p)
  case (Cons a as)
  from Cons.prems have "Split (CHR '';'') (cookie_line (CHR '' '' # a) as) = (CHR '' '' # a) # map ((#) CHR '' '') as"
    by (intro Cons.IH) (auto simp: solid_def)
  with Cons.prems show ?case by (simp add: cookie_line_def Split_sep)
qed (simp add: cookie_line_def)

lemma cookie_line_trim:
  assumes "solid p" and "list_all solid as"
  shows "TrimSpace (cookie_line p as) = cookie_line p as"
proof (rule TrimSpace_graphic)
  show "cookie_line p as \<noteq> []" and "graphic (hd (cookie_line p as))"
    using assms(1) by (auto simp: cookie_line_def solid_def)
  show "graphic (last (cookie_line p as))"
  proof (cases as rule: rev_cases)
    case (snoc bs b)
    with assms(2) show ?thesis by (simp add: cookie_line_def solid_def)
  qed (use assms(1) in \<open>simp add: cookie_line_def solid_def\<close>)
qed

section \<open>Cookies of a request\<close>

definition plain_cookie :: "'t Cookie \<Rightarrow> bool" where
  "plain_cookie c \<longleftrightarrow> list_all isToken (ck_Name c) \<and> list_all isCookieByte (ck_Value c)"

definition cookie_pair :: "'t Cookie \<Rightarrow> string" where
  "cookie_pair c = ck_Name c @ ''='' @ ck_Value c"

lemma pair_solid:
  assumes "list_all isToken n" and "list_all isCookieByte v"
  shows "solid (n @ CHR ''='' # v)"
proof -
  have "graphic (CHR ''='')" by (simp add: graphic_def)
  moreover have "graphic c \<and> c \<noteq> CHR '';''" if "c \<in> set n \<or> c \<in> set v" for c
    using that assms isToken_graphic isCookieByte_graphic unfolding list_all_iff by blast
  ultimately have "graphic c \<and> c \<noteq> CHR '';''" if "c \<in> set (n @ CHR ''='' # v)" for c
    using that by auto
  then show ?thesis unfolding solid_def by (metis hd_in_set last_in_set append_is_Nil_conv list.distinct(1))
qed

lemma readCookie_pair:
  assumes "plain_cookie c"
  shows "readCookie tm flt (cookie_pair c) =
      (if flt = [] \<or> ck_Name c = flt then Some (new_Cookie tm (ck_Name c) (ck_Value c)) else None)"
    and "readCookie tm flt (CHR '' '' # cookie_pair c) = readCookie tm flt (cookie_pair c)"
proof -
  have s: "solid (cookie_pair c)" using assms by (simp add: cookie_pair_def plain_cookie_def pair_solid)
  have "CHR ''='' \<notin> set (ck_Name c)" using assms by (auto simp: plain_cookie_def list_all_iff dest: isToken_graphic)
  from cut_at [OF this, of "ck_Value c"]
  show "readCookie tm flt (cookie_pair c) =
      (if flt = [] \<or> ck_Name c = flt then Some (new_Cookie tm (ck_Name c) (ck_Value c)) else None)"
    using assms unfolding readCookie_def solid_trim [OF s] Let_def
    by (simp add: plain_cookie_def cookie_pair_def isCookieNameValid_token parseCookieValue_cookie)
  show "readCookie tm flt (CHR '' '' # cookie_pair c) = readCookie tm flt (cookie_pair c)"
    by (simp add: readCookie_def TrimSpace_blank)
qed

lemma map_filter_pairs:
  assumes "list_all plain_cookie cs"
  shows "List.map_filter (readCookie tm flt) (map (\<lambda>c. CHR '' '' # cookie_pair c) cs) =
    map (\<lambda>c. new_Cookie tm (ck_Name c) (ck_Value c)) (filter (\<lambda>c. flt = [] \<or> ck_Name c = flt) cs)"
  using assms by (induction cs) (auto simp: List.map_filter_def readCookie_pair)

lemma readCookieLine_pairs:
  assumes "plain_cookie c" and "list_all plain_cookie cs"
  shows "readCookieLine tm flt (cookie_line (cookie_pair c) (map cookie_pair cs)) =
    map (\<lambda>c. new_Cookie tm (ck_Name c) (ck_Value c)) (filter (\<lambda>c. flt = [] \<or> ck_Name c = flt) (c # cs))"
proof -
  have s: "plain_cookie x \<Longrightarrow> solid (cookie_pair x)" for x :: "'a Cookie"
    by (simp add: plain_cookie_def cookie_pair_def pair_solid)
  then have sc: "solid (cookie_pair c)" and ss: "list_all solid (map cookie_pair cs)"
    using assms by (auto simp: list_all_iff)
  have "CHR '';'' \<notin> set (cookie_pair c)" "cookie_pair c \<noteq> []" using sc by (auto simp: solid_def)
  then show ?thesis
    using cookie_line_Split [OF _ ss, of "cookie_pair c"] map_filter_pairs [OF assms(2), of tm flt]
    by (simp add: readCookieLine_def cookie_line_trim [OF sc ss] o_def List.map_filter_simps
        readCookie_pair(1) [OF assms(1)] split: option.splits)
qed

lemma canonical_Cookie: "CanonicalHeaderKey ''Cookie'' = ''Cookie''"
  by code_simp

lemma canonical_Set_Cookie: "CanonicalHeaderKey ''Set-Cookie'' = ''Set-Cookie''"
  by code_simp

text \<open>Adding cookies keeps one header line, to which each appends its pair.\<close>

lemma AddCookie_pair:
  assumes "plain_cookie d"
  shows "AddCookie h d = gomap_set ''Cookie''
    [if Get h ''Cookie'' \<noteq> [] then Get h ''Cookie'' @ ''; '' @ cookie_pair d else cookie_pair d] h"
  using assms by (simp add: AddCookie_def Set_def canonical_Cookie cookie_pair_def plain_cookie_def
      sanitizeName_token sanitizeValue_cookie Let_def)

lemma AddCookie_line:
  assumes "gomap_get h ''Cookie'' = Some [cookie_line (cookie_pair c) (map cookie_pair cs)]"
    and "list_all plain_cookie ds"
  shows "gomap_get (foldl AddCookie h ds) ''Cookie'' = Some [cookie_line (cookie_pair c) (map cookie_pair (cs @ ds))]"
  using assms
proof (induction ds arbitrary: h cs)
  case (Cons d ds)
  have "cookie_line (cookie_pair c) (map cookie_pair cs) \<noteq> []" by (simp add: cookie_line_def cookie_pair_def)
  with Cons.prems have "gomap_get (AddCookie h d) ''Cookie'' = Some [cookie_line (cookie_pair c) (map cookie_pair (cs @ [d]))]"
    by (simp add: AddCookie_pair Get_def canonical_Cookie gomap_simps cookie_line_def)
  from Cons.IH [OF this] Cons.prems show ?case by simp
qed simp

text \<open>
  C35: The cookies added to a request are read back from it, all of them in order, and by name those of
  that name, as long as the names are tokens and the values hold cookie bytes.
\<close>

theorem cookies_round_trip:
  assumes "gomap_get h ''Cookie'' = None" and "list_all plain_cookie cs"
  shows "readCookies tm (foldl AddCookie h cs) flt =
    map (\<lambda>c. new_Cookie tm (ck_Name c) (ck_Value c)) (filter (\<lambda>c. flt = [] \<or> ck_Name c = flt) cs)"
proof (cases cs)
  case Nil
  with assms(1) show ?thesis by (simp add: readCookies_def header_values_def)
next
  case (Cons c ds)
  with assms have p: "plain_cookie c" "list_all plain_cookie ds" by auto
  have "gomap_get (AddCookie h c) ''Cookie'' = Some [cookie_line (cookie_pair c) (map cookie_pair [])]"
    using assms(1) p(1) by (simp add: AddCookie_pair Get_def canonical_Cookie gomap_simps cookie_line_def)
  from AddCookie_line [OF this p(2)]
  have g: "gomap_get (foldl AddCookie h cs) ''Cookie'' = Some [cookie_line (cookie_pair c) (map cookie_pair ds)]"
    by (simp add: Cons)
  show ?thesis unfolding readCookies_def header_values_def g
    by (simp only: option.case list.map concat.simps append_Nil2 readCookieLine_pairs [OF p] Cons)
qed

definition demo_time :: "unit time_lib" where
  "demo_time = \<lparr>t_Parse = \<lambda>_ _. None, t_Format1123 = \<lambda>_. [], t_UTC = \<lambda>t. t, t_Unix = \<lambda>_. 0, t_zero = ()\<rparr>"

theorem cookies_round_trip_witness:
  "readCookies demo_time (foldl AddCookie [] [new_Cookie demo_time ''a'' ''1'', new_Cookie demo_time ''b'' ''2'']) ''b'' =
    [new_Cookie demo_time ''b'' ''2'']"
  using cookies_round_trip [of "[]" "[new_Cookie demo_time ''a'' ''1'', new_Cookie demo_time ''b'' ''2'']" demo_time "''b''"]
  by (simp add: plain_cookie_def new_Cookie_def isToken_def isChar_def isCtl_def isSeparator_def isCookieByte_def)

section \<open>Cookies of a response\<close>

definition expires_text :: "'t time_lib \<Rightarrow> 't Cookie \<Rightarrow> string" where
  "expires_text tm c = t_Format1123 tm (t_UTC tm (ck_Expires c))"

text \<open>The attributes of a cookie, in the order in which they are written.\<close>

definition cookie_attrs :: "'t time_lib \<Rightarrow> 't Cookie \<Rightarrow> string list" where
  "cookie_attrs tm c =
     (if ck_Path c \<noteq> [] then [''Path='' @ ck_Path c] else []) @
     (if ck_Domain c \<noteq> [] then [''Domain='' @ ck_Domain c] else []) @
     (if 0 < t_Unix tm (ck_Expires c) then [''Expires='' @ expires_text tm c] else []) @
     (if ck_MaxAge c \<noteq> 0 then [''Max-Age='' @ Itoa (max 0 (ck_MaxAge c))] else []) @
     (if ck_HttpOnly c then [''HttpOnly''] else []) @
     (if ck_Secure c then [''Secure''] else [])"

text \<open>
  A cookie that can be stored: its strings hold cookie bytes, and its time, where it has one, is written
  in a form that is read again.
\<close>

definition storable :: "'t time_lib \<Rightarrow> 't Cookie \<Rightarrow> bool" where
  "storable tm c \<longleftrightarrow> plain_cookie c \<and> list_all isCookieByte (ck_Path c) \<and> list_all isCookieByte (ck_Domain c) \<and>
     ck_MaxAge c < 2 ^ 63 \<and>
     (0 < t_Unix tm (ck_Expires c) \<longrightarrow>
        expires_text tm c \<noteq> [] \<and> isCookieByte (last (expires_text tm c)) \<and>
        list_all isCookieExpiresByte (expires_text tm c) \<and> t_Parse tm RFC1123 (expires_text tm c) \<noteq> None)"

lemma Itoa_0: "Itoa 0 = ''0''"
  by code_simp

lemma Cookie_String_line:
  assumes "storable tm c"
  shows "Cookie_String tm c = cookie_line (cookie_pair c) (cookie_attrs tm c)"
  using assms by (simp add: storable_def Cookie_String_def cookie_line_def cookie_pair_def cookie_attrs_def plain_cookie_def
      sanitizeName_token sanitizeValue_cookie expires_text_def Itoa_0)

lemma Itoa_digits: "0 \<le> i \<Longrightarrow> list_all (digit_ok 10) (Itoa i) \<and> Itoa i \<noteq> []"
  using FormatUint_digits [of 10 "nat i"] by (simp add: FormatInt_def)

lemma digit_cookie_byte: "digit_ok 10 c \<Longrightarrow> isCookieByte c"
  by (auto simp: digit_ok_10 isCookieByte_def)

lemma Itoa_leading: "0 < i \<Longrightarrow> Itoa i ! 0 \<noteq> CHR ''0''"
proof -
  have "0 < n \<Longrightarrow> FormatUint 10 n ! 0 \<noteq> CHR ''0''" for n
  proof (induction "10 :: nat" n rule: FormatUint.induct)
    case (1 n)
    show ?case
    proof (cases "n < 10")
      case True
      with 1 have "byte (digit_char n) \<noteq> byte (CHR ''0'')" by (simp add: digit_char_def)
      then have "digit_char n \<noteq> CHR ''0''" unfolding of_char_eq_iff .
      with True show ?thesis by (subst FormatUint.simps) simp
    next
      case False
      with 1 have "FormatUint 10 (n div 10) ! 0 \<noteq> CHR ''0''" by simp
      moreover have "FormatUint 10 (n div 10) \<noteq> []" using Itoa_digits [of "int (n div 10)"] by (simp add: FormatInt_def)
      ultimately show ?thesis using False by (subst FormatUint.simps) (simp add: nth_append)
    qed
  qed
  from this [of "nat i"] show "0 < i \<Longrightarrow> ?thesis" by (simp add: FormatInt_def)
qed

subsection \<open>One attribute at a time\<close>

lemma lower_attrs:
  "ToLower ul ''Path'' = ''path''" "ToLower ul ''Domain'' = ''domain''" "ToLower ul ''Expires'' = ''expires''"
  "ToLower ul ''Max-Age'' = ''max-age''" "ToLower ul ''HttpOnly'' = ''httponly''" "ToLower ul ''Secure'' = ''secure''"
  by code_simp+

lemma cut_attrs:
  "cut (CHR ''='') (''Path='' @ v) = Some (''Path'', v)" "cut (CHR ''='') (''Domain='' @ v) = Some (''Domain'', v)"
  "cut (CHR ''='') (''Expires='' @ v) = Some (''Expires'', v)" "cut (CHR ''='') (''Max-Age='' @ v) = Some (''Max-Age'', v)"
  "cut (CHR ''='') ''HttpOnly'' = None" "cut (CHR ''='') ''Secure'' = None"
  by (simp_all add: cut_def)

lemma parse_empty: "parseCookieValue [] = Some []"
  by (simp add: parseCookieValue_cookie)

lemma parse_expires: "list_all isCookieExpiresByte v \<Longrightarrow> parseCookieExpiresValue v = Some v"
  unfolding parseCookieExpiresValue_def
  by (rule parse_unquoted) (auto simp: isCookieExpiresByte_def isCookieByte_def dquote_def)

lemma set_Path: "list_all isCookieByte v \<Longrightarrow> set_attribute ul tm (''Path='' @ v) c = c\<lparr>ck_Path := v\<rparr>"
  and set_Domain: "list_all isCookieByte v \<Longrightarrow> set_attribute ul tm (''Domain='' @ v) c = c\<lparr>ck_Domain := v\<rparr>"
  and set_HttpOnly: "set_attribute ul tm ''HttpOnly'' c = c\<lparr>ck_HttpOnly := True\<rparr>"
  and set_Secure: "set_attribute ul tm ''Secure'' c = c\<lparr>ck_Secure := True\<rparr>"
  unfolding set_attribute_def cut_attrs
  by (simp_all add: lower_attrs parseCookieValue_cookie parse_empty)

lemma set_Expires:
  assumes "list_all isCookieExpiresByte v" and "t_Parse tm RFC1123 v = Some e"
  shows "set_attribute ul tm (''Expires='' @ v) c = c\<lparr>ck_RawExpires := v, ck_Expires := t_UTC tm e\<rparr>"
  unfolding set_attribute_def cut_attrs
  using assms by (simp add: lower_attrs parse_expires Let_def)

lemma set_MaxAge:
  assumes "0 \<le> i" and "i < 2 ^ 63"
  shows "set_attribute ul tm (''Max-Age='' @ Itoa i) c = c\<lparr>ck_MaxAge := (if i = 0 then -1 else i)\<rparr>"
proof -
  have "list_all isCookieByte (Itoa i)"
    using Itoa_digits [OF assms(1)] digit_cookie_byte by (auto simp: list_all_iff)
  then have p: "parseCookieValue (Itoa i) = Some (Itoa i)" by (rule parseCookieValue_cookie)
  have "Atoi (Itoa i) = Some i" using assms by (intro ParseInt_Itoa) auto
  then show ?thesis unfolding set_attribute_def cut_attrs
    using assms(1) Itoa_leading [of i] by (simp add: lower_attrs p)
qed

subsection \<open>All attributes\<close>

lemma set_attributes_solid:
  assumes "list_all solid as"
  shows "set_attributes ul tm (map ((#) CHR '' '') as) c = foldl (\<lambda>c a. set_attribute ul tm a c) c as"
  using assms
proof (induction as arbitrary: c)
  case (Cons a as)
  then show ?case by (simp add: TrimSpace_blank solid_trim Let_def) (simp add: solid_def)
qed simp

lemma attr_solid:
  assumes "list_all isToken n" and "n \<noteq> []" and "CHR '';'' \<notin> set v" and "v \<noteq> [] \<Longrightarrow> graphic (last v)"
  shows "solid (n @ CHR ''='' # v)"
proof -
  have g: "c \<in> set n \<Longrightarrow> graphic c \<and> c \<noteq> CHR '';''" for c
    using assms(1) isToken_graphic by (auto simp: list_all_iff)
  have "graphic (CHR ''='')" by (simp add: graphic_def)
  then show ?thesis using g assms(2-4) by (cases "v = []") (auto simp: solid_def)
qed

lemma cookie_byte_value: "list_all isCookieByte v \<Longrightarrow> CHR '';'' \<notin> set v \<and> (v \<noteq> [] \<longrightarrow> graphic (last v))"
  by (auto simp: list_all_iff dest: isCookieByte_graphic last_in_set)

lemma attr_names:
  "list_all isToken ''Path''" "list_all isToken ''Domain''" "list_all isToken ''Expires''" "list_all isToken ''Max-Age''"
  by (simp_all add: isToken_def isChar_def isCtl_def isSeparator_def)

lemma cookie_attrs_solid:
  assumes "storable tm c"
  shows "list_all solid (cookie_attrs tm c)"
proof -
  have v: "list_all isCookieByte (Itoa (max 0 (ck_MaxAge c)))"
    using Itoa_digits [of "max 0 (ck_MaxAge c)"] digit_cookie_byte by (auto simp: list_all_iff)
  have e: "CHR '';'' \<notin> set (expires_text tm c)" if "0 < t_Unix tm (ck_Expires c)"
  proof -
    have "\<not> isCookieExpiresByte (CHR '';'')" by (simp add: isCookieExpiresByte_def isCookieByte_def)
    then show ?thesis using assms that by (auto simp: storable_def list_all_iff)
  qed
  have "solid (''Path'' @ CHR ''='' # ck_Path c)" "solid (''Domain'' @ CHR ''='' # ck_Domain c)"
    using assms cookie_byte_value [of "ck_Path c"] cookie_byte_value [of "ck_Domain c"]
    by (intro attr_solid attr_names; simp add: storable_def)+
  moreover have "solid (''Max-Age'' @ CHR ''='' # Itoa (max 0 (ck_MaxAge c)))"
    using cookie_byte_value [OF v] by (intro attr_solid attr_names) auto
  moreover have "solid (''Expires'' @ CHR ''='' # expires_text tm c)" if "0 < t_Unix tm (ck_Expires c)"
    using assms e that isCookieByte_graphic by (intro attr_solid attr_names) (auto simp: storable_def)
  moreover have "solid ''HttpOnly''" "solid ''Secure''" by (simp_all add: solid_def graphic_def)
  ultimately show ?thesis by (auto simp: cookie_attrs_def)
qed

text \<open>What is read back of a stored cookie.\<close>

definition stored :: "'t time_lib \<Rightarrow> 't Cookie \<Rightarrow> 't Cookie" where
  "stored tm c =
     c\<lparr>ck_Raw := Cookie_String tm c, ck_Unparsed := [], ck_MaxAge := (if ck_MaxAge c < 0 then -1 else ck_MaxAge c),
       ck_Expires := (if 0 < t_Unix tm (ck_Expires c)
         then t_UTC tm (the (t_Parse tm RFC1123 (expires_text tm c))) else t_zero tm),
       ck_RawExpires := (if 0 < t_Unix tm (ck_Expires c) then expires_text tm c else [])\<rparr>"

lemma set_cookie_attrs:
  fixes c :: "'t Cookie"
  assumes "storable tm c"
  shows "foldl (\<lambda>c a. set_attribute ul tm a c) ((new_Cookie tm (ck_Name c) (ck_Value c))\<lparr>ck_Raw := Cookie_String tm c\<rparr>)
    (cookie_attrs tm c) = stored tm c"
proof -
  let ?f = "\<lambda>c a. set_attribute ul tm a c"
  let ?b = "(new_Cookie tm (ck_Name c) (ck_Value c))\<lparr>ck_Raw := Cookie_String tm c\<rparr>"
  define b1 b2 b3 b4 where b:
    "b1 = ?b\<lparr>ck_Path := ck_Path c\<rparr>" "b2 = b1\<lparr>ck_Domain := ck_Domain c\<rparr>"
    "b3 = b2\<lparr>ck_Expires := ck_Expires (stored tm c), ck_RawExpires := ck_RawExpires (stored tm c)\<rparr>"
    "b4 = b3\<lparr>ck_MaxAge := ck_MaxAge (stored tm c)\<rparr>"
  have s1: "foldl ?f ?b (if ck_Path c \<noteq> [] then [''Path='' @ ck_Path c] else []) = b1"
    using assms set_Path [of "ck_Path c" ul tm ?b] by (simp add: b storable_def new_Cookie_def)
  have s2: "foldl ?f b1 (if ck_Domain c \<noteq> [] then [''Domain='' @ ck_Domain c] else []) = b2"
    using assms set_Domain [of "ck_Domain c" ul tm b1] by (simp add: b storable_def new_Cookie_def)
  have s3: "foldl ?f b2 (if 0 < t_Unix tm (ck_Expires c) then [''Expires='' @ expires_text tm c] else []) = b3"
    using assms set_Expires [of "expires_text tm c" tm _ ul b2]
    by (auto simp: b storable_def new_Cookie_def stored_def)
  have s4: "foldl ?f b3 (if ck_MaxAge c \<noteq> 0 then [''Max-Age='' @ Itoa (max 0 (ck_MaxAge c))] else []) = b4"
    using assms set_MaxAge [of "max 0 (ck_MaxAge c)" ul tm b3]
    by (auto simp: b storable_def new_Cookie_def stored_def max_def)
  have s5: "foldl ?f b4 ((if ck_HttpOnly c then [''HttpOnly''] else []) @ (if ck_Secure c then [''Secure''] else [])) = stored tm c"
    by (simp add: set_HttpOnly set_Secure) (simp add: b new_Cookie_def stored_def)
  show ?thesis unfolding cookie_attrs_def foldl_append s1 s2 s3 s4 using s5 by simp
qed

text \<open>
  A cookie set on a response is read back with all its fields, after the cookies that were there: the
  name, the value, path, domain, the flags, the time of expiry through its text, and the age, where every
  negative age becomes -1.
\<close>

theorem set_cookie_round_trip:
  assumes "storable tm c"
  shows "readSetCookies ul tm (SetCookie tm h c) = readSetCookies ul tm h @ [stored tm c]"
proof -
  let ?p = "cookie_pair c" and ?as = "cookie_attrs tm c"
  have p: "plain_cookie c" and n: "list_all isToken (ck_Name c)" "list_all isCookieByte (ck_Value c)"
    using assms by (auto simp: storable_def plain_cookie_def)
  have sp: "solid ?p" using pair_solid [OF n] by (simp add: cookie_pair_def)
  note ss = cookie_attrs_solid [OF assms]
  have parts: "Split (CHR '';'') (TrimSpace (Cookie_String tm c)) = ?p # map ((#) CHR '' '') ?as"
    unfolding Cookie_String_line [OF assms] cookie_line_trim [OF sp ss]
    using sp by (intro cookie_line_Split ss) (simp add: solid_def)
  have "CHR ''='' \<notin> set (ck_Name c)" using n(1) isToken_graphic by (auto simp: list_all_iff)
  then have cut: "cut (CHR ''='') ?p = Some (ck_Name c, ck_Value c)" by (simp add: cookie_pair_def cut_at)
  have "readSetCookie ul tm (Cookie_String tm c) = Some (stored tm c)"
    using sp unfolding readSetCookie_def parts Let_def
    by (simp add: solid_trim [OF sp] cut isCookieNameValid_token n parseCookieValue_cookie set_attributes_solid ss
        set_cookie_attrs assms) (simp add: solid_def)
  then show ?thesis
    by (simp add: readSetCookies_def SetCookie_def Add_def header_values_def canonical_Set_Cookie gomap_simps
        Let_def List.map_filter_def split: option.splits)
qed

definition demo_clock :: "int time_lib" where
  "demo_clock = \<lparr>t_Parse = \<lambda>_ s. if s = ''Sun, 06 Nov 1994 08:49:37 GMT'' then Some 784111777 else None,
    t_Format1123 = \<lambda>t. if t = 784111777 then ''Sun, 06 Nov 1994 08:49:37 GMT'' else [],
    t_UTC = \<lambda>t. t, t_Unix = \<lambda>t. t, t_zero = -62135596800\<rparr>"

definition demo_cookie :: "int Cookie" where
  "demo_cookie = (new_Cookie demo_clock ''sid'' ''x1'')\<lparr>ck_Path := ''/'', ck_Expires := 784111777, ck_MaxAge := -5, ck_Secure := True\<rparr>"

theorem set_cookie_round_trip_witness:
  "readSetCookies (\<lambda>s. s) demo_clock (SetCookie demo_clock [] demo_cookie) = [stored demo_clock demo_cookie]"
proof -
  have "storable demo_clock demo_cookie"
    by (simp add: storable_def demo_clock_def demo_cookie_def new_Cookie_def plain_cookie_def expires_text_def
        isToken_def isChar_def isCtl_def isSeparator_def isCookieByte_def isCookieExpiresByte_def)
  from set_cookie_round_trip [OF this, of "\<lambda>s. s" "[]"] show ?thesis
    by (simp add: readSetCookies_def header_values_def List.map_filter_def)
qed

text \<open>The name check cuts runes to bytes: the letter U+0161, which is no token, passes as an a.\<close>

lemma cookie_name_cut: "isCookieNameValid [CHR 0xC5, CHR 0xA1] \<and> \<not> isToken CHR 0xC5"
proof -
  have "byte (char_of (353 :: nat)) = byte (CHR ''a'')" by (simp add: of_char_of)
  then have "char_of (353 :: nat) = CHR ''a''" unfolding of_char_eq_iff .
  then show ?thesis
    by (simp add: isCookieNameValid_def DecodeRune_def is_cont_def rune2_def isToken_def isChar_def isCtl_def isSeparator_def)
qed

end
