(* ===== verification/Mux.thy ===== *)
theory Mux
  imports Reply
begin

text \<open>
  The request multiplexer of \<open>http/server.go\<close> and the handlers that come with it: redirects, stripping
  a prefix, not found. The read-write lock of the table is released on every path, by \<open>defer\<close>, and is
  left out; \<open>url.Parse\<close> is the argument \<open>url_Parse\<close>, of which only the scheme is used.
\<close>

section \<open>Package path\<close>

text \<open>
  \<open>path.Clean\<close> on the elements between slashes: empty elements and dots go, two dots take the element
  before them along, or stay at the start of a path that is not rooted. The second argument is the
  reversed result.
\<close>

fun clean_elems :: "bool \<Rightarrow> string list \<Rightarrow> string list \<Rightarrow> string list" where
  "clean_elems rooted st [] = rev st"
| "clean_elems rooted st (e # es) =
     (if e = [] \<or> e = ''.'' then clean_elems rooted st es
      else if e = ''..'' then
        (case st of
           [] \<Rightarrow> clean_elems rooted (if rooted then [] else [''..'']) es
         | s # st' \<Rightarrow> clean_elems rooted (if s = ''..'' then ''..'' # st else st') es)
      else clean_elems rooted (e # st) es)"

definition Clean :: "string \<Rightarrow> string" where
  "Clean p =
     (if p = [] then ''.''
      else let rooted = (hd p = CHR ''/''); es = clean_elems rooted [] (Split (CHR ''/'') p)
           in if rooted then CHR ''/'' # Join (CHR ''/'') es
              else if es = [] then ''.'' else Join (CHR ''/'') es)"

text \<open>The directory part of \<open>path.Split\<close>: everything up to the last slash.\<close>

definition path_dir :: "string \<Rightarrow> string" where
  "path_dir p = rev (dropWhile (\<lambda>c. c \<noteq> CHR ''/'') (rev p))"

section \<open>Redirects\<close>

fun html_byte_escape :: "char \<Rightarrow> string" where
  "html_byte_escape c =
     (if c = CHR ''&'' then ''&amp;'' else if c = CHR ''<'' then ''&lt;'' else if c = CHR ''>'' then ''&gt;''
      else if c = CHR 0x22 then ''&#34;'' else if c = CHR 0x27 then ''&#39;'' else [c])"

definition htmlEscape :: "string \<Rightarrow> string" where
  "htmlEscape s = concat (map html_byte_escape s)"

text \<open>
  The new location; \<open>None\<close> is the panic on the last byte of an empty string, when the request path has
  no slash and the target is only a query.
\<close>

definition redirect_url :: "(string \<Rightarrow> URL option) \<Rightarrow> string \<Rightarrow> string \<Rightarrow> string option" where
  "redirect_url url_Parse path urlStr =
     (case url_Parse urlStr of
        None \<Rightarrow> Some urlStr
      | Some u \<Rightarrow>
          (let oldpath = (if path = [] then ''/'' else path)
           in if url_Scheme u \<noteq> [] then Some urlStr
              else (let url1 = (if urlStr = [] \<or> hd urlStr \<noteq> CHR ''/'' then path_dir oldpath @ urlStr else urlStr);
                        url2 = takeWhile (\<lambda>c. c \<noteq> CHR ''?'') url1; query = dropWhile (\<lambda>c. c \<noteq> CHR ''?'') url1
                    in if url2 = [] then None
                       else (let c = Clean url2
                             in Some ((if last url2 = CHR ''/'' \<and> last c \<noteq> CHR ''/'' then c @ ''/'' else c) @ query)))))"

definition Redirect ::
  "(string \<Rightarrow> URL option) \<Rightarrow> 'b Request \<Rightarrow> string \<Rightarrow> int \<Rightarrow> 's handler" where
  "Redirect url_Parse r urlStr code s =
     (case redirect_url url_Parse (url_Path (req_URL r)) urlStr of
        None \<Rightarrow> Panic s ''runtime error: index out of range''
      | Some u \<Rightarrow>
          Done s ([RW_Set ''Location'' u, RW_WriteHeader code] @
            (if req_Method r = ''GET''
             then [RW_Write (''<a href='' @ [CHR 0x22] @ htmlEscape u @ [CHR 0x22] @ ''>'' @ StatusText code @
                     ''</a>.\<newline>\<newline>'')]
             else [])))"

section \<open>Handlers\<close>

text \<open>The handlers of this file over the program's own handler functions \<open>'h\<close>.\<close>

datatype 'h Handler =
    HandlerFunc 'h | redirectHandler string int | NotFoundHandler | StripPrefix string "'h Handler"

fun ServeHTTP ::
  "(string \<Rightarrow> URL option) \<Rightarrow> ('h \<Rightarrow> 'b Request \<Rightarrow> 's handler) \<Rightarrow> 'h Handler \<Rightarrow> 'b Request \<Rightarrow> 's handler" where
  "ServeHTTP url_Parse f (HandlerFunc h) r s = f h r s"
| "ServeHTTP url_Parse f (redirectHandler url code) r s = Redirect url_Parse r url code s"
| "ServeHTTP url_Parse f NotFoundHandler r s = Done s NotFound"
| "ServeHTTP url_Parse f (StripPrefix pre h) r s =
     (let p = url_Path (req_URL r)
      in if \<not> HasPrefix p pre then Done s NotFound
         else ServeHTTP url_Parse f h (r\<lparr>req_URL := (req_URL r)\<lparr>url_Path := drop (length pre) p\<rparr>\<rparr>) s)"

section \<open>The table\<close>

record 'h muxEntry =
  me_explicit :: bool
  me_h :: "'h Handler"

type_synonym 'h ServeMux = "(string, 'h muxEntry) gomap"

definition NewServeMux :: "'h ServeMux" where
  "NewServeMux = []"

definition pathMatch :: "string \<Rightarrow> string \<Rightarrow> bool" where
  "pathMatch pattern path \<longleftrightarrow>
     (if length pattern = 0 then False
      else let n = length pattern
           in if pattern ! (n - 1) \<noteq> CHR ''/'' then pattern = path
              else n \<le> length path \<and> take n path = pattern)"

definition cleanPath :: "string \<Rightarrow> string" where
  "cleanPath p =
     (if p = [] then ''/''
      else let p' = (if hd p \<noteq> CHR ''/'' then ''/'' @ p else p); np = Clean p'
           in if last p' = CHR ''/'' \<and> np \<noteq> ''/'' then np @ ''/'' else np)"

text \<open>The loop of \<open>match\<close> over the table in the order the runtime visits it.\<close>

fun match_loop :: "'h ServeMux \<Rightarrow> string \<Rightarrow> 'h Handler option \<Rightarrow> nat \<Rightarrow> 'h Handler option" where
  "match_loop [] path h n = h"
| "match_loop ((k, v) # m) path h n =
     (if \<not> pathMatch k path then match_loop m path h n
      else if h = None \<or> n < length k then match_loop m path (Some (me_h v)) (length k)
      else match_loop m path h n)"

definition mux_match :: "'h ServeMux \<Rightarrow> string \<Rightarrow> 'h Handler option" where
  "mux_match m path = match_loop m path None 0"

text \<open>\<open>m1\<close> and \<open>m2\<close> are the table in the orders in which the two searches visit it.\<close>

definition mux_handler :: "'h ServeMux \<Rightarrow> 'h ServeMux \<Rightarrow> 'b Request \<Rightarrow> 'h Handler" where
  "mux_handler m1 m2 r =
     (case mux_match m1 (req_Host r @ url_Path (req_URL r)) of
        Some h \<Rightarrow> h
      | None \<Rightarrow> (case mux_match m2 (url_Path (req_URL r)) of Some h \<Rightarrow> h | None \<Rightarrow> NotFoundHandler))"

definition mux_ServeHTTP ::
  "(string \<Rightarrow> URL option) \<Rightarrow> ('h \<Rightarrow> 'b Request \<Rightarrow> 's handler) \<Rightarrow> 'h ServeMux \<Rightarrow> 'h ServeMux \<Rightarrow> 'b Request \<Rightarrow> 's handler" where
  "mux_ServeHTTP url_Parse f m1 m2 r s =
     (let p = cleanPath (url_Path (req_URL r))
      in if req_Method r \<noteq> ''CONNECT'' \<and> p \<noteq> url_Path (req_URL r)
         then Done s [RW_Set ''Location'' p, RW_WriteHeader StatusMovedPermanently]
         else ServeHTTP url_Parse f (mux_handler m1 m2 r) r s)"

text \<open>Registration; a handler that is not there is \<open>None\<close>.\<close>

definition is_explicit :: "'h ServeMux \<Rightarrow> string \<Rightarrow> bool" where
  "is_explicit m k \<longleftrightarrow> (case gomap_get m k of None \<Rightarrow> False | Some e \<Rightarrow> me_explicit e)"

definition mux_Handle :: "string \<Rightarrow> 'h Handler option \<Rightarrow> 'h ServeMux \<Rightarrow> ('h ServeMux, unit) outcome" where
  "mux_Handle pattern handler m =
     (if pattern = [] then Panic m (''http: invalid pattern '' @ pattern)
      else case handler of
             None \<Rightarrow> Panic m ''http: nil handler''
           | Some h \<Rightarrow>
               if is_explicit m pattern then Panic m (''http: multiple registrations for '' @ pattern)
               else (let m1 = gomap_set pattern \<lparr>me_explicit = True, me_h = h\<rparr> m;
                         n = length pattern; stem = take (n - 1) pattern
                     in Done (if 0 < n \<and> pattern ! (n - 1) = CHR ''/'' \<and> \<not> is_explicit m1 stem
                              then gomap_set stem \<lparr>me_explicit = False,
                                     me_h = redirectHandler pattern StatusMovedPermanently\<rparr> m1
                              else m1) ()))"

definition mux_HandleFunc :: "string \<Rightarrow> 'h \<Rightarrow> 'h ServeMux \<Rightarrow> ('h ServeMux, unit) outcome" where
  "mux_HandleFunc pattern h m = mux_Handle pattern (Some (HandlerFunc h)) m"

section \<open>Clean paths\<close>

text \<open>An element that cleaning leaves alone.\<close>

definition plain_elem :: "string \<Rightarrow> bool" where
  "plain_elem e \<longleftrightarrow> e \<noteq> [] \<and> e \<noteq> ''.'' \<and> e \<noteq> ''..'' \<and> CHR ''/'' \<notin> set e"

lemma Split_parts: "e \<in> set (Split c s) \<Longrightarrow> c \<notin> set e"
  by (induction s arbitrary: e) (auto split: if_splits list.splits)

lemma Split_Join: "list_all (\<lambda>e. c \<notin> set e) es \<Longrightarrow> es \<noteq> [] \<Longrightarrow> Split c (Join c es) = es"
  by (induction c es rule: Join.induct) (auto simp: Split_sep)

lemma clean_elems_plain:
  assumes "list_all plain_elem st" and "list_all (\<lambda>e. CHR ''/'' \<notin> set e) es"
  shows "list_all plain_elem (clean_elems True st es)"
  using assms
proof (induction True st es rule: clean_elems.induct)
  case (2 st e es)
  then show ?case by (auto simp: plain_elem_def split: list.splits)
qed (auto simp: list_all_iff)

lemma clean_elems_id: "list_all plain_elem es \<Longrightarrow> clean_elems True st es = rev st @ es"
  by (induction es arbitrary: st) (auto simp: plain_elem_def)

lemma clean_elems_Nil: "clean_elems True st (es @ [[]]) = clean_elems True st es"
  by (induction True st es rule: clean_elems.induct) (auto split: list.splits)

text \<open>The path of a list of elements, with or without a slash at the end.\<close>

definition root_path :: "string list \<Rightarrow> bool \<Rightarrow> string" where
  "root_path es trailing =
     CHR ''/'' # Join (CHR ''/'') es @ (if trailing \<and> es \<noteq> [] then ''/'' else [])"

lemma Clean_root:
  assumes "hd p = CHR ''/''" and "p \<noteq> []"
  shows "\<exists>es. list_all plain_elem es \<and> Clean p = CHR ''/'' # Join (CHR ''/'') es"
proof -
  have "list_all plain_elem (clean_elems True [] (Split (CHR ''/'') p))"
    by (intro clean_elems_plain) (auto simp: list_all_iff dest: Split_parts)
  then show ?thesis using assms by (auto simp: Clean_def Let_def)
qed

lemma cleanPath_root_path: "\<exists>es t. list_all plain_elem es \<and> cleanPath p = root_path es t"
proof (cases "p = []")
  case True
  then have "list_all plain_elem [] \<and> cleanPath p = root_path [] False" by (simp add: cleanPath_def root_path_def)
  then show ?thesis by blast
next
  case False
  let ?q = "if hd p \<noteq> CHR ''/'' then ''/'' @ p else p"
  from False have "hd ?q = CHR ''/''" "?q \<noteq> []" by auto
  from Clean_root [OF this] obtain es
    where es: "list_all plain_elem es" "Clean ?q = CHR ''/'' # Join (CHR ''/'') es" by blast
  have "cleanPath p = root_path es (last ?q = CHR ''/'' \<and> Clean ?q \<noteq> ''/'')"
    using False es(2) by (auto simp: cleanPath_def root_path_def Let_def)
  with es(1) show ?thesis by blast
qed

lemma Join_last: "list_all plain_elem es \<Longrightarrow> es \<noteq> [] \<Longrightarrow> Join (CHR ''/'') es \<noteq> [] \<and> last (Join (CHR ''/'') es) \<noteq> CHR ''/''"
proof (induction "CHR ''/''" es rule: Join.induct)
  case (2 e)
  then have "e \<noteq> []" "CHR ''/'' \<notin> set e" by (auto simp: plain_elem_def)
  then show ?case using last_in_set [of e] by (metis Join.simps(2))
qed auto

lemma Clean_root_path:
  assumes "list_all plain_elem es"
  shows "Clean (root_path es t) = root_path es False"
proof -
  have sep: "list_all (\<lambda>e. CHR ''/'' \<notin> set e) (es @ [[]])" using assms by (auto simp: list_all_iff plain_elem_def)
  have j: "Join (CHR ''/'') es @ ''/'' = Join (CHR ''/'') (es @ [[]])" if "es \<noteq> []"
    using that by (induction "CHR ''/''" es rule: Join.induct) auto
  have "Split (CHR ''/'') (root_path es t) = [] # Split (CHR ''/'') (Join (CHR ''/'') es @ (if t \<and> es \<noteq> [] then ''/'' else []))"
    by (simp add: root_path_def)
  moreover have "clean_elems True [] (Split (CHR ''/'') (Join (CHR ''/'') es @ (if t \<and> es \<noteq> [] then ''/'' else []))) = es"
    using assms sep j Split_Join [of "CHR ''/''" "es @ [[]]"] Split_Join [of "CHR ''/''" es]
    by (cases "es = []") (auto simp: clean_elems_Nil clean_elems_id)
  ultimately show ?thesis by (simp add: Clean_def root_path_def Let_def)
qed

lemma cleanPath_fixed:
  assumes "list_all plain_elem es"
  shows "cleanPath (root_path es t) = root_path es t"
proof -
  have "last (root_path es t) = CHR ''/'' \<longleftrightarrow> es = [] \<or> t"
    using Join_last [OF assms] by (auto simp: root_path_def)
  moreover have "root_path es False = ''/'' \<longleftrightarrow> es = []"
    using Join_last [OF assms] by (auto simp: root_path_def)
  moreover have "hd (root_path es t) = CHR ''/''" "root_path es t \<noteq> []" by (auto simp: root_path_def)
  ultimately show ?thesis
    using Clean_root_path [OF assms, of t] by (auto simp: cleanPath_def Let_def) (auto simp: root_path_def)
qed

text \<open>
  The path to which the multiplexer redirects is canonical: it starts with a slash and its elements
  are neither empty nor dots; and it is reached in one step, since a request for it is passed on to
  its handler and not redirected again.
\<close>

theorem redirected_once:
  assumes "req_Method r \<noteq> ''CONNECT''"
  defines "p \<equiv> cleanPath (url_Path (req_URL r))"
  defines "r' \<equiv> r\<lparr>req_URL := (req_URL r)\<lparr>url_Path := p\<rparr>\<rparr>"
  shows "(\<exists>es t. p = root_path es t \<and> list_all plain_elem es) \<and>
    mux_ServeHTTP url_Parse f m1 m2 r s =
      (if url_Path (req_URL r) = p then ServeHTTP url_Parse f (mux_handler m1 m2 r) r s
       else Done s [RW_Set ''Location'' p, RW_WriteHeader 301]) \<and>
    mux_ServeHTTP url_Parse f m1 m2 r' s = ServeHTTP url_Parse f (mux_handler m1 m2 r') r' s"
proof -
  obtain es t where "list_all plain_elem es" "p = root_path es t"
    using cleanPath_root_path [of "url_Path (req_URL r)"] by (auto simp: p_def)
  moreover from this have "cleanPath p = p" by (simp add: cleanPath_fixed)
  then have "mux_ServeHTTP url_Parse f m1 m2 r' s = ServeHTTP url_Parse f (mux_handler m1 m2 r') r' s"
    by (simp add: mux_ServeHTTP_def r'_def)
  moreover have "mux_ServeHTTP url_Parse f m1 m2 r s =
      (if url_Path (req_URL r) = p then ServeHTTP url_Parse f (mux_handler m1 m2 r) r s
       else Done s [RW_Set ''Location'' p, RW_WriteHeader 301])"
    using assms(1) by (simp add: mux_ServeHTTP_def p_def Let_def)
  ultimately show ?thesis by blast
qed

definition sample_request :: "string \<Rightarrow> unit Request" where
  "sample_request p =
     \<lparr>req_Method = ''GET'',
      req_URL = \<lparr>url_Scheme = [], url_Opaque = [], url_Host = [], url_Path = p, url_RawQuery = []\<rparr>,
      req_Proto = ''HTTP/1.1'', req_ProtoMajor = 1, req_ProtoMinor = 1, req_Header = [], req_Body = None,
      req_ContentLength = 0, req_TransferEncoding = [], req_Close = False, req_Host = ''radio'', req_Trailer = None,
      req_RemoteAddr = [], req_RequestURI = p\<rparr>"

theorem redirected_once_witness:
  "mux_ServeHTTP (\<lambda>_. None) (\<lambda>h r s. Done s NotFound) [] [] (sample_request ''/a/../b//'') () =
    Done () [RW_Set ''Location'' ''/b/'', RW_WriteHeader 301]"
proof -
  have c: "cleanPath ''/a/../b//'' = ''/b/''" by code_simp
  have "req_Method (sample_request ''/a/../b//'') \<noteq> ''CONNECT''" by (simp add: sample_request_def)
  from conjunct1 [OF conjunct2 [OF redirected_once [OF this, of "\<lambda>_. None" "\<lambda>h r s. Done s NotFound" "[]" "[]" "()"]]]
  show ?thesis by (simp add: sample_request_def c)
qed

section \<open>The longest pattern\<close>

text \<open>Two patterns of one length that match a path are the same pattern.\<close>

lemma pathMatch_take: "pathMatch k p \<Longrightarrow> k = take (length k) p"
  by (simp add: pathMatch_def Let_def split: if_splits)

lemma pathMatch_inj: "pathMatch k p \<Longrightarrow> pathMatch k' p \<Longrightarrow> length k = length k' \<Longrightarrow> k = k'"
  by (metis pathMatch_take)

text \<open>No pattern of the table that matches is longer than \<open>k\<close>.\<close>

definition longest :: "'h ServeMux \<Rightarrow> string \<Rightarrow> string \<Rightarrow> bool" where
  "longest m path k \<longleftrightarrow> pathMatch k path \<and> (\<forall>k'\<in>set (map fst m). pathMatch k' path \<longrightarrow> length k' \<le> length k)"

lemma match_loop_from:
  assumes "pathMatch k0 path"
  shows "\<exists>k v. (k, v) \<in> set ((k0, v0) # m) \<and> match_loop m path (Some (me_h v0)) (length k0) = Some (me_h v) \<and>
    longest ((k0, v0) # m) path k"
  using assms
proof (induction m arbitrary: k0 v0)
  case Nil
  then show ?case by (simp add: longest_def)
next
  case (Cons e m)
  obtain k1 v1 where e: "e = (k1, v1)" by (cases e)
  show ?case
  proof (cases "pathMatch k1 path \<and> length k0 < length k1")
    case True
    with Cons.IH [of k1 v1] obtain k v where "(k, v) \<in> set ((k1, v1) # m)"
        "match_loop m path (Some (me_h v1)) (length k1) = Some (me_h v)" "longest ((k1, v1) # m) path k"
      by blast
    with True show ?thesis by (intro exI [of _ k] exI [of _ v]) (auto simp: e longest_def)
  next
    case False
    with Cons.IH [of k0 v0] Cons.prems obtain k v where "(k, v) \<in> set ((k0, v0) # m)"
        "match_loop m path (Some (me_h v0)) (length k0) = Some (me_h v)" "longest ((k0, v0) # m) path k"
      by blast
    with False Cons.prems show ?thesis by (intro exI [of _ k] exI [of _ v]) (auto simp: e longest_def)
  qed
qed

lemma mux_match_some:
  "mux_match m path = None \<and> (\<forall>k\<in>set (map fst m). \<not> pathMatch k path) \<or>
   (\<exists>k v. (k, v) \<in> set m \<and> mux_match m path = Some (me_h v) \<and> longest m path k)"
proof (induction m)
  case (Cons e m)
  obtain k v where e: "e = (k, v)" by (cases e)
  show ?case
  proof (cases "pathMatch k path")
    case True
    with match_loop_from [OF True, of v m] show ?thesis by (auto simp: e mux_match_def)
  next
    case False
    with Cons.IH show ?thesis by (auto simp: e mux_match_def longest_def)
  qed
qed (simp add: mux_match_def)

text \<open>
  C34: Whatever order the runtime visits the table in, the search finds the handler of the one longest
  pattern that matches the path, and finds none only if no pattern matches.
\<close>

theorem longest_pattern_wins:
  assumes "gomap_wf m" and "mset m' = mset m"
  shows "mux_match m' path = Some h \<longleftrightarrow> (\<exists>k e. gomap_get m k = Some e \<and> me_h e = h \<and> longest m path k)"
proof -
  have S: "set m' = set m" using assms(2) by (rule mset_eq_setD)
  then have L: "longest m' path k = longest m path k" for k by (simp add: longest_def)
  have one: "e = e'" if "gomap_get m k = Some e" "longest m path k" "gomap_get m k' = Some e'" "longest m path k'" for k k' e e'
  proof -
    have "k \<in> set (map fst m)" "k' \<in> set (map fst m)" using that by (force dest: map_of_SomeD)+
    then have "length k = length k'" using that(2,4) by (auto simp: longest_def intro!: le_antisym)
    then have "k = k'" using that(2,4) by (auto simp: longest_def intro: pathMatch_inj)
    with that show ?thesis by simp
  qed
  from mux_match_some [of m' path] show ?thesis
  proof (elim disjE exE conjE)
    assume "mux_match m' path = None" and "\<forall>k\<in>set (map fst m'). \<not> pathMatch k path"
    then show ?thesis using S by (force simp: longest_def dest: map_of_SomeD)
  next
    fix k v
    assume "(k, v) \<in> set m'" and r: "mux_match m' path = Some (me_h v)" and l: "longest m' path k"
    then have "gomap_get m k = Some v" using S assms(1) by (simp add: gomap_get_in)
    with r l one show ?thesis by (auto simp: L)
  qed
qed

definition sample_mux :: "nat ServeMux" where
  "sample_mux = [(''/'', \<lparr>me_explicit = True, me_h = HandlerFunc 1\<rparr>), (''/img/'', \<lparr>me_explicit = True, me_h = HandlerFunc 2\<rparr>)]"

theorem longest_pattern_wins_witness: "mux_match (rev sample_mux) ''/img/a'' = Some (HandlerFunc 2)"
proof -
  have "\<exists>k e. gomap_get sample_mux k = Some e \<and> me_h e = HandlerFunc 2 \<and> longest sample_mux ''/img/a'' k"
    by (rule exI [of _ "''/img/''"]) (simp add: sample_mux_def longest_def pathMatch_def Let_def)
  then show ?thesis
    using longest_pattern_wins [of sample_mux "rev sample_mux" "''/img/a''" "HandlerFunc 2"]
    by (simp add: gomap_wf_def sample_mux_def)
qed

section \<open>Registration\<close>

text \<open>Registering keeps the table well formed and never replaces an explicit entry.\<close>

lemma mux_Handle_keeps:
  assumes "gomap_wf m" and "mux_Handle pattern h m = Done m' ()"
  shows "gomap_wf m' \<and> is_explicit m' pattern \<and> (\<forall>k. is_explicit m k \<longrightarrow> gomap_get m' k = gomap_get m k)"
proof -
  have "pattern = take (length pattern - Suc 0) pattern \<longleftrightarrow> pattern = []"
    by (cases pattern rule: rev_cases) auto
  then show ?thesis using assms
    by (auto simp: mux_Handle_def is_explicit_def gomap_simps Let_def split: if_splits option.splits)
qed

lemma mux_Handle_subtree:
  assumes "mux_Handle (d @ ''/'') (Some h) m = Done m' ()" and "\<not> is_explicit m d"
  shows "gomap_get m' (d @ ''/'') = Some \<lparr>me_explicit = True, me_h = h\<rparr>"
    and "gomap_get m' d = Some \<lparr>me_explicit = False, me_h = redirectHandler (d @ ''/'') 301\<rparr>"
  using assms by (auto simp: mux_Handle_def is_explicit_def gomap_simps Let_def split: if_splits option.splits)

end
