(* ===== verification/Routes.thy ===== *)
theory Routes
  imports Mux Demo
begin

text \<open>
  \<open>Initialize\<close> of \<open>server/http.go\<close>: the multiplexer in front of the web handlers, with one pattern.
\<close>

definition server_mux :: "unit ServeMux" where
  "server_mux = out_state (mux_HandleFunc ''/'' () NewServeMux)"

definition serve_request ::
  "(string \<Rightarrow> URL option) \<Rightarrow> web_env \<Rightarrow> unit ServeMux \<Rightarrow> unit ServeMux \<Rightarrow> 'b Request \<Rightarrow> 'l world handler" where
  "serve_request url_Parse W m1 m2 r = mux_ServeHTTP url_Parse (\<lambda>_. mainHandler W) m1 m2 r"

lemma server_mux_table: "server_mux =
  [(''/'', \<lparr>me_explicit = True, me_h = HandlerFunc ()\<rparr>), ([], \<lparr>me_explicit = False, me_h = redirectHandler ''/'' 301\<rparr>)]"
  by (simp add: server_mux_def mux_HandleFunc_def mux_Handle_def NewServeMux_def is_explicit_def)

lemma server_mux_match:
  assumes "mset m = mset server_mux"
  shows "mux_match m p = (if p \<noteq> [] \<and> hd p = CHR ''/'' then Some (HandlerFunc ()) else None)"
proof -
  have S: "set m = set server_mux" using assms by (rule mset_eq_setD)
  have pm: "pathMatch ''/'' p \<longleftrightarrow> p \<noteq> [] \<and> hd p = CHR ''/''" "\<not> pathMatch [] p"
    by (cases p; simp add: pathMatch_def Let_def; fail)+
  from mux_match_some [of m p] show ?thesis
    by (cases "pathMatch ''/'' p") (auto simp: S server_mux_table pm(2) longest_def simp flip: pm(1))
qed

text \<open>
  Every request that is not a CONNECT reaches the main handler of the web front end if its path is
  canonical, whatever its host, and is redirected to the canonical path otherwise; the not-found
  handler of the multiplexer is never used.
\<close>

theorem server_routes:
  assumes "mset m1 = mset server_mux" and "mset m2 = mset server_mux" and "req_Method r \<noteq> ''CONNECT''"
  shows "serve_request url_Parse W m1 m2 r w =
    (if cleanPath (url_Path (req_URL r)) = url_Path (req_URL r) then mainHandler W r w
     else Done w [RW_Set ''Location'' (cleanPath (url_Path (req_URL r))), RW_WriteHeader 301])"
proof (cases "cleanPath (url_Path (req_URL r)) = url_Path (req_URL r)")
  case True
  obtain es t where "url_Path (req_URL r) = root_path es t"
    using cleanPath_root_path [of "url_Path (req_URL r)"] True by auto
  then have "url_Path (req_URL r) \<noteq> [] \<and> hd (url_Path (req_URL r)) = CHR ''/''" by (simp add: root_path_def)
  then have "mux_handler m1 m2 r = HandlerFunc ()"
    by (simp add: mux_handler_def server_mux_match [OF assms(1)] server_mux_match [OF assms(2)])
  with True assms(3) show ?thesis by (simp add: serve_request_def mux_ServeHTTP_def)
next
  case False
  with assms(3) show ?thesis by (simp add: serve_request_def mux_ServeHTTP_def Let_def)
qed

theorem server_routes_witness:
  "serve_request (\<lambda>_. None) demo_web server_mux (rev server_mux) demo_request demo_live = mainHandler demo_web demo_request demo_live"
proof -
  have p: "url_Path (req_URL demo_request) = ''/main''" "req_Method demo_request \<noteq> ''CONNECT''"
    by (simp_all add: demo_request_def SetBasicAuth_def Let_def)
  have "cleanPath ''/main'' = ''/main''" by code_simp
  with server_routes [of server_mux "rev server_mux" demo_request "\<lambda>_. None" demo_web demo_live] p
  show ?thesis by simp
qed

end
