(* ===== verification/Sniff.thy ===== *)
theory Sniff
  imports Gostd
begin

unbundle bit_operations_syntax

text \<open>
  \<open>http/sniff.go\<close>: the content type of a body from its first bytes. The interface \<open>sniffSig\<close> with its
  five implementations is a datatype, its method \<open>match\<close> one function per constructor, and the empty
  string stands for no match, as in the source.
\<close>

definition sniffLen :: nat where
  "sniffLen = 512"

definition isWS :: "char \<Rightarrow> bool" where
  "isWS b \<longleftrightarrow> b \<in> set [CHR 0x09, CHR 0x0A, CHR 0x0C, CHR 0x0D, CHR '' '']"

section \<open>Signatures\<close>

datatype sniffSig =
    exactSig (exact_sig: string) (exact_ct: string)
  | maskedSig (masked_mask: string) (masked_pat: string) (masked_skipWS: bool) (masked_ct: string)
  | htmlSig string
  | mp4Sig
  | textSig

definition exact_match :: "string \<Rightarrow> string \<Rightarrow> string \<Rightarrow> string" where
  "exact_match sig ct data = (if HasPrefix data sig then ct else [])"

text \<open>The loop over a mask, with the pattern and the data beside it.\<close>

fun masked_loop :: "string \<Rightarrow> string \<Rightarrow> string \<Rightarrow> bool" where
  "masked_loop [] pat data = True"
| "masked_loop (m # ms) (p # pat) (d # data) = (byte d AND byte m = byte p \<and> masked_loop ms pat data)"
| "masked_loop ms pat data = False"

definition masked_match :: "string \<Rightarrow> string \<Rightarrow> bool \<Rightarrow> string \<Rightarrow> string \<Rightarrow> nat \<Rightarrow> string" where
  "masked_match ms pat skipWS ct data firstNonWS =
     (let data' = (if skipWS then drop firstNonWS data else data)
      in if length data' < length ms then []
         else if masked_loop ms pat data' then ct else [])"

text \<open>One byte against one byte of the tag: letters of the tag clear bit 5 of the data.\<close>

definition html_byte :: "char \<Rightarrow> char \<Rightarrow> bool" where
  "html_byte b d \<longleftrightarrow> byte b = (if 65 \<le> byte b \<and> byte b \<le> 90 then byte d AND 0xDF else byte d)"

definition html_match :: "string \<Rightarrow> string \<Rightarrow> nat \<Rightarrow> string" where
  "html_match h data firstNonWS =
     (let data' = drop firstNonWS data
      in if length data' < length h + 1 then []
         else if \<not> list_all2 html_byte h (take (length h) data') then []
         else if data' ! length h \<noteq> CHR '' '' \<and> data' ! length h \<noteq> CHR ''>'' then []
         else ''text/html; charset=utf-8'')"

definition BigEndian_Uint32 :: "string \<Rightarrow> nat" where
  "BigEndian_Uint32 d = foldl (\<lambda>n c. n * 256 + byte c) 0 (take 4 d)"

definition mp4_brands :: "string list" where
  "mp4_brands = [''mp4'', ''iso'', ''M4V'', ''M4P'', ''M4B'']"

text \<open>The loop over the brands of the box, from offset \<open>st\<close>; offset 12 is the minor version.\<close>

function mp4_loop :: "nat \<Rightarrow> nat \<Rightarrow> string \<Rightarrow> string" where
  "mp4_loop st boxSize data =
     (if st < boxSize then
        (if st \<noteq> 12 \<and> take 3 (drop st data) \<in> set mp4_brands then ''video/mp4''
         else mp4_loop (st + 4) boxSize data)
      else [])"
  by pat_completeness auto
termination mp4_loop
  by (relation "measure (\<lambda>(st, boxSize, data). boxSize - st)") auto

declare mp4_loop.simps [simp del]

definition mp4_match :: "string \<Rightarrow> string" where
  "mp4_match data =
     (if length data < 8 then []
      else let boxSize = BigEndian_Uint32 data
           in if boxSize mod 4 \<noteq> 0 \<or> length data < boxSize then []
              else if take 4 (drop 4 data) \<noteq> ''ftyp'' then []
              else mp4_loop 8 boxSize data)"

definition binary_byte :: "char \<Rightarrow> bool" where
  "binary_byte b \<longleftrightarrow>
     byte b \<le> 0x08 \<or> byte b = 0x0B \<or> 0x0E \<le> byte b \<and> byte b \<le> 0x1A \<or> 0x1C \<le> byte b \<and> byte b \<le> 0x1F"

definition text_match :: "string \<Rightarrow> nat \<Rightarrow> string" where
  "text_match data firstNonWS =
     (if list_ex binary_byte (drop firstNonWS data) then [] else ''text/plain; charset=utf-8'')"

fun sig_match :: "sniffSig \<Rightarrow> string \<Rightarrow> nat \<Rightarrow> string" where
  "sig_match (exactSig sig ct) data firstNonWS = exact_match sig ct data"
| "sig_match (maskedSig ms pat skipWS ct) data firstNonWS = masked_match ms pat skipWS ct data firstNonWS"
| "sig_match (htmlSig h) data firstNonWS = html_match h data firstNonWS"
| "sig_match mp4Sig data firstNonWS = mp4_match data"
| "sig_match textSig data firstNonWS = text_match data firstNonWS"

section \<open>The table\<close>

definition html_tags :: "string list" where
  "html_tags =
    [''<!DOCTYPE HTML'', ''<HTML'', ''<HEAD'', ''<SCRIPT'', ''<IFRAME'', ''<H1'', ''<DIV'', ''<FONT'',
     ''<TABLE'', ''<A'', ''<STYLE'', ''<TITLE'', ''<B'', ''<BODY'', ''<BR'', ''<P'', ''<!--'']"

definition other_signatures :: "sniffSig list" where
  "other_signatures =
    [maskedSig (replicate 5 CHR 0xFF) ''<?xml'' True ''text/xml; charset=utf-8'',
     exactSig ''%PDF-'' ''application/pdf'',
     exactSig ''%!PS-Adobe-'' ''application/postscript'',
     maskedSig [CHR 0xFF, CHR 0xFF, CHR 0x00, CHR 0x00] [CHR 0xFE, CHR 0xFF, CHR 0x00, CHR 0x00] False
       ''text/plain; charset=utf-16be'',
     maskedSig [CHR 0xFF, CHR 0xFF, CHR 0x00, CHR 0x00] [CHR 0xFF, CHR 0xFE, CHR 0x00, CHR 0x00] False
       ''text/plain; charset=utf-16le'',
     maskedSig [CHR 0xFF, CHR 0xFF, CHR 0xFF, CHR 0x00] [CHR 0xEF, CHR 0xBB, CHR 0xBF, CHR 0x00] False
       ''text/plain; charset=utf-8'',
     exactSig ''GIF87a'' ''image/gif'',
     exactSig ''GIF89a'' ''image/gif'',
     exactSig [CHR 0x89, CHR 0x50, CHR 0x4E, CHR 0x47, CHR 0x0D, CHR 0x0A, CHR 0x1A, CHR 0x0A] ''image/png'',
     exactSig [CHR 0xFF, CHR 0xD8, CHR 0xFF] ''image/jpeg'',
     exactSig ''BM'' ''image/bmp'',
     maskedSig (replicate 4 CHR 0xFF @ replicate 4 CHR 0x00 @ replicate 6 CHR 0xFF)
       (''RIFF'' @ replicate 4 CHR 0x00 @ ''WEBPVP'') False ''image/webp'',
     exactSig [CHR 0x00, CHR 0x00, CHR 0x01, CHR 0x00] ''image/vnd.microsoft.icon'',
     exactSig [CHR 0x4F, CHR 0x67, CHR 0x67, CHR 0x53, CHR 0x00] ''application/ogg'',
     maskedSig (replicate 4 CHR 0xFF @ replicate 4 CHR 0x00 @ replicate 4 CHR 0xFF)
       (''RIFF'' @ replicate 4 CHR 0x00 @ ''WAVE'') False ''audio/wave'',
     exactSig [CHR 0x1A, CHR 0x45, CHR 0xDF, CHR 0xA3] ''video/webm'',
     exactSig [CHR 0x52, CHR 0x61, CHR 0x72, CHR 0x20, CHR 0x1A, CHR 0x07, CHR 0x00]
       ''application/x-rar-compressed'',
     exactSig [CHR 0x50, CHR 0x4B, CHR 0x03, CHR 0x04] ''application/zip'',
     exactSig [CHR 0x1F, CHR 0x8B, CHR 0x08] ''application/x-gzip'']"

definition sniffSignatures :: "sniffSig list" where
  "sniffSignatures = map htmlSig html_tags @ other_signatures @ [textSig]"

section \<open>Detection\<close>

fun first_match :: "sniffSig list \<Rightarrow> string \<Rightarrow> nat \<Rightarrow> string" where
  "first_match [] data firstNonWS = ''application/octet-stream''"
| "first_match (sig # sigs) data firstNonWS =
     (let ct = sig_match sig data firstNonWS in if ct \<noteq> [] then ct else first_match sigs data firstNonWS)"

definition DetectContentType :: "string \<Rightarrow> string" where
  "DetectContentType data =
     (let data' = (if sniffLen < length data then take sniffLen data else data);
          firstNonWS = length (takeWhile isWS data')
      in first_match sniffSignatures data' firstNonWS)"

section \<open>What the table guarantees\<close>

text \<open>The content type a signature stands for.\<close>

fun sig_type :: "sniffSig \<Rightarrow> string" where
  "sig_type (exactSig sig ct) = ct"
| "sig_type (maskedSig ms pat skipWS ct) = ct"
| "sig_type (htmlSig h) = ''text/html; charset=utf-8''"
| "sig_type mp4Sig = ''video/mp4''"
| "sig_type textSig = ''text/plain; charset=utf-8''"

definition content_types :: "string list" where
  "content_types = map sig_type sniffSignatures @ [''application/octet-stream'']"

lemma mp4_loop_type: "mp4_loop st n d \<in> {[], ''video/mp4''}"
proof (induction st n d rule: mp4_loop.induct)
  case (1 st n d)
  then show ?case by (subst mp4_loop.simps) auto
qed

lemma sig_match_type: "sig_match sig d k \<in> {[], sig_type sig}"
  using mp4_loop_type [of 8 "BigEndian_Uint32 d" d]
  by (cases sig) (auto simp: exact_match_def masked_match_def html_match_def mp4_match_def text_match_def Let_def)

lemma first_match_type:
  "first_match sigs d k \<in> set (map sig_type sigs @ [''application/octet-stream''])"
proof (induction sigs)
  case (Cons sig sigs)
  then show ?case using sig_match_type [of sig d k] by (auto simp: Let_def)
qed simp

lemma first_match_append:
  "first_match (s1 @ s2) d k =
     (if list_all (\<lambda>sig. sig_match sig d k = []) s1 then first_match s2 d k else first_match s1 d k)"
  by (induction s1) (auto simp: Let_def)

lemma DetectContentType_take: "DetectContentType (take sniffLen d) = DetectContentType d"
  by (simp add: DetectContentType_def)

lemma DetectContentType_cut:
  "DetectContentType d = first_match sniffSignatures (take sniffLen d) (length (takeWhile isWS (take sniffLen d)))"
  by (simp add: DetectContentType_def Let_def)

text \<open>Leading white space is never binary, so the text signature looks at all of the data.\<close>

lemma isWS_not_binary: "isWS b \<Longrightarrow> \<not> binary_byte b"
  by (auto simp: isWS_def binary_byte_def)

lemma text_match_all:
  "text_match d (length (takeWhile isWS d)) =
     (if list_ex binary_byte d then [] else ''text/plain; charset=utf-8'')"
proof -
  have "list_ex binary_byte d = list_ex binary_byte (takeWhile isWS d @ dropWhile isWS d)" by simp
  also have "\<dots> = list_ex binary_byte (dropWhile isWS d)"
    by (auto simp: list_ex_iff simp del: takeWhile_dropWhile_id dest: set_takeWhileD isWS_not_binary)
  finally show ?thesis by (simp add: text_match_def dropWhile_eq_drop [symmetric])
qed

definition utf8_bom :: string where
  "utf8_bom = [CHR 0xEF, CHR 0xBB, CHR 0xBF]"

lemma AND_FF: "byte c AND 255 = byte c"
proof -
  have "byte c AND mask 8 = byte c"
    unfolding take_bit_eq_mask [symmetric] using byte_less [of c] by (simp add: take_bit_nat_eq_self)
  then show ?thesis by (simp add: mask_eq_exp_minus_1)
qed

lemma masked_bom:
  assumes "masked_match [CHR 0xFF, CHR 0xFF, CHR 0xFF, CHR 0x00] [CHR 0xEF, CHR 0xBB, CHR 0xBF, CHR 0x00] False ct d k \<noteq> []"
  shows "HasPrefix d utf8_bom"
proof -
  obtain c0 c1 c2 c3 r where d: "d = c0 # c1 # c2 # c3 # r"
    using assms by (auto simp: masked_match_def neq_Nil_conv Suc_le_length_iff not_less numeral_eq_Suc split: if_splits)
  have "byte c0 = 0xEF \<and> byte c1 = 0xBB \<and> byte c2 = 0xBF"
    using assms by (auto simp: d masked_match_def AND_FF split: if_splits)
  then have "c0 = CHR 0xEF \<and> c1 = CHR 0xBB \<and> c2 = CHR 0xBF"
    unfolding of_char_eq_iff [where 'a = nat, symmetric] by simp
  then show ?thesis by (simp add: d utf8_bom_def)
qed

lemma first_match_from:
  assumes "first_match sigs d k = ct" and "ct \<noteq> ''application/octet-stream''"
  shows "\<exists>sig\<in>set sigs. sig_match sig d k = ct \<and> sig_type sig = ct \<and> ct \<noteq> []"
  using assms
proof (induction sigs)
  case (Cons sig sigs)
  then show ?case using sig_match_type [of sig d k] by (auto simp: Let_def split: if_splits)
qed simp

text \<open>Only the byte order mark and the text signature give plain UTF-8 text.\<close>

lemma plain_signatures:
  assumes "sig \<in> set sniffSignatures" and "sig_type sig = ''text/plain; charset=utf-8''"
  shows "sig = textSig \<or> sig = maskedSig [CHR 0xFF, CHR 0xFF, CHR 0xFF, CHR 0x00]
    [CHR 0xEF, CHR 0xBB, CHR 0xBF, CHR 0x00] False ''text/plain; charset=utf-8''"
  using assms by (auto simp: sniffSignatures_def other_signatures_def)

lemma text_last: "first_match (sigs @ [textSig]) d k = ''application/octet-stream'' \<Longrightarrow>
  list_all (\<lambda>sig. sig_type sig \<noteq> ''application/octet-stream'') sigs \<Longrightarrow> text_match d k = []"
proof (induction sigs)
  case (Cons sig sigs)
  then show ?case using sig_match_type [of sig d k] by (auto simp: Let_def split: if_splits)
qed (auto simp: Let_def text_match_def split: if_splits)

text \<open>
  Sniffing always gives one of the types of its table, looks at the first 512 bytes only, calls data
  without control bytes never a stream of bytes, and data with control bytes plain UTF-8 text only after
  a byte order mark.
\<close>

theorem sniffed_type:
  "DetectContentType data \<in> set content_types \<and>
   DetectContentType (take sniffLen data) = DetectContentType data \<and>
   (if list_ex binary_byte (take sniffLen data)
    then DetectContentType data = ''text/plain; charset=utf-8'' \<longrightarrow> HasPrefix (take sniffLen data) utf8_bom
    else DetectContentType data \<noteq> ''application/octet-stream'')"
proof -
  let ?d = "take sniffLen data" and ?k = "length (takeWhile isWS (take sniffLen data))"
  have plain: "HasPrefix ?d utf8_bom"
    if bin: "list_ex binary_byte ?d" and ct: "DetectContentType data = ''text/plain; charset=utf-8''"
  proof -
    obtain sig where sig: "sig \<in> set sniffSignatures" "sig_match sig ?d ?k = ''text/plain; charset=utf-8''"
        "sig_type sig = ''text/plain; charset=utf-8''"
      using first_match_from [OF ct [unfolded DetectContentType_cut]] by auto
    from plain_signatures [OF sig(1,3)] sig(2) bin show ?thesis
      using masked_bom [of "''text/plain; charset=utf-8''" ?d ?k] by (auto simp: text_match_all)
  qed
  have "list_all (\<lambda>sig. sig_type sig \<noteq> ''application/octet-stream'') (map htmlSig html_tags @ other_signatures)"
    by (auto simp: other_signatures_def list_all_iff)
  then have octet: "DetectContentType data = ''application/octet-stream'' \<Longrightarrow> text_match ?d ?k = []"
    using text_last [of "map htmlSig html_tags @ other_signatures"]
    by (simp add: DetectContentType_cut sniffSignatures_def)
  show ?thesis
    using plain octet first_match_type [of sniffSignatures ?d ?k]
    by (auto simp: DetectContentType_take text_match_all content_types_def DetectContentType_cut)
qed

theorem sniffed_type_witness:
  "DetectContentType (CHR 0xEF # CHR 0xBB # CHR 0xBF # [CHR 0x00]) = ''text/plain; charset=utf-8'' \<and>
   HasPrefix (take sniffLen (CHR 0xEF # CHR 0xBB # CHR 0xBF # [CHR 0x00])) utf8_bom"
proof -
  have ct: "DetectContentType (CHR 0xEF # CHR 0xBB # CHR 0xBF # [CHR 0x00]) = ''text/plain; charset=utf-8''"
    by code_simp
  have "list_ex binary_byte (take sniffLen (CHR 0xEF # CHR 0xBB # CHR 0xBF # [CHR 0x00]))" by code_simp
  then show ?thesis using sniffed_type [of "CHR 0xEF # CHR 0xBB # CHR 0xBF # [CHR 0x00]"] ct by simp
qed

text \<open>Clearing bit 5 reads letters of either case.\<close>

lemma clear_bit5: "\<forall>n\<in>set [65 ..< 91 :: nat]. n AND 223 = n \<and> (n + 32) AND 223 = n"
  by code_simp

lemma html_byte_upper: "html_byte (upper_byte d) d"
proof -
  have "n AND 223 = n \<and> (n + 32) AND 223 = n" if "65 \<le> n" and "n \<le> 90" for n :: nat
    using bspec [OF clear_bit5, of n] that by (simp del: upt_rec_numeral)
  from this [of "byte d"] this [of "byte d - 32"] show ?thesis
    by (auto simp: html_byte_def upper_byte_def)
qed

lemma html_first:
  assumes "tag \<in> set tags" and "html_match tag d k \<noteq> []"
  shows "first_match (map htmlSig tags @ sigs) d k = ''text/html; charset=utf-8''"
  using assms
proof (induction tags)
  case (Cons t tags)
  then show ?case using sig_match_type [of "htmlSig t" d k] by (auto simp: Let_def)
qed simp

text \<open>
  A body that starts with one of the known tags, in upper or lower case, after any white space and
  followed by a space or a closing bracket within the first 512 bytes, is HTML, whatever comes after.
\<close>

theorem sniffed_html:
  assumes "map upper_byte s \<in> set html_tags" and "list_all isWS ws" and "c = CHR '' '' \<or> c = CHR ''>''"
    and "length ws + length s < sniffLen"
  shows "DetectContentType (ws @ s @ c # rest) = ''text/html; charset=utf-8''"
proof -
  obtain d where d: "take sniffLen (ws @ s @ c # rest) = ws @ s @ c # d"
    using assms(4) by (simp add: Suc_diff_Suc take_Cons')
  obtain x xs where s: "s = x # xs" using assms(1) by (cases s) (auto simp: html_tags_def)
  have "upper_byte x = CHR ''<''" using assms(1) by (auto simp: html_tags_def s)
  then have "\<not> isWS x" by (auto simp: isWS_def upper_byte_def)
  then have k: "takeWhile isWS (ws @ s @ c # d) = ws"
    using assms(2) by (simp add: s list_all_iff takeWhile_append2)
  have "html_match (map upper_byte s) (ws @ s @ c # d) (length ws) \<noteq> []"
    using assms(3) by (auto simp: html_match_def list_all2_conv_all_nth html_byte_upper nth_append)
  from html_first [OF assms(1) this] show ?thesis
    unfolding DetectContentType_cut d by (simp add: k sniffSignatures_def)
qed

theorem sniffed_html_witness: "DetectContentType ('' <Html>'' @ ''hello'') = ''text/html; charset=utf-8''"
proof -
  have "map upper_byte ''<Html'' \<in> set html_tags" by code_simp
  from sniffed_html [OF this, of "'' ''" "CHR ''>''" "''hello''"] show ?thesis
    by (simp add: isWS_def sniffLen_def)
qed

end
