(* ===== verification/Respond.thy ===== *)
theory Respond
  imports Framing Reply Sniff
begin

text \<open>
  The response of \<open>http/server.go\<close>: \<open>WriteHeader\<close>, \<open>Write\<close>, \<open>Flush\<close>, \<open>Hijack\<close>, \<open>finishRequest\<close> and the
  reader that answers 100-continue. The record \<open>response\<close> holds the fields of \<open>response\<close> with those of
  its \<open>conn\<close> that these methods use; the connection's write buffer is an arbitrary writer with a flush.
  Log output is left out, and the date of a reply is the argument \<open>date\<close>.
\<close>

definition ErrBodyNotAllowed :: error where
  "ErrBodyNotAllowed = ''http: request method or response status code does not allow body''"
definition ErrHijacked :: error where
  "ErrHijacked = ''Conn has been hijacked''"
definition ErrContentLength :: error where
  "ErrContentLength = ''Conn.Write wrote more than the declared Content-Length''"

record 's bufwriter =
  bw_Write :: "'s writer"
  bw_Flush :: "'s \<Rightarrow> 's"

text \<open>The body of a request on the server: plain, or wrapped in the \<open>expectContinueReader\<close>.\<close>

datatype request_body = PlainBody body | expectContinueReader body bool

record 's response =
  rs_hijacked :: bool
  rs_buf :: 's
  rs_sniffbuf :: string
  rs_req :: "unit Request"
  rs_reqBody :: request_body
  rs_chunking :: bool
  rs_wroteHeader :: bool
  rs_wroteContinue :: bool
  rs_header :: header
  rs_written :: int
  rs_contentLength :: int
  rs_status :: int
  rs_needSniff :: bool
  rs_closeAfterReply :: bool
  rs_requestBodyLimitHit :: bool

definition set_header :: "string \<Rightarrow> string \<Rightarrow> 's response \<Rightarrow> 's response" where
  "set_header k v w = w\<lparr>rs_header := Set (rs_header w) k v\<rparr>"

definition del_header :: "string \<Rightarrow> 's response \<Rightarrow> 's response" where
  "del_header k w = w\<lparr>rs_header := Del (rs_header w) k\<rparr>"

definition requestTooLarge :: "'s response \<Rightarrow> 's response" where
  "requestTooLarge w =
     (let w1 = w\<lparr>rs_closeAfterReply := True, rs_requestBodyLimitHit := True\<rparr>
      in if \<not> rs_wroteHeader w1 then set_header ''Connection'' ''close'' w1 else w1)"

section \<open>The request body\<close>

text \<open>Writing to the buffer with the error ignored.\<close>

definition emit :: "'s bufwriter \<Rightarrow> string \<Rightarrow> 's response \<Rightarrow> 's response" where
  "emit bw d w = w\<lparr>rs_buf := put (bw_Write bw) (rs_buf w) d\<rparr>"

definition flush_buf :: "'s bufwriter \<Rightarrow> 's response \<Rightarrow> 's response" where
  "flush_buf bw w = w\<lparr>rs_buf := bw_Flush bw (rs_buf w)\<rparr>"

definition reqBody_Read :: "'s bufwriter \<Rightarrow> nat \<Rightarrow> 's response \<Rightarrow> 's response \<times> string \<times> error option" where
  "reqBody_Read bw len w =
     (case rs_reqBody w of
        PlainBody b \<Rightarrow> (case body_Read len b of (b', d, e) \<Rightarrow> (w\<lparr>rs_reqBody := PlainBody b'\<rparr>, d, e))
      | expectContinueReader b closed \<Rightarrow>
          if closed then (w, [], Some ''http: Read after Close on request Body'')
          else (let w1 = (if \<not> rs_wroteContinue w \<and> \<not> rs_hijacked w
                          then flush_buf bw (emit bw (''HTTP/1.1 100 Continue'' @ CRLF @ CRLF) (w\<lparr>rs_wroteContinue := True\<rparr>))
                          else w)
                in case body_Read len b of (b', d, e) \<Rightarrow> (w1\<lparr>rs_reqBody := expectContinueReader b' closed\<rparr>, d, e)))"

text \<open>\<open>None\<close> is a copy that has not ended.\<close>

definition reqBody_Close :: "request_body \<Rightarrow> (request_body \<times> error option) option" where
  "reqBody_Close rb =
     (case rb of
        PlainBody b \<Rightarrow> map_option (\<lambda>(b', e). (PlainBody b', e)) (body_Close b)
      | expectContinueReader b closed \<Rightarrow> map_option (\<lambda>(b', e). (expectContinueReader b' True, e)) (body_Close b))"

definition maxPostHandlerReadBytes :: nat where
  "maxPostHandlerReadBytes = 256 * 1024"

text \<open>\<open>io.CopyN\<close> to \<open>ioutil.Discard\<close>: a limited reader over the body.\<close>

definition limited_body_Read :: "nat \<Rightarrow> body \<times> int \<Rightarrow> (body \<times> int) \<times> string \<times> error option" where
  "limited_body_Read len l =
     (if snd l \<le> 0 then (l, [], Some io_EOF)
      else (case body_Read (if snd l < int len then nat (snd l) else len) (fst l) of
              (b, d, e) \<Rightarrow> ((b, snd l - int (length d)), d, e)))"

definition drain :: "request_body \<Rightarrow> (request_body \<times> nat) option" where
  "drain rb =
     (case rb of
        PlainBody b \<Rightarrow>
          map_option (\<lambda>((b', _), _, n, _). (PlainBody b', n))
            (Copy limited_body_Read discard copy_size (copy_fuel (src_reader (bd_src b)))
               (b, int maxPostHandlerReadBytes + 1) () 0)
      | expectContinueReader b closed \<Rightarrow>
          if closed then Some (rb, 0)
          else map_option (\<lambda>((b', _), _, n, _). (expectContinueReader b' closed, n))
            (Copy limited_body_Read discard copy_size (copy_fuel (src_reader (bd_src b)))
               (b, int maxPostHandlerReadBytes + 1) () 0))"

section \<open>WriteHeader\<close>

text \<open>An explicit Content-Length; one that is no number is deleted.\<close>

definition declared_length :: "'s response \<Rightarrow> 's response \<times> int option" where
  "declared_length w =
     (let clenStr = Get (rs_header w) ''Content-Length''
      in if clenStr \<noteq> [] then
           (case ParseInt clenStr of
              Some n \<Rightarrow> (w, Some n)
            | None \<Rightarrow> (del_header ''Content-Length'' w, None))
         else (w, None))"

definition keep_alive :: "(string \<Rightarrow> string) \<Rightarrow> bool \<Rightarrow> 's response \<Rightarrow> 's response" where
  "keep_alive ul hasCL w =
     (let w1 = (if wantsHttp10KeepAlive ul (rs_req w) \<and> (req_Method (rs_req w) = ''HEAD'' \<or> hasCL)
                then (if gomap_get (rs_header w) ''Connection'' = None
                      then set_header ''Connection'' ''keep-alive'' w else w)
                else if \<not> ProtoAtLeast (rs_req w) 1 1 then w\<lparr>rs_closeAfterReply := True\<rparr>
                else w)
      in if Get (rs_header w1) ''Connection'' = ''close'' then w1\<lparr>rs_closeAfterReply := True\<rparr> else w1)"

text \<open>What the handler left of the request body is read, up to a limit.\<close>

definition consume_body :: "'s response \<Rightarrow> 's response option" where
  "consume_body w =
     (if req_ContentLength (rs_req w) \<noteq> 0 \<and> \<not> rs_closeAfterReply w \<and>
         (case rs_reqBody w of PlainBody b \<Rightarrow> True | expectContinueReader b c \<Rightarrow> rs_wroteContinue w)
      then (case drain (rs_reqBody w) of
              None \<Rightarrow> None
            | Some (rb, n) \<Rightarrow>
                if maxPostHandlerReadBytes \<le> n
                then Some (set_header ''Connection'' ''close'' (requestTooLarge (w\<lparr>rs_reqBody := rb\<rparr>)))
                else map_option (\<lambda>(rb', _). w\<lparr>rs_reqBody := rb'\<rparr>) (reqBody_Close rb))
      else Some w)"

definition drop_if_set :: "string \<Rightarrow> 's response \<Rightarrow> 's response" where
  "drop_if_set k w = (if Get (rs_header w) k \<noteq> [] then del_header k w else w)"

definition content_headers :: "int \<Rightarrow> 's response \<Rightarrow> 's response" where
  "content_headers code w =
     (if code = StatusNotModified
      then fold drop_if_set [''Content-Type'', ''Content-Length'', ''Transfer-Encoding''] w
      else if Get (rs_header w) ''Content-Type'' = [] \<and> req_Method (rs_req w) \<noteq> ''HEAD''
      then w\<lparr>rs_needSniff := True\<rparr>
      else w)"

definition date_header :: "string \<Rightarrow> 's response \<Rightarrow> 's response" where
  "date_header date w =
     (if gomap_get (rs_header w) ''Date'' = None then set_header ''Date'' date w else w)"

text \<open>A length, chunks, or the end of the connection.\<close>

definition choose_framing :: "int \<Rightarrow> int option \<Rightarrow> 's response \<Rightarrow> 's response" where
  "choose_framing code cl w =
     (let te = Get (rs_header w) ''Transfer-Encoding'';
          both = (cl \<noteq> None \<and> te \<noteq> [] \<and> te \<noteq> ''identity'');
          w1 = (if both then del_header ''Content-Length'' w else w);
          w2 = (if req_Method (rs_req w) = ''HEAD'' \<or> code = StatusNotModified then w1
                else (case (if both then None else cl) of
                        Some n \<Rightarrow> del_header ''Transfer-Encoding'' (w1\<lparr>rs_contentLength := n\<rparr>)
                      | None \<Rightarrow>
                          if ProtoAtLeast (rs_req w) 1 1
                          then set_header ''Transfer-Encoding'' ''chunked'' (w1\<lparr>rs_chunking := True\<rparr>)
                          else del_header ''Transfer-Encoding'' (w1\<lparr>rs_closeAfterReply := True\<rparr>)))
      in if rs_chunking w2 then del_header ''Content-Length'' w2 else w2)"

text \<open>The status line and the header, left open if the type is still to be sniffed.\<close>

definition status_line :: "int \<Rightarrow> 's response \<Rightarrow> string" where
  "status_line code w =
     (if ProtoAtLeast (rs_req w) 1 1 then ''HTTP/1.1'' else ''HTTP/1.0'') @ '' '' @ Itoa code @ '' '' @
     (case gomap_get statusText code of Some t \<Rightarrow> t | None \<Rightarrow> ''status code '' @ Itoa code) @ CRLF"

definition emit_header :: "'s bufwriter \<Rightarrow> int \<Rightarrow> 's response \<Rightarrow> 's response" where
  "emit_header bw code w =
     (if \<not> ProtoAtLeast (rs_req w) 1 0 then w
      else (let w1 = (if rs_closeAfterReply w \<and> \<not> hasToken (Get (rs_header w) ''Connection'') ''close''
                      then set_header ''Connection'' ''close'' w else w);
                w2 = emit bw (status_line code w1) w1;
                w3 = w2\<lparr>rs_buf := fst (Write (bw_Write bw) (rs_buf w2) (rs_header w2))\<rparr>
            in if \<not> rs_needSniff w3 then emit bw CRLF w3 else w3))"

definition WriteHeader ::
  "(string \<Rightarrow> string) \<Rightarrow> string \<Rightarrow> 's bufwriter \<Rightarrow> int \<Rightarrow> 's response \<Rightarrow> ('s response, unit) outcome" where
  "WriteHeader ul date bw code w =
     (if rs_hijacked w then Done w ()
      else if rs_wroteHeader w then Done w ()
      else (case declared_length (w\<lparr>rs_wroteHeader := True, rs_status := code\<rparr>) of
              (w1, cl) \<Rightarrow>
                (case consume_body (keep_alive ul (cl \<noteq> None) w1) of
                   None \<Rightarrow> Block w1
                 | Some w2 \<Rightarrow>
                     Done (emit_header bw code (choose_framing code cl (date_header date (content_headers code w2)))) ())))"

section \<open>Write and the end of a request\<close>

text \<open>After \<open>Hijack\<close> the buffer is nil, and using it panics.\<close>

definition sniff :: "'s bufwriter \<Rightarrow> 's response \<Rightarrow> ('s response, unit) outcome" where
  "sniff bw w =
     (if \<not> rs_needSniff w then Done w ()
      else if rs_hijacked w then Panic (w\<lparr>rs_needSniff := False\<rparr>) ''nil pointer dereference''
      else (let data = rs_sniffbuf w;
                w1 = emit bw (''Content-Type: '' @ DetectContentType data @ CRLF @ CRLF) (w\<lparr>rs_needSniff := False\<rparr>)
            in if length data = 0 then Done w1 ()
               else (let w2 = (if rs_chunking w1 then emit bw (FormatUint 16 (length data) @ CRLF) w1 else w1)
                     in case bw_Write bw (rs_buf w2) data of
                          (s, _, err) \<Rightarrow>
                            (let w3 = w2\<lparr>rs_buf := s\<rparr>
                             in Done (if rs_chunking w3 \<and> err = None then emit bw CRLF w3 else w3) ()))))"

definition bodyAllowed :: "'s response \<Rightarrow> bool" where
  "bodyAllowed w \<longleftrightarrow> rs_status w \<noteq> StatusNotModified \<and> req_Method (rs_req w) \<noteq> ''HEAD''"

text \<open>The end of \<open>Write\<close>: \<open>m\<close> bytes went to the sniff buffer, \<open>data\<close> is the rest.\<close>

definition write_rest :: "'s bufwriter \<Rightarrow> nat \<Rightarrow> string \<Rightarrow> 's response \<Rightarrow> ('s response, nat \<times> error option) outcome" where
  "write_rest bw m data w =
     (let w1 = (if rs_chunking w then emit bw (FormatUint 16 (length data) @ CRLF) w else w)
      in case bw_Write bw (rs_buf w1) data of
           (s, n, err) \<Rightarrow>
             (let w2 = w1\<lparr>rs_buf := s\<rparr>
              in if err = None \<and> rs_chunking w2
                 then (if n \<noteq> length data then Done w2 (m + n, Some io_ErrShortWrite)
                       else Done (emit bw CRLF w2) (m + n, None))
                 else Done w2 (m + n, err)))"

definition rs_Write ::
  "(string \<Rightarrow> string) \<Rightarrow> string \<Rightarrow> 's bufwriter \<Rightarrow> string \<Rightarrow> 's response \<Rightarrow> ('s response, nat \<times> error option) outcome" where
  "rs_Write ul date bw data w =
     (if rs_hijacked w then Done w (0, Some ErrHijacked)
      else obind (if \<not> rs_wroteHeader w then WriteHeader ul date bw StatusOK w else Done w ()) (\<lambda>w1 _.
        if length data = 0 then Done w1 (0, None)
        else if \<not> bodyAllowed w1 then Done w1 (0, Some ErrBodyNotAllowed)
        else (let w2 = w1\<lparr>rs_written := rs_written w1 + int (length data)\<rparr>
              in if rs_contentLength w2 \<noteq> -1 \<and> rs_contentLength w2 < rs_written w2
                 then Done w2 (0, Some ErrContentLength)
                 else if rs_needSniff w2
                 then (let m = min (sniffLen - length (rs_sniffbuf w2)) (length data);
                           w3 = w2\<lparr>rs_sniffbuf := rs_sniffbuf w2 @ take m data\<rparr>; rest = drop m data
                       in if length rest = 0 then Done w3 (m, None)
                          else obind (sniff bw w3) (\<lambda>w4 _. write_rest bw m rest w4))
                 else write_rest bw 0 data w2)))"

definition rs_Flush ::
  "(string \<Rightarrow> string) \<Rightarrow> string \<Rightarrow> 's bufwriter \<Rightarrow> 's response \<Rightarrow> ('s response, unit) outcome" where
  "rs_Flush ul date bw w =
     obind (if \<not> rs_wroteHeader w then WriteHeader ul date bw StatusOK w else Done w ()) (\<lambda>w1 _.
       obind (sniff bw w1) (\<lambda>w2 _.
         if rs_hijacked w2 then Panic w2 ''nil pointer dereference'' else Done (flush_buf bw w2) ()))"

text \<open>\<open>Hijack\<close> hands out the connection and its buffer.\<close>

definition rs_Hijack :: "'s response \<Rightarrow> 's response \<times> (error + 's)" where
  "rs_Hijack w =
     (if rs_hijacked w then (w, Inl ErrHijacked) else (w\<lparr>rs_hijacked := True\<rparr>, Inr (rs_buf w)))"

definition finishRequest ::
  "(string \<Rightarrow> string) \<Rightarrow> string \<Rightarrow> 's bufwriter \<Rightarrow> 's response \<Rightarrow> ('s response, unit) outcome" where
  "finishRequest ul date bw w =
     (let w1 = (if rs_written w = 0 \<and> Get (rs_header w) ''Content-Length'' = []
                then set_header ''Content-Length'' ''0'' w else w);
          w2 = (if wantsHttp10KeepAlive ul (rs_req w1) \<and> Get (rs_header w1) ''Content-Length'' \<noteq> [] \<and>
                   Get (rs_header w1) ''Connection'' = ''keep-alive''
                then w1\<lparr>rs_closeAfterReply := False\<rparr> else w1)
      in obind (if \<not> rs_wroteHeader w2 then WriteHeader ul date bw StatusOK w2 else Done w2 ()) (\<lambda>w3 _.
         obind (if rs_needSniff w3 then sniff bw w3 else Done w3 ()) (\<lambda>w4 _.
           if rs_hijacked w4 then Panic w4 ''nil pointer dereference''
           else (let w5 = flush_buf bw (if rs_chunking w4 then emit bw CRLF (emit bw (''0'' @ CRLF) w4) else w4);
                     closed = (if \<not> rs_closeAfterReply w5
                               then map_option (\<lambda>(rb, _). w5\<lparr>rs_reqBody := rb\<rparr>) (reqBody_Close (rs_reqBody w5))
                               else Some w5)
                 in case closed of
                      None \<Rightarrow> Block w5
                    | Some w6 \<Rightarrow>
                        Done (if rs_contentLength w6 \<noteq> -1 \<and> rs_contentLength w6 \<noteq> rs_written w6
                              then w6\<lparr>rs_closeAfterReply := True\<rparr> else w6) ()))))"

section \<open>Every operation returns\<close>

interpretation lbd: io_reader limited_body_Read "\<lambda>l. length (br_rest (src_reader (bd_src (fst l))))"
proof unfold_locales
  fix n and l l' :: "body \<times> int" and d
  assume n: "0 < n" and r: "limited_body_Read n l = (l', d, None)"
  let ?k = "if snd l < int n then nat (snd l) else n"
  from r have "0 < ?k" and "body_Read ?k (fst l) = (fst l', d, None)"
    using n by (auto simp: limited_body_Read_def split: if_splits prod.splits)
  then show "length (br_rest (src_reader (bd_src (fst l')))) < length (br_rest (src_reader (bd_src (fst l))))"
    by (rule bdr.progress)
qed

lemma drain_returns: "\<exists>rb' n. drain rb = Some (rb', n)"
proof -
  have "\<exists>x. Copy limited_body_Read discard copy_size (copy_fuel (src_reader (bd_src b)))
      (b, int maxPostHandlerReadBytes + 1) () 0 = Some x" for b
    by (rule lbd.Copy_returns) simp_all
  then show ?thesis by (cases rb) (fastforce simp: drain_def)+
qed

lemma reqBody_Close_returns: "\<exists>rb' e. reqBody_Close rb = Some (rb', e)"
  using body_Close_returns by (cases rb) (fastforce simp: reqBody_Close_def)+

lemma consume_body_returns: "\<exists>w'. consume_body w = Some w'"
proof -
  obtain rb n where "drain (rs_reqBody w) = Some (rb, n)" using drain_returns by blast
  moreover obtain rb' e where "reqBody_Close rb = Some (rb', e)" using reqBody_Close_returns by blast
  ultimately show ?thesis by (simp add: consume_body_def)
qed

lemma WriteHeader_returns: "\<exists>w'. WriteHeader ul date bw code w = Done w' ()"
proof -
  obtain w1 cl where d: "declared_length (w\<lparr>rs_wroteHeader := True, rs_status := code\<rparr>) = (w1, cl)"
    by (rule prod.exhaust)
  obtain w2 where "consume_body (keep_alive ul (cl \<noteq> None) w1) = Some w2" using consume_body_returns by blast
  with d show ?thesis by (simp add: WriteHeader_def)
qed

section \<open>Frame\<close>

text \<open>What the stages of \<open>WriteHeader\<close> leave alone.\<close>

named_theorems frame \<open>fields of a response that an operation keeps\<close>

lemma header_frame [frame]:
  "rs_hijacked (set_header k v w) = rs_hijacked w" "rs_buf (set_header k v w) = rs_buf w"
  "rs_sniffbuf (set_header k v w) = rs_sniffbuf w" "rs_req (set_header k v w) = rs_req w"
  "rs_chunking (set_header k v w) = rs_chunking w" "rs_wroteHeader (set_header k v w) = rs_wroteHeader w"
  "rs_written (set_header k v w) = rs_written w" "rs_contentLength (set_header k v w) = rs_contentLength w"
  "rs_status (set_header k v w) = rs_status w" "rs_needSniff (set_header k v w) = rs_needSniff w"
  "rs_closeAfterReply (set_header k v w) = rs_closeAfterReply w"
  "rs_hijacked (del_header k w) = rs_hijacked w" "rs_buf (del_header k w) = rs_buf w"
  "rs_sniffbuf (del_header k w) = rs_sniffbuf w" "rs_req (del_header k w) = rs_req w"
  "rs_chunking (del_header k w) = rs_chunking w" "rs_wroteHeader (del_header k w) = rs_wroteHeader w"
  "rs_written (del_header k w) = rs_written w" "rs_contentLength (del_header k w) = rs_contentLength w"
  "rs_status (del_header k w) = rs_status w" "rs_needSniff (del_header k w) = rs_needSniff w"
  "rs_closeAfterReply (del_header k w) = rs_closeAfterReply w"
  by (simp_all add: set_header_def del_header_def)

lemma emit_frame [frame]:
  "rs_hijacked (emit bw d w) = rs_hijacked w" "rs_sniffbuf (emit bw d w) = rs_sniffbuf w"
  "rs_req (emit bw d w) = rs_req w" "rs_chunking (emit bw d w) = rs_chunking w"
  "rs_wroteHeader (emit bw d w) = rs_wroteHeader w" "rs_written (emit bw d w) = rs_written w"
  "rs_contentLength (emit bw d w) = rs_contentLength w" "rs_status (emit bw d w) = rs_status w"
  "rs_needSniff (emit bw d w) = rs_needSniff w" "rs_closeAfterReply (emit bw d w) = rs_closeAfterReply w"
  "rs_header (emit bw d w) = rs_header w"
  by (simp_all add: emit_def)

text \<open>The part of a response that no stage of \<open>WriteHeader\<close> after the first touches.\<close>

definition core :: "'s response \<Rightarrow> bool \<times> string \<times> int \<times> bool \<times> int \<times> unit Request" where
  "core w = (rs_hijacked w, rs_sniffbuf w, rs_written w, rs_wroteHeader w, rs_status w, rs_req w)"

lemma core_header: "core (set_header k v w) = core w" "core (del_header k w) = core w" "core (emit bw d w) = core w"
  by (simp_all add: core_def frame)

lemma core_stages:
  "core (fst (declared_length w)) = core w" "core (keep_alive ul b w) = core w"
  "core (content_headers code w) = core w" "core (date_header date w) = core w"
  "core (choose_framing code cl w) = core w" "core (emit_header bw code w) = core w"
proof -
  show "core (fst (declared_length w)) = core w"
    by (simp add: declared_length_def core_header Let_def split: option.split)
  show "core (keep_alive ul b w) = core w" by (simp add: keep_alive_def Let_def core_def frame)
  have "core (drop_if_set k w) = core w" for k and w :: "'a response" by (simp add: drop_if_set_def core_header)
  then show "core (content_headers code w) = core w" by (simp add: content_headers_def) (simp add: core_def)
  show "core (date_header date w) = core w" by (simp add: date_header_def core_header)
  show "core (choose_framing code cl w) = core w"
    by (simp add: choose_framing_def Let_def core_header split: option.split) (simp add: core_def frame)
  show "core (emit_header bw code w) = core w"
    by (simp add: emit_header_def Let_def core_header) (simp add: core_def frame)
qed

lemma core_consume: "consume_body w = Some w' \<Longrightarrow> core w' = core w"
  by (auto simp: consume_body_def requestTooLarge_def core_def frame Let_def split: if_splits option.splits)

lemma WriteHeader_core:
  assumes "WriteHeader ul date bw code w = Done w' ()" and "\<not> rs_hijacked w" and "\<not> rs_wroteHeader w"
  shows "core w' = core (w\<lparr>rs_wroteHeader := True, rs_status := code\<rparr>)"
proof -
  obtain w1 cl where d: "declared_length (w\<lparr>rs_wroteHeader := True, rs_status := code\<rparr>) = (w1, cl)"
    by (rule prod.exhaust)
  obtain w2 where c: "consume_body (keep_alive ul (cl \<noteq> None) w1) = Some w2" using consume_body_returns by blast
  have "core w' = core w2" using assms d c by (auto simp: WriteHeader_def core_stages)
  also have "\<dots> = core w1" using core_consume [OF c] by (simp add: core_stages)
  also have "\<dots> = core (w\<lparr>rs_wroteHeader := True, rs_status := code\<rparr>)"
    using core_stages(1) [of "w\<lparr>rs_wroteHeader := True, rs_status := code\<rparr>"] d by simp
  finally show ?thesis .
qed

section \<open>Replies in memory\<close>

definition mem :: "string bufwriter" where
  "mem = \<lparr>bw_Write = buffer_write, bw_Flush = \<lambda>s. s\<rparr>"

lemma emit_mem: "emit mem d w = w\<lparr>rs_buf := rs_buf w @ d\<rparr>"
  by (simp add: emit_def mem_def put_def buffer_write_def)

lemma flush_mem: "flush_buf mem w = w"
  by (simp add: flush_buf_def mem_def)

text \<open>A piece of the body as it goes on the wire, and the line that gives its type.\<close>

definition piece :: "'s response \<Rightarrow> string \<Rightarrow> string" where
  "piece w d = (if rs_chunking w then chunk d else d)"

definition type_line :: "string \<Rightarrow> string" where
  "type_line d = ''Content-Type: '' @ DetectContentType d @ CRLF @ CRLF"

lemma type_line_take: "type_line (take sniffLen d) = type_line d"
  by (simp add: type_line_def DetectContentType_take)

lemma sniff_mem:
  assumes "rs_needSniff w" and "\<not> rs_hijacked w"
  shows "sniff mem w = Done (w\<lparr>rs_needSniff := False,
    rs_buf := rs_buf w @ type_line (rs_sniffbuf w) @ piece w (rs_sniffbuf w)\<rparr>) ()"
  using assms
  by (simp add: sniff_def emit_mem Let_def type_line_def piece_def chunk_def buffer_write_def mem_def [THEN arg_cong, of bw_Write])

lemma write_rest_mem:
  assumes "d \<noteq> []"
  shows "write_rest mem m d w = Done (w\<lparr>rs_buf := rs_buf w @ piece w d\<rparr>) (m + length d, None)"
  using assms
  by (simp add: write_rest_def emit_mem Let_def piece_def chunk_def buffer_write_def mem_def [THEN arg_cong, of bw_Write])

text \<open>
  A reply under way: \<open>w0\<close> is the state right after the header, \<open>acc\<close> the data that was accepted since.
  Until the type is known the data waits in the sniff buffer; afterwards it is on the wire in pieces.
\<close>

definition replying :: "string response \<Rightarrow> string response \<Rightarrow> string \<Rightarrow> bool" where
  "replying w0 w acc \<longleftrightarrow>
     rs_wroteHeader w \<and> \<not> rs_hijacked w \<and> rs_chunking w = rs_chunking w0 \<and>
     rs_contentLength w = rs_contentLength w0 \<and> bodyAllowed w = bodyAllowed w0 \<and>
     (if rs_needSniff w
      then rs_needSniff w0 \<and> rs_buf w = rs_buf w0 \<and> rs_sniffbuf w = acc \<and> length acc \<le> sniffLen
      else \<exists>ps. rs_buf w = rs_buf w0 @ (if rs_needSniff w0 then type_line acc else []) @ concat (map (piece w0) ps) \<and>
             concat ps = acc \<and> (rs_needSniff w0 \<longrightarrow> sniffLen \<le> length acc)) \<and>
     (rs_written w = int (length acc) \<or> rs_contentLength w0 \<noteq> -1 \<and> rs_contentLength w0 < rs_written w) \<and>
     (rs_contentLength w0 \<noteq> -1 \<and> acc \<noteq> [] \<longrightarrow> int (length acc) \<le> rs_contentLength w0) \<and>
     (\<not> bodyAllowed w0 \<longrightarrow> acc = [])"

lemma type_line_grown: "sniffLen \<le> length acc \<Longrightarrow> type_line (acc @ d) = type_line acc"
  by (metis type_line_take take_append append_Nil2 diff_is_0_eq take_0)

lemma piece_chunking: "rs_chunking w = rs_chunking w0 \<Longrightarrow> piece w = piece w0"
  by (rule ext) (simp add: piece_def)

text \<open>A write is refused without a trace on the wire, or accepted as a whole.\<close>

definition unwritable :: "string response \<Rightarrow> string \<Rightarrow> bool" where
  "unwritable w d \<longleftrightarrow> d \<noteq> [] \<and>
     (\<not> bodyAllowed w \<or> rs_contentLength w \<noteq> -1 \<and> rs_contentLength w < rs_written w + int (length d))"

lemma write_refused:
  assumes "replying w0 w acc" and "unwritable w d"
  shows "\<exists>w' e. rs_Write ul date mem d w = Done w' (0, Some e) \<and> replying w0 w' acc"
proof (cases "bodyAllowed w")
  case False
  then show ?thesis using assms by (auto simp: rs_Write_def replying_def unwritable_def)
next
  case True
  let ?w = "w\<lparr>rs_written := rs_written w + int (length d)\<rparr>"
  have "rs_Write ul date mem d w = Done ?w (0, Some ErrContentLength)"
    using assms True by (auto simp: rs_Write_def replying_def unwritable_def)
  moreover have "replying w0 ?w acc"
    using assms True by (auto simp: replying_def unwritable_def bodyAllowed_def)
  ultimately show ?thesis by blast
qed

lemma written_ok:
  assumes "replying w0 w acc" and "\<not> unwritable w d" and "d \<noteq> []"
  shows "rs_written w = int (length acc) \<and> bodyAllowed w0 \<and>
    (rs_contentLength w0 \<noteq> -1 \<longrightarrow> int (length (acc @ d)) \<le> rs_contentLength w0)"
  using assms by (auto simp: replying_def unwritable_def)

lemma write_accepted:
  assumes "replying w0 w acc" and "\<not> unwritable w d"
  shows "\<exists>w'. rs_Write ul date mem d w = Done w' (length d, None) \<and> replying w0 w' (acc @ d) \<and>
    rs_written w' = rs_written w + int (length d)"
proof (cases "d = []")
  case True
  then have "rs_Write ul date mem d w = Done w (0, None)" using assms by (simp add: rs_Write_def replying_def)
  with True assms(1) show ?thesis by auto
next
  case False
  let ?w = "w\<lparr>rs_written := rs_written w + int (length d)\<rparr>"
  note ok = written_ok [OF assms False]
  have base: "rs_wroteHeader w" "\<not> rs_hijacked w" "rs_chunking w = rs_chunking w0" "rs_contentLength w = rs_contentLength w0"
      "bodyAllowed w" "bodyAllowed w0"
    using assms(1) ok by (auto simp: replying_def)
  note pc = piece_chunking [OF base(3)]
  have nl: "\<not> (rs_contentLength w \<noteq> -1 \<and> rs_contentLength w < rs_written w + int (length d))"
    using ok base(4) by auto
  have W: "rs_Write ul date mem d w =
    (if rs_needSniff w
     then (let m = min (sniffLen - length (rs_sniffbuf w)) (length d);
               w3 = ?w\<lparr>rs_sniffbuf := rs_sniffbuf w @ take m d\<rparr>
           in if length (drop m d) = 0 then Done w3 (m, None)
              else obind (sniff mem w3) (\<lambda>w4 _. write_rest mem m (drop m d) w4))
     else write_rest mem 0 d ?w)"
    using base(1,2,5) nl False by (auto simp: rs_Write_def Let_def)
  show ?thesis
  proof (cases "rs_needSniff w")
    case False
    then obtain ps where ps: "rs_buf w = rs_buf w0 @ (if rs_needSniff w0 then type_line acc else []) @ concat (map (piece w0) ps)"
        "concat ps = acc" "rs_needSniff w0 \<longrightarrow> sniffLen \<le> length acc"
      using assms(1) by (auto simp: replying_def)
    let ?w' = "?w\<lparr>rs_buf := rs_buf w @ piece w d\<rparr>"
    have "rs_Write ul date mem d w = Done ?w' (length d, None)"
      using W False write_rest_mem [OF \<open>d \<noteq> []\<close>, of 0 ?w] by (simp add: piece_def)
    moreover have "\<exists>qs. rs_buf ?w' = rs_buf w0 @ (if rs_needSniff w0 then type_line (acc @ d) else []) @ concat (map (piece w0) qs) \<and>
        concat qs = acc @ d"
      using ps by (intro exI [of _ "ps @ [d]"]) (simp add: pc type_line_grown)
    ultimately show ?thesis using base ok ps(3) False by (auto simp: replying_def bodyAllowed_def)
  next
    case True
    then have s: "rs_needSniff w0" "rs_buf w = rs_buf w0" "rs_sniffbuf w = acc" "length acc \<le> sniffLen"
      using assms(1) by (auto simp: replying_def)
    define m where "m = min (sniffLen - length acc) (length d)"
    let ?w3 = "?w\<lparr>rs_sniffbuf := acc @ take m d\<rparr>"
    have W': "rs_Write ul date mem d w =
        (if drop m d = [] then Done ?w3 (m, None) else obind (sniff mem ?w3) (\<lambda>w4 _. write_rest mem m (drop m d) w4))"
      using W True unfolding s(3) Let_def m_def [symmetric] by simp
    show ?thesis
    proof (cases "drop m d = []")
      case True
      then have "take m d = d" by simp
      moreover have "length (acc @ d) \<le> sniffLen" using s(4) True by (auto simp: m_def)
      moreover have "m = length d" using True by (simp add: m_def min_def split: if_splits)
      ultimately show ?thesis using W' \<open>rs_needSniff w\<close> s(1,2) True base ok
        by (auto simp: replying_def bodyAllowed_def)
    next
      case False
      then have m: "length (acc @ take m d) = sniffLen" using s(4) by (auto simp: m_def)
      let ?w4 = "?w3\<lparr>rs_needSniff := False, rs_buf := rs_buf w @ type_line (acc @ take m d) @ piece w (acc @ take m d)\<rparr>"
      let ?w5 = "?w4\<lparr>rs_buf := rs_buf ?w4 @ piece w (drop m d)\<rparr>"
      have "sniff mem ?w3 = Done ?w4 ()" using sniff_mem [of ?w3] base \<open>rs_needSniff w\<close> by (simp add: piece_def)
      moreover have "write_rest mem m (drop m d) ?w4 = Done ?w5 (m + length (drop m d), None)"
        using write_rest_mem [OF False, of m ?w4] by (simp add: piece_def)
      moreover have "m + length (drop m d) = length d" by (simp add: m_def)
      ultimately have "rs_Write ul date mem d w = Done ?w5 (length d, None)"
        using W' False by simp
      moreover have "type_line (acc @ take m d) = type_line (acc @ d)"
        using type_line_grown [of "acc @ take m d" "drop m d"] m by simp
      then have "\<exists>qs. rs_buf ?w5 = rs_buf w0 @ type_line (acc @ d) @ concat (map (piece w0) qs) \<and> concat qs = acc @ d"
        using s(2) by (intro exI [of _ "[acc @ take m d, drop m d]"]) (simp add: pc)
      moreover have "sniffLen \<le> length (acc @ d)" using m False by (simp add: m_def)
      ultimately show ?thesis using base ok s(1) by (auto simp: replying_def bodyAllowed_def)
    qed
  qed
qed

text \<open>A handler's writes one after the other; the result is the data of the writes that were accepted.\<close>

fun rs_writes ::
  "(string \<Rightarrow> string) \<Rightarrow> string \<Rightarrow> 's bufwriter \<Rightarrow> string list \<Rightarrow> 's response \<Rightarrow> ('s response, string) outcome" where
  "rs_writes ul date bw [] w = Done w []"
| "rs_writes ul date bw (d # ds) w =
     obind (rs_Write ul date bw d w) (\<lambda>w1 r.
       obind (rs_writes ul date bw ds w1) (\<lambda>w2 acc. Done w2 ((if snd r = None then d else []) @ acc)))"

lemma writes_replying:
  assumes "replying w0 w acc"
  shows "\<exists>w' new. rs_writes ul date mem ds w = Done w' new \<and> replying w0 w' (acc @ new) \<and>
    (bodyAllowed w0 \<and> rs_contentLength w0 = -1 \<longrightarrow> new = concat ds)"
  using assms
proof (induction ds arbitrary: w acc)
  case (Cons d ds)
  obtain w1 n e where w1: "rs_Write ul date mem d w = Done w1 (n, e)"
      "replying w0 w1 (acc @ (if e = None then d else []))" "e = None \<or> unwritable w d"
    using write_refused [OF Cons.prems, of d ul date] write_accepted [OF Cons.prems, of d ul date]
    by (cases "unwritable w d") fastforce+
  from Cons.IH [OF w1(2)] obtain w' new where "rs_writes ul date mem ds w1 = Done w' new"
      "replying w0 w' ((acc @ (if e = None then d else [])) @ new)"
      "bodyAllowed w0 \<and> rs_contentLength w0 = -1 \<longrightarrow> new = concat ds"
    by blast
  moreover have "bodyAllowed w0 \<and> rs_contentLength w0 = -1 \<Longrightarrow> e = None"
    using w1(3) Cons.prems by (auto simp: unwritable_def replying_def)
  ultimately show ?case using w1(1) by auto
qed auto

text \<open>The state right after the header starts a reply.\<close>

lemma header_replying:
  assumes "WriteHeader ul date mem code w = Done w0 ()" and "\<not> rs_hijacked w" and "\<not> rs_wroteHeader w"
    and "rs_sniffbuf w = []" and "rs_written w = 0"
  shows "replying w0 w0 []"
proof -
  have "rs_wroteHeader w0 \<and> \<not> rs_hijacked w0 \<and> rs_sniffbuf w0 = [] \<and> rs_written w0 = 0"
    using WriteHeader_core [OF assms(1-3)] assms by (simp add: core_def)
  then show ?thesis by (auto simp: replying_def intro: exI [of _ "[]"])
qed

lemma finish_stages:
  assumes "rs_wroteHeader w" and "\<not> rs_hijacked w"
  shows "\<exists>w3. finishRequest ul date mem w = Done w3 () \<and>
    (rs_contentLength w = -1 \<or> rs_contentLength w = rs_written w \<or> rs_closeAfterReply w3) \<and>
    rs_buf w3 = rs_buf w @ (if rs_needSniff w then type_line (rs_sniffbuf w) @ piece w (rs_sniffbuf w) else []) @
      (if rs_chunking w then ''0'' @ CRLF @ CRLF else [])"
proof -
  let ?w1 = "if rs_written w = 0 \<and> Get (rs_header w) ''Content-Length'' = [] then set_header ''Content-Length'' ''0'' w else w"
  define w2 where "w2 = (if wantsHttp10KeepAlive ul (rs_req ?w1) \<and> Get (rs_header ?w1) ''Content-Length'' \<noteq> [] \<and>
    Get (rs_header ?w1) ''Connection'' = ''keep-alive'' then ?w1\<lparr>rs_closeAfterReply := False\<rparr> else ?w1)"
  have w2: "rs_wroteHeader w2" "\<not> rs_hijacked w2" "rs_buf w2 = rs_buf w" "rs_needSniff w2 = rs_needSniff w"
      "rs_sniffbuf w2 = rs_sniffbuf w" "rs_chunking w2 = rs_chunking w" "rs_contentLength w2 = rs_contentLength w"
      "rs_written w2 = rs_written w"
    using assms(1,2) by (auto simp: w2_def frame)
  define w4 where "w4 = (if rs_needSniff w2 then w2\<lparr>rs_needSniff := False,
    rs_buf := rs_buf w2 @ type_line (rs_sniffbuf w2) @ piece w2 (rs_sniffbuf w2)\<rparr> else w2)"
  have s: "(if rs_needSniff w2 then sniff mem w2 else Done w2 ()) = Done w4 ()"
    using sniff_mem [of w2] w2(2) by (simp add: w4_def)
  have w4: "\<not> rs_hijacked w4" "rs_chunking w4 = rs_chunking w" "rs_contentLength w4 = rs_contentLength w"
      "rs_written w4 = rs_written w"
    "rs_buf w4 = rs_buf w @ (if rs_needSniff w then type_line (rs_sniffbuf w) @ piece w (rs_sniffbuf w) else [])"
    using w2 by (auto simp: w4_def piece_def)
  obtain rb e where rb: "reqBody_Close (rs_reqBody w4) = Some (rb, e)" using reqBody_Close_returns by blast
  have F: "finishRequest ul date mem w = obind (Done w4 ()) (\<lambda>w4 _.
      if rs_hijacked w4 then Panic w4 ''nil pointer dereference''
      else (let w5 = flush_buf mem (if rs_chunking w4 then emit mem CRLF (emit mem (''0'' @ CRLF) w4) else w4);
                closed = (if \<not> rs_closeAfterReply w5
                          then map_option (\<lambda>(rb, _). w5\<lparr>rs_reqBody := rb\<rparr>) (reqBody_Close (rs_reqBody w5))
                          else Some w5)
            in case closed of
                 None \<Rightarrow> Block w5
               | Some w6 \<Rightarrow>
                   Done (if rs_contentLength w6 \<noteq> -1 \<and> rs_contentLength w6 \<noteq> rs_written w6
                         then w6\<lparr>rs_closeAfterReply := True\<rparr> else w6) ()))"
    unfolding finishRequest_def Let_def w2_def [unfolded Let_def, symmetric] using w2(1) s by simp
  show ?thesis unfolding F using w4 rb by (auto simp: emit_mem flush_mem Let_def)
qed

text \<open>The end of a reply under way: what is on the wire, and when the connection is kept.\<close>

lemma replying_finish:
  assumes r: "replying w0 w acc" and f: "finishRequest ul date mem w = Done w' ()"
  shows "(\<exists>ps. concat ps = acc \<and>
      rs_buf w' = rs_buf w0 @ (if rs_needSniff w0 then type_line acc else []) @
        (if rs_chunking w0 then concat (map chunk ps) @ ''0'' @ CRLF @ CRLF else concat ps)) \<and>
    (rs_contentLength w0 = -1 \<or> rs_contentLength w0 = rs_written w \<or> rs_closeAfterReply w')"
proof -
  have h: "rs_wroteHeader w" "\<not> rs_hijacked w" and c: "rs_chunking w = rs_chunking w0"
    and cl: "rs_contentLength w = rs_contentLength w0"
    using r by (auto simp: replying_def)
  have fin: "rs_contentLength w = -1 \<or> rs_contentLength w = rs_written w \<or> rs_closeAfterReply w'"
      "rs_buf w' = rs_buf w @ (if rs_needSniff w then type_line (rs_sniffbuf w) @ piece w (rs_sniffbuf w) else []) @
        (if rs_chunking w then ''0'' @ CRLF @ CRLF else [])"
    using finish_stages [OF h, of ul date] f by auto
  note pc = piece_chunking [OF c]
  have pieces: "concat (map (piece w0) ps) = (if rs_chunking w0 then concat (map chunk ps) else concat ps)" for ps
    by (induction ps) (simp_all add: piece_def)
  obtain ps where "concat ps = acc" "rs_buf w @ (if rs_needSniff w then type_line (rs_sniffbuf w) @ piece w (rs_sniffbuf w) else []) =
      rs_buf w0 @ (if rs_needSniff w0 then type_line acc else []) @ concat (map (piece w0) ps)"
  proof (cases "rs_needSniff w")
    case True
    with r show thesis by (intro that [of "[acc]"]) (auto simp: replying_def pc)
  next
    case False
    with r that show thesis by (auto simp: replying_def)
  qed
  with fin(2) c pieces
  have "\<exists>ps. concat ps = acc \<and>
      rs_buf w' = rs_buf w0 @ (if rs_needSniff w0 then type_line acc else []) @
        (if rs_chunking w0 then concat (map chunk ps) @ ''0'' @ CRLF @ CRLF else concat ps)"
    by (intro exI [of _ ps]) simp
  with fin(1) cl show ?thesis by simp
qed

text \<open>
  C16: A whole reply, from the header over any writes to the end of the request, puts on the wire after
  its header exactly the accepted data: with a line for its sniffed type if it had none, in chunks
  with the final chunk if the reply is chunked. Without a declared length nothing is refused unless a
  body is not allowed, and then everything is; with one, never more than the length is sent, and the
  connection is kept only after exactly that length.
\<close>

theorem reply_on_the_wire:
  assumes "\<not> rs_hijacked w" and "\<not> rs_wroteHeader w" and "rs_sniffbuf w = []" and "rs_written w = 0"
    and "WriteHeader ul date mem code w = Done w0 ()" and "rs_writes ul date mem ds w0 = Done w2 acc"
    and "finishRequest ul date mem w2 = Done w3 ()"
  shows "(\<exists>ps. concat ps = acc \<and>
      rs_buf w3 = rs_buf w0 @ (if rs_needSniff w0 then type_line acc else []) @
        (if rs_chunking w0 then concat (map chunk ps) @ ''0'' @ CRLF @ CRLF else concat ps)) \<and>
    (if \<not> bodyAllowed w0 then acc = []
     else if rs_contentLength w0 = -1 then acc = concat ds
     else acc = [] \<or> int (length acc) \<le> rs_contentLength w0) \<and>
    (rs_contentLength w0 = -1 \<or> rs_contentLength w0 = int (length acc) \<or> rs_closeAfterReply w3)"
proof -
  have r: "replying w0 w2 acc" and all: "bodyAllowed w0 \<and> rs_contentLength w0 = -1 \<longrightarrow> acc = concat ds"
    using writes_replying [OF header_replying [OF assms(5,1-4)], of ul date ds] assms(6) by auto
  note fin = replying_finish [OF r assms(7)]
  have "if \<not> bodyAllowed w0 then acc = []
      else if rs_contentLength w0 = -1 then acc = concat ds
      else acc = [] \<or> int (length acc) \<le> rs_contentLength w0"
    using r all by (auto simp: replying_def)
  moreover have "rs_contentLength w0 = -1 \<or> rs_contentLength w0 = int (length acc) \<or> rs_closeAfterReply w3"
    using fin r by (auto simp: replying_def)
  moreover note fin
  ultimately show ?thesis by blast
qed

definition demo_response :: "string response" where
  "demo_response =
     \<lparr>rs_hijacked = False, rs_buf = [], rs_sniffbuf = [],
      rs_req = \<lparr>req_Method = ''GET'',
        req_URL = \<lparr>url_Scheme = [], url_Opaque = [], url_Host = [], url_Path = ''/'', url_RawQuery = []\<rparr>,
        req_Proto = ''HTTP/1.1'', req_ProtoMajor = 1, req_ProtoMinor = 1, req_Header = [], req_Body = None,
        req_ContentLength = 0, req_TransferEncoding = [], req_Close = False, req_Host = [], req_Trailer = None,
        req_RemoteAddr = [], req_RequestURI = ''/''\<rparr>,
      rs_reqBody = PlainBody (new_body (SrcLimit \<lparr>br_segs = [], br_end = io_EOF\<rparr> 0) False False),
      rs_chunking = False, rs_wroteHeader = False, rs_wroteContinue = False, rs_header = [], rs_written = 0,
      rs_contentLength = -1, rs_status = 0, rs_needSniff = False, rs_closeAfterReply = False,
      rs_requestBodyLimitHit = False\<rparr>"

section \<open>How a reply ends\<close>

text \<open>The fields that decide how the body is delimited, with the header apart from Connection.\<close>

definition framing :: "'s response \<Rightarrow> bool \<times> int \<times> bool \<times> string \<times> string \<times> string \<times> unit Request" where
  "framing w = (rs_chunking w, rs_contentLength w, rs_needSniff w, Get (rs_header w) ''Content-Length'',
     Get (rs_header w) ''Transfer-Encoding'', Get (rs_header w) ''Content-Type'', rs_req w)"

lemma canonical_names:
  "CanonicalHeaderKey ''Content-Length'' = ''Content-Length''" "CanonicalHeaderKey ''Connection'' = ''Connection''"
  "CanonicalHeaderKey ''Transfer-Encoding'' = ''Transfer-Encoding''" "CanonicalHeaderKey ''Date'' = ''Date''"
  "CanonicalHeaderKey ''Content-Type'' = ''Content-Type''"
  by code_simp+

lemma framing_connection: "framing (set_header ''Connection'' v w) = framing w"
  by (simp add: framing_def frame) (simp add: set_header_def Get_Set canonical_names)

lemma framing_stages:
  "framing (keep_alive ul b w) = framing w" "framing (date_header date w) = framing w"
  "framing (emit_header bw code w) = framing w" "rs_closeAfterReply (date_header date w) = rs_closeAfterReply w"
  "rs_closeAfterReply (emit_header bw code w) = rs_closeAfterReply w"
proof -
  have c: "framing (w\<lparr>rs_closeAfterReply := b\<rparr>) = framing w" for b and w :: "'a response" by (simp add: framing_def)
  have e: "framing (emit bw d w) = framing w" for d and w :: "'a response" by (simp add: framing_def frame)
  have b: "framing (w\<lparr>rs_buf := x\<rparr>) = framing w" for x and w :: "'a response" by (simp add: framing_def)
  show "framing (keep_alive ul b w) = framing w" by (simp add: keep_alive_def Let_def c framing_connection)
  show "framing (date_header date w) = framing w"
    by (simp add: date_header_def framing_def frame) (simp add: set_header_def Get_Set canonical_names)
  show "framing (emit_header bw code w) = framing w"
    by (simp add: emit_header_def Let_def framing_connection e b)
  show "rs_closeAfterReply (date_header date w) = rs_closeAfterReply w" by (simp add: date_header_def frame)
  show "rs_closeAfterReply (emit_header bw code w) = rs_closeAfterReply w"
    by (simp add: emit_header_def Let_def frame)
qed

lemma framing_consume: "consume_body w = Some w' \<Longrightarrow> framing w' = framing w"
  by (auto simp: consume_body_def requestTooLarge_def Let_def framing_connection split: if_splits option.splits)
    (simp_all add: framing_def)

lemma ParseInt_Nil: "ParseInt [] = None"
  by (simp add: ParseInt_def ParseUint_def)

lemma framing_declared:
  assumes "declared_length w = (w1, cl)"
  shows "rs_chunking w1 = rs_chunking w" "rs_contentLength w1 = rs_contentLength w" "rs_needSniff w1 = rs_needSniff w"
    "rs_req w1 = rs_req w" "Get (rs_header w1) ''Content-Type'' = Get (rs_header w) ''Content-Type''"
    "cl = Some n \<Longrightarrow> ParseInt (Get (rs_header w1) ''Content-Length'') = Some n"
    "cl = None \<Longrightarrow> Get (rs_header w1) ''Content-Length'' = []"
    "cl \<noteq> None \<Longrightarrow> Get (rs_header w1) ''Content-Length'' = Get (rs_header w) ''Content-Length''"
  using assms by (auto simp: declared_length_def frame Let_def Get_Del canonical_names del_header_def split: if_splits option.splits)

lemma choose_framing_cases:
  assumes "\<not> rs_chunking w" and "rs_contentLength w = -1" and "code \<noteq> 304" and "req_Method (rs_req w) \<noteq> ''HEAD''"
    and "case cl of Some n \<Rightarrow> ParseInt (Get (rs_header w) ''Content-Length'') = Some n
      | None \<Rightarrow> Get (rs_header w) ''Content-Length'' = []"
  defines "w' \<equiv> choose_framing code cl w"
  shows "rs_chunking w' \<and> rs_contentLength w' = -1 \<and> ProtoAtLeast (rs_req w) 1 1 \<and>
      Get (rs_header w') ''Transfer-Encoding'' = ''chunked'' \<and> Get (rs_header w') ''Content-Length'' = [] \<or>
    \<not> rs_chunking w' \<and> Get (rs_header w') ''Transfer-Encoding'' = [] \<and>
      Get (rs_header w') ''Content-Length'' = Get (rs_header w) ''Content-Length'' \<and>
      ParseInt (Get (rs_header w') ''Content-Length'') = Some (rs_contentLength w') \<or>
    \<not> rs_chunking w' \<and> rs_contentLength w' = -1 \<and> rs_closeAfterReply w' \<and> \<not> ProtoAtLeast (rs_req w) 1 1 \<and>
      Get (rs_header w') ''Transfer-Encoding'' = [] \<and> Get (rs_header w') ''Content-Length'' = []"
proof -
  let ?te = "Get (rs_header w) ''Transfer-Encoding''"
  consider (length) n where "cl = Some n" "?te = [] \<or> ?te = ''identity''" | (none) "cl = None"
    | (both) "cl \<noteq> None" "?te \<noteq> []" "?te \<noteq> ''identity''"
    by (cases cl) auto
  then show ?thesis
  proof cases
    case (length n)
    with assms show ?thesis
      by (auto simp: w'_def choose_framing_def Let_def frame set_header_def del_header_def Get_Set Get_Del canonical_names)
  next
    case none
    with assms show ?thesis
      by (auto simp: w'_def choose_framing_def Let_def frame set_header_def del_header_def Get_Set Get_Del canonical_names)
  next
    case both
    with assms show ?thesis
      by (auto simp: w'_def choose_framing_def Let_def frame set_header_def del_header_def Get_Set Get_Del canonical_names)
  qed
qed

lemma header_framing:
  assumes "WriteHeader ul date bw code w = Done w' ()" and "\<not> rs_hijacked w" and "\<not> rs_wroteHeader w"
    and "\<not> rs_chunking w" and "rs_contentLength w = -1" and "\<not> rs_needSniff w" and "bodyAllowed w'"
  shows "(rs_chunking w' \<and> rs_contentLength w' = -1 \<and> ProtoAtLeast (rs_req w) 1 1 \<and>
      Get (rs_header w') ''Transfer-Encoding'' = ''chunked'' \<and> Get (rs_header w') ''Content-Length'' = [] \<or>
    \<not> rs_chunking w' \<and> Get (rs_header w') ''Transfer-Encoding'' = [] \<and>
      Get (rs_header w') ''Content-Length'' = Get (rs_header w) ''Content-Length'' \<and>
      ParseInt (Get (rs_header w') ''Content-Length'') = Some (rs_contentLength w') \<or>
    \<not> rs_chunking w' \<and> rs_contentLength w' = -1 \<and> rs_closeAfterReply w' \<and> \<not> ProtoAtLeast (rs_req w) 1 1 \<and>
      Get (rs_header w') ''Transfer-Encoding'' = [] \<and> Get (rs_header w') ''Content-Length'' = []) \<and>
    (rs_needSniff w' \<longleftrightarrow> Get (rs_header w) ''Content-Type'' = [])"
proof -
  let ?w = "w\<lparr>rs_wroteHeader := True, rs_status := code\<rparr>"
  have b: "code \<noteq> 304" "req_Method (rs_req w) \<noteq> ''HEAD''"
    using WriteHeader_core [OF assms(1-3)] assms(7) by (auto simp: core_def bodyAllowed_def)
  obtain w1 cl where d: "declared_length ?w = (w1, cl)" by (rule prod.exhaust)
  obtain w2 where c: "consume_body (keep_alive ul (cl \<noteq> None) w1) = Some w2" using consume_body_returns by blast
  note f = framing_declared [OF d]
  have f2: "framing w2 = framing w1" using framing_consume [OF c] by (simp add: framing_stages)
  define w3 where "w3 = date_header date (content_headers code w2)"
  have f3: "rs_chunking w3 = rs_chunking w1 \<and> rs_contentLength w3 = rs_contentLength w1 \<and> rs_req w3 = rs_req w1 \<and>
      Get (rs_header w3) ''Content-Length'' = Get (rs_header w1) ''Content-Length'' \<and>
      (rs_needSniff w3 \<longleftrightarrow> rs_needSniff w1 \<or> Get (rs_header w1) ''Content-Type'' = [])"
    using f2 framing_stages(2) [of date "content_headers code w2"] b f(4)
    by (auto simp: w3_def framing_def content_headers_def split: if_splits)
  define w4 where "w4 = choose_framing code cl w3"
  have w': "w' = emit_header bw code w4" using assms(1-3) d c by (simp add: WriteHeader_def w3_def w4_def)
  have "case cl of Some n \<Rightarrow> ParseInt (Get (rs_header w3) ''Content-Length'') = Some n
      | None \<Rightarrow> Get (rs_header w3) ''Content-Length'' = []"
    using f3 f(6,7) by (cases cl) auto
  then have cases4: "rs_chunking w4 \<and> rs_contentLength w4 = -1 \<and> ProtoAtLeast (rs_req w3) 1 1 \<and>
      Get (rs_header w4) ''Transfer-Encoding'' = ''chunked'' \<and> Get (rs_header w4) ''Content-Length'' = [] \<or>
    \<not> rs_chunking w4 \<and> Get (rs_header w4) ''Transfer-Encoding'' = [] \<and>
      Get (rs_header w4) ''Content-Length'' = Get (rs_header w3) ''Content-Length'' \<and>
      ParseInt (Get (rs_header w4) ''Content-Length'') = Some (rs_contentLength w4) \<or>
    \<not> rs_chunking w4 \<and> rs_contentLength w4 = -1 \<and> rs_closeAfterReply w4 \<and> \<not> ProtoAtLeast (rs_req w3) 1 1 \<and>
      Get (rs_header w4) ''Transfer-Encoding'' = [] \<and> Get (rs_header w4) ''Content-Length'' = []"
    unfolding w4_def using f3 f(1,2,4) assms(4,5) b by (intro choose_framing_cases) simp_all
  have n4: "rs_needSniff w4 = rs_needSniff w3"
    by (simp add: w4_def choose_framing_def Let_def frame split: option.split)
  have "framing w' = framing w4" "rs_closeAfterReply w' = rs_closeAfterReply w4" by (simp_all add: w' framing_stages)
  moreover have "Get (rs_header w1) ''Content-Length'' = [] \<or>
      Get (rs_header w1) ''Content-Length'' = Get (rs_header w) ''Content-Length''"
    using f(7,8) by (cases cl) auto
  ultimately have eqs: "rs_chunking w' = rs_chunking w4" "rs_contentLength w' = rs_contentLength w4"
      "Get (rs_header w') ''Transfer-Encoding'' = Get (rs_header w4) ''Transfer-Encoding''"
      "Get (rs_header w') ''Content-Length'' = Get (rs_header w4) ''Content-Length''"
      "rs_needSniff w' = rs_needSniff w4" "rs_closeAfterReply w' = rs_closeAfterReply w4" "rs_req w3 = rs_req w"
      "Get (rs_header w3) ''Content-Length'' = [] \<or> Get (rs_header w3) ''Content-Length'' = Get (rs_header w) ''Content-Length''"
    using f3 f(4) by (auto simp: framing_def)
  have sn: "rs_needSniff w4 \<longleftrightarrow> Get (rs_header w) ''Content-Type'' = []"
    using n4 f3 f(3,5) assms(6) by simp
  have cl: "Get (rs_header w4) ''Content-Length'' = Get (rs_header w) ''Content-Length''"
    if "ParseInt (Get (rs_header w4) ''Content-Length'') = Some n"
      "Get (rs_header w4) ''Content-Length'' = Get (rs_header w3) ''Content-Length''" for n
    using eqs(8) that by (metis ParseInt_Nil option.distinct(1))
  show ?thesis using cases4 cl unfolding eqs(1-7) sn by blast
qed

text \<open>
  The header on the wire: the status line and the fields; the server changes only those that are its own.
\<close>

definition managed :: "string set" where
  "managed = {''Connection'', ''Content-Length'', ''Date'', ''Transfer-Encoding''}"

definition field :: "string \<Rightarrow> 's response \<Rightarrow> string list option" where
  "field j w = gomap_get (rs_header w) j"

lemma field_frame:
  "j \<noteq> CanonicalHeaderKey k \<Longrightarrow> field j (set_header k v w) = field j w"
  "j \<noteq> CanonicalHeaderKey k \<Longrightarrow> field j (del_header k w) = field j w"
  "field j (emit bw d w) = field j w"
  by (auto simp: field_def set_header_def del_header_def Set_def Del_def emit_def gomap_simps)

lemma field_stages:
  assumes "j \<notin> managed"
  shows "field j (fst (declared_length w)) = field j w" "field j (keep_alive ul b w) = field j w"
    "code \<noteq> 304 \<Longrightarrow> field j (content_headers code w) = field j w" "field j (date_header date w) = field j w"
    "field j (choose_framing code cl w) = field j w" "field j (emit_header bw code w) = field j w"
    "consume_body w = Some w' \<Longrightarrow> field j w' = field j w"
proof -
  note own = assms [unfolded managed_def, simplified]
  have keep: "field j (w\<lparr>rs_closeAfterReply := b\<rparr>) = field j w" "field j (w\<lparr>rs_needSniff := b\<rparr>) = field j w"
    "field j (w\<lparr>rs_contentLength := n\<rparr>) = field j w" "field j (w\<lparr>rs_chunking := b\<rparr>) = field j w"
    "field j (w\<lparr>rs_buf := s\<rparr>) = field j w" "field j (w\<lparr>rs_reqBody := rb\<rparr>) = field j w"
    "field j (w\<lparr>rs_requestBodyLimitHit := b\<rparr>) = field j w"
    for b n s rb and w :: "'a response" by (simp_all add: field_def)
  note go = field_frame keep own canonical_names Let_def
  show "field j (fst (declared_length w)) = field j w"
    by (simp add: declared_length_def go split: option.split)
  show "field j (keep_alive ul b w) = field j w" by (simp add: keep_alive_def go)
  show "field j (content_headers code w) = field j w" if "code \<noteq> 304" using that by (simp add: content_headers_def go)
  show "field j (date_header date w) = field j w" by (simp add: date_header_def go)
  show "field j (choose_framing code cl w) = field j w" by (simp add: choose_framing_def go split: option.split)
  show "field j (emit_header bw code w) = field j w" by (simp add: emit_header_def go)
  show "consume_body w = Some w' \<Longrightarrow> field j w' = field j w"
    by (auto simp: consume_body_def requestTooLarge_def go split: if_splits option.splits)
qed

lemma buf_stages:
  "rs_buf (fst (declared_length w)) = rs_buf w" "rs_buf (keep_alive ul b w) = rs_buf w"
  "rs_buf (content_headers code w) = rs_buf w" "rs_buf (date_header date w) = rs_buf w"
  "rs_buf (choose_framing code cl w) = rs_buf w" "consume_body w = Some w' \<Longrightarrow> rs_buf w' = rs_buf w"
proof -
  have drop: "rs_buf (drop_if_set k w) = rs_buf w" for k and w :: "'a response" by (simp add: drop_if_set_def frame)
  show "rs_buf (fst (declared_length w)) = rs_buf w" by (simp add: declared_length_def frame Let_def split: option.split)
  show "rs_buf (keep_alive ul b w) = rs_buf w" by (simp add: keep_alive_def frame Let_def)
  show "rs_buf (content_headers code w) = rs_buf w" by (simp add: content_headers_def drop)
  show "rs_buf (date_header date w) = rs_buf w" by (simp add: date_header_def frame)
  show "rs_buf (choose_framing code cl w) = rs_buf w" by (simp add: choose_framing_def frame Let_def split: option.split)
  show "consume_body w = Some w' \<Longrightarrow> rs_buf w' = rs_buf w"
    by (auto simp: consume_body_def requestTooLarge_def frame Let_def split: if_splits option.splits)
qed

definition header_text :: "header \<Rightarrow> string" where
  "header_text h = concat (subset_lines h (\<lambda>k. False))"

lemma emit_header_mem:
  fixes code :: int
  assumes "ProtoAtLeast (rs_req w) 1 0"
  defines "w' \<equiv> emit_header mem code w"
  shows "rs_buf w' = rs_buf w @ status_line code w @ header_text (rs_header w') @ (if rs_needSniff w' then [] else CRLF)"
  using assms(1)
  by (simp add: w'_def emit_header_def emit_mem frame Let_def Write_def WriteSubset_def header_text_def status_line_def
      mem_def [THEN arg_cong, of bw_Write])

lemma header_on_the_wire:
  assumes "WriteHeader ul date mem code w = Done w' ()" and "\<not> rs_hijacked w" and "\<not> rs_wroteHeader w"
    and "ProtoAtLeast (rs_req w) 1 0"
  shows "rs_buf w' = rs_buf w @ status_line code w @ header_text (rs_header w') @ (if rs_needSniff w' then [] else CRLF)"
    and "code \<noteq> 304 \<Longrightarrow> j \<notin> managed \<Longrightarrow> gomap_get (rs_header w') j = gomap_get (rs_header w) j"
proof -
  let ?w = "w\<lparr>rs_wroteHeader := True, rs_status := code\<rparr>"
  obtain w1 cl where d: "declared_length ?w = (w1, cl)" by (rule prod.exhaust)
  obtain w2 where c: "consume_body (keep_alive ul (cl \<noteq> None) w1) = Some w2" using consume_body_returns by blast
  define w4 where "w4 = choose_framing code cl (date_header date (content_headers code w2))"
  have w': "w' = emit_header mem code w4" using assms(1-3) d c by (simp add: WriteHeader_def w4_def)
  have "core w4 = core ?w"
    using core_stages(1) [of ?w] core_consume [OF c] d by (simp add: w4_def core_stages)
  then have r: "rs_req w4 = rs_req w" by (simp add: core_def)
  have "rs_buf w4 = rs_buf w" using buf_stages(1) [of ?w] buf_stages(6) [OF c] d by (simp add: w4_def buf_stages(2-5))
  moreover have "status_line code w4 = status_line code w" by (simp add: status_line_def r)
  ultimately show "rs_buf w' = rs_buf w @ status_line code w @ header_text (rs_header w') @ (if rs_needSniff w' then [] else CRLF)"
    using emit_header_mem [of w4 code] assms(4) r by (simp add: w')
  assume "code \<noteq> 304" and j: "j \<notin> managed"
  then have "field j w' = field j ?w"
    using field_stages(1) [OF j, of ?w] field_stages(7) [OF j c] d by (simp add: w' w4_def field_stages(2-6) [OF j])
  then show "gomap_get (rs_header w') j = gomap_get (rs_header w) j" by (simp add: field_def)
qed

text \<open>
  C17: The header of a reply that may have a body says in exactly one way where the body ends: chunked, for
  HTTP/1.1, and then without a length; a Content-Length with the number of bytes to send, and then
  without a transfer encoding; or neither, for an older client, and then the connection is closed. A
  type is sniffed exactly if the handler set none.
\<close>

theorem reply_framing:
  assumes "WriteHeader ul date bw code w = Done w' ()" and "\<not> rs_hijacked w" and "\<not> rs_wroteHeader w"
    and "\<not> rs_chunking w" and "rs_contentLength w = -1" and "\<not> rs_needSniff w" and "bodyAllowed w'"
  shows "(rs_chunking w' \<and> rs_contentLength w' = -1 \<and> ProtoAtLeast (rs_req w) 1 1 \<and>
      Get (rs_header w') ''Transfer-Encoding'' = ''chunked'' \<and> Get (rs_header w') ''Content-Length'' = [] \<or>
    \<not> rs_chunking w' \<and> Get (rs_header w') ''Transfer-Encoding'' = [] \<and>
      Get (rs_header w') ''Content-Length'' = Get (rs_header w) ''Content-Length'' \<and>
      ParseInt (Get (rs_header w') ''Content-Length'') = Some (rs_contentLength w') \<or>
    \<not> rs_chunking w' \<and> rs_contentLength w' = -1 \<and> rs_closeAfterReply w' \<and> \<not> ProtoAtLeast (rs_req w) 1 1 \<and>
      Get (rs_header w') ''Transfer-Encoding'' = [] \<and> Get (rs_header w') ''Content-Length'' = []) \<and>
    (rs_needSniff w' \<longleftrightarrow> Get (rs_header w) ''Content-Type'' = [])"
  using assms by (rule header_framing)

lemma demo_fresh:
  "\<not> rs_hijacked demo_response" "\<not> rs_wroteHeader demo_response" "\<not> rs_chunking demo_response"
  "rs_contentLength demo_response = -1" "\<not> rs_needSniff demo_response" "rs_header demo_response = []"
  "ProtoAtLeast (rs_req demo_response) 1 1" "req_Method (rs_req demo_response) = ''GET''"
  by (simp_all add: demo_response_def ProtoAtLeast_def)

lemma demo_allowed: "WriteHeader ul date bw 200 demo_response = Done w0 () \<Longrightarrow> bodyAllowed w0"
  using WriteHeader_core [of ul date bw 200 demo_response w0] demo_fresh by (simp add: core_def bodyAllowed_def)

theorem reply_framing_witness:
  "\<exists>w'. WriteHeader (\<lambda>s. s) ''now'' mem 200 demo_response = Done w' () \<and> rs_chunking w' \<and> rs_needSniff w' \<and>
    Get (rs_header w') ''Transfer-Encoding'' = ''chunked''"
proof -
  obtain w' where w': "WriteHeader (\<lambda>s. s) ''now'' mem 200 demo_response = Done w' ()"
    using WriteHeader_returns by blast
  from reply_framing [OF w' demo_fresh(1-5) demo_allowed [OF w']] w' demo_fresh show ?thesis
    by (auto simp: Get_def ParseInt_Nil)
qed

lemma sent_header:
  assumes "WriteHeader (\<lambda>s. s) ''now'' mem 200 demo_response = Done w0 ()"
  shows "rs_chunking w0 \<and> rs_needSniff w0 \<and> rs_contentLength w0 = -1 \<and> bodyAllowed w0"
  using header_framing [OF assms demo_fresh(1-5) demo_allowed [OF assms]] demo_allowed [OF assms] demo_fresh
  by (auto simp: Get_def ParseInt_Nil)

theorem reply_on_the_wire_witness:
  "\<exists>w0 w2 w3 ps. WriteHeader (\<lambda>s. s) ''now'' mem 200 demo_response = Done w0 () \<and>
    rs_writes (\<lambda>s. s) ''now'' mem [''hello'', '' world''] w0 = Done w2 ''hello world'' \<and>
    finishRequest (\<lambda>s. s) ''now'' mem w2 = Done w3 () \<and> concat ps = ''hello world'' \<and>
    rs_buf w3 = rs_buf w0 @ type_line ''hello world'' @ concat (map chunk ps) @ ''0'' @ CRLF @ CRLF"
proof -
  let ?ul = "\<lambda>s :: string. s" and ?ds = "[''hello'', '' world'']"
  obtain w0 where w0: "WriteHeader ?ul ''now'' mem 200 demo_response = Done w0 ()"
    using WriteHeader_returns by blast
  have d: "\<not> rs_hijacked demo_response" "\<not> rs_wroteHeader demo_response" "rs_sniffbuf demo_response = []"
      "rs_written demo_response = 0"
    by (simp_all add: demo_response_def)
  have f: "rs_chunking w0" "rs_needSniff w0" "rs_contentLength w0 = -1" "bodyAllowed w0"
    using sent_header [OF w0] by auto
  obtain w2 acc where w2: "rs_writes ?ul ''now'' mem ?ds w0 = Done w2 acc" "replying w0 w2 acc"
    using writes_replying [OF header_replying [OF w0 d], of ?ul "''now''" ?ds] by auto
  then have "rs_wroteHeader w2" "\<not> rs_hijacked w2" by (auto simp: replying_def)
  then obtain w3 where w3: "finishRequest ?ul ''now'' mem w2 = Done w3 ()" using finish_stages by blast
  from reply_on_the_wire [OF d w0 w2(1) w3] w0 w2(1) w3 f show ?thesis by auto
qed

end
