(* ===== verification/HttpMsg.thy ===== *)
theory HttpMsg
  imports Framing Status Cookie
begin

text \<open>
  Reading and writing whole messages: \<open>Write\<close>, \<open>NewRequest\<close> and \<open>ReadRequest\<close> of \<open>http/request.go\<close>,
  \<open>Write\<close>, \<open>ReadResponse\<close> and \<open>Location\<close> of \<open>http/response.go\<close>. What is used of package \<open>net/url\<close> is
  the record \<open>url_lib\<close>. A \<open>bufio.Writer\<close> is an arbitrary writer with a flush. The URL of a request is
  not nil.
\<close>

record url_lib =
  u_Parse :: "string \<Rightarrow> error + URL"
  u_ParseRequestURI :: "string \<Rightarrow> error + URL"
  u_RequestURI :: "URL \<Rightarrow> string"
  u_Resolve :: "URL \<Rightarrow> string \<Rightarrow> error + URL"

definition ToUpper :: "(string \<Rightarrow> string) \<Rightarrow> string \<Rightarrow> string" where
  "ToUpper uu s = (if list_all is_ascii s then map upper_byte s else uu s)"

section \<open>Writing a request\<close>

definition reqWriteExcludeHeader :: "string \<Rightarrow> bool" where
  "reqWriteExcludeHeader k \<longleftrightarrow>
     k \<in> set [''Host'', ''User-Agent'', ''Content-Length'', ''Transfer-Encoding'', ''Trailer'']"

definition defaultUserAgent :: string where
  "defaultUserAgent = ''Go http package''"

definition write_host :: "'b Request \<Rightarrow> string" where
  "write_host req = (if req_Host req = [] then url_Host (req_URL req) else req_Host req)"

definition write_uri :: "url_lib \<Rightarrow> bool \<Rightarrow> 'b Request \<Rightarrow> string" where
  "write_uri U usingProxy req =
     (let u = req_URL req; ruri = u_RequestURI U u
      in if usingProxy \<and> url_Scheme u \<noteq> [] \<and> url_Opaque u = [] then url_Scheme u @ ''://'' @ write_host req @ ruri
         else if req_Method req = ''CONNECT'' \<and> url_Path u = [] then write_host req
         else ruri)"

definition write_agent :: "header \<Rightarrow> string" where
  "write_agent h = (case gomap_get h ''User-Agent'' of Some (ua # _) \<Rightarrow> ua | _ \<Rightarrow> defaultUserAgent)"

definition request_line :: "url_lib \<Rightarrow> bool \<Rightarrow> 'b Request \<Rightarrow> string" where
  "request_line U usingProxy req =
     valueOrDefault (req_Method req) ''GET'' @ '' '' @ write_uri U usingProxy req @ '' HTTP/1.1'' @ CRLF"

text \<open>\<open>None\<close> is a copy of the body that has not ended.\<close>

definition req_write ::
  "url_lib \<Rightarrow> 's writer \<Rightarrow> ('s \<Rightarrow> 's \<times> error option) \<Rightarrow> bool \<Rightarrow> header option \<Rightarrow> user_body Request \<Rightarrow> 's \<Rightarrow>
   ('s \<times> error option) option" where
  "req_write U w flush usingProxy extraHeaders req s =
     (let s1 = put w s (request_line U usingProxy req);
          s2 = put w s1 (''Host: '' @ write_host req @ CRLF);
          userAgent = write_agent (req_Header req);
          s3 = (if userAgent \<noteq> [] then put w s2 (''User-Agent: '' @ userAgent @ CRLF) else s2)
      in case newTransferWriter (MRequest req) of
           Inl e \<Rightarrow> Some (s3, Some e)
         | Inr tw \<Rightarrow>
             (case tw_WriteHeader tw w s3 of
                (s4, Some e) \<Rightarrow> Some (s4, Some e)
              | (s4, None) \<Rightarrow>
                  (case WriteSubset w s4 (req_Header req) reqWriteExcludeHeader of
                     (s5, Some e) \<Rightarrow> Some (s5, Some e)
                   | (s5, None) \<Rightarrow>
                       (case (case extraHeaders of None \<Rightarrow> (s5, None) | Some eh \<Rightarrow> Write w s5 eh) of
                          (s6, Some e) \<Rightarrow> Some (s6, Some e)
                        | (s6, None) \<Rightarrow>
                            (case tw_WriteBody tw w (put w s6 CRLF) of
                               None \<Rightarrow> None
                             | Some (s7, Some e) \<Rightarrow> Some (s7, Some e)
                             | Some (s7, None) \<Rightarrow> Some (flush s7))))))"

definition req_Write where "req_Write U w flush req s = req_write U w flush False None req s"
definition req_WriteProxy where "req_WriteProxy U w flush req s = req_write U w flush True None req s"

text \<open>
  \<open>NewRequest\<close>: the body with the result of its \<open>Close\<close>, where it has one, and its length, where it is
  a \<open>strings.Reader\<close> or a \<open>bytes.Buffer\<close>.
\<close>

definition NewRequest ::
  "url_lib \<Rightarrow> string \<Rightarrow> string \<Rightarrow> (bufreader \<times> error option \<times> nat option) option \<Rightarrow> error + user_body Request" where
  "NewRequest U meth urlStr bdy =
     (case u_Parse U urlStr of
        Inl e \<Rightarrow> Inl e
      | Inr u \<Rightarrow>
          Inr \<lparr>req_Method = meth, req_URL = u, req_Proto = ''HTTP/1.1'', req_ProtoMajor = 1, req_ProtoMinor = 1,
               req_Header = [], req_Body = map_option (\<lambda>(r, c, _). \<lparr>ub_reader = r, ub_close = c\<rparr>) bdy,
               req_ContentLength = (case bdy of Some (_, _, Some n) \<Rightarrow> int n | _ \<Rightarrow> 0),
               req_TransferEncoding = [], req_Close = False, req_Host = url_Host u, req_Trailer = None,
               req_RemoteAddr = [], req_RequestURI = []\<rparr>)"

section \<open>Reading a request\<close>

definition fixPragmaCacheControl :: "header \<Rightarrow> header" where
  "fixPragmaCacheControl h =
     (case gomap_get h ''Pragma'' of
        Some (p # _) \<Rightarrow>
          if p = ''no-cache'' \<and> gomap_get h ''Cache-Control'' = None then gomap_set ''Cache-Control'' [''no-cache''] h else h
      | _ \<Rightarrow> h)"

text \<open>The deferred function turns the end of the input after the first line into an error of its own.\<close>

definition unexpected :: "error \<Rightarrow> error" where
  "unexpected e = (if e = io_EOF then io_ErrUnexpectedEOF else e)"

text \<open>The request line.\<close>

definition parse_request_line :: "url_lib \<Rightarrow> string \<Rightarrow> error + string \<times> string \<times> string \<times> int \<times> int \<times> URL" where
  "parse_request_line U s =
     (let f = SplitN 3 (CHR '' '') s
      in if length f < 3 then Inl (badStringError ''malformed HTTP request'' s)
         else (case ParseHTTPVersion (f ! 2) of (major, minor, ok) \<Rightarrow>
                 if \<not> ok then Inl (badStringError ''malformed HTTP version'' (f ! 2))
                 else (let justAuthority = (f ! 0 = ''CONNECT'' \<and> \<not> HasPrefix (f ! 1) ''/'')
                       in case u_ParseRequestURI U (if justAuthority then ''http://'' @ f ! 1 else f ! 1) of
                            Inl e \<Rightarrow> Inl e
                          | Inr u \<Rightarrow>
                              Inr (f ! 0, f ! 1, f ! 2, major, minor, if justAuthority then u\<lparr>url_Scheme := []\<rparr> else u))))"

text \<open>\<open>None\<close> is the panic of \<open>readTransfer\<close>.\<close>

definition ReadRequest ::
  "(string \<Rightarrow> string) \<Rightarrow> url_lib \<Rightarrow> bufreader \<Rightarrow> (error + body Request) option" where
  "ReadRequest ul U b =
     (case tp_ReadLine b of
        (b1, Inl e) \<Rightarrow> Some (Inl e)
      | (b1, Inr s) \<Rightarrow>
          (case parse_request_line U s of
             Inl e \<Rightarrow> Some (Inl (unexpected e))
           | Inr (meth, uri, proto, major, minor, u) \<Rightarrow>
               (case ReadMIMEHeader b1 of
                  (b2, h, Some e) \<Rightarrow> Some (Inl (unexpected e))
                | (b2, h, None) \<Rightarrow>
                    (let host = (if url_Host u = [] then Get h ''Host'' else url_Host u);
                         h1 = fixPragmaCacheControl (Del h ''Host'');
                         req = \<lparr>req_Method = meth, req_URL = u, req_Proto = proto, req_ProtoMajor = major,
                           req_ProtoMinor = minor, req_Header = h1, req_Body = None, req_ContentLength = 0,
                           req_TransferEncoding = [], req_Close = False, req_Host = host, req_Trailer = None,
                           req_RemoteAddr = [], req_RequestURI = uri\<rparr>
                     in case readTransfer ul (MRequest req) b2 of
                          None \<Rightarrow> None
                        | Some (Inl e) \<Rightarrow> Some (Inl (unexpected e))
                        | Some (Inr (MRequest r)) \<Rightarrow> Some (Inr r)
                        | Some (Inr (MResponse r)) \<Rightarrow> None))))"

section \<open>Responses\<close>

definition respExcludeHeader :: "string \<Rightarrow> bool" where
  "respExcludeHeader k \<longleftrightarrow> k \<in> set [''Content-Length'', ''Transfer-Encoding'', ''Trailer'']"

definition resp_Cookies :: "(string \<Rightarrow> string) \<Rightarrow> 't time_lib \<Rightarrow> 'b Response \<Rightarrow> 't Cookie list" where
  "resp_Cookies ul tm r = readSetCookies ul tm (resp_Header r)"

definition ErrNoLocation :: error where
  "ErrNoLocation = ''http: no Location header in response''"

text \<open>\<open>requ\<close> is the URL of the response's request, where it has one.\<close>

definition Location :: "url_lib \<Rightarrow> URL option \<Rightarrow> 'b Response \<Rightarrow> error + URL" where
  "Location U requ r =
     (let lv = Get (resp_Header r) ''Location''
      in if lv = [] then Inl ErrNoLocation
         else (case requ of Some u \<Rightarrow> u_Resolve U u lv | None \<Rightarrow> u_Parse U lv))"

definition ReadResponse ::
  "(string \<Rightarrow> string) \<Rightarrow> (string \<Rightarrow> string) \<Rightarrow> bufreader \<Rightarrow> string \<Rightarrow> (error + body Response) option" where
  "ReadResponse ul uu r reqMethod =
     (let meth = ToUpper uu reqMethod
      in case tp_ReadLine r of
        (r1, Inl e) \<Rightarrow> Some (Inl (unexpected e))
      | (r1, Inr line) \<Rightarrow>
          (let f = SplitN 3 (CHR '' '') line
           in if length f < 2 then Some (Inl (badStringError ''malformed HTTP response'' line))
              else (case Atoi (f ! 1) of
                      None \<Rightarrow> Some (Inl (badStringError ''malformed HTTP status code'' (f ! 1)))
                    | Some code \<Rightarrow>
                        (case ParseHTTPVersion (f ! 0) of (major, minor, ok) \<Rightarrow>
                           if \<not> ok then Some (Inl (badStringError ''malformed HTTP version'' (f ! 0)))
                           else (case ReadMIMEHeader r1 of
                                   (r2, h, Some e) \<Rightarrow> Some (Inl e)
                                 | (r2, h, None) \<Rightarrow>
                                     (let resp = \<lparr>resp_Status = f ! 1 @ '' '' @ (if 2 < length f then f ! 2 else []),
                                        resp_StatusCode = code, resp_Proto = f ! 0, resp_ProtoMajor = major,
                                        resp_ProtoMinor = minor, resp_Header = fixPragmaCacheControl h, resp_Body = None,
                                        resp_ContentLength = 0, resp_TransferEncoding = [], resp_Close = False,
                                        resp_Trailer = None, resp_Method = Some meth\<rparr>
                                      in case readTransfer ul (MResponse resp) r2 of
                                           None \<Rightarrow> None
                                         | Some (Inl e) \<Rightarrow> Some (Inl e)
                                         | Some (Inr (MResponse rr)) \<Rightarrow> Some (Inr rr)
                                         | Some (Inr (MRequest rr)) \<Rightarrow> None))))))"

definition response_line :: "'b Response \<Rightarrow> string" where
  "response_line r =
     (let text = (if resp_Status r = []
                  then (case gomap_get statusText (resp_StatusCode r) of
                          Some t \<Rightarrow> t | None \<Rightarrow> ''status code '' @ Itoa (resp_StatusCode r))
                  else resp_Status r);
          statusCode = Itoa (resp_StatusCode r) @ '' '';
          text' = (if HasPrefix text statusCode then drop (length statusCode) text else text)
      in ''HTTP/'' @ Itoa (resp_ProtoMajor r) @ ''.'' @ Itoa (resp_ProtoMinor r) @ '' '' @ statusCode @ text' @ CRLF)"

definition resp_Write ::
  "(string \<Rightarrow> string) \<Rightarrow> 's writer \<Rightarrow> user_body Response \<Rightarrow> 's \<Rightarrow> ('s \<times> error option) option" where
  "resp_Write uu w r0 s =
     (let r = r0\<lparr>resp_Method := map_option (ToUpper uu) (resp_Method r0)\<rparr>;
          s1 = put w s (response_line r)
      in case newTransferWriter (MResponse r) of
           Inl e \<Rightarrow> Some (s1, Some e)
         | Inr tw \<Rightarrow>
             (case tw_WriteHeader tw w s1 of
                (s2, Some e) \<Rightarrow> Some (s2, Some e)
              | (s2, None) \<Rightarrow>
                  (case WriteSubset w s2 (resp_Header r) respExcludeHeader of
                     (s3, Some e) \<Rightarrow> Some (s3, Some e)
                   | (s3, None) \<Rightarrow> tw_WriteBody tw w (put w s3 CRLF))))"

end
