(* ===== verification/Messages.thy ===== *)
theory Messages
  imports HttpMsg
begin

text \<open>
  What a message carries: a header that is written line by line is the header that is read, and a
  request that is written is the request that is read.
\<close>

section \<open>Header lines\<close>

lemma CRLF_bytes: "CRLF = [CR, LF]"
  by code_simp

definition clean_value :: "string \<Rightarrow> bool" where
  "clean_value v \<longleftrightarrow> CR \<notin> set v \<and> LF \<notin> set v \<and> (v \<noteq> [] \<longrightarrow> \<not> is_blank (hd v) \<and> \<not> is_blank (last v))"

definition clean_key :: "string \<Rightarrow> bool" where
  "clean_key k \<longleftrightarrow> k \<noteq> [] \<and> list_all valid_field_byte k \<and> CanonicalHeaderKey k = k"

definition mime_line :: "string \<times> string \<Rightarrow> string" where
  "mime_line kv = fst kv @ '': '' @ snd kv @ CRLF"

lemma valid_field_plain: "valid_field_byte c \<Longrightarrow> c \<noteq> CHR '':'' \<and> \<not> is_blank c \<and> c \<noteq> CR \<and> c \<noteq> LF"
proof -
  have "\<not> valid_field_byte (CHR '':'')" "\<not> valid_field_byte (CHR '' '')" "\<not> valid_field_byte CHR 0x09"
      "\<not> valid_field_byte CR" "\<not> valid_field_byte LF"
    by code_simp+
  then show "valid_field_byte c \<Longrightarrow> ?thesis" by (auto simp: is_blank_def)
qed

lemma clean_key_bytes: "clean_key k \<Longrightarrow> c \<in> set k \<Longrightarrow> c \<noteq> CHR '':'' \<and> \<not> is_blank c \<and> c \<noteq> CR \<and> c \<noteq> LF"
  by (auto simp: clean_key_def list_all_iff dest: valid_field_plain)

text \<open>Reading a line: up to the line feed, without the carriage return.\<close>

lemma tp_ReadLine_line:
  assumes "br_rest r = l @ CRLF @ rest" and "LF \<notin> set l"
  shows "\<exists>r'. tp_ReadLine r = (r', Inr l) \<and> br_rest r' = rest"
proof -
  have "takeWhile (\<lambda>c. c \<noteq> LF) (br_rest r) = l @ [CR]"
    using assms by (auto simp: CRLF_bytes takeWhile_append2 takeWhile_append LF_def CR_def)
  then show ?thesis using assms by (auto simp: tp_ReadLine_def Let_def CRLF_bytes chop_CR_def)
qed

lemma trim_blanks_id:
  assumes "l \<noteq> []" and "\<not> is_blank (hd l)" and "\<not> is_blank (last l)"
  shows "trim_blanks l = l"
proof -
  have "dropWhile is_blank l = l" using assms by (cases l) auto
  moreover have "dropWhile is_blank (rev l) = rev l" using assms by (cases "rev l") (auto simp: hd_rev [symmetric])
  ultimately show ?thesis by (simp add: trim_blanks_def)
qed

lemma continued_stop:
  assumes "br_rest r = c # rest" and "\<not> is_blank c"
  shows "\<exists>r'. continued r buf = (r', buf) \<and> br_rest r' = br_rest r"
  using assms by (subst continued.simps) (auto simp: skipSpace_def Let_def)

text \<open>The text of a header line after trimming.\<close>

lemma trim_mime:
  assumes "clean_key k" and "clean_value v"
  shows "trim_blanks (k @ '': '' @ v) = k @ '':'' @ (if v = [] then [] else CHR '' '' # v)"
proof -
  have k: "k \<noteq> []" "\<not> is_blank (hd k)" using assms(1) clean_key_bytes [OF assms(1), of "hd k"] by (auto simp: clean_key_def)
  have c: "\<not> is_blank (CHR '':'')" "is_blank (CHR '' '')" by (simp_all add: is_blank_def)
  show ?thesis
  proof (cases "v = []")
    case True
    have "dropWhile is_blank (k @ '': '') = k @ '': ''" using k by (cases k) auto
    then show ?thesis using True c by (simp add: trim_blanks_def)
  next
    case False
    then have "trim_blanks (k @ '': '' @ v) = k @ '': '' @ v"
      using k assms(2) by (intro trim_blanks_id) (auto simp: clean_value_def)
    with False show ?thesis by simp
  qed
qed

lemma ReadContinuedLine_mime:
  assumes "br_rest r = mime_line (k, v) @ rest" and "clean_key k" and "clean_value v"
    and "rest \<noteq> []" and "\<not> is_blank (hd rest)"
  shows "\<exists>r'. ReadContinuedLine r = (r', Inr (k @ '':'' @ (if v = [] then [] else CHR '' '' # v))) \<and> br_rest r' = rest"
proof -
  have "br_rest r = (k @ '': '' @ v) @ CRLF @ rest" using assms(1) by (simp add: mime_line_def)
  moreover have "LF \<notin> set (k @ '': '' @ v)"
    using assms(2,3) clean_key_bytes [OF assms(2)] by (auto simp: clean_value_def LF_def)
  ultimately obtain r1 where r1: "tp_ReadLine r = (r1, Inr (k @ '': '' @ v))" "br_rest r1 = rest"
    using tp_ReadLine_line by blast
  obtain c cs where "rest = c # cs" using assms(4) by (cases rest) auto
  then obtain r2 where "continued r1 (trim_blanks (k @ '': '' @ v)) = (r2, trim_blanks (k @ '': '' @ v))" "br_rest r2 = rest"
    using continued_stop [of r1 c cs] r1(2) assms(5) by auto
  then show ?thesis using r1(1) trim_mime [OF assms(2,3)] by (simp add: ReadContinuedLine_def)
qed

text \<open>The lines of a header and the empty line after them.\<close>

lemma mime_line_start: "clean_key (fst kv) \<Longrightarrow> mime_line kv \<noteq> [] \<and> \<not> is_blank (hd (mime_line kv))"
  using clean_key_bytes [of "fst kv" "hd (fst kv)"] by (auto simp: mime_line_def clean_key_def)

lemma read_mime_lines:
  assumes "br_rest r = concat (map mime_line kvs) @ CRLF @ tail"
    and "list_all (\<lambda>kv. clean_key (fst kv) \<and> clean_value (snd kv)) kvs"
  shows "\<exists>r'. read_mime r m = (r', foldl (\<lambda>m kv. header_append m (fst kv) (snd kv)) m kvs, None) \<and> br_rest r' = tail"
  using assms
proof (induction kvs arbitrary: r m)
  case Nil
  then obtain r1 where "tp_ReadLine r = (r1, Inr [])" "br_rest r1 = tail"
    using tp_ReadLine_line [of r "[]" tail] by auto
  then show ?case by (subst read_mime.simps) (simp add: ReadContinuedLine_def)
next
  case (Cons kv kvs)
  obtain k v where kv: "kv = (k, v)" by (cases kv)
  let ?rest = "concat (map mime_line kvs) @ CRLF @ tail"
  have c: "clean_key k" "clean_value v" "list_all (\<lambda>kv. clean_key (fst kv) \<and> clean_value (snd kv)) kvs"
    using Cons.prems by (auto simp: kv)
  have "?rest \<noteq> [] \<and> \<not> is_blank (hd ?rest)"
    using c(3) mime_line_start by (cases kvs) (auto simp: CRLF_bytes is_blank_def CR_def)
  then obtain r1 where r1: "ReadContinuedLine r = (r1, Inr (k @ '':'' @ (if v = [] then [] else CHR '' '' # v)))"
      "br_rest r1 = ?rest"
    using ReadContinuedLine_mime [of r k v ?rest] Cons.prems(1) c by (auto simp: kv)
  let ?kv = "k @ '':'' @ (if v = [] then [] else CHR '' '' # v)"
  have nc: "CHR '':'' \<notin> set k" using clean_key_bytes [OF c(1)] by auto
  have key: "takeWhile (\<lambda>c. c \<noteq> CHR '':'') ?kv = k" using nc by (auto simp: takeWhile_append2)
  have val: "dropWhile is_blank (tl (dropWhile (\<lambda>c. c \<noteq> CHR '':'') ?kv)) = v"
  proof -
    have "dropWhile (\<lambda>c. c \<noteq> CHR '':'') ?kv = '':'' @ (if v = [] then [] else CHR '' '' # v)"
      using nc by (auto simp: dropWhile_append2)
    moreover have "dropWhile is_blank v = v" using c(2) by (cases v) (auto simp: clean_value_def)
    ultimately show ?thesis by (simp add: is_blank_def)
  qed
  have "last k \<noteq> CHR '' ''" using clean_key_bytes [OF c(1), of "last k"] c(1) by (auto simp: clean_key_def is_blank_def)
  then have tr: "TrimRight '' '' k = k"
    using c(1) by (cases "rev k") (auto simp: TrimRight_def clean_key_def hd_rev [symmetric])
  define l where "l = ?kv"
  have l: "l \<noteq> []" "CHR '':'' \<in> set l" by (auto simp: l_def)
  have ck: "CanonicalHeaderKey k = k" using c(1) by (simp add: clean_key_def)
  have "read_mime r m = read_mime r1 (header_append m k v)"
    using r1(1) [folded l_def] l
    by (subst read_mime.simps) (simp add: key [folded l_def] val [folded l_def] tr ck Let_def)
  with Cons.IH [OF r1(2) c(3), of "header_append m k v"] show ?case by (simp add: kv)
qed

section \<open>A header in pairs\<close>

text \<open>The values that repeated appending leaves under a key.\<close>

definition values_of :: "string \<Rightarrow> (string \<times> string) list \<Rightarrow> string list" where
  "values_of k kvs = map snd (filter (\<lambda>kv. fst kv = k) kvs)"

lemma values_of_simps [simp]:
  "values_of k [] = []" "values_of k (xs @ ys) = values_of k xs @ values_of k ys"
  "values_of k ((k', v) # xs) = (if k' = k then v # values_of k xs else values_of k xs)"
  by (simp_all add: values_of_def)

lemma header_append_fold:
  "gomap_get (foldl (\<lambda>m kv. header_append m (fst kv) (snd kv)) m kvs) k =
     (if values_of k kvs = [] then gomap_get m k
      else Some ((case gomap_get m k of None \<Rightarrow> [] | Some vs \<Rightarrow> vs) @ values_of k kvs))"
proof (induction kvs arbitrary: m)
  case (Cons kv kvs)
  then show ?case by (cases kv) (auto simp: header_append_def gomap_simps split: option.splits)
qed simp

definition writable_header :: "header \<Rightarrow> bool" where
  "writable_header h \<longleftrightarrow> gomap_wf h \<and>
     list_all (\<lambda>(k, vs). clean_key k \<and> vs \<noteq> [] \<and> list_all (\<lambda>v. clean_value v \<and> TrimSpace v = v) vs) h"

definition header_pairs :: "header \<Rightarrow> (string \<Rightarrow> bool) \<Rightarrow> (string \<times> string) list" where
  "header_pairs h exclude =
     concat (map (\<lambda>k. map (Pair k) (the (gomap_get h k))) (sort (filter (\<lambda>k. \<not> exclude k) (map fst h))))"

lemma writable_get:
  assumes "writable_header h" and "gomap_get h k = Some vs"
  shows "clean_key k \<and> vs \<noteq> [] \<and> list_all (\<lambda>v. clean_value v \<and> TrimSpace v = v) vs"
  using assms map_of_SomeD [OF assms(2)] by (auto simp: writable_header_def list_all_iff)

lemma newline_free: "clean_value v \<Longrightarrow> headerNewlineToSpace v = v"
proof -
  have "byte c = 10 \<or> byte c = 13 \<Longrightarrow> c = LF \<or> c = CR" for c
    unfolding LF_def CR_def of_char_eq_iff [where 'a = nat, symmetric] by auto
  then have "clean_value v \<Longrightarrow> c \<in> set v \<Longrightarrow> byte c \<noteq> 10 \<and> byte c \<noteq> 13" for c
    unfolding clean_value_def by blast
  then show "clean_value v \<Longrightarrow> ?thesis" by (auto simp: headerNewlineToSpace_def intro!: map_idI)
qed

lemma subset_lines_pairs:
  assumes "writable_header h"
  shows "subset_lines h ex = map mime_line (header_pairs h ex)"
proof -
  have "map (header_line k) (the (gomap_get h k)) = map mime_line (map (Pair k) (the (gomap_get h k)))"
    if "k \<in> set (map fst h)" for k
  proof -
    from that obtain vs where vs: "gomap_get h k = Some vs" by (metis map_of_eq_None_iff option.exhaust set_map)
    from writable_get [OF assms vs] show ?thesis
      by (auto simp: vs list_all_iff header_line_def mime_line_def newline_free)
  qed
  then show ?thesis unfolding subset_lines_def header_pairs_def map_concat
    by (intro arg_cong [of _ _ concat]) (auto simp: o_def)
qed

lemma values_of_keys:
  assumes "distinct ks"
  shows "values_of k (concat (map (\<lambda>k. map (Pair k) (f k)) ks)) = (if k \<in> set ks then f k else [])"
proof -
  have one: "values_of k (map (Pair k') vs) = (if k' = k then vs else [])" for k' vs
    by (simp add: values_of_def filter_map o_def)
  from assms show ?thesis by (induction ks) (auto simp: one)
qed

lemma header_pairs_values:
  assumes "writable_header h"
  shows "values_of k (header_pairs h ex) = (if ex k then [] else case gomap_get h k of None \<Rightarrow> [] | Some vs \<Rightarrow> vs)"
proof -
  have "distinct (sort (filter (\<lambda>k. \<not> ex k) (map fst h)))"
    using assms by (simp add: writable_header_def gomap_wf_def)
  from values_of_keys [OF this, of k "\<lambda>k. the (gomap_get h k)"]
  have "values_of k (header_pairs h ex) = (if k \<in> fst ` set h \<and> \<not> ex k then the (gomap_get h k) else [])"
    by (simp add: header_pairs_def)
  moreover have "k \<in> fst ` set h \<longleftrightarrow> gomap_get h k \<noteq> None" by (simp add: map_of_eq_None_iff)
  ultimately show ?thesis by (cases "gomap_get h k") simp_all
qed

lemma header_pairs_clean:
  assumes "writable_header h"
  shows "list_all (\<lambda>kv. clean_key (fst kv) \<and> clean_value (snd kv)) (header_pairs h ex)"
proof -
  have "clean_key k \<and> clean_value v" if "(k, v) \<in> set (header_pairs h ex)" for k v
  proof -
    from that have "v \<in> set (values_of k (header_pairs h ex))" by (force simp: values_of_def)
    then obtain vs where "gomap_get h k = Some vs" "v \<in> set vs"
      by (cases "gomap_get h k") (auto simp: header_pairs_values [OF assms] split: if_splits)
    with writable_get [OF assms this(1)] show ?thesis by (auto simp: list_all_iff)
  qed
  then show ?thesis by (auto simp: list_all_iff)
qed

section \<open>Writing into memory\<close>

text \<open>A writer that appends some encoding of what it gets and whose answer does not depend on its state.\<close>

definition appender :: "string writer \<Rightarrow> bool" where
  "appender w \<longleftrightarrow> (\<exists>f g. \<forall>s d. w s d = (s @ f d, g d))"

lemma appender_buffer: "appender buffer_write"
  unfolding appender_def buffer_write_def by (rule exI [of _ "\<lambda>d. d"]) auto

lemma appender_chunked: "appender (chunkedWriter_Write buffer_write)"
  unfolding appender_def chunkedWriter_buffer by (rule exI [of _ chunk]) auto

lemma Copy_appends:
  assumes "appender w" and "Copy rd w n fuel r s k = Some (r', s', m, e)"
  shows "\<exists>d. s' = s @ d \<and> (\<forall>t. Copy rd w n fuel r t k = Some (r', t @ d, m, e))"
proof -
  from assms(1) obtain f g where w: "w s d = (s @ f d, g d)" for s d unfolding appender_def by blast
  from assms(2) show ?thesis
  proof (induction fuel arbitrary: r s k)
    case (Suc fuel)
    obtain r1 d er where rd: "rd n r = (r1, d, er)" by (rule prod_cases3)
    obtain nw ew where g: "(if d \<noteq> [] then g d else (0, None)) = (nw, ew)" by (rule prod.exhaust)
    define a where "a = (if d \<noteq> [] then f d else [])"
    have one: "Copy rd w n (Suc fuel) r t k =
      (if ew \<noteq> None then Some (r1, t @ a, k + nw, ew)
       else if d \<noteq> [] \<and> nw \<noteq> length d then Some (r1, t @ a, k + nw, Some io_ErrShortWrite)
       else (case er of
               Some e \<Rightarrow> Some (r1, t @ a, k + nw, if e = io_EOF then None else Some e)
             | None \<Rightarrow> Copy rd w n fuel r1 (t @ a) (k + nw)))" for t
      using rd g by (cases "d = []"; cases er) (auto simp: w a_def)
    show ?case
    proof (cases "ew = None \<and> (d = [] \<or> nw = length d) \<and> er = None")
      case True
      then have "Copy rd w n fuel r1 (s @ a) (k + nw) = Some (r', s', m, e)" using Suc.prems one [of s] by auto
      from Suc.IH [OF this] obtain d' where d': "s' = (s @ a) @ d'"
          "\<forall>t. Copy rd w n fuel r1 t (k + nw) = Some (r', t @ d', m, e)" by blast
      show ?thesis using True d' by (intro exI [of _ "a @ d'"]) (auto simp: one simp del: Copy.simps)
    next
      case False
      then show ?thesis using Suc.prems by (intro exI [of _ a]) (auto simp: one simp del: Copy.simps split: option.splits if_splits)
    qed
  qed simp
qed

text \<open>What a body adds to the wire does not depend on what is there.\<close>

lemma copy_body_appends:
  assumes "copy_body t buffer_write b s = Some (s', x)"
  shows "\<exists>d. s' = s @ d \<and> (\<forall>u. copy_body t buffer_write b u = Some (u @ d, x))"
proof -
  let ?r = "ub_reader b"
  consider (chunked) "chunked (tw_TransferEncoding t)" | (plain) "\<not> chunked (tw_TransferEncoding t)" "tw_ContentLength t = -1"
    | (limit) "\<not> chunked (tw_TransferEncoding t)" "tw_ContentLength t \<noteq> -1" by blast
  then show ?thesis
  proof cases
    case chunked
    with assms obtain r1 s1 m e where c: "Copy br_Read (chunkedWriter_Write buffer_write) copy_size (copy_fuel ?r) ?r s 0 =
        Some (r1, s1, m, e)"
      by (auto simp: copy_body_def Let_def split: option.splits)
    from Copy_appends [OF appender_chunked c] obtain d where d: "s1 = s @ d"
        "\<forall>u. Copy br_Read (chunkedWriter_Write buffer_write) copy_size (copy_fuel ?r) ?r u 0 = Some (r1, u @ d, m, e)"
      by blast
    show ?thesis
    proof (cases e)
      case None
      then show ?thesis using assms chunked c d
        by (intro exI [of _ "d @ ''0'' @ CRLF"]) (auto simp: copy_body_def Let_def chunkedWriter_Close_def buffer_write_def)
    next
      case (Some e')
      then show ?thesis using assms chunked c d by (intro exI [of _ d]) (auto simp: copy_body_def Let_def)
    qed
  next
    case plain
    with assms obtain r1 s1 m e where c: "Copy br_Read buffer_write copy_size (copy_fuel ?r) ?r s 0 = Some (r1, s1, m, e)"
      by (auto simp: copy_body_def Let_def split: option.splits)
    from Copy_appends [OF appender_buffer c] obtain d where "s1 = s @ d"
        "\<forall>u. Copy br_Read buffer_write copy_size (copy_fuel ?r) ?r u 0 = Some (r1, u @ d, m, e)" by blast
    then show ?thesis using assms plain c by (intro exI [of _ d]) (auto simp: copy_body_def Let_def)
  next
    case limit
    with assms obtain r1 l s1 m e where c: "Copy limit_Read buffer_write copy_size (copy_fuel ?r) (?r, tw_ContentLength t) s 0 =
        Some ((r1, l), s1, m, e)"
      by (auto simp: copy_body_def Let_def split: option.splits prod.splits)
    from Copy_appends [OF appender_buffer c] obtain d where "s1 = s @ d"
        "\<forall>u. Copy limit_Read buffer_write copy_size (copy_fuel ?r) (?r, tw_ContentLength t) u 0 = Some ((r1, l), u @ d, m, e)"
      by blast
    then show ?thesis using assms limit c
      by (intro exI [of _ d]) (auto simp: copy_body_def Let_def split: option.splits)
  qed
qed

lemma WriteBody_appends:
  assumes "tw_WriteBody t buffer_write s = Some (s', e)"
  shows "\<exists>d. s' = s @ d \<and> (\<forall>u. tw_WriteBody t buffer_write u = Some (u @ d, e))"
proof (cases "tw_Body t")
  case None
  then show ?thesis using assms
    by (intro exI [of _ "drop (length s) s'"])
      (auto simp: tw_WriteBody_def Let_def put_err_def buffer_write_def split: if_splits)
next
  case (Some b)
  obtain s1 x where c: "copy_body t buffer_write b s = Some (s1, x)" using copy_body_returns [of t buffer_write b s] by auto
  from copy_body_appends [OF c] obtain d where d: "s1 = s @ d" "\<forall>u. copy_body t buffer_write b u = Some (u @ d, x)" by blast
  show ?thesis
  proof (cases x)
    case (Inl err)
    then show ?thesis using assms Some c d by (intro exI [of _ d]) (auto simp: tw_WriteBody_def Let_def)
  next
    case (Inr y)
    obtain n eo where y: "y = (n, eo)" by (cases y)
    show ?thesis
    proof (cases "eo = None \<and> ub_close b = None")
      case True
      with Inr y have "x = Inr (n, None)" "ub_close b = None" by simp_all
      then show ?thesis using assms Some c d Inr y
        by (intro exI [of _ "drop (length s) s'"])
          (auto simp: tw_WriteBody_def Let_def put_err_def buffer_write_def split: if_splits)
    next
      case False
      define e' where "e' = (if eo = None then ub_close b else eo)"
      have all: "tw_WriteBody t buffer_write u = Some (u @ d, e')" for u
        using False Some d(2) Inr y by (cases eo; cases "ub_close b") (simp_all add: tw_WriteBody_def e'_def)
      from all [of s] all assms show ?thesis by (intro exI [of _ d]) simp
    qed
  qed
qed

section \<open>A request on the wire\<close>

definition transfer_pairs :: "transferWriter \<Rightarrow> (string \<times> string) list" where
  "transfer_pairs t =
     (if tw_Close t then [(''Connection'', ''close'')] else []) @
     (if shouldSendContentLength t then [(''Content-Length'', Itoa (tw_ContentLength t))]
      else if chunked (tw_TransferEncoding t) then [(''Transfer-Encoding'', ''chunked'')] else [])"

lemma WriteHeader_pairs:
  assumes "tw_Trailer t = None"
  shows "tw_WriteHeader t buffer_write s = (s @ concat (map mime_line (transfer_pairs t)), None)"
  using assms by (simp add: tw_WriteHeader_def transfer_pairs_def put_err_def put_def buffer_write_def mime_line_def)

text \<open>How the transfer writer sees a request without an explicit encoding or trailer.\<close>

lemma new_request_writer:
  assumes "newTransferWriter (MRequest rq) = Inr tw" and "req_TransferEncoding rq = []" and "ProtoAtLeast rq 1 1"
    and "req_Trailer rq = None"
  shows "tw_Trailer tw = None \<and> tw_Close tw = req_Close rq \<and>
    (tw_TransferEncoding tw = [''chunked''] \<and> tw_ContentLength tw = -1 \<or>
     tw_TransferEncoding tw = [] \<and> 0 \<le> tw_ContentLength tw \<and> tw_ContentLength tw \<le> max 0 (req_ContentLength rq))"
proof (cases "req_Body rq")
  case None
  with assms show ?thesis
    by (auto simp: newTransferWriter_def request_writer_def sanitize_def chunked_def Let_def split: if_splits)
next
  case (Some b)
  consider "req_ContentLength rq < 0" | "req_ContentLength rq = 0" | "0 < req_ContentLength rq" by linarith
  then show ?thesis
  proof cases
    case 1
    with Some assms show ?thesis
      by (auto simp: newTransferWriter_def request_writer_def sanitize_def chunked_def Let_def split: if_splits)
  next
    case 2
    with Some assms show ?thesis
      by (auto simp: newTransferWriter_def request_writer_def sanitize_def chunked_def probe_body_def Let_def
          split: if_splits list.splits)
  next
    case 3
    with Some assms show ?thesis
      by (auto simp: newTransferWriter_def request_writer_def sanitize_def chunked_def Let_def split: if_splits)
  qed
qed

definition request_pairs :: "user_body Request \<Rightarrow> transferWriter \<Rightarrow> (string \<times> string) list" where
  "request_pairs rq tw =
     [(''Host'', write_host rq)] @
     (if write_agent (req_Header rq) \<noteq> [] then [(''User-Agent'', write_agent (req_Header rq))] else []) @
     transfer_pairs tw @ header_pairs (req_Header rq) reqWriteExcludeHeader"

lemma request_wire:
  assumes "req_Write U buffer_write (\<lambda>s. (s, None)) rq [] = Some (wire, None)"
    and "newTransferWriter (MRequest rq) = Inr tw" and "tw_Trailer tw = None" and "writable_header (req_Header rq)"
  shows "\<exists>bodywire. tw_WriteBody tw buffer_write [] = Some (bodywire, None) \<and>
    wire = request_line U False rq @ concat (map mime_line (request_pairs rq tw)) @ CRLF @ bodywire"
proof -
  define head where "head = request_line U False rq @ concat (map mime_line (request_pairs rq tw)) @ CRLF"
  have "tw_WriteBody tw buffer_write head = Some (wire, None)"
    using assms(1) assms(2)
    by (simp add: req_Write_def req_write_def Let_def WriteHeader_pairs [OF assms(3)] WriteSubset_def
        subset_lines_pairs [OF assms(4)] put_def buffer_write_def head_def request_pairs_def mime_line_def
        split: option.splits if_splits prod.splits)
  from WriteBody_appends [OF this] show ?thesis by (auto simp: head_def)
qed

text \<open>The keys the writer adds of its own.\<close>

lemma own_keys_clean:
  "clean_key ''Host''" "clean_key ''User-Agent''" "clean_key ''Connection''" "clean_key ''Content-Length''"
  "clean_key ''Transfer-Encoding''"
  by code_simp+

lemma Itoa_clean: "0 \<le> i \<Longrightarrow> clean_value (Itoa i) \<and> TrimSpace (Itoa i) = Itoa i"
proof -
  assume i: "0 \<le> i"
  have c: "graphic c \<and> \<not> is_blank c \<and> c \<noteq> CR \<and> c \<noteq> LF" if "c \<in> set (Itoa i)" for c
  proof -
    have "48 \<le> byte c \<and> byte c \<le> 57" using that Itoa_digits [OF i] by (auto simp: list_all_iff digit_ok_10)
    then show ?thesis by (auto simp: graphic_def is_blank_def CR_def LF_def)
  qed
  have ne: "Itoa i \<noteq> []" using Itoa_digits [OF i] by simp
  show "clean_value (Itoa i) \<and> TrimSpace (Itoa i) = Itoa i"
    using c ne c [of "hd (Itoa i)"] c [of "last (Itoa i)"] by (auto simp: clean_value_def intro!: TrimSpace_graphic)
qed

section \<open>The header of a request that is read\<close>

lemma request_pairs_clean:
  assumes "writable_header (req_Header rq)" and "clean_value (write_host rq)" and "clean_value (write_agent (req_Header rq))"
    and "shouldSendContentLength tw \<Longrightarrow> 0 \<le> tw_ContentLength tw"
  shows "list_all (\<lambda>kv. clean_key (fst kv) \<and> clean_value (snd kv)) (request_pairs rq tw)"
proof -
  have "clean_value ''close''" "clean_value ''chunked''" by code_simp+
  with assms(4) have "list_all (\<lambda>kv. clean_key (fst kv) \<and> clean_value (snd kv)) (transfer_pairs tw)"
    using Itoa_clean by (simp add: transfer_pairs_def own_keys_clean)
  with assms header_pairs_clean [OF assms(1)] show ?thesis by (simp add: request_pairs_def own_keys_clean)
qed

text \<open>What the header holds under each key.\<close>

lemma request_values:
  assumes "writable_header (req_Header rq)" and "\<not> tw_Close tw"
  shows "values_of ''Host'' (request_pairs rq tw) = [write_host rq]"
    and "values_of ''Trailer'' (request_pairs rq tw) = []"
    and "values_of ''Content-Length'' (request_pairs rq tw) =
      (if shouldSendContentLength tw then [Itoa (tw_ContentLength tw)] else [])"
    and "values_of ''Transfer-Encoding'' (request_pairs rq tw) =
      (if \<not> shouldSendContentLength tw \<and> chunked (tw_TransferEncoding tw) then [''chunked''] else [])"
    and "\<not> reqWriteExcludeHeader k \<Longrightarrow> values_of k (request_pairs rq tw) =
      (case gomap_get (req_Header rq) k of None \<Rightarrow> [] | Some vs \<Rightarrow> vs)"
  using assms
  by (auto simp: request_pairs_def transfer_pairs_def header_pairs_values reqWriteExcludeHeader_def)

text \<open>The header without the Host line decides the transfer.\<close>

lemma lower_chunked: "ToLower ul (TrimSpace ''chunked'') = ''chunked''"
proof -
  have "TrimSpace ''chunked'' = ''chunked''" by (rule TrimSpace_graphic) (simp_all add: graphic_def)
  moreover have "ToLower ul ''chunked'' = ''chunked''" by code_simp
  ultimately show ?thesis by simp
qed

lemma canonical_fields:
  "CanonicalHeaderKey ''Content-Length'' = ''Content-Length''" "CanonicalHeaderKey ''Trailer'' = ''Trailer''"
  "CanonicalHeaderKey ''Host'' = ''Host''" "CanonicalHeaderKey ''Transfer-Encoding'' = ''Transfer-Encoding''"
  by code_simp+

lemma read_transfer_request:
  assumes "gomap_get (req_Header rr) ''Trailer'' = None" and "\<not> shouldSendContentLength tw \<Longrightarrow> tw_ContentLength tw \<le> 0"
    and "gomap_get (req_Header rr) ''Content-Length'' =
      (if shouldSendContentLength tw then Some [Itoa (tw_ContentLength tw)] else None)"
    and "gomap_get (req_Header rr) ''Transfer-Encoding'' =
      (if \<not> shouldSendContentLength tw \<and> chunked (tw_TransferEncoding tw) then Some [''chunked''] else None)"
    and "tw_TransferEncoding tw = [''chunked''] \<and> tw_ContentLength tw = -1 \<or>
      tw_TransferEncoding tw = [] \<and> 0 \<le> tw_ContentLength tw \<and> tw_ContentLength tw < 2 ^ 63"
  shows "\<exists>h. readTransfer ul (MRequest rr) r = Some (Inr (MRequest (rr\<lparr>req_Header := h,
      req_Body := Some (choose_body (tw_TransferEncoding tw) (tw_ContentLength tw) False r),
      req_ContentLength := tw_ContentLength tw, req_TransferEncoding := tw_TransferEncoding tw, req_Close := False,
      req_Trailer := None\<rparr>))) \<and>
    (\<forall>k. \<not> reqWriteExcludeHeader k \<longrightarrow> gomap_get h k = gomap_get (req_Header rr) k)"
  using assms(5)
proof (elim disjE conjE)
  assume t: "tw_TransferEncoding tw = [''chunked'']" "tw_ContentLength tw = -1"
  then have c: "chunked (tw_TransferEncoding tw)" "\<not> shouldSendContentLength tw"
    by (simp_all add: chunked_def shouldSendContentLength_def)
  let ?h = "gomap_del ''Content-Length'' (gomap_del ''Transfer-Encoding'' (req_Header rr))"
  have "fixTransferEncoding ul ''GET'' (req_Header rr) = Some (?h, Inr [''chunked''])"
    using assms(4) c by (simp add: fixTransferEncoding_def lower_chunked Let_def)
  moreover have "fixLength ul False 200 ''GET'' ?h [''chunked''] = (?h, Inr (-1))"
    by (simp add: fixLength_def noBodyExpected_def chunked_def)
  moreover have "fixTrailer ?h [''chunked''] = (?h, Inr None)"
    using assms(1) by (simp add: fixTrailer_def Get_def canonical_fields gomap_simps)
  ultimately show ?thesis using t
    by (intro exI [of _ ?h]) (auto simp: readTransfer_def gomap_simps reqWriteExcludeHeader_def)
next
  assume t: "tw_TransferEncoding tw = []" "0 \<le> tw_ContentLength tw" "tw_ContentLength tw < 2 ^ 63"
  let ?h = "if shouldSendContentLength tw then req_Header rr else gomap_del ''Content-Length'' (req_Header rr)"
  have "fixTransferEncoding ul ''GET'' (req_Header rr) = Some (req_Header rr, Inr [])"
    using assms(4) t by (simp add: fixTransferEncoding_def chunked_def)
  moreover have "fixLength ul False 200 ''GET'' (req_Header rr) [] = (?h, Inr (tw_ContentLength tw))"
  proof (cases "shouldSendContentLength tw")
    case True
    have "ParseInt (Itoa (tw_ContentLength tw)) = Some (tw_ContentLength tw)" using t by (intro ParseInt_Itoa) auto
    with True assms(3) t(2) Itoa_clean [OF t(2)] Itoa_digits [OF t(2)] show ?thesis
      by (simp add: fixLength_def noBodyExpected_def chunked_def Get_def canonical_fields Let_def)
  next
    case False
    have "TrimSpace [] = []" by code_simp
    with False assms(2,3) t(2) show ?thesis
      by (simp add: fixLength_def noBodyExpected_def chunked_def Get_def canonical_fields Let_def Del_def)
  qed
  moreover have "fixTrailer ?h [] = (?h, Inr None)"
    using assms(1) by (simp add: fixTrailer_def Get_def canonical_fields gomap_simps)
  ultimately show ?thesis using t
    by (intro exI [of _ ?h]) (auto simp: readTransfer_def gomap_simps reqWriteExcludeHeader_def)
qed

section \<open>The round trip\<close>

text \<open>
  A request that can be sent as it is: method and address without blanks and line breaks, an address
  that the other side parses, clean header fields, and no Connection, Pragma, trailer or encoding that
  the two sides would treat on their own.
\<close>

definition sendable :: "url_lib \<Rightarrow> user_body Request \<Rightarrow> URL \<Rightarrow> bool" where
  "sendable U rq u \<longleftrightarrow>
     (let m = valueOrDefault (req_Method rq) ''GET''; uri = write_uri U False rq
      in CHR '' '' \<notin> set m \<and> LF \<notin> set m \<and> m \<noteq> ''CONNECT'' \<and>
         CHR '' '' \<notin> set uri \<and> LF \<notin> set uri \<and> u_ParseRequestURI U uri = Inr u \<and> url_Host u = []) \<and>
     writable_header (req_Header rq) \<and> gomap_get (req_Header rq) ''Pragma'' = None \<and>
     clean_value (write_host rq) \<and> clean_value (write_agent (req_Header rq)) \<and>
     req_TransferEncoding rq = [] \<and> ProtoAtLeast rq 1 1 \<and> req_Trailer rq = None \<and> \<not> req_Close rq \<and>
     req_ContentLength rq < 2 ^ 63"

lemma version_1_1: "ParseHTTPVersion ''HTTP/1.1'' = (1, 1, True)"
  by code_simp

lemma SplitN_3: "c \<notin> set a \<Longrightarrow> c \<notin> set b \<Longrightarrow> SplitN 3 c (a @ c # b @ c # d) = [a, b, d]"
  by (simp add: numeral_3_eq_3 takeWhile_append2 dropWhile_append2)

lemma parse_own_line:
  assumes "sendable U rq u"
  shows "parse_request_line U (valueOrDefault (req_Method rq) ''GET'' @ '' '' @ write_uri U False rq @ '' HTTP/1.1'') =
    Inr (valueOrDefault (req_Method rq) ''GET'', write_uri U False rq, ''HTTP/1.1'', 1, 1, u)"
proof -
  let ?m = "valueOrDefault (req_Method rq) ''GET''" and ?u = "write_uri U False rq"
  have "SplitN 3 (CHR '' '') (?m @ CHR '' '' # ?u @ CHR '' '' # ''HTTP/1.1'') = [?m, ?u, ''HTTP/1.1'']"
    using assms by (intro SplitN_3) (auto simp: sendable_def Let_def)
  then show ?thesis using assms version_1_1 by (simp add: parse_request_line_def sendable_def Let_def)
qed

lemma request_read_back:
  assumes "sendable U rq u" and "req_Write U buffer_write (\<lambda>s. (s, None)) rq [] = Some (wire, None)"
    and "br_rest r = wire @ tail"
  shows "\<exists>tw bodywire rr r2. newTransferWriter (MRequest rq) = Inr tw \<and>
    tw_WriteBody tw buffer_write [] = Some (bodywire, None) \<and> br_rest r2 = bodywire @ tail \<and>
    ReadRequest ul U r = Some (Inr rr) \<and>
    req_Method rr = valueOrDefault (req_Method rq) ''GET'' \<and> req_URL rr = u \<and> req_Host rr = write_host rq \<and>
    req_ProtoMajor rr = 1 \<and> req_ProtoMinor rr = 1 \<and>
    req_TransferEncoding rr = tw_TransferEncoding tw \<and> req_ContentLength rr = tw_ContentLength tw \<and>
    req_Body rr = Some (choose_body (tw_TransferEncoding tw) (tw_ContentLength tw) False r2) \<and>
    (\<forall>k. \<not> reqWriteExcludeHeader k \<longrightarrow> gomap_get (req_Header rr) k = gomap_get (req_Header rq) k)"
proof -
  let ?m = "valueOrDefault (req_Method rq) ''GET''"
  have S: "writable_header (req_Header rq)" "clean_value (write_host rq)" "clean_value (write_agent (req_Header rq))"
      "gomap_get (req_Header rq) ''Pragma'' = None" "url_Host u = []"
    using assms(1) by (auto simp: sendable_def Let_def)
  obtain tw where tw: "newTransferWriter (MRequest rq) = Inr tw"
    using assms(2) by (auto simp: req_Write_def req_write_def Let_def split: sum.splits)
  have T: "tw_Trailer tw = None" "\<not> tw_Close tw"
      "tw_TransferEncoding tw = [''chunked''] \<and> tw_ContentLength tw = -1 \<or>
        tw_TransferEncoding tw = [] \<and> 0 \<le> tw_ContentLength tw \<and> tw_ContentLength tw < 2 ^ 63"
    using new_request_writer [OF tw] assms(1) by (auto simp: sendable_def)
  have len: "shouldSendContentLength tw \<Longrightarrow> 0 \<le> tw_ContentLength tw" "\<not> shouldSendContentLength tw \<Longrightarrow> tw_ContentLength tw \<le> 0"
    using T(3) by (auto simp: shouldSendContentLength_def chunked_def split: if_splits)
  obtain bodywire where bw: "tw_WriteBody tw buffer_write [] = Some (bodywire, None)"
      "wire = request_line U False rq @ concat (map mime_line (request_pairs rq tw)) @ CRLF @ bodywire"
    using request_wire [OF assms(2) tw T(1) S(1)] by blast
  let ?line = "?m @ '' '' @ write_uri U False rq @ '' HTTP/1.1''"
  have "br_rest r = ?line @ CRLF @ concat (map mime_line (request_pairs rq tw)) @ CRLF @ bodywire @ tail"
    using assms(3) bw(2) by (simp add: request_line_def)
  moreover have "LF \<notin> set ?line" using assms(1) by (auto simp: sendable_def Let_def LF_def)
  ultimately obtain r1 where r1: "tp_ReadLine r = (r1, Inr ?line)"
      "br_rest r1 = concat (map mime_line (request_pairs rq tw)) @ CRLF @ bodywire @ tail"
    using tp_ReadLine_line by blast
  define h where "h = foldl (\<lambda>m kv. header_append m (fst kv) (snd kv)) [] (request_pairs rq tw)"
  obtain r2 where r2: "ReadMIMEHeader r1 = (r2, h, None)" "br_rest r2 = bodywire @ tail"
    using read_mime_lines [OF r1(2) request_pairs_clean [OF S(1-3) len(1)], of "[]"]
    by (auto simp: ReadMIMEHeader_def h_def)
  have get: "gomap_get h k = (let vs = values_of k (request_pairs rq tw) in if vs = [] then None else Some vs)" for k
    unfolding h_def header_append_fold by (simp add: Let_def)
  note vals = request_values [OF S(1) T(2)]
  have host: "Get h ''Host'' = write_host rq" using vals(1) by (simp add: Get_def canonical_fields get)
  define h1 where "h1 = Del h ''Host''"
  have "\<not> reqWriteExcludeHeader ''Pragma''" by code_simp
  then have pragma: "fixPragmaCacheControl h1 = h1"
    using vals(5) [of "''Pragma''"] S(4) by (simp add: fixPragmaCacheControl_def h1_def Del_def gomap_simps get canonical_fields)
  let ?req = "\<lparr>req_Method = ?m, req_URL = u, req_Proto = ''HTTP/1.1'', req_ProtoMajor = 1, req_ProtoMinor = 1,
    req_Header = h1, req_Body = None, req_ContentLength = 0, req_TransferEncoding = [], req_Close = False,
    req_Host = write_host rq, req_Trailer = None, req_RemoteAddr = [], req_RequestURI = write_uri U False rq\<rparr> :: body Request"
  have g1: "gomap_get h1 k = (if k = ''Host'' then None else gomap_get h k)" for k
    by (simp add: h1_def Del_def gomap_simps canonical_fields)
  have R: "gomap_get (req_Header ?req) ''Trailer'' = None"
      "gomap_get (req_Header ?req) ''Content-Length'' =
        (if shouldSendContentLength tw then Some [Itoa (tw_ContentLength tw)] else None)"
      "gomap_get (req_Header ?req) ''Transfer-Encoding'' =
        (if \<not> shouldSendContentLength tw \<and> chunked (tw_TransferEncoding tw) then Some [''chunked''] else None)"
    using vals(2-4) by (auto simp: g1 get Let_def)
  obtain h2 where h2: "readTransfer ul (MRequest ?req) r2 = Some (Inr (MRequest (?req\<lparr>req_Header := h2,
      req_Body := Some (choose_body (tw_TransferEncoding tw) (tw_ContentLength tw) False r2),
      req_ContentLength := tw_ContentLength tw, req_TransferEncoding := tw_TransferEncoding tw, req_Close := False,
      req_Trailer := None\<rparr>)))" "\<forall>k. \<not> reqWriteExcludeHeader k \<longrightarrow> gomap_get h2 k = gomap_get h1 k"
    using read_transfer_request [OF R(1) len(2) R(2,3) T(3), of ul r2] by auto
  have "gomap_get h2 k = gomap_get (req_Header rq) k" if "\<not> reqWriteExcludeHeader k" for k
  proof -
    have "k \<noteq> ''Host''" using that by (auto simp: reqWriteExcludeHeader_def)
    with h2(2) that vals(5) [OF that] writable_get [OF S(1), of k] show ?thesis
      by (auto simp: g1 get Let_def split: option.splits)
  qed
  then show ?thesis
    using tw bw(1) r2 h2(1) r1(1) parse_own_line [OF assms(1)] host pragma S(5)
    by (intro exI [of _ tw] exI [of _ bodywire] exI [of _ "?req\<lparr>req_Header := h2,
      req_Body := Some (choose_body (tw_TransferEncoding tw) (tw_ContentLength tw) False r2),
      req_ContentLength := tw_ContentLength tw, req_TransferEncoding := tw_TransferEncoding tw, req_Close := False,
      req_Trailer := None\<rparr>"] exI [of _ r2]) (simp add: ReadRequest_def h1_def Let_def)
qed

text \<open>
  C21: A request that is written is the request that is read: the receiver gets its method, address, host and
  every header field the sender does not set itself, the same encoding and length, and a body reader
  that starts at the first byte of what the transfer writer sent as the body, with what follows the
  request behind it.
\<close>

theorem request_round_trip:
  assumes "sendable U rq u" and "req_Write U buffer_write (\<lambda>s. (s, None)) rq [] = Some (wire, None)"
    and "br_rest r = wire @ tail"
  shows "\<exists>tw bodywire rr r2. newTransferWriter (MRequest rq) = Inr tw \<and>
    tw_WriteBody tw buffer_write [] = Some (bodywire, None) \<and> br_rest r2 = bodywire @ tail \<and>
    ReadRequest ul U r = Some (Inr rr) \<and>
    req_Method rr = valueOrDefault (req_Method rq) ''GET'' \<and> req_URL rr = u \<and> req_Host rr = write_host rq \<and>
    req_ProtoMajor rr = 1 \<and> req_ProtoMinor rr = 1 \<and>
    req_TransferEncoding rr = tw_TransferEncoding tw \<and> req_ContentLength rr = tw_ContentLength tw \<and>
    req_Body rr = Some (choose_body (tw_TransferEncoding tw) (tw_ContentLength tw) False r2) \<and>
    (\<forall>k. \<not> reqWriteExcludeHeader k \<longrightarrow> gomap_get (req_Header rr) k = gomap_get (req_Header rq) k)"
  using assms by (rule request_read_back)

definition demo_urls :: url_lib where
  "demo_urls = \<lparr>u_Parse = \<lambda>s. Inl s,
     u_ParseRequestURI = \<lambda>s. Inr \<lparr>url_Scheme = [], url_Opaque = [], url_Host = [], url_Path = s, url_RawQuery = []\<rparr>,
     u_RequestURI = url_Path, u_Resolve = \<lambda>u s. Inl s\<rparr>"

definition demo_get :: "user_body Request" where
  "demo_get =
     \<lparr>req_Method = ''GET'',
      req_URL = \<lparr>url_Scheme = ''http'', url_Opaque = [], url_Host = ''radio'', url_Path = ''/main'', url_RawQuery = []\<rparr>,
      req_Proto = ''HTTP/1.1'', req_ProtoMajor = 1, req_ProtoMinor = 1, req_Header = [(''Accept'', [''a'', ''b''])], req_Body = None,
      req_ContentLength = 0, req_TransferEncoding = [], req_Close = False, req_Host = [], req_Trailer = None,
      req_RemoteAddr = [], req_RequestURI = []\<rparr>"

definition demo_address :: URL where
  "demo_address = \<lparr>url_Scheme = [], url_Opaque = [], url_Host = [], url_Path = ''/main'', url_RawQuery = []\<rparr>"

lemma demo_get_sendable: "sendable demo_urls demo_get demo_address"
proof -
  have "TrimSpace ''a'' = ''a''" "TrimSpace ''b'' = ''b''" by (rule TrimSpace_graphic; simp add: graphic_def)+
  moreover have "clean_key ''Accept''" by code_simp
  ultimately have "writable_header (req_Header demo_get)"
    by (simp add: demo_get_def writable_header_def gomap_wf_def clean_value_def is_blank_def CR_def LF_def)
  then show ?thesis
    by (simp add: sendable_def demo_urls_def write_uri_def write_host_def write_agent_def defaultUserAgent_def demo_address_def
        clean_value_def is_blank_def CR_def LF_def valueOrDefault_def ProtoAtLeast_def demo_get_def)
qed

lemma demo_get_written: "\<exists>wire. req_Write demo_urls buffer_write (\<lambda>s. (s, None)) demo_get [] = Some (wire, None)"
  by (simp add: req_Write_def req_write_def demo_get_def newTransferWriter_def request_writer_def sanitize_def ProtoAtLeast_def
      chunked_def tw_WriteHeader_def shouldSendContentLength_def isIdentity_def WriteSubset_def tw_WriteBody_def Let_def)

theorem request_round_trip_witness:
  "\<exists>wire rr. req_Write demo_urls buffer_write (\<lambda>s. (s, None)) demo_get [] = Some (wire, None) \<and>
    ReadRequest (\<lambda>s. s) demo_urls \<lparr>br_segs = [take 7 wire, drop 7 wire], br_end = io_EOF\<rparr> = Some (Inr rr) \<and>
    req_Method rr = ''GET'' \<and> req_Host rr = ''radio'' \<and> gomap_get (req_Header rr) ''Accept'' = Some [''a'', ''b'']"
proof -
  obtain wire where wire: "req_Write demo_urls buffer_write (\<lambda>s. (s, None)) demo_get [] = Some (wire, None)"
    using demo_get_written by blast
  have "br_rest \<lparr>br_segs = [take 7 wire, drop 7 wire], br_end = io_EOF\<rparr> = wire @ []" by (simp add: br_rest_def)
  from request_round_trip [OF demo_get_sendable wire this, of "\<lambda>s. s"] obtain rr
    where "ReadRequest (\<lambda>s. s) demo_urls \<lparr>br_segs = [take 7 wire, drop 7 wire], br_end = io_EOF\<rparr> = Some (Inr rr)"
      "req_Method rr = valueOrDefault (req_Method demo_get) ''GET''" "req_Host rr = write_host demo_get"
      "\<forall>k. \<not> reqWriteExcludeHeader k \<longrightarrow> gomap_get (req_Header rr) k = gomap_get (req_Header demo_get) k"
    by blast
  with wire show ?thesis
    by (auto simp: valueOrDefault_def write_host_def demo_get_def reqWriteExcludeHeader_def)
qed

end
