(* ===== verification/Serving.thy ===== *)
theory Serving
  imports Respond
begin

text \<open>
  Further parts of the server: \<open>MaxBytesReader\<close> of \<open>http/request.go\<close>, and from \<open>http/server.go\<close> the
  delays of the accept loop and the timeout handler with its two goroutines.
\<close>

section \<open>A limit on the request body\<close>

text \<open>The reader sits on the body of the request that belongs to the response it was made for.\<close>

record maxBytesReader =
  mb_n :: int
  mb_stopped :: bool

definition MaxBytesReader :: "int \<Rightarrow> maxBytesReader" where
  "MaxBytesReader n = \<lparr>mb_n = n, mb_stopped = False\<rparr>"

definition mb_Read ::
  "'s bufwriter \<Rightarrow> nat \<Rightarrow> maxBytesReader \<times> 's response \<Rightarrow> (maxBytesReader \<times> 's response) \<times> string \<times> error option" where
  "mb_Read bw len st =
     (case st of (l, w) \<Rightarrow>
        if mb_n l \<le> 0
        then ((l\<lparr>mb_stopped := True\<rparr>, if mb_stopped l then w else requestTooLarge w), [],
              Some ''http: request body too large'')
        else (case reqBody_Read bw (if mb_n l < int len then nat (mb_n l) else len) w of
                (w', d, e) \<Rightarrow> ((l\<lparr>mb_n := mb_n l - int (length d)\<rparr>, w'), d, e)))"

definition mb_Close :: "'s response \<Rightarrow> ('s response \<times> error option) option" where
  "mb_Close w = map_option (\<lambda>(rb, e). (w\<lparr>rs_reqBody := rb\<rparr>, e)) (reqBody_Close (rs_reqBody w))"

text \<open>Any sequence of reads, with the sizes of the buffers; the result is all the data that was read.\<close>

fun mb_reads :: "'s bufwriter \<Rightarrow> nat list \<Rightarrow> maxBytesReader \<times> 's response \<Rightarrow> (maxBytesReader \<times> 's response) \<times> string" where
  "mb_reads bw [] st = (st, [])"
| "mb_reads bw (n # ns) st =
     (case mb_Read bw n st of (st1, d, _) \<Rightarrow> (case mb_reads bw ns st1 of (st2, ds) \<Rightarrow> (st2, d @ ds)))"

subsection \<open>Readers fill at most the buffer\<close>

lemma br_Read_len: "br_Read n r = (r', d, e) \<Longrightarrow> length d \<le> n"
  by (auto simp: br_Read_def split: if_splits list.splits)

lemma limit_Read_len: "limit_Read n l = (l', d, e) \<Longrightarrow> length d \<le> n"
  using br_Read_len by (fastforce simp: limit_Read_def split: if_splits prod.splits)

lemma readChunk_len: "readChunk n cr = (cr', d, e) \<Longrightarrow> length d \<le> n"
  using br_Read_len by (fastforce simp: readChunk_def Let_def split: prod.splits)

lemma chunkedReader_Read_len: "chunkedReader_Read n cr = (cr', d, e) \<Longrightarrow> length d \<le> n"
  by (auto simp: chunkedReader_Read_def Let_def split: option.splits dest: readChunk_len)

lemma src_Read_len: "src_Read n s = (s', d, e) \<Longrightarrow> length d \<le> n"
  by (cases s) (auto split: prod.splits dest: chunkedReader_Read_len limit_Read_len br_Read_len)

lemma body_Read_len: "body_Read n b = (b', d, e) \<Longrightarrow> length d \<le> n"
  by (auto simp: body_Read_def split: if_splits prod.splits dest: src_Read_len)

lemma reqBody_Read_len: "reqBody_Read bw n w = (w', d, e) \<Longrightarrow> length d \<le> n"
  by (auto simp: reqBody_Read_def Let_def split: request_body.splits if_splits prod.splits dest: body_Read_len)

subsection \<open>The limit holds\<close>

lemma mb_Read_bound:
  assumes "mb_Read bw n (l, w) = ((l', w'), d, e)"
  shows "int (length d) + mb_n l' = mb_n l \<and> (0 \<le> mb_n l \<longrightarrow> 0 \<le> mb_n l') \<and> (mb_n l \<le> 0 \<longrightarrow> e \<noteq> None \<and> d = [])"
proof (cases "mb_n l \<le> 0")
  case True
  with assms show ?thesis by (auto simp: mb_Read_def)
next
  case False
  let ?k = "if mb_n l < int n then nat (mb_n l) else n"
  obtain w1 d1 e1 where r: "reqBody_Read bw ?k w = (w1, d1, e1)" by (rule prod_cases3)
  have "length d1 \<le> ?k" using r by (rule reqBody_Read_len)
  with False assms r show ?thesis by (auto simp: mb_Read_def split: if_splits)
qed

text \<open>
  C22: Whatever a handler reads through a limited body, in whatever pieces, it never gets more than the
  limit; and the read that comes after the limit is used up fails and marks the connection to be closed.
\<close>

theorem max_bytes_hold:
  assumes "0 \<le> n" and "mb_reads bw ns (MaxBytesReader n, w) = ((l, w'), ds)"
  shows "int (length ds) \<le> n \<and>
    (int (length ds) = n \<longrightarrow>
      (\<exists>l'' w'' e. mb_Read bw k (l, w') = ((l'', w''), [], Some e) \<and> (\<not> mb_stopped l \<longrightarrow> rs_closeAfterReply w'')))"
proof -
  have "int (length ds) + mb_n l' = mb_n l0 \<and> 0 \<le> mb_n l'"
    if "mb_reads bw ns (l0, w0) = ((l', w'), ds)" "0 \<le> mb_n l0" for l0 w0 ns ds l' w'
    using that
  proof (induction ns arbitrary: l0 w0 ds)
    case (Cons m ns)
    obtain l1 w1 d e where r: "mb_Read bw m (l0, w0) = ((l1, w1), d, e)" by (metis prod_cases3 surj_pair)
    obtain ds' where ds': "mb_reads bw ns (l1, w1) = ((l', w'), ds')" "ds = d @ ds'"
      using Cons.prems(1) r by (auto split: prod.splits)
    from mb_Read_bound [OF r] Cons.IH [OF ds'(1)] Cons.prems(2) show ?case by (simp add: ds'(2))
  qed simp
  from this [OF assms(2)] assms(1) have b: "int (length ds) + mb_n l = n" "0 \<le> mb_n l"
    by (simp_all add: MaxBytesReader_def)
  then show ?thesis by (auto simp: mb_Read_def requestTooLarge_def frame Let_def)
qed

definition demo_upload_response :: "string response" where
  "demo_upload_response = demo_response\<lparr>rs_reqBody :=
     PlainBody (new_body (SrcPlain \<lparr>br_segs = [''he'', ''llo''], br_end = io_EOF\<rparr>) False False)\<rparr>"

theorem max_bytes_hold_witness:
  "\<exists>l w' l'' w'' e. mb_reads mem [5, 5] (MaxBytesReader 3, demo_upload_response) = ((l, w'), ''hel'') \<and>
    mb_Read mem 5 (l, w') = ((l'', w''), [], Some e) \<and> rs_closeAfterReply w''"
proof -
  have r: "\<exists>l w'. mb_reads mem [5, 5] (MaxBytesReader 3, demo_upload_response) = ((l, w'), ''hel'') \<and> \<not> mb_stopped l"
    by (simp add: demo_upload_response_def mb_Read_def reqBody_Read_def body_Read_def br_Read_def new_body_def MaxBytesReader_def)
  then obtain l w' where w: "mb_reads mem [5, 5] (MaxBytesReader 3, demo_upload_response) = ((l, w'), ''hel'')" "\<not> mb_stopped l"
    by blast
  from max_bytes_hold [OF _ w(1), of 5] w show ?thesis by auto
qed

section \<open>The accept loop\<close>

text \<open>
  What an accept gives: a connection, a temporary error, or another error. The loop is a function of the
  delay so far; it yields the delay to sleep, in milliseconds, before the next turn, or ends.
\<close>

datatype accepted = AcceptConn | AcceptTemporary | AcceptFatal error

definition next_delay :: "nat \<Rightarrow> nat" where
  "next_delay tempDelay =
     (let d = (if tempDelay = 0 then 5 else tempDelay * 2) in if 1000 < d then 1000 else d)"

text \<open>The delays slept over a list of accepts, and the error that ends the loop.\<close>

fun Serve :: "nat \<Rightarrow> accepted list \<Rightarrow> nat list \<times> error option" where
  "Serve tempDelay [] = ([], None)"
| "Serve tempDelay (AcceptFatal e # as) = ([], Some e)"
| "Serve tempDelay (AcceptTemporary # as) =
     (let d = next_delay tempDelay in case Serve d as of (ds, e) \<Rightarrow> (d # ds, e))"
| "Serve tempDelay (AcceptConn # as) = Serve 0 as"

lemma Serve_delays: "tempDelay = 0 \<or> 5 \<le> tempDelay \<Longrightarrow> list_all (\<lambda>d. 5 \<le> d \<and> d \<le> 1000) (fst (Serve tempDelay as))"
  by (induction tempDelay as rule: Serve.induct) (auto simp: next_delay_def Let_def split: prod.splits)

text \<open>After \<open>k\<close> failures in a row the delay has doubled \<open>k - 1\<close> times, up to a second.\<close>

lemma delay_doubles: "(next_delay ^^ Suc k) 0 = min 1000 (5 * 2 ^ k)"
  by (induction k) (auto simp: next_delay_def Let_def min_def)

section \<open>The timeout handler\<close>

text \<open>
  The handler runs in a goroutine of its own on a \<open>timeoutWriter\<close>; the other goroutine waits for it or
  for the clock. \<open>Write\<close> and \<open>WriteHeader\<close> look at the flags under the lock and call the writer below
  after releasing it, so each is two steps: the call that has passed its check is \<open>to_pending\<close>. The
  goroutine of the clock keeps the lock while it replies: \<open>to_expiring\<close> holds the calls it still has to
  make, and no check passes meanwhile. The calls that reach the writer below, in order, are \<open>to_log\<close>;
  \<open>to_late\<close> are those of them that the handler made after the clock took the lock. The handler that has
  returned is \<open>to_returned\<close>; \<open>to_served\<close> holds once the other goroutine has heard of it.
\<close>

record timeoutWriter =
  to_log :: "rw_call list"
  to_timedOut :: bool
  to_wroteHeader :: bool
  to_pending :: "rw_call option"
  to_expiring :: "rw_call list option"
  to_returned :: bool
  to_served :: bool
  to_late :: "rw_call list"

definition errorBody :: "string \<Rightarrow> string" where
  "errorBody body =
     (if body \<noteq> [] then body
      else ''<html><head><title>Timeout</title></head><body><h1>Timeout</h1></body></html>'')"

definition timeout_reply :: "string \<Rightarrow> timeoutWriter \<Rightarrow> rw_call list" where
  "timeout_reply body tw =
     (if \<not> to_wroteHeader tw then [RW_WriteHeader StatusServiceUnavailable, RW_Write (errorBody body)] else [])"

text \<open>The handler may start a call: it has returned from the last one, runs, and the lock is free.\<close>

definition may_check :: "timeoutWriter \<Rightarrow> bool" where
  "may_check tw \<longleftrightarrow> to_pending tw = None \<and> \<not> to_returned tw \<and> to_expiring tw = None"

inductive timeout_step :: "string \<Rightarrow> timeoutWriter \<Rightarrow> timeoutWriter \<Rightarrow> bool" for body where
  write_check: "may_check tw \<Longrightarrow> \<not> to_timedOut tw \<Longrightarrow> timeout_step body tw (tw\<lparr>to_pending := Some (RW_Write p)\<rparr>)"
| write_refused: "may_check tw \<Longrightarrow> to_timedOut tw \<Longrightarrow> timeout_step body tw tw"
| header_check: "may_check tw \<Longrightarrow> \<not> to_timedOut tw \<Longrightarrow> \<not> to_wroteHeader tw \<Longrightarrow>
    timeout_step body tw (tw\<lparr>to_wroteHeader := True, to_pending := Some (RW_WriteHeader code)\<rparr>)"
| header_refused: "may_check tw \<Longrightarrow> to_timedOut tw \<or> to_wroteHeader tw \<Longrightarrow> timeout_step body tw tw"
| call: "to_pending tw = Some c \<Longrightarrow>
    timeout_step body tw (tw\<lparr>to_pending := None, to_log := to_log tw @ [c],
      to_late := (if to_timedOut tw \<or> to_expiring tw \<noteq> None then to_late tw @ [c] else to_late tw)\<rparr>)"
| return: "to_pending tw = None \<Longrightarrow> timeout_step body tw (tw\<lparr>to_returned := True\<rparr>)"
| serve: "to_returned tw \<Longrightarrow> \<not> to_timedOut tw \<Longrightarrow> to_expiring tw = None \<Longrightarrow> timeout_step body tw (tw\<lparr>to_served := True\<rparr>)"
| expire: "\<not> to_timedOut tw \<Longrightarrow> to_expiring tw = None \<Longrightarrow> \<not> to_served tw \<Longrightarrow>
    timeout_step body tw (tw\<lparr>to_expiring := Some (timeout_reply body tw)\<rparr>)"
| reply: "to_expiring tw = Some (c # cs) \<Longrightarrow>
    timeout_step body tw (tw\<lparr>to_expiring := Some cs, to_log := to_log tw @ [c]\<rparr>)"
| expired: "to_expiring tw = Some [] \<Longrightarrow>
    timeout_step body tw (tw\<lparr>to_expiring := None, to_timedOut := True\<rparr>)"

definition timeout_start :: timeoutWriter where
  "timeout_start = \<lparr>to_log = [], to_timedOut = False, to_wroteHeader = False, to_pending = None,
     to_expiring = None, to_returned = False, to_served = False, to_late = []\<rparr>"

lemma timeout_more:
  assumes "(timeout_step body)\<^sup>*\<^sup>* a b" "timeout_step body b c"
  shows "(timeout_step body)\<^sup>*\<^sup>* a c"
  using assms by (rule rtranclp.rtrancl_into_rtrancl)

text \<open>
  C33: However the two goroutines interleave, after the clock took the lock at most one call of the
  handler still reaches the writer below, the one that had passed its check before, and none before
  that; and the error page is never sent once the handler has been heard to return.
\<close>

theorem late_calls:
  assumes "(timeout_step body)\<^sup>*\<^sup>* timeout_start tw"
  shows "length (to_late tw) \<le> 1 \<and> (to_late tw \<noteq> [] \<longrightarrow> to_pending tw = None) \<and>
    (\<not> to_timedOut tw \<and> to_expiring tw = None \<longrightarrow> to_late tw = []) \<and>
    (to_served tw \<longrightarrow> \<not> to_timedOut tw \<and> to_expiring tw = None)"
  using assms
proof (induction rule: rtranclp_induct)
  case base
  then show ?case by (simp add: timeout_start_def)
next
  case (step y z)
  from step.hyps(2) step.IH show ?case by cases (auto simp: may_check_def)
qed

definition demo_late :: timeoutWriter where
  "demo_late = timeout_start\<lparr>to_timedOut := True, to_late := [RW_Write ''x''],
     to_log := [RW_WriteHeader 503, RW_Write ''x'', RW_Write (errorBody [])]\<rparr>"

theorem late_calls_witness:
  "length (to_late demo_late) \<le> 1 \<and> to_late demo_late = [RW_Write ''x''] \<and>
    to_log demo_late = [RW_WriteHeader 503, RW_Write ''x'', RW_Write (errorBody [])]"
proof -
  define t1 where "t1 = timeout_start\<lparr>to_pending := Some (RW_Write ''x'')\<rparr>"
  define t2 where "t2 = t1\<lparr>to_expiring := Some [RW_WriteHeader 503, RW_Write (errorBody [])]\<rparr>"
  define t3 where "t3 = t2\<lparr>to_expiring := Some [RW_Write (errorBody [])], to_log := [RW_WriteHeader 503]\<rparr>"
  define t4 where "t4 = t3\<lparr>to_pending := None, to_late := [RW_Write ''x''], to_log := [RW_WriteHeader 503, RW_Write ''x'']\<rparr>"
  define t5 where "t5 = t4\<lparr>to_expiring := Some [], to_log := [RW_WriteHeader 503, RW_Write ''x'', RW_Write (errorBody [])]\<rparr>"
  have e1: "timeout_step [] timeout_start t1"
    unfolding t1_def by (rule write_check) (simp_all add: timeout_start_def may_check_def)
  have e2: "timeout_step [] t1 t2"
    using expire [of t1 "[]"] by (simp add: t1_def t2_def timeout_start_def timeout_reply_def)
  have e3: "timeout_step [] t2 t3"
    using reply [of t2 "RW_WriteHeader 503" "[RW_Write (errorBody [])]" "[]"] by (simp add: t1_def t2_def t3_def timeout_start_def)
  have e4: "timeout_step [] t3 t4"
    using call [of t3 "RW_Write ''x''" "[]"] by (simp add: t1_def t2_def t3_def t4_def timeout_start_def)
  have e5: "timeout_step [] t4 t5"
    using reply [of t4 "RW_Write (errorBody [])" "[]" "[]"] by (simp add: t1_def t2_def t3_def t4_def t5_def timeout_start_def)
  have e6: "timeout_step [] t5 demo_late"
    using expired [of t5 "[]"] by (simp add: t1_def t2_def t3_def t4_def t5_def timeout_start_def demo_late_def)
  have "(timeout_step [])\<^sup>*\<^sup>* timeout_start t2"
    by (rule timeout_more [OF timeout_more [OF rtranclp.rtrancl_refl e1] e2])
  then have "(timeout_step [])\<^sup>*\<^sup>* timeout_start t4"
    by (rule timeout_more [OF timeout_more e4, OF _ e3])
  then have "(timeout_step [])\<^sup>*\<^sup>* timeout_start demo_late"
    by (rule timeout_more [OF timeout_more e6, OF _ e5])
  from late_calls [OF this] show ?thesis by (simp add: demo_late_def)
qed

text \<open>
  \<open>Write\<close> does not set \<open>wroteHeader\<close>: when a handler has only written, the clock still sends the timeout
  page, with a status of its own, behind the data.
\<close>

lemma timeout_after_write:
  "timeout_step body (timeout_start\<lparr>to_pending := Some (RW_Write p)\<rparr>) (timeout_start\<lparr>to_log := [RW_Write p]\<rparr>)"
  "timeout_step body (timeout_start\<lparr>to_log := [RW_Write p]\<rparr>)
     (timeout_start\<lparr>to_log := [RW_Write p], to_expiring := Some [RW_WriteHeader 503, RW_Write (errorBody body)]\<rparr>)"
  using call [of "timeout_start\<lparr>to_pending := Some (RW_Write p)\<rparr>" "RW_Write p" body]
    expire [of "timeout_start\<lparr>to_log := [RW_Write p]\<rparr>" body]
  by (simp_all add: timeout_start_def timeout_reply_def)

end
