(* ===== verification/Ranges.thy ===== *)
theory Ranges
  imports Request
begin

text \<open>
  The byte ranges of \<open>http/fs.go\<close>: \<open>httpRange\<close>, \<open>parseRange\<close> and \<open>sumRangesSize\<close>. Offsets are of type
  \<open>int64\<close>; where a sum or difference can leave the type, \<open>int64\<close> wraps it around. All errors of the
  parser are the same one.
\<close>

section \<open>The code\<close>

definition int64 :: "int \<Rightarrow> int" where
  "int64 x = (x + 2 ^ 63) mod 2 ^ 64 - 2 ^ 63"

record httpRange =
  rg_start :: int
  rg_length :: int

definition contentRange :: "httpRange \<Rightarrow> int \<Rightarrow> string" where
  "contentRange r sz =
     ''bytes '' @ Itoa (rg_start r) @ ''-'' @ Itoa (int64 (rg_start r + rg_length r - 1)) @ ''/'' @ Itoa sz"

definition mimeHeader :: "httpRange \<Rightarrow> string \<Rightarrow> int \<Rightarrow> header" where
  "mimeHeader r contentType sz =
     [(''Content-Range'', [contentRange r sz]), (''Content-Type'', [contentType])]"

definition errInvalidRange :: string where
  "errInvalidRange = ''invalid range''"

text \<open>A range without a start: the last bytes.\<close>

definition suffix_range :: "string \<Rightarrow> int \<Rightarrow> string + httpRange" where
  "suffix_range en sz =
     (case ParseInt en of
        None \<Rightarrow> Inl errInvalidRange
      | Some i \<Rightarrow>
          (let i = (if sz < i then sz else i); start = int64 (sz - i)
           in Inr \<lparr>rg_start = start, rg_length = int64 (sz - start)\<rparr>))"

text \<open>A range with a start, and an end or none.\<close>

definition from_range :: "string \<Rightarrow> string \<Rightarrow> int \<Rightarrow> string + httpRange" where
  "from_range st en sz =
     (case ParseInt st of
        None \<Rightarrow> Inl errInvalidRange
      | Some i \<Rightarrow>
          if sz < i \<or> i < 0 then Inl errInvalidRange
          else if en = [] then Inr \<lparr>rg_start = i, rg_length = sz - i\<rparr>
          else (case ParseInt en of
                  None \<Rightarrow> Inl errInvalidRange
                | Some j \<Rightarrow>
                    if j < i then Inl errInvalidRange
                    else (let j = (if sz \<le> j then sz - 1 else j)
                          in Inr \<lparr>rg_start = i, rg_length = j - i + 1\<rparr>)))"

definition parse_one :: "string \<Rightarrow> int \<Rightarrow> string + httpRange" where
  "parse_one ra sz =
     (if CHR ''-'' \<notin> set ra then Inl errInvalidRange
      else (let st = TrimSpace (takeWhile (\<lambda>c. c \<noteq> CHR ''-'') ra);
                en = TrimSpace (tl (dropWhile (\<lambda>c. c \<noteq> CHR ''-'') ra))
            in if st = [] then suffix_range en sz else from_range st en sz))"

fun parse_ranges :: "string list \<Rightarrow> int \<Rightarrow> httpRange list \<Rightarrow> string + httpRange list" where
  "parse_ranges [] sz ranges = Inr ranges"
| "parse_ranges (p # ps) sz ranges =
     (let ra = TrimSpace p
      in if ra = [] then parse_ranges ps sz ranges
         else (case parse_one ra sz of
                 Inl e \<Rightarrow> Inl e
               | Inr r \<Rightarrow> parse_ranges ps sz (ranges @ [r])))"

definition parseRange :: "string \<Rightarrow> int \<Rightarrow> string + httpRange list" where
  "parseRange s sz =
     (if s = [] then Inr []
      else if \<not> HasPrefix s ''bytes='' then Inl errInvalidRange
      else parse_ranges (Split (CHR '','') (drop (length ''bytes='') s)) sz [])"

definition sumRangesSize :: "httpRange list \<Rightarrow> int" where
  "sumRangesSize ranges = foldl (\<lambda>sz ra. int64 (sz + rg_length ra)) 0 ranges"

section \<open>Where ranges lie\<close>

lemma TrimSpace_Nil [simp]: "TrimSpace [] = []"
  by code_simp

lemma int64_id: "- (2 ^ 63) \<le> x \<Longrightarrow> x < 2 ^ 63 \<Longrightarrow> int64 x = x"
  by (simp add: int64_def)

text \<open>
  A range within a file, and what a suffix with a second sign gives: \<open>bytes=--n\<close> starts \<open>n\<close> bytes
  behind the end, with a negative length.
\<close>

definition inside :: "int \<Rightarrow> httpRange \<Rightarrow> bool" where
  "inside sz r \<longleftrightarrow> 0 \<le> rg_start r \<and> 0 \<le> rg_length r \<and> rg_start r + rg_length r \<le> sz"

definition beyond :: "int \<Rightarrow> httpRange \<Rightarrow> bool" where
  "beyond sz r \<longleftrightarrow> rg_length r < 0 \<and> rg_start r = int64 (sz - rg_length r)"

lemma from_range_inside:
  "from_range st en sz = Inr r \<Longrightarrow> inside sz r"
  by (auto simp: from_range_def inside_def Let_def split: option.splits if_splits)

lemma int64_wrap: "int64 (x + 2 ^ 64) = int64 x"
proof -
  have "x + 2 ^ 64 + 2 ^ 63 = (x + 2 ^ 63) + 2 ^ 64" by (simp only: ac_simps)
  then show ?thesis by (simp only: int64_def mod_add_self2)
qed

lemma int64_diff:
  assumes "0 \<le> sz" and "sz < 2 ^ 63" and "- (2 ^ 63) \<le> i" and "i \<le> sz"
  shows "int64 (sz - int64 (sz - i)) = i"
proof (cases "sz - i < 2 ^ 63")
  case True
  then have "int64 (sz - i) = sz - i" using assms by (intro int64_id) auto
  then show ?thesis using assms by (simp add: int64_id)
next
  case False
  have w: "int64 (sz - i) = sz - i - 2 ^ 64"
  proof -
    have "(sz - i + 2 ^ 63) mod 2 ^ 64 = (sz - i + 2 ^ 63 - 2 ^ 64) mod 2 ^ 64"
      by (rule minus_mod_self2 [symmetric])
    also have "\<dots> = sz - i + 2 ^ 63 - 2 ^ 64" using False assms by (intro mod_pos_pos_trivial) auto
    finally show ?thesis by (simp add: int64_def)
  qed
  moreover have "int64 (i + 2 ^ 64) = int64 i" by (rule int64_wrap)
  moreover have "int64 i = i" using assms by (intro int64_id) auto
  moreover have "sz - int64 (sz - i) = i + 2 ^ 64" using w by simp
  ultimately show ?thesis by simp
qed

lemma suffix_range_cases:
  assumes "suffix_range en sz = Inr r" and "0 \<le> sz" and "sz < 2 ^ 63"
  shows "inside sz r \<or> beyond sz r \<and> (\<exists>i. ParseInt en = Some i \<and> i < 0)"
proof -
  obtain i where i: "ParseInt en = Some i" using assms(1) by (auto simp: suffix_range_def split: option.splits)
  have b: "- (2 ^ 63) \<le> i" using ParseInt_bounds [OF i] by simp
  let ?i = "if sz < i then sz else i"
  have r: "r = \<lparr>rg_start = int64 (sz - ?i), rg_length = int64 (sz - int64 (sz - ?i))\<rparr>"
    using assms(1) i by (simp add: suffix_range_def Let_def)
  have l: "int64 (sz - int64 (sz - ?i)) = ?i" using b assms(2,3) by (intro int64_diff) auto
  show ?thesis
  proof (cases "i < 0")
    case True
    with i l assms(2) show ?thesis by (auto simp: beyond_def r)
  next
    case False
    then have "int64 (sz - ?i) = sz - ?i" using assms(2,3) by (intro int64_id) auto
    with False l assms(2) show ?thesis by (auto simp: inside_def r)
  qed
qed

lemma parse_one_cases:
  assumes "parse_one ra sz = Inr r" and "0 \<le> sz" and "sz < 2 ^ 63"
  shows "inside sz r \<or> beyond sz r"
  using assms suffix_range_cases from_range_inside
  by (fastforce simp: parse_one_def Let_def split: if_splits)

lemma parse_ranges_all:
  assumes "parse_ranges ps sz acc = Inr rs" and "0 \<le> sz" and "sz < 2 ^ 63"
    and "\<forall>r\<in>set acc. inside sz r \<or> beyond sz r"
  shows "\<forall>r\<in>set rs. inside sz r \<or> beyond sz r"
  using assms
proof (induction ps sz acc rule: parse_ranges.induct)
  case (2 p ps sz acc)
  then show ?case using parse_one_cases [of "TrimSpace p" sz]
    by (fastforce simp: Let_def split: if_splits sum.splits)
qed simp

text \<open>
  Every range that is accepted for a file lies within the file, with one exception: a suffix with a
  negative number gives a range of negative length that starts behind the end of the file.
\<close>

theorem ranges_inside:
  assumes "parseRange s sz = Inr rs" and "0 \<le> sz" and "sz < 2 ^ 63" and "r \<in> set rs"
  shows "inside sz r \<or> beyond sz r"
proof (cases "s = []")
  case True
  with assms show ?thesis by (simp add: parseRange_def)
next
  case False
  with assms(1) have "parse_ranges (Split (CHR '','') (drop (length ''bytes='') s)) sz [] = Inr rs"
    by (simp add: parseRange_def split: if_splits)
  from parse_ranges_all [OF this assms(2,3)] assms(4) show ?thesis by simp
qed

theorem ranges_inside_witness:
  "parseRange ''bytes=1-2, --5'' 10 = Inr [\<lparr>rg_start = 1, rg_length = 2\<rparr>, \<lparr>rg_start = 15, rg_length = -5\<rparr>] \<and>
   (inside 10 \<lparr>rg_start = 15, rg_length = -5\<rparr> \<or> beyond 10 \<lparr>rg_start = 15, rg_length = -5\<rparr>)"
proof -
  have "Split (CHR '','') ''1-2, --5'' = [''1-2'', '' --5'']" by simp
  moreover have t: "TrimSpace ''1-2'' = ''1-2''" "TrimSpace ''--5'' = ''--5''" "TrimSpace ''1'' = ''1''" "TrimSpace ''2'' = ''2''"
      "TrimSpace ''-5'' = ''-5''"
    by (rule TrimSpace_graphic; simp add: graphic_def)+
  then have "TrimSpace '' --5'' = ''--5''" using TrimSpace_blank [of "''--5''"] by simp
  moreover have i: "ParseInt ''1'' = Some 1" "ParseInt ''2'' = Some 2" "ParseInt ''-5'' = Some (- 5)" by (simp_all add: strconv_eval)
  have "parse_one ''1-2'' 10 = Inr \<lparr>rg_start = 1, rg_length = 2\<rparr>"
    using t i by (simp add: parse_one_def from_range_def)
  moreover have "parse_one ''--5'' 10 = Inr \<lparr>rg_start = 15, rg_length = -5\<rparr>"
    using t i by (simp add: parse_one_def suffix_range_def int64_def Let_def)
  ultimately have p: "parseRange ''bytes=1-2, --5'' 10 = Inr [\<lparr>rg_start = 1, rg_length = 2\<rparr>, \<lparr>rg_start = 15, rg_length = -5\<rparr>]"
    using t by (simp add: parseRange_def)
  have "inside 10 \<lparr>rg_start = 15, rg_length = -5\<rparr> \<or> beyond 10 \<lparr>rg_start = 15, rg_length = -5\<rparr>"
    by (rule ranges_inside [OF p]) simp_all
  with p show ?thesis by blast
qed

section \<open>Round trip\<close>

text \<open>The ways to write a range: with both ends, up to the end of the file, or as a suffix.\<close>

datatype range_form = FromTo | From | Last

fun write_range :: "range_form \<times> httpRange \<Rightarrow> string" where
  "write_range (FromTo, r) = Itoa (rg_start r) @ ''-'' @ Itoa (rg_start r + rg_length r - 1)"
| "write_range (From, r) = Itoa (rg_start r) @ ''-''"
| "write_range (Last, r) = ''-'' @ Itoa (rg_length r)"

fun writable :: "int \<Rightarrow> range_form \<times> httpRange \<Rightarrow> bool" where
  "writable sz (f, r) \<longleftrightarrow> inside sz r \<and>
     (if f = FromTo then 0 < rg_length r else rg_start r + rg_length r = sz)"

lemma Itoa_graphic: "0 \<le> i \<Longrightarrow> c \<in> set (Itoa i) \<Longrightarrow> graphic c \<and> c \<noteq> CHR ''-'' \<and> c \<noteq> CHR '',''"
proof -
  assume "0 \<le> i" "c \<in> set (Itoa i)"
  then have "digit_ok 10 c" using FormatUint_digits [of 10 "nat i"] by (auto simp: FormatInt_def list_all_iff)
  then have "48 \<le> byte c" "byte c \<le> 57" by (simp_all add: digit_ok_10)
  then show ?thesis by (auto simp: graphic_def)
qed

lemma Itoa_nonempty [simp]: "Itoa i \<noteq> []"
  by (simp add: FormatInt_def)

lemma TrimSpace_Itoa: "0 \<le> i \<Longrightarrow> TrimSpace (Itoa i) = Itoa i"
  using Itoa_graphic [of i "hd (Itoa i)"] Itoa_graphic [of i "last (Itoa i)"]
  by (intro TrimSpace_graphic) auto

lemma split_dash:
  assumes "0 \<le> i"
  shows "takeWhile (\<lambda>c. c \<noteq> CHR ''-'') (Itoa i @ CHR ''-'' # s) = Itoa i"
    and "tl (dropWhile (\<lambda>c. c \<noteq> CHR ''-'') (Itoa i @ CHR ''-'' # s)) = s"
  using Itoa_graphic [OF assms] by (auto simp: takeWhile_append2 dropWhile_append2)

lemma write_range_ends:
  assumes "writable sz fr"
  shows "write_range fr \<noteq> [] \<and> graphic (hd (write_range fr)) \<and> graphic (last (write_range fr)) \<and>
    CHR '','' \<notin> set (write_range fr) \<and> CHR ''-'' \<in> set (write_range fr)"
proof -
  obtain f r where fr: "fr = (f, r)" by (cases fr)
  have "0 \<le> rg_start r" "0 \<le> rg_length r" using assms by (auto simp: fr inside_def)
  moreover have "graphic (CHR ''-'')" by (simp add: graphic_def)
  ultimately show ?thesis
    using assms Itoa_graphic [of "rg_start r"] Itoa_graphic [of "rg_length r"] Itoa_graphic [of "rg_start r + rg_length r - 1"]
    by (cases f) (auto simp: fr)
qed

lemma parse_one_write_range:
  assumes "writable sz fr" and "sz < 2 ^ 63"
  shows "parse_one (write_range fr) sz = Inr (snd fr)"
proof -
  obtain f r where fr: "fr = (f, r)" by (cases fr)
  have b: "0 \<le> rg_start r" "0 \<le> rg_length r" "rg_start r + rg_length r \<le> sz"
    using assms(1) by (auto simp: fr inside_def)
  have d: "CHR ''-'' \<in> set (write_range fr)" using write_range_ends [OF assms(1)] by simp
  show ?thesis
  proof (cases f)
    case FromTo
    with assms(1) have "0 < rg_length r" by (simp add: fr)
    then show ?thesis using b d assms(2) FromTo
      by (simp add: fr parse_one_def split_dash TrimSpace_Itoa from_range_def ParseInt_Itoa Let_def)
  next
    case From
    with assms(1) have "rg_start r + rg_length r = sz" by (simp add: fr)
    then show ?thesis using b d assms(2) From
      by (simp add: fr parse_one_def split_dash TrimSpace_Itoa from_range_def ParseInt_Itoa Let_def)
  next
    case Last
    with assms(1) have "rg_start r + rg_length r = sz" by (simp add: fr)
    then have "rg_start r = sz - rg_length r" by simp
    then show ?thesis using b d assms(2) Last
      by (simp add: fr parse_one_def TrimSpace_Itoa suffix_range_def ParseInt_Itoa Let_def int64_id)
  qed
qed

lemma parse_ranges_write:
  assumes "list_all (writable sz) frs" and "sz < 2 ^ 63"
  shows "parse_ranges (map write_range frs) sz acc = Inr (acc @ map snd frs)"
  using assms
proof (induction frs arbitrary: acc)
  case (Cons fr frs)
  then have "TrimSpace (write_range fr) = write_range fr" using write_range_ends [of sz fr] by (intro TrimSpace_graphic) auto
  with Cons write_range_ends [of sz fr] show ?case by (simp add: parse_one_write_range)
qed simp

lemma Split_Join_comma: "list_all (\<lambda>e. c \<notin> set e) es \<Longrightarrow> es \<noteq> [] \<Longrightarrow> Split c (Join c es) = es"
  by (induction c es rule: Join.induct) (auto simp: Split_sep)

lemma parse_written_ranges:
  assumes "list_all (writable sz) frs" and "frs \<noteq> []" and "sz < 2 ^ 63"
  shows "parseRange (''bytes='' @ Join (CHR '','') (map write_range frs)) sz = Inr (map snd frs)"
proof -
  have "list_all (\<lambda>e. CHR '','' \<notin> set e) (map write_range frs)"
    using assms(1) write_range_ends by (auto simp: list_all_iff)
  then have "Split (CHR '','') (Join (CHR '','') (map write_range frs)) = map write_range frs"
    using assms(2) by (intro Split_Join_comma) auto
  then show ?thesis using parse_ranges_write [OF assms(1,3), of "[]"] by (simp add: parseRange_def)
qed

text \<open>
  C25: A list of ranges within a file, each written with both ends, up to the end or as a suffix, is
  parsed as exactly these ranges, in this order.
\<close>

theorem ranges_round_trip:
  assumes "list_all (writable sz) frs" and "frs \<noteq> []" and "sz < 2 ^ 63"
  shows "parseRange (''bytes='' @ Join (CHR '','') (map write_range frs)) sz = Inr (map snd frs)"
  using assms by (rule parse_written_ranges)

theorem ranges_round_trip_witness:
  "parseRange ''bytes=0-1,-3'' 10 = Inr [\<lparr>rg_start = 0, rg_length = 2\<rparr>, \<lparr>rg_start = 7, rg_length = 3\<rparr>]"
proof -
  let ?frs = "[(FromTo, \<lparr>rg_start = 0, rg_length = 2\<rparr>), (Last, \<lparr>rg_start = 7, rg_length = 3\<rparr>)]"
  have "''bytes='' @ Join (CHR '','') (map write_range ?frs) = ''bytes=0-1,-3''" by code_simp
  moreover have "parseRange (''bytes='' @ Join (CHR '','') (map write_range ?frs)) 10 = Inr (map snd ?frs)"
    by (rule ranges_round_trip) (simp_all add: inside_def)
  ultimately show ?thesis by simp
qed

end
