(* ===== verification/Files.thy ===== *)
theory Files
  imports Ranges Mux Sniff
begin

text \<open>
  Serving files, the rest of \<open>http/fs.go\<close>: \<open>serveContent\<close> and \<open>ServeContent\<close> with range requests,
  \<open>serveFile\<close>, the file handler and \<open>Dir\<close>.

  A file's contents are an \<open>io.ReadSeeker\<close>, the record \<open>seeker\<close> of functions on a state \<open>'c\<close>: a seek
  (the second argument is \<open>whence\<close>), and reading up to a number of bytes, which is what \<open>io.ReadFull\<close>
  and \<open>io.CopyN\<close> do with it; a read reports whether it got all of them. Times are values of \<open>'t\<close>, with
  what the code uses of package \<open>time\<close> in \<open>mod_lib\<close>; \<open>types\<close> is \<open>mime.TypeByExtension\<close>. The data that
  \<open>io.CopyN\<close> copies to the response appears as one \<open>Write\<close>, in whatever pieces it was copied.
  A handler starts with the header \<open>h\<close> of its response.
\<close>

record 'c seeker =
  sk_Seek :: "int \<Rightarrow> nat \<Rightarrow> 'c \<Rightarrow> 'c \<times> (string + int)"
  sk_ReadN :: "nat \<Rightarrow> 'c \<Rightarrow> 'c \<times> string \<times> bool"

abbreviation SEEK_SET :: nat where "SEEK_SET \<equiv> 0"
abbreviation SEEK_END :: nat where "SEEK_END \<equiv> 2"

record 't mod_lib =
  ml_Parse :: "string \<Rightarrow> string \<Rightarrow> 't option"
  ml_Format :: "string \<Rightarrow> 't \<Rightarrow> string"
  ml_UTC :: "'t \<Rightarrow> 't"
  ml_IsZero :: "'t \<Rightarrow> bool"
  ml_Before :: "'t \<Rightarrow> 't \<Rightarrow> bool"
  ml_AddSecond :: "'t \<Rightarrow> 't"

definition TimeFormat :: string where
  "TimeFormat = ''Mon, 02 Jan 2006 15:04:05 GMT''"

section \<open>Modification times\<close>

text \<open>The calls made, and whether the request is complete.\<close>

definition checkLastModified :: "'t mod_lib \<Rightarrow> 'b Request \<Rightarrow> 't \<Rightarrow> rw_call list \<times> bool" where
  "checkLastModified T r modtime =
     (if ml_IsZero T modtime then ([], False)
      else let unmodified = (case ml_Parse T TimeFormat (Get (req_Header r) ''If-Modified-Since'') of
                               None \<Rightarrow> False | Some t \<Rightarrow> ml_Before T modtime (ml_AddSecond T t))
           in if unmodified then ([RW_WriteHeader StatusNotModified], True)
              else ([RW_Set ''Last-Modified'' (ml_Format T TimeFormat (ml_UTC T modtime))], False))"

section \<open>Multipart bodies\<close>

text \<open>
  \<open>multipart.Writer\<close>: a part is its boundary line, the lines of its header and an empty line; the parts
  are separated by line ends, and \<open>Close\<close> writes the last boundary. A header is written in the order in
  which the runtime visits the map: \<open>ord\<close> arranges the header of the \<open>i\<close>-th part.
\<close>

definition CreatePart :: "string \<Rightarrow> nat \<Rightarrow> header \<Rightarrow> string" where
  "CreatePart boundary i h =
     (if i = 0 then [] else CRLF) @ ''--'' @ boundary @ CRLF @
     concat (map (\<lambda>(k, vs). concat (map (\<lambda>v. k @ '': '' @ v @ CRLF) vs)) h) @ CRLF"

definition mw_Close :: "string \<Rightarrow> string" where
  "mw_Close boundary = CRLF @ ''--'' @ boundary @ ''--'' @ CRLF"

type_synonym part_order = "nat \<Rightarrow> header \<Rightarrow> header"

text \<open>The bytes counted by \<open>countingWriter\<close>, and the sum of the lengths of the ranges.\<close>

fun mime_loop :: "part_order \<Rightarrow> string \<Rightarrow> string \<Rightarrow> int \<Rightarrow> nat \<Rightarrow> httpRange list \<Rightarrow> int \<Rightarrow> int \<Rightarrow> int \<times> int" where
  "mime_loop ord boundary contentType sz i [] w encSize = (int64 (w + int (length (mw_Close boundary))), encSize)"
| "mime_loop ord boundary contentType sz i (ra # ras) w encSize =
     mime_loop ord boundary contentType sz (Suc i) ras
       (int64 (w + int (length (CreatePart boundary i (ord i (mimeHeader ra contentType sz))))))
       (int64 (encSize + rg_length ra))"

definition rangesMIMESize :: "part_order \<Rightarrow> string \<Rightarrow> httpRange list \<Rightarrow> string \<Rightarrow> int \<Rightarrow> int" where
  "rangesMIMESize ord boundary ranges contentType sz =
     (case mime_loop ord boundary contentType sz 0 ranges 0 0 of (w, encSize) \<Rightarrow> int64 (encSize + w))"

text \<open>
  What the goroutine sends through the pipe, until it closes it; the flag tells if it got to the end. A
  negative number of bytes to copy copies none and is no error.
\<close>

fun send_parts ::
  "'c seeker \<Rightarrow> part_order \<Rightarrow> string \<Rightarrow> string \<Rightarrow> int \<Rightarrow> nat \<Rightarrow> httpRange list \<Rightarrow> 'c \<Rightarrow> 'c \<times> string \<times> bool" where
  "send_parts C ord boundary ctype sz i [] c = (c, mw_Close boundary, True)"
| "send_parts C ord boundary ctype sz i (ra # ras) c =
     (let part = CreatePart boundary i (ord i (mimeHeader ra ctype sz))
      in case sk_Seek C (rg_start ra) SEEK_SET c of
           (c1, Inl e) \<Rightarrow> (c1, part, False)
         | (c1, Inr _) \<Rightarrow>
             (case (if rg_length ra \<le> 0 then (c1, [], True) else sk_ReadN C (nat (rg_length ra)) c1) of
                (c2, d, False) \<Rightarrow> (c2, part @ d, False)
              | (c2, d, True) \<Rightarrow>
                  (case send_parts C ord boundary ctype sz (Suc i) ras c2 of
                     (c3, ds, ok) \<Rightarrow> (c3, part @ d @ ds, ok))))"

section \<open>serveContent\<close>

text \<open>\<open>filepath.Ext\<close>.\<close>

definition Ext :: "string \<Rightarrow> string" where
  "Ext path =
     (let base = rev (takeWhile (\<lambda>c. c \<noteq> CHR ''/'') (rev path))
      in if CHR ''.'' \<in> set base then CHR ''.'' # rev (takeWhile (\<lambda>c. c \<noteq> CHR ''.'') (rev base)) else [])"

definition cannot_seek :: "rw_call list" where
  "cannot_seek = Error (''seeker can'' @ [CHR 0x27] @ ''t seek'') StatusInternalServerError"

text \<open>
  The content type: the one of the header, of the extension, or of the first 1024 bytes, after which the
  content is rewound. \<open>None\<close> is a seek that failed.
\<close>

definition content_type ::
  "(string \<Rightarrow> string) \<Rightarrow> 'c seeker \<Rightarrow> header \<Rightarrow> string \<Rightarrow> 'c \<Rightarrow> 'c \<times> (string \<times> rw_call list) option" where
  "content_type types C h nam c =
     (if Get h ''Content-Type'' \<noteq> [] then (c, Some (Get h ''Content-Type'', []))
      else if types (Ext nam) \<noteq> [] then (c, Some (types (Ext nam), [RW_Set ''Content-Type'' (types (Ext nam))]))
      else (case sk_ReadN C 1024 c of
              (c1, b, _) \<Rightarrow>
                (let ctype = DetectContentType b
                 in case sk_Seek C 0 SEEK_SET c1 of
                      (c2, Inl e) \<Rightarrow> (c2, None)
                    | (c2, Inr _) \<Rightarrow> (c2, Some (ctype, [RW_Set ''Content-Type'' ctype])))))"

text \<open>What is to be sent: the number of bytes, the code, and the content itself or the parts of a pipe.\<close>

datatype to_send = SendContent int | SendParts string "httpRange list" int

text \<open>
  The ranges of the request: what to send with which headers, or an error reply, or the panic on the nil
  error of the loop over several ranges. The boundaries of the two multipart writers are \<open>b\<close> and \<open>b'\<close>.
\<close>

datatype 'c choice = Choose 'c int "rw_call list" to_send | Reject 'c "rw_call list" | NilError 'c

definition choose_ranges ::
  "'c seeker \<Rightarrow> part_order \<Rightarrow> string \<Rightarrow> string \<Rightarrow> string \<Rightarrow> int \<Rightarrow> string \<Rightarrow> 'c \<Rightarrow> 'c choice" where
  "choose_ranges C ord b b' ctype sz rangeHeader c =
     (case parseRange rangeHeader sz of
        Inl e \<Rightarrow> Reject c (Error e StatusRequestedRangeNotSatisfiable)
      | Inr rs \<Rightarrow>
          (let ranges = (if sz \<le> sumRangesSize rs then [] else rs)
           in case ranges of
                [] \<Rightarrow> Choose c StatusOK [] (SendContent sz)
              | [ra] \<Rightarrow>
                  (case sk_Seek C (rg_start ra) SEEK_SET c of
                     (c1, Inl e) \<Rightarrow> Reject c1 (Error e StatusRequestedRangeNotSatisfiable)
                   | (c1, Inr _) \<Rightarrow>
                       Choose c1 StatusPartialContent [RW_Set ''Content-Range'' (contentRange ra sz)]
                         (SendContent (rg_length ra)))
              | _ \<Rightarrow>
                  if list_ex (\<lambda>ra. sz < rg_start ra) ranges then NilError c
                  else Choose c StatusPartialContent
                         [RW_Set ''Content-Type'' (''multipart/byteranges; boundary='' @ b)]
                         (SendParts b ranges (rangesMIMESize ord b' ranges ctype sz))))"

definition sendSize :: "to_send \<Rightarrow> int" where
  "sendSize t = (case t of SendContent n \<Rightarrow> n | SendParts b rs n \<Rightarrow> n)"

text \<open>\<open>io.CopyN\<close> of what is to be sent, at most the given size; a negative size copies nothing.\<close>

definition copy_out :: "'c seeker \<Rightarrow> part_order \<Rightarrow> string \<Rightarrow> int \<Rightarrow> to_send \<Rightarrow> 'c \<Rightarrow> 'c \<times> string" where
  "copy_out C ord ctype sz t c =
     (case t of
        SendContent n \<Rightarrow> (if n \<le> 0 then (c, []) else case sk_ReadN C (nat n) c of (c1, d, _) \<Rightarrow> (c1, d))
      | SendParts b rs n \<Rightarrow> (case send_parts C ord b ctype sz 0 rs c of (c1, d, _) \<Rightarrow> (c1, take (nat n) d)))"

definition serveContent ::
  "'t mod_lib \<Rightarrow> (string \<Rightarrow> string) \<Rightarrow> 'c seeker \<Rightarrow> part_order \<Rightarrow> part_order \<Rightarrow> string \<Rightarrow> string \<Rightarrow> header \<Rightarrow>
   'b Request \<Rightarrow> string \<Rightarrow> 't \<Rightarrow> int \<Rightarrow> 'c handler" where
  "serveContent T types C ord ord' b b' h r nam modtime sz c =
     (case checkLastModified T r modtime of
        (out, True) \<Rightarrow> Done c out
      | (out, False) \<Rightarrow>
          (case content_type types C h nam c of
             (c1, None) \<Rightarrow> Done c1 (out @ cannot_seek)
           | (c1, Some (ctype, ct)) \<Rightarrow>
               (let choice = (if sz < 0 then Choose c1 StatusOK [] (SendContent sz)
                              else choose_ranges C ord' b b' ctype sz (Get (req_Header r) ''Range'') c1)
                in case choice of
                     Reject c2 error \<Rightarrow> Done c2 (out @ ct @ error)
                   | NilError c2 \<Rightarrow> Panic c2 ''runtime error: invalid memory address or nil pointer dereference''
                   | Choose c2 code range_set t \<Rightarrow>
                       (let lens = (if sz < 0 then []
                                    else [RW_Set ''Accept-Ranges'' ''bytes''] @
                                      (if Get h ''Content-Encoding'' = []
                                       then [RW_Set ''Content-Length'' (Itoa (sendSize t))] else []));
                            start = out @ ct @ range_set @ lens @ [RW_WriteHeader code]
                        in if req_Method r \<noteq> ''HEAD''
                           then (case copy_out C ord ctype sz t c2 of (c3, d) \<Rightarrow> Done c3 (start @ [RW_Write d]))
                           else Done c2 start))))"

definition ServeContent ::
  "'t mod_lib \<Rightarrow> (string \<Rightarrow> string) \<Rightarrow> 'c seeker \<Rightarrow> part_order \<Rightarrow> part_order \<Rightarrow> string \<Rightarrow> string \<Rightarrow> header \<Rightarrow>
   'b Request \<Rightarrow> string \<Rightarrow> 't \<Rightarrow> 'c handler" where
  "ServeContent T types C ord ord' b b' h r nam modtime c =
     (case sk_Seek C 0 SEEK_END c of
        (c1, Inl e) \<Rightarrow> Done c1 cannot_seek
      | (c1, Inr sz) \<Rightarrow>
          (case sk_Seek C 0 SEEK_SET c1 of
             (c2, Inl e) \<Rightarrow> Done c2 cannot_seek
           | (c2, Inr _) \<Rightarrow> serveContent T types C ord ord' b b' h r nam modtime sz c2))"

section \<open>serveFile\<close>

record 't file_info =
  fi_Name :: string
  fi_IsDir :: bool
  fi_Size :: int
  fi_ModTime :: 't

text \<open>
  An open file: the result of \<open>Stat\<close>, the batches that \<open>Readdir(100)\<close> gives until an error, each entry
  with whether it is a directory, and the state of its contents. A file system opens a file by name.
\<close>

record ('c, 't) File =
  f_Stat :: "'t file_info option"
  f_Readdir :: "(string \<times> bool) list list"
  f_content :: 'c

type_synonym ('c, 't) FileSystem = "string \<Rightarrow> ('c, 't) File option"

definition dir_entry :: "string \<times> bool \<Rightarrow> rw_call" where
  "dir_entry d =
     (let nam = fst d @ (if snd d then ''/'' else [])
      in RW_Write (''<a href='' @ [CHR 0x22] @ nam @ [CHR 0x22] @ ''>'' @ nam @ ''</a>\<newline>''))"

fun dir_loop :: "(string \<times> bool) list list \<Rightarrow> rw_call list" where
  "dir_loop [] = []"
| "dir_loop (dirs # rest) = (if dirs = [] then [] else map dir_entry dirs @ dir_loop rest)"

definition dirList :: "(string \<times> bool) list list \<Rightarrow> rw_call list" where
  "dirList batches =
     [RW_Set ''Content-Type'' ''text/html; charset=utf-8'', RW_Write ''<pre>\<newline>''] @ dir_loop batches @
     [RW_Write ''</pre>\<newline>'']"

definition localRedirect :: "'b Request \<Rightarrow> string \<Rightarrow> rw_call list" where
  "localRedirect r newPath =
     (let q = url_RawQuery (req_URL r)
      in [RW_Set ''Location'' (if q \<noteq> [] then newPath @ ''?'' @ q else newPath), RW_WriteHeader StatusMovedPermanently])"

text \<open>\<open>path.Base\<close>.\<close>

definition path_Base :: "string \<Rightarrow> string" where
  "path_Base p =
     (if p = [] then ''.''
      else let s = dropWhile (\<lambda>c. c = CHR ''/'') (rev p); b = rev (takeWhile (\<lambda>c. c \<noteq> CHR ''/'') s)
           in if b = [] then ''/'' else b)"

definition HasSuffix :: "string \<Rightarrow> string \<Rightarrow> bool" where
  "HasSuffix s suf = HasPrefix (rev s) (rev suf)"

definition indexPage :: string where
  "indexPage = ''/index.html''"

text \<open>
  The file that is served, after the index page of a directory has been looked for; the contents are
  served by the argument \<open>serve\<close>, which is \<open>serveContent\<close> with the file's name, time and size. A handler's
  state is \<open>'s\<close>; the contents belong to the file, which is closed at the end.
\<close>

definition index_file :: "('c, 't) FileSystem \<Rightarrow> string \<Rightarrow> ('c, 't) File \<Rightarrow> 't file_info \<Rightarrow> ('c, 't) File \<times> 't file_info" where
  "index_file fs nam f d =
     (if fi_IsDir d
      then (case fs (nam @ indexPage) of
              None \<Rightarrow> (f, d)
            | Some ff \<Rightarrow> (case f_Stat ff of None \<Rightarrow> (f, d) | Some dd \<Rightarrow> (ff, dd)))
      else (f, d))"

text \<open>Where a request for a directory without, or a file with a slash at the end is sent.\<close>

definition slash_redirect :: "string \<Rightarrow> bool \<Rightarrow> string option" where
  "slash_redirect url isDir =
     (if isDir then (if last url \<noteq> CHR ''/'' then Some (path_Base url @ ''/'') else None)
      else (if last url = CHR ''/'' then Some (''../'' @ path_Base url) else None))"

definition serveFile ::
  "'t mod_lib \<Rightarrow> (string \<Rightarrow> 't \<Rightarrow> int \<Rightarrow> 'c handler) \<Rightarrow> 'b Request \<Rightarrow> ('c, 't) FileSystem \<Rightarrow> string \<Rightarrow> bool \<Rightarrow> 's handler" where
  "serveFile T serve r fs nam redirect s =
     (let url = url_Path (req_URL r)
      in if HasSuffix url indexPage then Done s (localRedirect r ''./'')
         else case fs nam of
                None \<Rightarrow> Done s NotFound
              | Some f \<Rightarrow>
                  (case f_Stat f of
                     None \<Rightarrow> Done s NotFound
                   | Some d \<Rightarrow>
                       if redirect \<and> url = [] then Panic s ''runtime error: index out of range''
                       else (case (if redirect then slash_redirect url (fi_IsDir d) else None) of
                               Some p \<Rightarrow> Done s (localRedirect r p)
                             | None \<Rightarrow>
                                 (case index_file fs nam f d of (f', d') \<Rightarrow>
                                    if fi_IsDir d'
                                    then (case checkLastModified T r (fi_ModTime d') of
                                            (out, True) \<Rightarrow> Done s out
                                          | (out, False) \<Rightarrow> Done s (out @ dirList (f_Readdir f')))
                                    else (case serve (fi_Name d') (fi_ModTime d') (fi_Size d') (f_content f') of
                                            Done c out \<Rightarrow> Done s out
                                          | Panic c msg \<Rightarrow> Panic s msg
                                          | Block c \<Rightarrow> Block s)))))"

section \<open>Directories\<close>

text \<open>
  \<open>filepath.Join\<close> of two paths on a system whose separator is the slash, and \<open>Dir.Open\<close>: the name of the
  file that is opened, unless the name is refused.
\<close>

definition filepath_Join :: "string \<Rightarrow> string \<Rightarrow> string" where
  "filepath_Join a b = (if a = [] then (if b = [] then [] else Clean b) else Clean (a @ ''/'' @ b))"

definition dir_path :: "string \<Rightarrow> string \<Rightarrow> string option" where
  "dir_path d nam =
     (if Contains nam [CHR 0x00] then None
      else Some (filepath_Join (if d = [] then ''.'' else d) (Clean (''/'' @ nam))))"

definition Dir_Open :: "(string \<Rightarrow> ('c, 't) File option) \<Rightarrow> string \<Rightarrow> ('c, 't) FileSystem" where
  "Dir_Open os_Open d nam = (case dir_path d nam of None \<Rightarrow> None | Some p \<Rightarrow> os_Open p)"

text \<open>\<open>filepath.Split\<close> cuts behind the last slash.\<close>

definition ServeFile ::
  "'t mod_lib \<Rightarrow> (string \<Rightarrow> 't \<Rightarrow> int \<Rightarrow> 'c handler) \<Rightarrow> (string \<Rightarrow> ('c, 't) File option) \<Rightarrow> 'b Request \<Rightarrow> string \<Rightarrow> 's handler" where
  "ServeFile T serve os_Open r nam s =
     (let d = path_dir nam in serveFile T serve r (Dir_Open os_Open d) (drop (length d) nam) False s)"

text \<open>The file handler sets the path of the request before it serves it.\<close>

definition fileHandler_ServeHTTP ::
  "'t mod_lib \<Rightarrow> ('b Request \<Rightarrow> string \<Rightarrow> 't \<Rightarrow> int \<Rightarrow> 'c handler) \<Rightarrow> ('c, 't) FileSystem \<Rightarrow> 'b Request \<Rightarrow> 's handler" where
  "fileHandler_ServeHTTP T serve root r s =
     (let p = url_Path (req_URL r);
          upath = (if \<not> HasPrefix p ''/'' then ''/'' @ p else p);
          r' = r\<lparr>req_URL := (req_URL r)\<lparr>url_Path := upath\<rparr>\<rparr>
      in serveFile T (serve r') r' root (Clean upath) True s)"

end
