(* ===== verification/FileSpec.thy ===== *)
theory FileSpec
  imports Files
begin

text \<open>
  What serving files guarantees: a directory is never left, a range request gets exactly the bytes of its
  ranges with the length that was announced, and what a range behind the end of the file does instead.
\<close>

section \<open>Directories are not left\<close>

lemma clean_elems_append:
  assumes "list_all plain_elem es"
  shows "clean_elems rooted st (es' @ es) = clean_elems rooted st es' @ es"
proof (induction rooted st es' rule: clean_elems.induct)
  case (1 rooted st)
  from assms show ?case by (induction es arbitrary: st) (auto simp: plain_elem_def)
qed (auto split: list.splits)

lemma Split_append_slash: "Split c (a @ c # b) = Split c a @ Split c b"
  by (induction a) (auto split: list.splits)

text \<open>A path below a directory: its cleaned path and some elements behind it.\<close>

definition below :: "string \<Rightarrow> string list \<Rightarrow> string" where
  "below d es =
     (if es = [] then Clean d
      else if Clean d = ''.'' then Join (CHR ''/'') es
      else if Clean d = ''/'' then CHR ''/'' # Join (CHR ''/'') es
      else Clean d @ CHR ''/'' # Join (CHR ''/'') es)"

lemma Join_append: "xs \<noteq> [] \<Longrightarrow> ys \<noteq> [] \<Longrightarrow> Join c (xs @ ys) = Join c xs @ c # Join c ys"
  by (induction c xs rule: Join.induct) (auto simp: neq_Nil_conv)

lemma Join_Nil_iff: "list_all (\<lambda>e. e \<noteq> []) es \<Longrightarrow> Join c es = [] \<longleftrightarrow> es = []"
  by (induction c es rule: Join.induct) auto

definition cleaned_elem :: "string \<Rightarrow> bool" where
  "cleaned_elem e \<longleftrightarrow> e \<noteq> [] \<and> e \<noteq> ''.'' \<and> CHR ''/'' \<notin> set e"

lemma clean_elems_cleaned:
  "list_all cleaned_elem st \<Longrightarrow> list_all (\<lambda>e. CHR ''/'' \<notin> set e) es \<Longrightarrow> list_all cleaned_elem (clean_elems rooted st es)"
proof (induction rooted st es rule: clean_elems.induct)
  case (2 rooted st e es)
  then show ?case by (cases st) (auto simp: cleaned_elem_def)
qed (simp add: list_all_iff)

lemma Join_single: "list_all cleaned_elem es \<Longrightarrow> Join (CHR ''/'') es = [c] \<longleftrightarrow> es = [[c]]"
  by (cases es rule: remdups_adj.cases) (auto simp: append_eq_Cons_conv cleaned_elem_def)

lemma Clean_below:
  assumes "d \<noteq> []" and "list_all plain_elem es"
  shows "Clean (d @ CHR ''/'' # CHR ''/'' # Join (CHR ''/'') es) = below d es"
proof -
  let ?r = "hd d = CHR ''/''"
  let ?ds = "clean_elems ?r [] (Split (CHR ''/'') d)"
  have sep: "list_all (\<lambda>e. CHR ''/'' \<notin> set e) es" using assms(2) by (auto simp: list_all_iff plain_elem_def)
  have so: "list_all cleaned_elem ?ds"
    by (rule clean_elems_cleaned) (auto simp: list_all_iff dest: Split_parts)
  then have ne: "list_all (\<lambda>e. e \<noteq> []) ?ds" and nd: "?ds \<noteq> [''.'']" "?ds \<noteq> [''/'']"
    by (auto simp: list_all_iff cleaned_elem_def)
  have spl: "Split (CHR ''/'') (d @ CHR ''/'' # CHR ''/'' # Join (CHR ''/'') es) =
      Split (CHR ''/'') d @ [] # (if es = [] then [[]] else es)"
  proof -
    have "Split (CHR ''/'') (d @ CHR ''/'' # CHR ''/'' # Join (CHR ''/'') es) =
        Split (CHR ''/'') d @ Split (CHR ''/'') (CHR ''/'' # Join (CHR ''/'') es)"
      by (rule Split_append_slash)
    moreover have "Split (CHR ''/'') (Join (CHR ''/'') es) = (if es = [] then [[]] else es)"
      using Split_Join [OF sep] by simp
    ultimately show ?thesis by simp
  qed
  have c: "clean_elems ?r [] (Split (CHR ''/'') (d @ CHR ''/'' # CHR ''/'' # Join (CHR ''/'') es)) = ?ds @ es"
  proof -
    have skip: "clean_elems ro st (xs @ [] # ys) = clean_elems ro st (xs @ ys)" for ro st xs ys
      by (induction ro st xs rule: clean_elems.induct) (auto split: list.splits)
    show ?thesis using skip [of ?r "[]" "Split (CHR ''/'') d" es] skip [of ?r "[]" "Split (CHR ''/'') d" "[[]]"]
        skip [of ?r "[]" "Split (CHR ''/'') d" "[]"] clean_elems_append [OF assms(2)]
      by (auto simp: spl)
  qed
  have h: "hd (d @ x) = hd d" for x using assms(1) by simp
  have J: "Join (CHR ''/'') ?ds = [] \<longleftrightarrow> ?ds = []" "Join (CHR ''/'') ?ds \<noteq> ''.''" "Join (CHR ''/'') ?ds \<noteq> ''/''"
    using Join_Nil_iff [OF ne] Join_single [OF so] nd by auto
  have D: "Clean d = (if ?r then CHR ''/'' # Join (CHR ''/'') ?ds else if ?ds = [] then ''.'' else Join (CHR ''/'') ?ds)"
    using assms(1) by (simp add: Clean_def Let_def)
  have "Clean (d @ CHR ''/'' # CHR ''/'' # Join (CHR ''/'') es) =
      (if ?r then CHR ''/'' # Join (CHR ''/'') (?ds @ es) else if ?ds @ es = [] then ''.'' else Join (CHR ''/'') (?ds @ es))"
    using assms(1) c by (simp only: Clean_def h Let_def) simp
  also have "\<dots> = below d es"
    using D J Join_append [of ?ds es "CHR ''/''"] by (cases "?ds = []"; cases "es = []"; cases ?r) (auto simp: below_def)
  finally show ?thesis .
qed

text \<open>
  C24: Whatever name is asked for, a directory opens no file outside: the path is the path of the directory
  with elements behind it none of which is empty, a dot or two dots.
\<close>

theorem directory_not_left:
  assumes "dir_path d nam = Some p"
  shows "\<exists>es. list_all plain_elem es \<and> p = below (if d = [] then ''.'' else d) es"
proof -
  obtain es where es: "list_all plain_elem es" "Clean (''/'' @ nam) = CHR ''/'' # Join (CHR ''/'') es"
    using Clean_root [of "''/'' @ nam"] by auto
  let ?d = "if d = [] then ''.'' else d"
  have "p = Clean (?d @ CHR ''/'' # CHR ''/'' # Join (CHR ''/'') es)"
    using assms es(2) by (auto simp: dir_path_def filepath_Join_def split: if_splits)
  with es(1) Clean_below [of ?d es] show ?thesis by auto
qed

theorem directory_not_left_witness:
  "dir_path ''/srv/www'' ''../../etc/./passwd'' = Some ''/srv/www/etc/passwd'' \<and>
   (\<exists>es. list_all plain_elem es \<and> ''/srv/www/etc/passwd'' = below ''/srv/www'' es)"
proof -
  have p: "dir_path ''/srv/www'' ''../../etc/./passwd'' = Some ''/srv/www/etc/passwd''" by code_simp
  from directory_not_left [OF p] p show ?thesis by simp
qed

section \<open>What a request for content gets\<close>

text \<open>
  What is relied on of a file's contents: \<open>at c p\<close> says that the state \<open>c\<close> stands at offset \<open>p\<close> of the
  data. A seek from the start succeeds at every offset that is not negative, also behind the end; reading
  gives the bytes from the offset on, as many as were asked for if there are so many.
\<close>

locale content =
  fixes C :: "'c seeker" and data :: string and at :: "'c \<Rightarrow> nat \<Rightarrow> bool"
  assumes seek_set: "0 \<le> off \<Longrightarrow> \<exists>c'. sk_Seek C off SEEK_SET c = (c', Inr off) \<and> at c' (nat off)"
    and seek_end: "\<exists>c'. sk_Seek C 0 SEEK_END c = (c', Inr (int (length data)))"
    and read: "at c p \<Longrightarrow> \<exists>c'. sk_ReadN C n c = (c', take n (drop p data), n \<le> length data - p)"

text \<open>A reader on a string, as of package \<open>strings\<close>: its state is the offset.\<close>

definition mem_seeker :: "string \<Rightarrow> nat seeker" where
  "mem_seeker data =
     \<lparr>sk_Seek = \<lambda>off whence p.
        (let q = (if whence = 0 then off else if whence = 1 then int p + off else int (length data) + off)
         in if q < 0 then (p, Inl ''negative position'') else (nat q, Inr q)),
      sk_ReadN = \<lambda>n p. (p + length (take n (drop p data)), take n (drop p data), n \<le> length data - p)\<rparr>"

interpretation memory: content "mem_seeker data" data "\<lambda>c p. c = p" for data
  by unfold_locales (auto simp: mem_seeker_def Let_def)

definition slice :: "string \<Rightarrow> httpRange \<Rightarrow> string" where
  "slice data r = take (nat (rg_length r)) (drop (nat (rg_start r)) data)"

lemma slice_length: "inside (int (length data)) r \<Longrightarrow> int (length (slice data r)) = rg_length r"
  by (simp add: slice_def inside_def) linarith

text \<open>The body of a reply with several ranges.\<close>

fun parts_body :: "part_order \<Rightarrow> string \<Rightarrow> string \<Rightarrow> string \<Rightarrow> nat \<Rightarrow> httpRange list \<Rightarrow> string" where
  "parts_body ord b ctype data i [] = mw_Close b"
| "parts_body ord b ctype data i (ra # ras) =
     CreatePart b i (ord i (mimeHeader ra ctype (int (length data)))) @ slice data ra @
     parts_body ord b ctype data (Suc i) ras"

context content
begin

lemma read_range:
  assumes "inside (int (length data)) r"
  shows "\<exists>c1. sk_Seek C (rg_start r) SEEK_SET c = (c1, Inr (rg_start r)) \<and>
    (\<exists>c2. (if rg_length r \<le> 0 then (c1, [], True) else sk_ReadN C (nat (rg_length r)) c1) = (c2, slice data r, True))"
proof -
  obtain c1 where c1: "sk_Seek C (rg_start r) SEEK_SET c = (c1, Inr (rg_start r))" "at c1 (nat (rg_start r))"
    using seek_set [of "rg_start r"] assms by (auto simp: inside_def)
  from read [OF c1(2), of "nat (rg_length r)"] obtain c2
    where c2: "sk_ReadN C (nat (rg_length r)) c1 =
      (c2, slice data r, nat (rg_length r) \<le> length data - nat (rg_start r))"
    unfolding slice_def by blast
  moreover have "nat (rg_length r) \<le> length data - nat (rg_start r)" using assms unfolding inside_def by linarith
  moreover have "slice data r = []" if "rg_length r \<le> 0" using that by (simp add: slice_def)
  ultimately show ?thesis using c1(1) by auto
qed

lemma send_parts_body:
  assumes "\<forall>r\<in>set rs. inside (int (length data)) r"
  shows "\<exists>c'. send_parts C ord b ctype (int (length data)) i rs c = (c', parts_body ord b ctype data i rs, True)"
  using assms
proof (induction rs arbitrary: i c)
  case (Cons ra ras)
  from read_range [of ra c] Cons.prems obtain c1 c2 where
    c1: "sk_Seek C (rg_start ra) SEEK_SET c = (c1, Inr (rg_start ra))" and
    c2: "(if rg_length ra \<le> 0 then (c1, [], True) else sk_ReadN C (nat (rg_length ra)) c1) = (c2, slice data ra, True)"
    by auto
  obtain c3 where "send_parts C ord b ctype (int (length data)) (Suc i) ras c2 = (c3, parts_body ord b ctype data (Suc i) ras, True)"
    using Cons by fastforce
  then show ?case by (simp add: c1 c2 Let_def)
qed simp

end

section \<open>The announced length\<close>

lemma int64_plus: "int64 (x + k * 2 ^ 64) = int64 x"
proof -
  have "x + k * 2 ^ 64 + 2 ^ 63 = (x + 2 ^ 63) + k * 2 ^ 64" by (simp only: ac_simps)
  then show ?thesis by (simp only: int64_def mod_mult_self1)
qed

lemma int64_minus: "\<exists>k. int64 x = x + k * 2 ^ 64"
proof -
  have "int64 x = x + (- ((x + 2 ^ 63) div 2 ^ 64)) * 2 ^ 64"
    unfolding int64_def by (simp add: minus_div_mult_eq_mod [symmetric] algebra_simps)
  then show ?thesis by blast
qed

text \<open>An arrangement of the parts' headers only permutes their fields.\<close>

definition permutes_fields :: "part_order \<Rightarrow> bool" where
  "permutes_fields ord \<longleftrightarrow> (\<forall>i h. mset (ord i h) = mset h)"

lemma CreatePart_length:
  assumes "permutes_fields ord" and "permutes_fields ord'" and "length b = length b'"
  shows "length (CreatePart b i (ord i h)) = length (CreatePart b' i (ord' i h))"
proof -
  let ?f = "\<lambda>(k, vs). concat (map (\<lambda>v. k @ '': '' @ v @ CRLF) vs) :: string"
  have "length (concat (map ?f (o1 i h))) = sum_mset (image_mset (length \<circ> ?f) (mset h))"
    if "permutes_fields o1" for o1 :: part_order
  proof -
    have "length (concat (map ?f (o1 i h))) = sum_list (map (length \<circ> ?f) (o1 i h))"
      by (simp add: length_concat comp_def)
    also have "\<dots> = sum_mset (mset (map (length \<circ> ?f) (o1 i h)))" by (rule sum_mset_sum_list [symmetric])
    also have "\<dots> = sum_mset (image_mset (length \<circ> ?f) (mset h))"
      using that by (simp only: mset_map permutes_fields_def)
    finally show ?thesis .
  qed
  from this [OF assms(1)] this [OF assms(2)] show ?thesis using assms(3) by (simp add: CreatePart_def)
qed

lemma mime_loop_length:
  assumes "permutes_fields ord" and "permutes_fields ord'" and "length b = length b'"
    and "\<forall>r\<in>set rs. inside (int (length data)) r"
  shows "\<exists>w' e k. mime_loop ord' b' ctype (int (length data)) i rs w enc = (w', e) \<and>
    w' + e = w + enc + int (length (parts_body ord b ctype data i rs)) + k * 2 ^ 64"
  using assms(4)
proof (induction rs arbitrary: i w enc)
  case Nil
  obtain k where "int64 (w + int (length (mw_Close b'))) = w + int (length (mw_Close b')) + k * 2 ^ 64"
    using int64_minus by blast
  then show ?case using assms(3) by (auto simp: mw_Close_def)
next
  case (Cons ra ras)
  let ?h = "mimeHeader ra ctype (int (length data))"
  let ?l = "int (length (CreatePart b' i (ord' i ?h)))"
  obtain k1 k2 where k: "int64 (w + ?l) = w + ?l + k1 * 2 ^ 64" "int64 (enc + rg_length ra) = enc + rg_length ra + k2 * 2 ^ 64"
    using int64_minus by meson
  obtain w' e k3 where "mime_loop ord' b' ctype (int (length data)) (Suc i) ras (int64 (w + ?l)) (int64 (enc + rg_length ra)) = (w', e)"
      "w' + e = int64 (w + ?l) + int64 (enc + rg_length ra) + int (length (parts_body ord b ctype data (Suc i) ras)) + k3 * 2 ^ 64"
    using Cons.IH [of "Suc i"] Cons.prems by fastforce
  moreover have "length (CreatePart b i (ord i ?h)) = length (CreatePart b' i (ord' i ?h))"
    using assms(1-3) by (rule CreatePart_length)
  moreover have "int (length (slice data ra)) = rg_length ra" using Cons.prems by (simp add: slice_length)
  ultimately have "w' + e = w + enc + int (length (parts_body ord b ctype data i (ra # ras))) + (k1 + k2 + k3) * 2 ^ 64"
    by (simp add: k algebra_simps)
  with \<open>mime_loop _ _ _ _ _ _ _ _ = _\<close> show ?case unfolding mime_loop.simps by blast
qed

lemma rangesMIMESize_exact:
  assumes "permutes_fields ord" and "permutes_fields ord'" and "length b = length b'"
    and "\<forall>r\<in>set rs. inside (int (length data)) r" and "length (parts_body ord b ctype data 0 rs) < 2 ^ 63"
  shows "rangesMIMESize ord' b' rs ctype (int (length data)) = int (length (parts_body ord b ctype data 0 rs))"
proof -
  let ?n = "int (length (parts_body ord b ctype data 0 rs))"
  obtain w' e k where k: "mime_loop ord' b' ctype (int (length data)) 0 rs 0 0 = (w', e)" "w' + e = 0 + 0 + ?n + k * 2 ^ 64"
    using mime_loop_length [OF assms(1-4)] by blast
  then have "rangesMIMESize ord' b' rs ctype (int (length data)) = int64 (?n + k * 2 ^ 64)"
    by (simp add: rangesMIMESize_def add.commute)
  also have "\<dots> = int64 ?n" by (rule int64_plus)
  also have "\<dots> = ?n" using assms(5) by (intro int64_id) auto
  finally show ?thesis .
qed

section \<open>The reply\<close>

definition with_length :: "rw_call list \<Rightarrow> int \<Rightarrow> string \<Rightarrow> rw_call list" where
  "with_length sets code d =
     sets @ [RW_Set ''Accept-Ranges'' ''bytes'', RW_Set ''Content-Length'' (Itoa (int (length d))),
             RW_WriteHeader code, RW_Write d]"

text \<open>
  The reply to a request for some ranges: everything, if they sum up to the whole size or more or there
  are none; the bytes of one range; or the parts of several.
\<close>

definition ranges_reply :: "part_order \<Rightarrow> string \<Rightarrow> string \<Rightarrow> string \<Rightarrow> httpRange list \<Rightarrow> rw_call list" where
  "ranges_reply ord b ctype data rs =
     (let sz = int (length data)
      in case (if sz \<le> sumRangesSize rs then [] else rs) of
           [] \<Rightarrow> with_length [] 200 data
         | [ra] \<Rightarrow> with_length [RW_Set ''Content-Range'' (contentRange ra sz)] 206 (slice data ra)
         | ranges \<Rightarrow>
             with_length [RW_Set ''Content-Type'' (''multipart/byteranges; boundary='' @ b)] 206
               (parts_body ord b ctype data 0 ranges))"

definition prelude_call :: "rw_call \<Rightarrow> bool" where
  "prelude_call x \<longleftrightarrow> (\<exists>v. x = RW_Set ''Last-Modified'' v \<or> x = RW_Set ''Content-Type'' v)"

context content
begin

lemma content_type_found:
  assumes "at c 0"
  shows "\<exists>c1 ctype ct. content_type types C h nam c = (c1, Some (ctype, ct)) \<and> at c1 0 \<and> list_all prelude_call ct"
proof -
  obtain c1 where c1: "sk_ReadN C 1024 c = (c1, take 1024 data, 1024 \<le> length data)"
    using read [OF assms, of 1024] by auto
  obtain c2 where c2: "sk_Seek C 0 SEEK_SET c1 = (c2, Inr 0)" "at c2 0" using seek_set [of 0 c1] by auto
  with assms c1 show ?thesis by (auto simp: content_type_def prelude_call_def Let_def)
qed

lemma read_whole:
  assumes "at c 0"
  shows "\<exists>c1. copy_out C ord ctype sz (SendContent (int (length data))) c = (c1, data)"
  using read [OF assms, of "length data"] by (auto simp: copy_out_def)

lemma chosen_reply:
  assumes "at c 0" and "parseRange s (int (length data)) = Inr rs" and "\<forall>r\<in>set rs. inside (int (length data)) r"
    and "permutes_fields ord" and "permutes_fields ord'" and "length b = length b'"
    and "length (parts_body ord b ctype data 0 rs) < 2 ^ 63"
  shows "\<exists>c1 code sets t c2 d. choose_ranges C ord' b b' ctype (int (length data)) s c = Choose c1 code sets t \<and>
    copy_out C ord ctype (int (length data)) t c1 = (c2, d) \<and> sendSize t = int (length d) \<and>
    ranges_reply ord b ctype data rs = with_length sets code d"
proof -
  let ?sz = "int (length data)"
  let ?rs = "if ?sz \<le> sumRangesSize rs then [] else rs"
  have ins: "\<forall>r\<in>set ?rs. inside ?sz r" using assms(3) by auto
  consider "?rs = []" | ra where "?rs = [ra]" | ra ra' ras where "?rs = ra # ra' # ras" by (metis list.exhaust)
  then show ?thesis
  proof cases
    case 1
    with assms(2) read_whole [OF assms(1), of ord ctype ?sz] show ?thesis
      by (auto simp: choose_ranges_def ranges_reply_def sendSize_def Let_def)
  next
    case (2 ra)
    with ins have ra: "inside ?sz ra" by auto
    obtain c1 c2 where c1: "sk_Seek C (rg_start ra) SEEK_SET c = (c1, Inr (rg_start ra))"
        "(if rg_length ra \<le> 0 then (c1, [], True) else sk_ReadN C (nat (rg_length ra)) c1) = (c2, slice data ra, True)"
      using read_range [OF ra, of c] by blast
    have "copy_out C ord ctype ?sz (SendContent (rg_length ra)) c1 = (c2, slice data ra)"
      using c1(2) by (auto simp: copy_out_def split: if_splits)
    with 2 assms(2) c1 slice_length [OF ra] show ?thesis
      by (auto simp: choose_ranges_def ranges_reply_def sendSize_def Let_def)
  next
    case (3 ra ra' ras)
    let ?body = "parts_body ord b ctype data 0 ?rs"
    have rs: "?rs = rs" using 3 by (simp split: if_splits)
    have "\<not> list_ex (\<lambda>r. ?sz < rg_start r) ?rs" using ins by (fastforce simp: inside_def list_ex_iff)
    moreover have "rangesMIMESize ord' b' ?rs ctype ?sz = int (length ?body)"
      using assms(4-6) ins assms(7) unfolding rs by (intro rangesMIMESize_exact) auto
    moreover obtain c2 where "send_parts C ord b ctype ?sz 0 ?rs c = (c2, ?body, True)"
      using send_parts_body [OF ins] by blast
    ultimately have "choose_ranges C ord' b b' ctype ?sz s c = Choose c 206
          [RW_Set ''Content-Type'' (''multipart/byteranges; boundary='' @ b)] (SendParts b ?rs (int (length ?body)))"
        "copy_out C ord ctype ?sz (SendParts b ?rs (int (length ?body))) c = (c2, ?body)"
        "ranges_reply ord b ctype data rs = with_length [RW_Set ''Content-Type'' (''multipart/byteranges; boundary='' @ b)] 206 ?body"
      using 3 assms(2) by (simp_all only: choose_ranges_def copy_out_def ranges_reply_def Let_def sum.case list.case
        if_False nat_int take_all_iff order_refl prod.case to_send.case) simp_all
    then show ?thesis by (auto simp: sendSize_def)
  qed
qed

end

text \<open>
  C23: A request for ranges of a file gets exactly their bytes, whatever the order in which the fields of
  the parts' headers are written: the whole file, one range with its position, or a part for each of
  several; the whole file, too, if the ranges together are as long as the file or longer; and the length that is announced is
  the length of the body that is sent, multipart or not.
\<close>

theorem ranges_served:
  assumes "content C data at" and "at c 0"
    and "parseRange (Get (req_Header r) ''Range'') (int (length data)) = Inr rs"
    and "\<forall>r\<in>set rs. inside (int (length data)) r"
    and "permutes_fields ord" and "permutes_fields ord'" and "length b = length b'"
    and "content_type types C h nam c = (c1, Some (ctype, ct))" and "length (parts_body ord b ctype data 0 rs) < 2 ^ 63"
    and "checkLastModified T r modtime = (out, False)"
    and "req_Method r \<noteq> ''HEAD''" and "Get h ''Content-Encoding'' = []"
  shows "\<exists>c' pre. serveContent T types C ord ord' b b' h r nam modtime (int (length data)) c =
      Done c' (pre @ ranges_reply ord b ctype data rs) \<and> list_all prelude_call pre"
proof -
  have ct: "at c1 0" "list_all prelude_call ct"
    using content.content_type_found [OF assms(1,2), of types h nam] assms(8) by auto
  obtain c2 code sets t c3 d where t: "choose_ranges C ord' b b' ctype (int (length data)) (Get (req_Header r) ''Range'') c1 =
        Choose c2 code sets t" "copy_out C ord ctype (int (length data)) t c2 = (c3, d)" "sendSize t = int (length d)"
      "ranges_reply ord b ctype data rs = with_length sets code d"
    using content.chosen_reply [OF assms(1) ct(1) assms(3-7,9)] by blast
  have "list_all prelude_call out"
    using assms(10) by (auto simp: checkLastModified_def prelude_call_def Let_def split: if_splits)
  with ct t assms(8,10-12) show ?thesis
    by (intro exI [of _ c3] exI [of _ "out @ ct"]) (simp add: serveContent_def with_length_def)
qed

definition demo_times :: "nat mod_lib" where
  "demo_times = \<lparr>ml_Parse = \<lambda>l s. None, ml_Format = \<lambda>l t. ''now'', ml_UTC = \<lambda>t. t, ml_IsZero = \<lambda>t. True,
     ml_Before = \<lambda>s t. s < t, ml_AddSecond = Suc\<rparr>"

definition range_request :: "string \<Rightarrow> unit Request" where
  "range_request ranges = (sample_request ''/song'')\<lparr>req_Header := [(''Range'', [ranges])]\<rparr>"

theorem ranges_served_witness:
  "\<exists>c' pre. serveContent demo_times (\<lambda>e. ''audio/mpeg'') (mem_seeker ''abcdefghij'') (\<lambda>i h. h) (\<lambda>i. rev) ''b'' ''c'' []
      (range_request ''bytes=2-4'') ''song.mp3'' 0 10 0 =
    Done c' (pre @ [RW_Set ''Content-Range'' ''bytes 2-4/10'', RW_Set ''Accept-Ranges'' ''bytes'',
      RW_Set ''Content-Length'' ''3'', RW_WriteHeader 206, RW_Write ''cde''])"
proof -
  let ?r = "range_request ''bytes=2-4''" and ?f = "[(FromTo, \<lparr>rg_start = 2, rg_length = 3\<rparr>)]"
  have "Get (req_Header ?r) ''Range'' = ''bytes=2-4''" by code_simp
  moreover have "''bytes='' @ Join (CHR '','') (map write_range ?f) = ''bytes=2-4''" by code_simp
  moreover have "parseRange (''bytes='' @ Join (CHR '','') (map write_range ?f)) 10 = Inr (map snd ?f)"
    by (rule parse_written_ranges) (simp_all add: inside_def)
  ultimately have p: "parseRange (Get (req_Header ?r) ''Range'') (int (length ''abcdefghij'')) = Inr [\<lparr>rg_start = 2, rg_length = 3\<rparr>]"
    by simp
  have "length (parts_body (\<lambda>i h. h) ''b'' ''audio/mpeg'' ''abcdefghij'' 0 [\<lparr>rg_start = 2, rg_length = 3\<rparr>]) < 200"
    by code_simp
  then have b: "length (parts_body (\<lambda>i h. h) ''b'' ''audio/mpeg'' ''abcdefghij'' 0 [\<lparr>rg_start = 2, rg_length = 3\<rparr>]) < 2 ^ 63"
    by simp
  have c: "content_type (\<lambda>e. ''audio/mpeg'') (mem_seeker ''abcdefghij'') [] ''song.mp3'' 0 =
      (0, Some (''audio/mpeg'', [RW_Set ''Content-Type'' ''audio/mpeg'']))"
    by (simp add: content_type_def Get_def)
  have "contentRange \<lparr>rg_start = 2, rg_length = 3\<rparr> 10 = ''bytes 2-4/10''" by code_simp
  moreover have "Itoa 3 = ''3''" by code_simp
  moreover have "slice ''abcdefghij'' \<lparr>rg_start = 2, rg_length = 3\<rparr> = ''cde''" by code_simp
  moreover have "sumRangesSize [\<lparr>rg_start = 2, rg_length = 3\<rparr>] = 3" by code_simp
  moreover have "permutes_fields (\<lambda>i h. h)" "permutes_fields (\<lambda>i. rev)" by (simp_all add: permutes_fields_def)
  moreover note ranges_served [OF memory.content_axioms refl p _ _ _ _ c b, of "\<lambda>i. rev" "''c''" demo_times 0 "[]"]
  ultimately show ?thesis
    by (auto simp: ranges_reply_def with_length_def inside_def demo_times_def checkLastModified_def range_request_def sample_request_def Get_def)
qed

section \<open>Ranges behind the end\<close>

lemma FormatInt_neg: "0 < n \<Longrightarrow> Itoa (- n) = CHR ''-'' # Itoa n"
  by (simp add: FormatInt_def)

lemma parse_behind:
  assumes "0 < n" and "0 \<le> sz" and "sz + n < 2 ^ 63"
  shows "parse_one (''--'' @ Itoa n) sz = Inr \<lparr>rg_start = sz + n, rg_length = - n\<rparr>"
    and "TrimSpace (''--'' @ Itoa n) = ''--'' @ Itoa n" and "CHR '','' \<notin> set (''--'' @ Itoa n)"
proof -
  have g: "\<forall>c\<in>set (Itoa n). graphic c \<and> c \<noteq> CHR '',''" using Itoa_graphic [of n] assms(1) by auto
  then have l: "graphic (last (Itoa n))" by simp
  have d: "graphic (CHR ''-'')" by (simp add: graphic_def)
  show "CHR '','' \<notin> set (''--'' @ Itoa n)" using g by auto
  show "TrimSpace (''--'' @ Itoa n) = ''--'' @ Itoa n" using l d by (intro TrimSpace_graphic) auto
  have "TrimSpace (CHR ''-'' # Itoa n) = CHR ''-'' # Itoa n" using l d by (intro TrimSpace_graphic) auto
  moreover have "ParseInt (CHR ''-'' # Itoa n) = Some (- n)"
    using ParseInt_Itoa [of "- n"] assms by (simp add: FormatInt_neg)
  moreover have "int64 (sz + n) = sz + n" "int64 (- n) = - n" using assms by (intro int64_id; simp)+
  ultimately show "parse_one (''--'' @ Itoa n) sz = Inr \<lparr>rg_start = sz + n, rg_length = - n\<rparr>"
    using assms by (simp add: parse_one_def suffix_range_def)
qed

lemma parseRange_behind:
  assumes "0 < n" and "0 \<le> sz" and "sz + n < 2 ^ 63"
  shows "parseRange (''bytes=--'' @ Itoa n) sz = Inr [\<lparr>rg_start = sz + n, rg_length = - n\<rparr>]"
    and "0 < sz \<Longrightarrow> parseRange (''bytes=0-0,--'' @ Itoa n) sz =
      Inr [\<lparr>rg_start = 0, rg_length = 1\<rparr>, \<lparr>rg_start = sz + n, rg_length = - n\<rparr>]"
proof -
  note b = parse_behind [OF assms]
  have h: "HasPrefix (''bytes='' @ s) ''bytes=''" for s by simp
  have s: "Split (CHR '','') (''--'' @ Itoa n) = [''--'' @ Itoa n]" using b(3) by (rule Split_no_sep)
  show "parseRange (''bytes=--'' @ Itoa n) sz = Inr [\<lparr>rg_start = sz + n, rg_length = - n\<rparr>]"
    using b(1,2) s by (simp add: parseRange_def)
  have t: "TrimSpace ''0-0'' = ''0-0''" "TrimSpace ''0'' = ''0''" by (rule TrimSpace_graphic; simp add: graphic_def)+
  have "Split (CHR '','') (''0-0'' @ CHR '','' # ''--'' @ Itoa n) = [''0-0'', ''--'' @ Itoa n]"
    using Split_sep [of "CHR '',''" "''0-0''" "''--'' @ Itoa n"] s by simp
  moreover assume "0 < sz"
  moreover from this have "parse_one ''0-0'' sz = Inr \<lparr>rg_start = 0, rg_length = 1\<rparr>"
    using t by (simp add: parse_one_def from_range_def strconv_eval)
  ultimately show "parseRange (''bytes=0-0,--'' @ Itoa n) sz =
      Inr [\<lparr>rg_start = 0, rg_length = 1\<rparr>, \<lparr>rg_start = sz + n, rg_length = - n\<rparr>]"
    using b(1,2) t by (simp add: parseRange_def)
qed

text \<open>
  C26: A suffix range with a second sign is not refused: alone it gets a reply with a negative
  Content-Length and no data, and next to another range it makes the handler panic.
\<close>

theorem range_behind_end:
  assumes "content C data at" and "at c 0" and "0 < n" and "int (length data) + n < 2 ^ 63" and "data \<noteq> []"
    and "checkLastModified T r modtime = (out, False)" and "req_Method r \<noteq> ''HEAD''" and "Get h ''Content-Encoding'' = []"
  shows "(Get (req_Header r) ''Range'' = ''bytes=--'' @ Itoa n \<longrightarrow>
      (\<exists>c' pre. serveContent T types C ord ord' b b' h r nam modtime (int (length data)) c =
        Done c' (pre @ [RW_Set ''Content-Length'' (Itoa (- n)), RW_WriteHeader 206, RW_Write []]))) \<and>
    (Get (req_Header r) ''Range'' = ''bytes=0-0,--'' @ Itoa n \<longrightarrow>
      (\<exists>c' msg. serveContent T types C ord ord' b b' h r nam modtime (int (length data)) c = Panic c' msg))"
proof -
  let ?sz = "int (length data)"
  obtain c1 ctype ct where ct: "content_type types C h nam c = (c1, Some (ctype, ct))"
    using content.content_type_found [OF assms(1,2)] by blast
  have sz: "0 < ?sz" "0 \<le> ?sz" using assms(5) by auto
  note p = parseRange_behind [OF assms(3) sz(2) assms(4)]
  obtain c2 where c2: "sk_Seek C (?sz + n) SEEK_SET c1 = (c2, Inr (?sz + n))"
    using content.seek_set [OF assms(1), of "?sz + n" c1] assms(3) by auto
  have i: "int64 (- n) = - n" "int64 (1 - n) = 1 - n" using assms(3,4) by (intro int64_id; simp)+
  have "\<exists>c' pre. serveContent T types C ord ord' b b' h r nam modtime ?sz c =
        Done c' (pre @ [RW_Set ''Content-Length'' (Itoa (- n)), RW_WriteHeader 206, RW_Write []])"
    if "Get (req_Header r) ''Range'' = ''bytes=--'' @ Itoa n"
  proof -
    have "\<not> ?sz \<le> sumRangesSize [\<lparr>rg_start = ?sz + n, rg_length = - n\<rparr>]"
      using assms(3) i by (simp add: sumRangesSize_def)
    then have "choose_ranges C ord' b b' ctype ?sz (Get (req_Header r) ''Range'') c1 =
        Choose c2 206 [RW_Set ''Content-Range'' (contentRange \<lparr>rg_start = ?sz + n, rg_length = - n\<rparr> ?sz)] (SendContent (- n))"
      using p(1) c2 by (simp add: choose_ranges_def that)
    then show ?thesis using ct assms(3,6-8) by (simp add: serveContent_def sendSize_def copy_out_def)
  qed
  moreover have "\<exists>c' msg. serveContent T types C ord ord' b b' h r nam modtime ?sz c = Panic c' msg"
    if "Get (req_Header r) ''Range'' = ''bytes=0-0,--'' @ Itoa n"
  proof -
    have "sumRangesSize [\<lparr>rg_start = 0, rg_length = 1\<rparr>, \<lparr>rg_start = ?sz + n, rg_length = - n\<rparr>] = 1 - n"
      using i by (simp add: sumRangesSize_def int64_id)
    then have "\<not> ?sz \<le> sumRangesSize [\<lparr>rg_start = 0, rg_length = 1\<rparr>, \<lparr>rg_start = ?sz + n, rg_length = - n\<rparr>]"
      using assms(3) sz(1) by linarith
    then have "choose_ranges C ord' b b' ctype ?sz (Get (req_Header r) ''Range'') c1 = NilError c1"
      using p(2) [OF sz(1)] assms(3) by (simp add: choose_ranges_def that)
    then show ?thesis using ct assms(6) by (simp add: serveContent_def)
  qed
  ultimately show ?thesis by blast
qed

theorem range_behind_end_witness:
  "\<exists>c' pre. serveContent demo_times (\<lambda>e. ''audio/mpeg'') (mem_seeker ''abc'') (\<lambda>i h. h) (\<lambda>i h. h) ''b'' ''b'' []
      (range_request ''bytes=--5'') ''song.mp3'' 0 3 0 =
    Done c' (pre @ [RW_Set ''Content-Length'' ''-5'', RW_WriteHeader 206, RW_Write []])"
proof -
  have i: "Itoa 5 = ''5''" "Itoa (- 5) = ''-5''" by code_simp+
  have "Get (req_Header (range_request ''bytes=--5'')) ''Range'' = ''bytes=--'' @ Itoa 5" unfolding i by code_simp
  then show ?thesis
    using range_behind_end [OF memory.content_axioms refl, of 5 "''abc''" demo_times "range_request ''bytes=--5''" 0 "[]" "[]"]
    by (simp add: i demo_times_def checkLastModified_def range_request_def sample_request_def Get_def)
qed

end
