(* ===== verification/Conn.thy ===== *)
theory Conn
  imports Respond HttpMsg
begin

text \<open>
  A connection of the server in \<open>http/server.go\<close>: \<open>readRequest\<close>, \<open>serve\<close> and \<open>close\<close>. The handler is an
  argument, a function on the response with which it can call everything a response offers.

  The input of the connection is a \<open>bufreader\<close>; \<open>ahead\<close> is how many of its bytes are already in the
  buffer when a request is read. The reader below the buffer is limited while the header is read, and
  \<open>spent\<close> tells whether, when reading the request failed, the buffer had fetched all that the limit
  allowed, which depends on how the bytes arrived. The writer \<open>raw\<close> writes to the connection past its
  buffer, \<open>bw\<close> through it. The TLS handshake is not modelled.
\<close>

section \<open>Reading a request\<close>

record 's conn =
  cn_in :: bufreader
  cn_buf :: 's
  cn_hijacked :: bool
  cn_remoteAddr :: string

definition DefaultMaxHeaderBytes :: int where
  "DefaultMaxHeaderBytes = 2 ^ 20"

definition maxHeaderBytes :: "int \<Rightarrow> int" where
  "maxHeaderBytes configured = (if 0 < configured then configured else DefaultMaxHeaderBytes)"

definition errTooLarge :: error where
  "errTooLarge = ''http: request too large''"

fun take_bytes :: "nat \<Rightarrow> string list \<Rightarrow> string list" where
  "take_bytes n [] = []"
| "take_bytes n (s # ss) = (if n \<le> length s then [take n s] else s # take_bytes (n - length s) ss)"

text \<open>
  The reader with the limit of \<open>n\<close> bytes beyond those that are buffered, and the reader without it again:
  what was cut off comes behind what is left.
\<close>

definition limited :: "nat \<Rightarrow> bufreader \<Rightarrow> bufreader" where
  "limited n r =
     \<lparr>br_segs = take_bytes n (br_segs r), br_end = (if length (br_rest r) < n then br_end r else io_EOF)\<rparr>"

definition unlimited :: "nat \<Rightarrow> bufreader \<Rightarrow> bufreader \<Rightarrow> bufreader" where
  "unlimited n r r' = \<lparr>br_segs = br_segs r' @ drop_bytes n (br_segs r), br_end = br_end r\<rparr>"

definition body_unlimited :: "nat \<Rightarrow> bufreader \<Rightarrow> body \<Rightarrow> body" where
  "body_unlimited n r b = b\<lparr>bd_src := src_set (bd_src b) (unlimited n r (src_reader (bd_src b)))\<rparr>"

text \<open>The request without its body, which the response keeps apart.\<close>

definition request_head :: "'b Request \<Rightarrow> string \<Rightarrow> unit Request" where
  "request_head r addr =
     \<lparr>req_Method = req_Method r, req_URL = req_URL r, req_Proto = req_Proto r, req_ProtoMajor = req_ProtoMajor r,
      req_ProtoMinor = req_ProtoMinor r, req_Header = req_Header r, req_Body = None,
      req_ContentLength = req_ContentLength r, req_TransferEncoding = req_TransferEncoding r, req_Close = req_Close r,
      req_Host = req_Host r, req_Trailer = req_Trailer r, req_RemoteAddr = addr, req_RequestURI = req_RequestURI r\<rparr>"

definition new_response :: "'s conn \<Rightarrow> unit Request \<Rightarrow> body \<Rightarrow> 's response" where
  "new_response c r b =
     \<lparr>rs_hijacked = cn_hijacked c, rs_buf = cn_buf c, rs_sniffbuf = [], rs_req = r, rs_reqBody = PlainBody b,
      rs_chunking = False, rs_wroteHeader = False, rs_wroteContinue = False, rs_header = [], rs_written = 0,
      rs_contentLength = -1, rs_status = 0, rs_needSniff = False, rs_closeAfterReply = False,
      rs_requestBodyLimitHit = False\<rparr>"

text \<open>\<open>None\<close> is a panic; a request that was read always has a body.\<close>

definition readRequest ::
  "(string \<Rightarrow> string) \<Rightarrow> url_lib \<Rightarrow> int \<Rightarrow> nat \<Rightarrow> bool \<Rightarrow> 's conn \<Rightarrow> (error + 's response) option" where
  "readRequest ul U maxHeader ahead spent c =
     (if cn_hijacked c then Some (Inl ErrHijacked)
      else let n = ahead + nat (maxHeaderBytes maxHeader) + 4096
           in case ReadRequest ul U (limited n (cn_in c)) of
                None \<Rightarrow> None
              | Some (Inl e) \<Rightarrow> Some (Inl (if spent then errTooLarge else e))
              | Some (Inr r) \<Rightarrow>
                  (case req_Body r of
                     None \<Rightarrow> None
                   | Some b \<Rightarrow>
                       Some (Inr (new_response c (request_head r (cn_remoteAddr c)) (body_unlimited n (cn_in c) b)))))"

section \<open>Serving\<close>

text \<open>
  How one turn of the loop ends: with the connection ready for the next request, closed, in the hands of a
  handler that hijacked it, or with a panic, after which the connection is closed unflushed.
\<close>

datatype 's turn = Next "'s conn" | Closed 's | Hijacked 's | Panicked 's | Waiting 's

definition close_conn :: "'s bufwriter \<Rightarrow> 's \<Rightarrow> 's turn" where
  "close_conn bw s = Closed (bw_Flush bw s)"

text \<open>The status that is sent for a request that could not be read; \<open>None\<close> is no reply.\<close>

definition error_status :: "(error \<Rightarrow> bool) \<Rightarrow> error \<Rightarrow> string option" where
  "error_status timeout e =
     (if e = errTooLarge then Some ''413 Request Entity Too Large''
      else if e = io_EOF \<or> timeout e then None
      else Some ''400 Bad Request'')"

text \<open>A request whose expectation is refused: the reply, and the end of the connection.\<close>

definition refuse ::
  "(string \<Rightarrow> string) \<Rightarrow> string \<Rightarrow> 's bufwriter \<Rightarrow> int \<Rightarrow> 's response \<Rightarrow> 's turn" where
  "refuse ul date bw code w =
     (case obind (WriteHeader ul date bw code (set_header ''Connection'' ''close'' w)) (\<lambda>w1 _. finishRequest ul date bw w1) of
        Done w2 _ \<Rightarrow> close_conn bw (rs_buf w2)
      | Panic w2 m \<Rightarrow> Panicked (rs_buf w2)
      | Block w2 \<Rightarrow> Waiting (rs_buf w2))"

text \<open>The reader on which the body of the request stands, from which the next request is read.\<close>

definition body_reader :: "request_body \<Rightarrow> bufreader" where
  "body_reader rb = (case rb of PlainBody b \<Rightarrow> src_reader (bd_src b) | expectContinueReader b c \<Rightarrow> src_reader (bd_src b))"

definition reply_turn ::
  "(string \<Rightarrow> string) \<Rightarrow> string \<Rightarrow> 's bufwriter \<Rightarrow> ('s response \<Rightarrow> ('s response, unit) outcome) \<Rightarrow> 's conn \<Rightarrow> 's response \<Rightarrow> 's turn" where
  "reply_turn ul date bw handler c w =
     (case handler w of
        Panic w1 m \<Rightarrow> Panicked (rs_buf w1)
      | Block w1 \<Rightarrow> Waiting (rs_buf w1)
      | Done w1 _ \<Rightarrow>
          if rs_hijacked w1 then Hijacked (rs_buf w1)
          else (case finishRequest ul date bw w1 of
                  Panic w2 m \<Rightarrow> Panicked (rs_buf w2)
                | Block w2 \<Rightarrow> Waiting (rs_buf w2)
                | Done w2 _ \<Rightarrow>
                    if rs_closeAfterReply w2 then close_conn bw (rs_buf w2)
                    else Next (c\<lparr>cn_in := body_reader (rs_reqBody w2), cn_buf := rs_buf w2\<rparr>)))"

definition expecting :: "'s response \<Rightarrow> 's response" where
  "expecting w =
     (case rs_reqBody w of
        PlainBody b \<Rightarrow> if ProtoAtLeast (rs_req w) 1 1 then w\<lparr>rs_reqBody := expectContinueReader b False\<rparr> else w
      | _ \<Rightarrow> w)"

definition del_expect :: "'s response \<Rightarrow> 's response" where
  "del_expect w = w\<lparr>rs_req := (rs_req w)\<lparr>req_Header := Del (req_Header (rs_req w)) ''Expect''\<rparr>\<rparr>"

definition serve_turn ::
  "(string \<Rightarrow> string) \<Rightarrow> url_lib \<Rightarrow> (error \<Rightarrow> bool) \<Rightarrow> ('s \<Rightarrow> string \<Rightarrow> 's) \<Rightarrow> 's bufwriter \<Rightarrow> int \<Rightarrow>
   ('s response \<Rightarrow> ('s response, unit) outcome) \<Rightarrow> string \<Rightarrow> nat \<Rightarrow> bool \<Rightarrow> 's conn \<Rightarrow> 's turn" where
  "serve_turn ul U timeout raw bw maxHeader handler date ahead spent c =
     (case readRequest ul U maxHeader ahead spent c of
        None \<Rightarrow> Panicked (cn_buf c)
      | Some (Inl e) \<Rightarrow>
          close_conn bw (case error_status timeout e of
                           None \<Rightarrow> cn_buf c
                         | Some msg \<Rightarrow> raw (cn_buf c) (''HTTP/1.1 '' @ msg @ CRLF @ CRLF))
      | Some (Inr w) \<Rightarrow>
          if expectsContinue ul (rs_req w)
          then (let w1 = expecting w
                in if req_ContentLength (rs_req w1) = 0 then refuse ul date bw StatusBadRequest w1
                   else reply_turn ul date bw handler c (del_expect w1))
          else if Get (req_Header (rs_req w)) ''Expect'' \<noteq> [] then refuse ul date bw StatusExpectationFailed w
          else reply_turn ul date bw handler c w)"

text \<open>The loop: the date, what is buffered and what was spent, for each of its turns.\<close>

fun serve ::
  "(string \<Rightarrow> string) \<Rightarrow> url_lib \<Rightarrow> (error \<Rightarrow> bool) \<Rightarrow> ('s \<Rightarrow> string \<Rightarrow> 's) \<Rightarrow> 's bufwriter \<Rightarrow> int \<Rightarrow>
   ('s response \<Rightarrow> ('s response, unit) outcome) \<Rightarrow> (string \<times> nat \<times> bool) list \<Rightarrow> 's conn \<Rightarrow> 's turn" where
  "serve ul U timeout raw bw maxHeader handler [] c = Next c"
| "serve ul U timeout raw bw maxHeader handler ((date, ahead, spent) # ts) c =
     (case serve_turn ul U timeout raw bw maxHeader handler date ahead spent c of
        Next c' \<Rightarrow> serve ul U timeout raw bw maxHeader handler ts c'
      | t \<Rightarrow> t)"

text \<open>The calls of a handler on its response, as the handlers of the program make them.\<close>

fun run_call ::
  "(string \<Rightarrow> string) \<Rightarrow> string \<Rightarrow> 's bufwriter \<Rightarrow> rw_call \<Rightarrow> 's response \<Rightarrow> ('s response, unit) outcome" where
  "run_call ul date bw (RW_Set k v) w = Done (set_header k v w) ()"
| "run_call ul date bw (RW_WriteHeader code) w = WriteHeader ul date bw code w"
| "run_call ul date bw (RW_Write d) w = obind (rs_Write ul date bw d w) (\<lambda>w' _. Done w' ())"
| "run_call ul date bw RW_Flush w = rs_Flush ul date bw w"
| "run_call ul date bw RW_Hijack w = Done (fst (rs_Hijack w)) ()"

fun run_calls ::
  "(string \<Rightarrow> string) \<Rightarrow> string \<Rightarrow> 's bufwriter \<Rightarrow> rw_call list \<Rightarrow> 's response \<Rightarrow> ('s response, unit) outcome" where
  "run_calls ul date bw [] w = Done w ()"
| "run_calls ul date bw (c # cs) w = obind (run_call ul date bw c w) (\<lambda>w' _. run_calls ul date bw cs w')"

end
