(* ===== verification/ConnSpec.thy ===== *)
theory ConnSpec
  imports Conn
begin

text \<open>
  Where the next request of a connection is read: behind the body of the one before, however much of it
  the handler has read.
\<close>

section \<open>Copies that discard\<close>

lemma discard_apply: "discard u d = ((), length d, None)"
  by (simp add: discard_def)

text \<open>A copy that is thrown away ends with a read that failed; what every read keeps still holds then.\<close>

lemma Copy_discard_invariant:
  assumes "\<And>r k r' d e. Q r k \<Longrightarrow> rd n r = (r', d, e) \<Longrightarrow> Q r' (k + length d)"
    and "Copy rd discard n fuel r () k = Some (r', u, k', e')" and "Q r k"
  shows "Q r' k' \<and> (\<exists>r1 k1 d e. Q r1 k1 \<and> rd n r1 = (r', d, Some e) \<and> k' = k1 + length d)"
  using assms(2,3)
proof (induction fuel arbitrary: r k)
  case (Suc fuel)
  obtain r1 d er where rd: "rd n r = (r1, d, er)" by (rule prod_cases3)
  have Q1: "Q r1 (k + length d)" using assms(1) [OF Suc.prems(2) rd] .
  have eq: "Copy rd discard n (Suc fuel) r () k =
      (case er of None \<Rightarrow> Copy rd discard n fuel r1 () (k + length d)
       | Some e \<Rightarrow> Some (r1, (), k + length d, if e = io_EOF then None else Some e))"
    by (simp add: rd discard_apply split: option.split)
  show ?case
  proof (cases er)
    case None
    with Suc.prems(1) eq have "Copy rd discard n fuel r1 () (k + length d) = Some (r', u, k', e')" by (simp del: Copy.simps)
    then show ?thesis using Suc.IH Q1 by blast
  next
    case (Some e)
    with Suc.prems(1) eq have "r' = r1" "k' = k + length d" by (simp_all del: Copy.simps)
    with Q1 rd Some Suc.prems(2) show ?thesis by blast
  qed
qed simp

section \<open>Bodies with an end\<close>

text \<open>
  A body behind which the input continues with \<open>t\<close>: the rest of a body with a length, the rest of a chunked
  body with its empty trailer, or one that has been read to its end. Once it is closed, or has given an
  error, its reader stands at \<open>t\<close>.
\<close>

definition behind :: "string \<Rightarrow> body \<Rightarrow> bool" where
  "behind t b \<longleftrightarrow> br_rest (src_reader (bd_src b)) = t"

definition source_at :: "string \<Rightarrow> bool \<Rightarrow> body_src \<Rightarrow> bool" where
  "source_at t trailer src =
     (case src of
        SrcLimit r l \<Rightarrow> \<not> trailer \<and> 0 \<le> l \<and> drop (nat l) (br_rest r) = t
      | SrcChunked cr \<Rightarrow>
          if trailer then \<exists>out. decodes cr out (CRLF @ t) else cr_err cr = Some io_EOF \<and> br_rest (cr_r cr) = t
      | SrcPlain r \<Rightarrow> False)"

definition body_at :: "string \<Rightarrow> body \<Rightarrow> bool" where
  "body_at t b \<longleftrightarrow> \<not> bd_closing b \<and> \<not> bd_limitHit b \<and> source_at t (bd_hdr b) (bd_src b) \<and>
     (bd_closed b \<longrightarrow> behind t b)"

text \<open>The two kinds of bodies a request comes with.\<close>

lemma body_at_length: "body_at (drop n (br_rest r)) (new_body (SrcLimit r (int n)) False False)"
  by (simp add: body_at_def source_at_def new_body_def)

lemma body_at_chunks:
  assumes "br_rest r = chunks ds (CRLF @ t)" and "list_all (\<lambda>d. length d < 2 ^ 64) ds"
  shows "body_at t (new_body (SrcChunked (newChunkedReader r)) True False)"
  using decodes_start [OF assms] by (auto simp: body_at_def source_at_def new_body_def)

lemma limit_Read_at:
  assumes "limit_Read len (r, l) = ((r', l'), d, e)" and "0 \<le> l"
  shows "0 \<le> l' \<and> drop (nat l') (br_rest r') = drop (nat l) (br_rest r) \<and>
    (e \<noteq> None \<longrightarrow> br_rest r' = drop (nat l) (br_rest r))"
proof (cases "len = 0")
  case True
  with assms show ?thesis by (auto simp: limit_Read_def br_Read_def split: if_splits)
next
  case False
  then have "0 < len" by simp
  then show ?thesis
  proof (cases rule: limit_Read_cases [of len l r])
    case zero
    with assms show ?thesis by auto
  next
    case eof
    with assms have "r' = r\<lparr>br_segs := []\<rparr>" "l' = l" by auto
    moreover from this have "br_rest r' = []" by (simp add: br_rest_def)
    ultimately show ?thesis using assms(2) eof(2) by simp
  next
    case (some j r1)
    with assms have "r' = r1" "l' = l - int j" "e = None" by auto
    moreover from some have "nat (l - int j) + j = nat l" by simp
    ultimately show ?thesis using some by (simp add: add.commute)
  qed
qed

text \<open>Reading on in chunks, also with an empty buffer.\<close>

lemma chunked_error: "chunkedReader_Read len cr = (cr', d, e) \<Longrightarrow> e = cr_err cr'"
  by (auto simp: chunkedReader_Read_def readChunk_def Let_def split: option.splits prod.splits if_splits)

lemma decodes_begin:
  assumes dec: "decodes cr out tail" and n: "cr_n cr = 0"
  shows "(cr_err (beginChunk cr) = Some io_EOF \<and> br_rest (cr_r (beginChunk cr)) = tail) \<or>
    (decodes (beginChunk cr) out tail \<and> 0 < cr_n (beginChunk cr))"
proof -
  from dec n obtain ds where out: "out = concat ds" and ds: "list_all (\<lambda>x. length x < 2 ^ 64) ds"
    and rest: "br_rest (cr_r cr) = chunks ds tail"
    by (auto simp: decodes_def)
  show ?thesis
  proof (cases rule: chunks_skip [of ds tail])
    case last
    with rest have "br_rest (cr_r cr) = FormatUint 16 0 @ CRLF @ tail" by simp
    from beginChunk_size [OF this] show ?thesis by (simp add: rest last)
  next
    case (more x es)
    have lx: "length x < 2 ^ 64" and es: "list_all (\<lambda>x. length x < 2 ^ 64) es"
      using ds more by (auto simp: list_all_iff)
    from rest more have "br_rest (cr_r cr) = FormatUint 16 (length x) @ CRLF @ x @ CRLF @ chunks es tail" by simp
    from beginChunk_size [OF this lx] more(1) rest more(5) have
      b: "cr_err (beginChunk cr) = None" "cr_n (beginChunk cr) = length x"
        "br_rest (cr_r (beginChunk cr)) = x @ CRLF @ chunks es tail" by simp_all
    then have "decodes (beginChunk cr) out tail"
      unfolding decodes_def using more(1,2) out es by (intro conjI exI [of _ x] exI [of _ es]) simp_all
    with b(2) more(1) show ?thesis by simp
  qed
qed

lemma chunked_Read_at:
  assumes dec: "decodes cr out tail" and rd: "chunkedReader_Read len cr = (cr', d, e)"
  shows "(e = None \<and> (\<exists>out'. decodes cr' out' tail)) \<or>
    (e = Some io_EOF \<and> cr_err cr' = Some io_EOF \<and> br_rest (cr_r cr') = tail)"
proof (cases "len = 0")
  case False
  with decodes_read [OF dec, of len] chunked_error [OF rd] rd show ?thesis by auto
next
  case True
  have empty: "readChunk 0 c = (c\<lparr>cr_err := None\<rparr>, [], None)" if "0 < cr_n c" for c
    using that by (simp add: readChunk_def br_Read_def)
  have same: "c\<lparr>cr_err := None\<rparr> = c" if "decodes c out tail" for c using that by (simp add: decodes_def)
  have err: "cr_err cr = None" using dec by (simp add: decodes_def)
  show ?thesis
  proof (cases "cr_n cr = 0")
    case False
    with rd err dec True show ?thesis by (auto simp: chunkedReader_Read_def empty same)
  next
    case n: True
    from decodes_begin [OF dec n] show ?thesis
    proof
      assume "cr_err (beginChunk cr) = Some io_EOF \<and> br_rest (cr_r (beginChunk cr)) = tail"
      with rd err n show ?thesis by (simp add: chunkedReader_Read_def)
    next
      assume b: "decodes (beginChunk cr) out tail \<and> 0 < cr_n (beginChunk cr)"
      then have "cr_err (beginChunk cr) = None" by (simp add: decodes_def)
      with rd err n b True have "cr' = beginChunk cr" "e = None"
        by (auto simp: chunkedReader_Read_def empty same)
      with b show ?thesis by blast
    qed
  qed
qed

lemma body_Read_at:
  assumes "body_Read len b = (b', d, e)" and at: "body_at t b"
  shows "body_at t b' \<and> bd_closed b' = bd_closed b \<and> (e \<noteq> None \<longrightarrow> behind t b')"
proof (cases "bd_closed b")
  case True
  with assms show ?thesis by (auto simp: body_Read_def body_at_def)
next
  case open_body: False
  show ?thesis
  proof (cases "bd_src b")
    case (SrcLimit r l)
    with at have l: "0 \<le> l" "drop (nat l) (br_rest r) = t" "\<not> bd_hdr b" by (auto simp: body_at_def source_at_def)
    obtain r' l' d' e' where rd: "limit_Read len (r, l) = ((r', l'), d', e')" by (metis prod.exhaust)
    have "b' = b\<lparr>bd_src := SrcLimit r' l'\<rparr>" "e = e'"
      using assms(1) rd SrcLimit open_body l(3) by (auto simp: body_Read_def)
    with limit_Read_at [OF rd l(1)] l at open_body show ?thesis
      by (auto simp: body_at_def source_at_def behind_def)
  next
    case (SrcChunked cr)
    obtain cr' d' e' where rd: "chunkedReader_Read len cr = (cr', d', e')" by (metis prod.exhaust)
    show ?thesis
    proof (cases "bd_hdr b")
      case True
      with at SrcChunked obtain out where dec: "decodes cr out (CRLF @ t)" by (auto simp: body_at_def source_at_def)
      from chunked_Read_at [OF dec rd] show ?thesis
      proof
        assume more: "e' = None \<and> (\<exists>out'. decodes cr' out' (CRLF @ t))"
        then have "b' = b\<lparr>bd_src := SrcChunked cr'\<rparr>" "e = None"
          using assms(1) rd SrcChunked open_body by (auto simp: body_Read_def)
        with more True at open_body show ?thesis by (auto simp: body_at_def source_at_def)
      next
        assume eof: "e' = Some io_EOF \<and> cr_err cr' = Some io_EOF \<and> br_rest (cr_r cr') = CRLF @ t"
        then have "readTrailer (cr_r cr') = (br_skip 2 (cr_r cr'), None, None)" by (simp add: readTrailer_def)
        then have "b' = b\<lparr>bd_src := SrcChunked (cr'\<lparr>cr_r := br_skip 2 (cr_r cr')\<rparr>), bd_hdr := False\<rparr>"
          using assms(1) rd SrcChunked open_body True eof by (auto simp: body_Read_def)
        with eof at open_body show ?thesis by (auto simp: body_at_def source_at_def behind_def)
      qed
    next
      case False
      with at SrcChunked have "cr_err cr = Some io_EOF" "br_rest (cr_r cr) = t" by (auto simp: body_at_def source_at_def)
      with assms(1) SrcChunked open_body False at show ?thesis
        by (auto simp: body_Read_def chunkedReader_Read_def body_at_def source_at_def behind_def)
    qed
  next
    case (SrcPlain r)
    with at show ?thesis by (simp add: body_at_def source_at_def)
  qed
qed

lemma body_Close_at:
  assumes "body_Close b = Some (b', e)" and at: "body_at t b"
  shows "body_at t b' \<and> bd_closed b'"
proof (cases "bd_closed b")
  case True
  with assms show ?thesis by (auto simp: body_Close_def)
next
  case False
  have nc: "\<not> (\<not> bd_hdr b \<and> bd_closing b)" using at by (simp add: body_at_def)
  obtain b1 k1 e1 where c: "Copy body_Read discard copy_size (copy_fuel (src_reader (bd_src b))) b () 0 = Some (b1, (), k1, e1)"
      "b' = b1\<lparr>bd_closed := True\<rparr>"
    using assms False nc by (auto simp: body_Close_def body_at_def split: option.splits)
  have "body_at t b1 \<and> (\<exists>r1 k d e. body_at t r1 \<and> body_Read copy_size r1 = (b1, d, Some e) \<and> k1 = k + length d)"
    using Copy_discard_invariant [where Q = "\<lambda>b k. body_at t b", OF _ c(1) at] body_Read_at by blast
  then have "body_at t b1" "behind t b1" using body_Read_at by blast+
  with c(2) show ?thesis by (auto simp: body_at_def behind_def)
qed

section \<open>Bodies on the server\<close>

fun plain_body :: "request_body \<Rightarrow> body" where
  "plain_body (PlainBody b) = b"
| "plain_body (expectContinueReader b c) = b"

definition req_at :: "string \<Rightarrow> request_body \<Rightarrow> bool" where
  "req_at t rb \<longleftrightarrow> body_at t (plain_body rb)"

lemma reqBody_Close_at:
  assumes "reqBody_Close rb = Some (rb', e)" and "req_at t rb"
  shows "req_at t rb' \<and> behind t (plain_body rb')"
  using assms by (cases rb) (auto simp: reqBody_Close_def req_at_def dest!: body_Close_at simp: body_at_def)

lemma reqBody_Read_at:
  assumes "reqBody_Read bw len w = (w', d, e)" and "req_at t (rs_reqBody w)"
  shows "req_at t (rs_reqBody w')"
  using assms body_Read_at
  by (fastforce simp: reqBody_Read_def req_at_def Let_def split: request_body.splits if_splits prod.splits)

text \<open>What \<open>WriteHeader\<close> leaves of the body: all of it is read unless there was too much.\<close>

lemma drain_at:
  assumes "drain rb = Some (rb', m)" and "req_at t rb"
  shows "req_at t rb'"
proof -
  let ?Q = "\<lambda>(b, l :: int) (k :: nat). body_at t b"
  have step: "?Q r' (k + length d)" if "?Q r k" "limited_body_Read len r = (r', d, e)" for len r k r' d e
    using that body_Read_at by (fastforce simp: limited_body_Read_def split: if_splits prod.splits)
  have "body_at t b'"
    if "Copy limited_body_Read discard copy_size fuel (b, l) () 0 = Some ((b', l'), u, k', e)" "body_at t b" for fuel b l b' l' u k' e
    using Copy_discard_invariant [of ?Q, OF step that(1)] that(2) by simp
  with assms show ?thesis by (cases rb) (fastforce simp: drain_def req_at_def split: if_splits)+
qed

lemma body_frame [frame]:
  "rs_reqBody (set_header k v w) = rs_reqBody w" "rs_reqBody (del_header k w) = rs_reqBody w"
  "rs_reqBody (emit bw d w) = rs_reqBody w" "rs_reqBody (flush_buf bw w) = rs_reqBody w"
  by (simp_all add: set_header_def del_header_def emit_def flush_buf_def)

lemma consume_body_at:
  assumes "consume_body w = Some w'" and "req_at t (rs_reqBody w)"
  shows "req_at t (rs_reqBody w')"
proof -
  have t: "rs_reqBody (requestTooLarge w) = rs_reqBody w" for w :: "'a response"
    by (simp add: requestTooLarge_def frame Let_def)
  have d: "req_at t rb" if "drain (rs_reqBody w) = Some (rb, m)" for rb m
    using drain_at [OF that assms(2)] .
  have c: "req_at t rb'" if "drain (rs_reqBody w) = Some (rb, m)" "reqBody_Close rb = Some (rb', e)" for rb m rb' e
    using reqBody_Close_at [OF that(2) d [OF that(1)]] by simp
  from assms show ?thesis
    by (auto simp: consume_body_def frame t d c split: if_splits option.splits)
qed

text \<open>The stages of \<open>WriteHeader\<close> besides reading the body leave it alone.\<close>

lemma stages_body:
  "rs_reqBody (fst (declared_length w)) = rs_reqBody w" "rs_reqBody (keep_alive ul b w) = rs_reqBody w"
  "rs_reqBody (content_headers code w) = rs_reqBody w" "rs_reqBody (date_header date w) = rs_reqBody w"
  "rs_reqBody (choose_framing code cl w) = rs_reqBody w" "rs_reqBody (emit_header bw code w) = rs_reqBody w"
  by (simp_all add: declared_length_def keep_alive_def content_headers_def drop_if_set_def date_header_def
      choose_framing_def emit_header_def Let_def frame split: option.split)

lemma WriteHeader_at:
  assumes "WriteHeader ul date bw code w = Done w' u" and "req_at t (rs_reqBody w)"
  shows "req_at t (rs_reqBody w')"
proof -
  let ?w = "w\<lparr>rs_wroteHeader := True, rs_status := code\<rparr>"
  obtain w1 cl where d: "declared_length ?w = (w1, cl)" by (rule prod.exhaust)
  have "rs_reqBody w1 = rs_reqBody w" using stages_body(1) [of ?w] d by simp
  with assms(2) have k: "req_at t (rs_reqBody (keep_alive ul (cl \<noteq> None) w1))" by (simp add: stages_body)
  from assms d show ?thesis
    using consume_body_at [OF _ k]
    by (auto simp: WriteHeader_def stages_body split: if_splits option.splits)
qed

lemma sniff_at: "sniff bw w = Done w' u \<Longrightarrow> rs_reqBody w' = rs_reqBody w"
  by (auto simp: sniff_def Let_def frame split: if_splits prod.splits)

lemma write_rest_at: "write_rest bw m d w = Done w' u \<Longrightarrow> rs_reqBody w' = rs_reqBody w"
  by (auto simp: write_rest_def Let_def frame split: if_splits prod.splits)

lemma obind_Done: "obind x f = Done s a \<longleftrightarrow> (\<exists>s1 a1. x = Done s1 a1 \<and> f s1 a1 = Done s a)"
  by (cases x) simp_all

lemma rs_Write_at:
  assumes "rs_Write ul date bw d w = Done w' u" and "req_at t (rs_reqBody w)"
  shows "req_at t (rs_reqBody w')"
proof (cases "rs_hijacked w")
  case True
  with assms show ?thesis by (simp add: rs_Write_def)
next
  case False
  obtain w1 a where w1: "(if \<not> rs_wroteHeader w then WriteHeader ul date bw StatusOK w else Done w ()) = Done w1 a"
    using assms(1) False by (auto simp: rs_Write_def obind_Done)
  then have "req_at t (rs_reqBody w1)" using assms(2) WriteHeader_at by (fastforce split: if_splits)
  moreover have "rs_reqBody w' = rs_reqBody w1"
    using assms(1) False w1
    by (auto simp: rs_Write_def obind_Done Let_def split: if_splits dest!: sniff_at write_rest_at)
  ultimately show ?thesis by simp
qed

lemma rs_Flush_at:
  assumes "rs_Flush ul date bw w = Done w' u" and "req_at t (rs_reqBody w)"
  shows "req_at t (rs_reqBody w')"
  using assms WriteHeader_at [of ul date bw 200 w]
  by (auto simp: rs_Flush_def obind_Done frame split: if_splits dest!: sniff_at)

text \<open>A handler keeps its hands off the input if it uses the body only through its operations.\<close>

definition respects_body :: "('s response \<Rightarrow> ('s response, unit) outcome) \<Rightarrow> bool" where
  "respects_body h \<longleftrightarrow>
     (\<forall>t w w' u. h w = Done w' u \<and> req_at t (rs_reqBody w) \<longrightarrow> req_at t (rs_reqBody w'))"

lemma run_call_at:
  "run_call ul date bw c w = Done w' u \<Longrightarrow> req_at t (rs_reqBody w) \<Longrightarrow> req_at t (rs_reqBody w')"
  by (cases c) (auto simp: obind_Done frame rs_Hijack_def dest: WriteHeader_at rs_Write_at rs_Flush_at)

lemma run_calls_respect: "respects_body (run_calls ul date bw cs)"
proof -
  have "run_calls ul date bw cs w = Done w' u \<Longrightarrow> req_at t (rs_reqBody w) \<Longrightarrow> req_at t (rs_reqBody w')" for t w w' u
    by (induction cs arbitrary: w) (auto simp: obind_Done dest: run_call_at)
  then show ?thesis by (auto simp: respects_body_def)
qed

lemma read_respects: "respects_body (\<lambda>w. Done (fst (reqBody_Read bw len w)) ())"
  unfolding respects_body_def using reqBody_Read_at [of bw len] by (metis eq_fst_iff outcome.inject(1))

lemma finishRequest_behind:
  assumes "finishRequest ul date bw w = Done w' u" and "req_at t (rs_reqBody w)" and "\<not> rs_closeAfterReply w'"
  shows "behind t (plain_body (rs_reqBody w'))"
proof -
  let ?w1 = "if rs_written w = 0 \<and> Get (rs_header w) ''Content-Length'' = [] then set_header ''Content-Length'' ''0'' w else w"
  define w2 where "w2 = (if wantsHttp10KeepAlive ul (rs_req ?w1) \<and> Get (rs_header ?w1) ''Content-Length'' \<noteq> [] \<and>
    Get (rs_header ?w1) ''Connection'' = ''keep-alive'' then ?w1\<lparr>rs_closeAfterReply := False\<rparr> else ?w1)"
  have r2: "req_at t (rs_reqBody w2)" using assms(2) by (simp add: w2_def frame)
  obtain w3 u3 where w3: "(if \<not> rs_wroteHeader w2 then WriteHeader ul date bw StatusOK w2 else Done w2 ()) = Done w3 u3"
    and "\<exists>w4 u4. (if rs_needSniff w3 then sniff bw w3 else Done w3 ()) = Done w4 u4 \<and>
      (if rs_hijacked w4 then Panic w4 ''nil pointer dereference''
       else (let w5 = flush_buf bw (if rs_chunking w4 then emit bw CRLF (emit bw (''0'' @ CRLF) w4) else w4);
                closed = (if \<not> rs_closeAfterReply w5
                          then map_option (\<lambda>(rb, _). w5\<lparr>rs_reqBody := rb\<rparr>) (reqBody_Close (rs_reqBody w5))
                          else Some w5)
            in case closed of
                 None \<Rightarrow> Block w5
               | Some w6 \<Rightarrow>
                   Done (if rs_contentLength w6 \<noteq> -1 \<and> rs_contentLength w6 \<noteq> rs_written w6
                         then w6\<lparr>rs_closeAfterReply := True\<rparr> else w6) ())) = Done w' u"
    using assms(1) unfolding finishRequest_def Let_def w2_def [unfolded Let_def, symmetric] obind_Done by blast
  from this(2) obtain w4 u4 where w4: "(if rs_needSniff w3 then sniff bw w3 else Done w3 ()) = Done w4 u4"
    and fin: "(if rs_hijacked w4 then Panic w4 ''nil pointer dereference''
       else (let w5 = flush_buf bw (if rs_chunking w4 then emit bw CRLF (emit bw (''0'' @ CRLF) w4) else w4);
                closed = (if \<not> rs_closeAfterReply w5
                          then map_option (\<lambda>(rb, _). w5\<lparr>rs_reqBody := rb\<rparr>) (reqBody_Close (rs_reqBody w5))
                          else Some w5)
            in case closed of
                 None \<Rightarrow> Block w5
               | Some w6 \<Rightarrow>
                   Done (if rs_contentLength w6 \<noteq> -1 \<and> rs_contentLength w6 \<noteq> rs_written w6
                         then w6\<lparr>rs_closeAfterReply := True\<rparr> else w6) ())) = Done w' u"
    by blast
  have "req_at t (rs_reqBody w3)"
  proof (cases "rs_wroteHeader w2")
    case True
    with w3 r2 show ?thesis by simp
  next
    case False
    with w3 have "WriteHeader ul date bw 200 w2 = Done w3 u3" by simp
    then show ?thesis using r2 by (rule WriteHeader_at)
  qed
  moreover have "rs_reqBody w4 = rs_reqBody w3"
    using w4 sniff_at [of bw w3 w4] by (cases "rs_needSniff w3") auto
  ultimately have "req_at t (rs_reqBody w4)" by simp
  with fin assms(3) show ?thesis
    by (auto simp: Let_def frame split: if_splits option.splits dest!: reqBody_Close_at)
qed

section \<open>The next request\<close>

lemma reply_turn_behind:
  assumes "reply_turn ul date bw handler c w = Next c'" and "respects_body handler" and "req_at t (rs_reqBody w)"
  shows "br_rest (cn_in c') = t"
proof -
  obtain w1 u1 w2 u2 where w1: "handler w = Done w1 u1" and w2: "finishRequest ul date bw w1 = Done w2 u2"
      "\<not> rs_closeAfterReply w2" "c' = c\<lparr>cn_in := body_reader (rs_reqBody w2), cn_buf := rs_buf w2\<rparr>"
    using assms(1) by (auto simp: reply_turn_def close_conn_def split: outcome.splits if_splits)
  have "req_at t (rs_reqBody w1)" using assms(2,3) w1 by (auto simp: respects_body_def)
  from finishRequest_behind [OF w2(1) this w2(2)] show ?thesis
    by (cases "rs_reqBody w2") (simp_all add: w2(3) behind_def body_reader_def)
qed

lemma serve_turn_reply:
  assumes "serve_turn ul U timeout raw bw maxHeader handler date ahead spent c = Next c'"
    and "readRequest ul U maxHeader ahead spent c = Some (Inr w)"
  shows "\<exists>w'. reply_turn ul date bw handler c w' = Next c' \<and> plain_body (rs_reqBody w') = plain_body (rs_reqBody w)"
proof -
  have no: "refuse ul date bw code w1 \<noteq> Next c'" for code w1
    by (simp add: refuse_def close_conn_def split: outcome.split)
  have p: "plain_body (rs_reqBody (expecting w)) = plain_body (rs_reqBody w)"
      "plain_body (rs_reqBody (del_expect (expecting w))) = plain_body (rs_reqBody w)"
    by (simp_all add: expecting_def del_expect_def split: request_body.split)
  show ?thesis
  proof (cases "expectsContinue ul (rs_req w)")
    case True
    with assms no have "reply_turn ul date bw handler c (del_expect (expecting w)) = Next c'"
      by (simp add: serve_turn_def Let_def split: if_splits)
    with p show ?thesis by blast
  next
    case False
    with assms no have "reply_turn ul date bw handler c w = Next c'" by (simp add: serve_turn_def split: if_splits)
    then show ?thesis by blast
  qed
qed

text \<open>
  A body whose end the server can tell, with what it holds and what is behind it: one with a length, or
  chunks with their empty trailer.
\<close>

definition framed :: "body \<Rightarrow> string \<Rightarrow> string \<Rightarrow> bool" where
  "framed b body t \<longleftrightarrow>
     (\<exists>r n. b = new_body (SrcLimit r (int n)) False False \<and> body = take n (br_rest r) \<and> t = drop n (br_rest r)) \<or>
     (\<exists>r ds. b = new_body (SrcChunked (newChunkedReader r)) True False \<and> br_rest r = chunks ds (CRLF @ t) \<and>
        body = concat ds \<and> list_all (\<lambda>d. length d < 2 ^ 64) ds)"

lemma framed_at: "framed b body t \<Longrightarrow> body_at t b"
  by (auto simp: framed_def body_at_length body_at_chunks)

lemma turn_behind_body:
  assumes "serve_turn ul U timeout raw bw maxHeader handler date ahead spent c = Next c'"
    and "readRequest ul U maxHeader ahead spent c = Some (Inr w)"
    and "rs_reqBody w = PlainBody b" and "framed b body t" and "respects_body handler"
  shows "br_rest (cn_in c') = t"
proof -
  obtain w' where w': "reply_turn ul date bw handler c w' = Next c'" "plain_body (rs_reqBody w') = plain_body (rs_reqBody w)"
    using serve_turn_reply [OF assms(1,2)] by blast
  have "req_at t (rs_reqBody w')" using w'(2) assms(3) framed_at [OF assms(4)] by (simp add: req_at_def)
  from reply_turn_behind [OF w'(1) assms(5) this] show ?thesis .
qed


section \<open>A client that asks to close\<close>

text \<open>What \<open>WriteHeader\<close> makes of the body of a request, on a connection that is to be kept.\<close>

definition leaves_body :: "'s response \<Rightarrow> request_body \<Rightarrow> bool" where
  "leaves_body w rb \<longleftrightarrow>
     (\<forall>v :: 's response. rs_req v = rs_req w \<and> rs_reqBody v = rs_reqBody w \<and> \<not> rs_closeAfterReply v \<longrightarrow>
        consume_body v = Some (v\<lparr>rs_reqBody := rb\<rparr>))"

lemma empty_leaves: "req_ContentLength (rs_req w) = 0 \<Longrightarrow> leaves_body w (rs_reqBody w)"
  by (auto simp: leaves_body_def consume_body_def)

lemma idle_stages:
  assumes "rs_header w = []" and "\<not> rs_closeAfterReply w" and "ProtoAtLeast (rs_req w) 1 1"
    and "\<not> wantsHttp10KeepAlive ul (rs_req w)"
    and "leaves_body w rb" and "\<not> rs_hijacked w"
    and "\<not> rs_wroteHeader w" and "rs_contentLength w = -1" and "\<not> rs_chunking w"
  shows "\<exists>w'. WriteHeader ul date bw 200 (set_header ''Content-Length'' ''0'' w) = Done w' () \<and>
    \<not> rs_closeAfterReply w' \<and> rs_reqBody w' = rb \<and> (rs_contentLength w' = -1 \<or> rs_contentLength w' = 0) \<and>
    \<not> rs_hijacked w' \<and> rs_written w' = rs_written w"
proof -
  let ?w0 = "(set_header ''Content-Length'' ''0'' w)\<lparr>rs_wroteHeader := True, rs_status := 200\<rparr>"
  have cl: "Get (rs_header ?w0) ''Content-Length'' = ''0''"
    by (simp add: set_header_def Get_Set canonical_names)
  have con: "Get (rs_header ?w0) ''Connection'' = []"
    by (simp add: set_header_def Get_Set canonical_names assms(1)) (simp add: Get_def)
  have te: "Get (rs_header ?w0) ''Transfer-Encoding'' = []"
    by (simp add: set_header_def Get_Set canonical_names assms(1)) (simp add: Get_def)
  have "ParseInt ''0'' = Some 0" by (simp add: strconv_eval)
  with cl have d: "declared_length ?w0 = (?w0, Some 0)" by (simp add: declared_length_def)
  have k: "keep_alive ul True ?w0 = ?w0"
    using con assms(3,4) by (simp add: keep_alive_def frame)
  let ?w1 = "?w0\<lparr>rs_reqBody := rb\<rparr>"
  have c: "consume_body ?w0 = Some ?w1"
    using assms(2,5) by (simp add: leaves_body_def frame)
  define w1 where "w1 = date_header date (content_headers 200 ?w1)"
  have w1: "rs_reqBody w1 = rb" "\<not> rs_closeAfterReply w1" "rs_contentLength w1 = -1" "\<not> rs_hijacked w1"
      "rs_written w1 = rs_written w" "\<not> rs_chunking w1" "Get (rs_header w1) ''Transfer-Encoding'' = []" "rs_req w1 = rs_req w"
    using assms te by (simp_all add: w1_def date_header_def content_headers_def frame)
      (auto simp: set_header_def Get_Set canonical_names)
  let ?w2 = "emit_header bw 200 (choose_framing 200 (Some 0) w1)"
  have "WriteHeader ul date bw 200 (set_header ''Content-Length'' ''0'' w) = Done ?w2 ()"
    using assms(6,7) d k c by (simp add: WriteHeader_def frame w1_def)
  moreover have "rs_closeAfterReply ?w2 = rs_closeAfterReply (choose_framing 200 (Some 0) w1)"
    by (rule framing_stages)
  moreover have "rs_contentLength ?w2 = rs_contentLength (choose_framing 200 (Some 0) w1)"
    using framing_stages(3) [of bw 200 "choose_framing 200 (Some 0) w1"] by (simp add: framing_def)
  moreover have "core ?w2 = core w1" by (simp add: core_stages)
  ultimately show ?thesis
    using w1 by (auto simp: choose_framing_def Let_def frame stages_body core_def split: if_splits)
qed

lemma sniff_keeps:
  assumes "\<not> rs_hijacked w"
  shows "\<exists>w'. sniff bw w = Done w' () \<and> rs_reqBody w' = rs_reqBody w \<and> rs_closeAfterReply w' = rs_closeAfterReply w \<and>
    rs_contentLength w' = rs_contentLength w \<and> rs_written w' = rs_written w \<and> \<not> rs_hijacked w'"
  using assms by (auto simp: sniff_def Let_def frame split: prod.split)

lemma flush_frame [frame]:
  "rs_closeAfterReply (flush_buf bw w) = rs_closeAfterReply w" "rs_contentLength (flush_buf bw w) = rs_contentLength w"
  "rs_written (flush_buf bw w) = rs_written w"
  by (simp_all add: flush_buf_def)

lemma idle_finish:
  assumes "rs_header w = []" and "\<not> rs_closeAfterReply w" and "ProtoAtLeast (rs_req w) 1 1"
    and "\<not> wantsHttp10KeepAlive ul (rs_req w)" and "leaves_body w rb" and "\<not> rs_hijacked w"
    and "\<not> rs_wroteHeader w" and "rs_contentLength w = -1" and "\<not> rs_chunking w" and "rs_written w = 0"
    and "reqBody_Close rb = Some (rb', e)"
  shows "\<exists>w'. finishRequest ul date bw w = Done w' () \<and> \<not> rs_closeAfterReply w' \<and> rs_reqBody w' = rb'"
proof -
  obtain w3 where w3: "WriteHeader ul date bw 200 (set_header ''Content-Length'' ''0'' w) = Done w3 ()" "\<not> rs_closeAfterReply w3"
      "rs_contentLength w3 = -1 \<or> rs_contentLength w3 = 0" "\<not> rs_hijacked w3" "rs_written w3 = 0"
      "rs_reqBody w3 = rb"
    using idle_stages [OF assms(1-9), of date bw] assms(10) by auto
  obtain w4 where w4: "(if rs_needSniff w3 then sniff bw w3 else Done w3 ()) = Done w4 ()" "\<not> rs_closeAfterReply w4"
      "rs_contentLength w4 = -1 \<or> rs_contentLength w4 = 0" "\<not> rs_hijacked w4" "rs_written w4 = 0"
      "rs_reqBody w4 = rb"
    using sniff_keeps [OF w3(4), of bw] w3 by (cases "rs_needSniff w3") auto
  have "Get (rs_header w) ''Content-Length'' = []" by (simp add: assms(1) Get_def)
  then show ?thesis
    using w3(1) w4 assms(4,7,10,11) by (auto simp: finishRequest_def Let_def frame)
qed

lemma readTransfer_request_open:
  assumes "readTransfer ul (MRequest r) b = Some (Inr (MRequest r'))"
  shows "\<not> req_Close r' \<and> (\<exists>bd. req_Body r' = Some bd \<and> \<not> bd_closing bd)"
  using assms
  by (auto simp: readTransfer_def choose_body_def new_body_def Let_def split: option.splits prod.splits sum.splits if_splits)

lemma readRequest_fresh:
  assumes "readRequest ul U maxHeader ahead spent c = Some (Inr w)"
  shows "\<not> req_Close (rs_req w) \<and> \<not> cn_hijacked c \<and> (\<exists>rq b. w = new_response c rq b)"
proof -
  obtain b r where "ReadRequest ul U b = Some (Inr r)" "rs_req w = request_head r (cn_remoteAddr c)"
    using assms
    by (auto simp: readRequest_def new_response_def Let_def split: if_splits option.splits sum.splits)
  moreover from this(1) have "\<not> req_Close r"
    by (auto simp: ReadRequest_def Let_def split: prod.splits sum.splits option.splits message.splits
        dest!: readTransfer_request_open)
  ultimately have "\<not> req_Close (rs_req w)" by (simp add: request_head_def)
  moreover have "\<not> cn_hijacked c" "\<exists>rq b. w = new_response c rq b"
    using assms by (auto simp: readRequest_def Let_def split: if_splits option.splits sum.splits)
  ultimately show ?thesis by blast
qed

lemma idle_turn_next:
  assumes "readRequest ul U maxHeader ahead spent c = Some (Inr w)"
    and p: "ProtoAtLeast (rs_req w) 1 1" "req_ContentLength (rs_req w) = 0" "Get (req_Header (rs_req w)) ''Expect'' = []"
  shows "\<exists>c'. serve_turn ul U timeout raw bw maxHeader (\<lambda>w. Done w ()) date ahead spent c = Next c'"
proof -
  note w = readRequest_fresh [OF assms(1)]
  have k: "\<not> wantsHttp10KeepAlive ul (rs_req w)" using p by (auto simp: ProtoAtLeast_def wantsHttp10KeepAlive_def)
  have "\<not> expectsContinue ul (rs_req w)" using p by (simp add: expectsContinue_def ToLower_def)
  moreover obtain rb' e where "reqBody_Close (rs_reqBody w) = Some (rb', e)" using reqBody_Close_returns by blast
  then have "\<exists>w'. finishRequest ul date bw w = Done w' () \<and> \<not> rs_closeAfterReply w'"
    using idle_finish [OF _ _ _ k empty_leaves [OF p(2)]] w p by (fastforce simp: new_response_def)
  moreover have "\<not> rs_hijacked w" using w by (auto simp: new_response_def)
  ultimately show ?thesis using assms(1) p by (auto simp: serve_turn_def reply_turn_def)
qed

text \<open>
  C20: A client that asks for the connection to be closed is not heard: a request that is read never has
  \<open>Close\<close> set, whatever its Connection field says, and after a request of HTTP/1.1 without a body and
  without expectations a handler that does nothing leaves the connection open.
\<close>

theorem close_not_heard:
  assumes "readRequest ul U maxHeader ahead spent c = Some (Inr w)"
  shows "\<not> req_Close (rs_req w) \<and>
    (ProtoAtLeast (rs_req w) 1 1 \<and> req_ContentLength (rs_req w) = 0 \<and> Get (req_Header (rs_req w)) ''Expect'' = [] \<longrightarrow>
     (\<exists>c'. serve_turn ul U timeout raw bw maxHeader (\<lambda>w. Done w ()) date ahead spent c = Next c'))"
  using readRequest_fresh [OF assms] idle_turn_next [OF assms] by blast

section \<open>Malformed chunks\<close>

text \<open>
  The errors of reading and closing the body of a request are dropped when its reply is written. A
  body whose first chunk has no size is given up behind that line, and on a connection that is kept the
  next request is read from what follows: bytes that the sender meant as a body are taken for a request.
\<close>

lemma malformed_read:
  assumes "br_rest r = line @ CRLF @ t" and "char_of (10 :: nat) \<notin> set line" and "length line < 4094"
    and "TrimRight ('' '' @ map char_of [13 :: nat, 9, 10]) (line @ CRLF) = line" and "ParseUint line 16 = None"
  shows "\<exists>b. bd_closed b = False \<and> bd_limitHit b = False \<and> bd_hdr b \<and> br_rest (src_reader (bd_src b)) = t \<and>
    (\<forall>len. body_Read len (new_body (SrcChunked (newChunkedReader r)) True False) = (b, [], Some (errParseUint line))) \<and>
    (\<forall>len. body_Read len b = (b, [], Some (errParseUint line)))"
proof -
  have "br_rest r = (line @ [char_of (13 :: nat)]) @ char_of (10 :: nat) # t" using assms(1) by (simp add: CRLF_def)
  from ReadSlice_found [OF this] assms(2,3) have
    "ReadSlice (char_of (10 :: nat)) r = (br_skip (length line + 2) r, line @ CRLF, None)"
    by (simp add: defaultBufSize_def CRLF_def)
  with assms(3,4) have "readLine r = (br_skip (length line + 2) r, Inr line)"
    by (simp add: readLine_def readLineBytes_def maxLineLength_def)
  with assms(5) have bc: "beginChunk (newChunkedReader r) =
      \<lparr>cr_r = br_skip (length line + 2) r, cr_n = 0, cr_err = Some (errParseUint line)\<rparr>"
    by (simp add: beginChunk_def newChunkedReader_def)
  have ne: "errParseUint line \<noteq> io_EOF" by (simp add: errParseUint_def io_EOF_def)
  let ?b = "new_body (SrcChunked \<lparr>cr_r = br_skip (length line + 2) r, cr_n = 0, cr_err = Some (errParseUint line)\<rparr>) True False"
  have "body_Read len (new_body (SrcChunked (newChunkedReader r)) True False) = (?b, [], Some (errParseUint line))" for len
    using bc ne by (simp add: body_Read_def new_body_def chunkedReader_Read_def) (simp add: newChunkedReader_def)
  moreover have "body_Read len ?b = (?b, [], Some (errParseUint line))" for len
    using ne by (simp add: body_Read_def new_body_def chunkedReader_Read_def)
  ultimately show ?thesis using assms(1) by (intro exI [of _ ?b]) (simp add: new_body_def)
qed

lemma malformed_left:
  assumes r: "\<And>len. body_Read len b = (b1, [], Some e)" "\<And>len. body_Read len b1 = (b1, [], Some e)"
    and b: "\<not> bd_closed b1" "\<not> bd_limitHit b1" "bd_hdr b1"
    and "rs_reqBody w = PlainBody b" and "req_ContentLength (rs_req w) \<noteq> 0"
  shows "leaves_body w (PlainBody (b1\<lparr>bd_closed := True\<rparr>))"
proof -
  have f: "copy_fuel r = Suc (length (br_rest r))" for r by (simp add: copy_fuel_def)
  have "drain (PlainBody b) = Some (PlainBody b1, 0)"
    by (simp add: drain_def f limited_body_Read_def r maxPostHandlerReadBytes_def)
  moreover have "\<exists>e'. reqBody_Close (PlainBody b1) = Some (PlainBody (b1\<lparr>bd_closed := True\<rparr>), e')"
    using b by (auto simp: reqBody_Close_def body_Close_def f r)
  ultimately show ?thesis
    using assms(6,7) by (auto simp: leaves_body_def consume_body_def maxPostHandlerReadBytes_def)
qed

theorem malformed_body_served:
  assumes "readRequest ul U maxHeader ahead spent c = Some (Inr w)"
    and "rs_reqBody w = PlainBody (new_body (SrcChunked (newChunkedReader r)) True False)"
    and "br_rest r = line @ CRLF @ t" and "char_of (10 :: nat) \<notin> set line" and "length line < 4094"
    and "TrimRight ('' '' @ map char_of [13 :: nat, 9, 10]) (line @ CRLF) = line" and "ParseUint line 16 = None"
    and "ProtoAtLeast (rs_req w) 1 1" "req_ContentLength (rs_req w) \<noteq> 0" "Get (req_Header (rs_req w)) ''Expect'' = []"
  shows "\<exists>c'. serve_turn ul U timeout raw bw maxHeader (\<lambda>w. Done w ()) date ahead spent c = Next c' \<and> br_rest (cn_in c') = t"
proof -
  note w = readRequest_fresh [OF assms(1)]
  have k: "\<not> wantsHttp10KeepAlive ul (rs_req w)" using assms(8) by (auto simp: ProtoAtLeast_def wantsHttp10KeepAlive_def)
  have x: "\<not> expectsContinue ul (rs_req w)" using assms(10) by (simp add: expectsContinue_def ToLower_def)
  obtain b1 where b: "\<not> bd_closed b1" "\<not> bd_limitHit b1" "bd_hdr b1" "br_rest (src_reader (bd_src b1)) = t"
    and r: "\<And>len. body_Read len (new_body (SrcChunked (newChunkedReader r)) True False) = (b1, [], Some (errParseUint line))"
      "\<And>len. body_Read len b1 = (b1, [], Some (errParseUint line))"
    using malformed_read [OF assms(3-7)] by auto
  let ?rb = "PlainBody (b1\<lparr>bd_closed := True\<rparr>)"
  have l: "leaves_body w ?rb" using malformed_left [OF r b(1-3) assms(2,9)] .
  have c: "reqBody_Close ?rb = Some (?rb, None)" by (simp add: reqBody_Close_def body_Close_def)
  obtain w' where "finishRequest ul date bw w = Done w' ()" "\<not> rs_closeAfterReply w'" "rs_reqBody w' = ?rb"
    using idle_finish [OF _ _ _ k l _ _ _ _ _ c, of date bw] w assms(8) by (auto simp: new_response_def)
  moreover have "\<not> rs_hijacked w" using w by (auto simp: new_response_def)
  ultimately show ?thesis
    using assms(1,10) x b(4) by (simp add: serve_turn_def reply_turn_def body_reader_def)
qed

end
