(* ===== verification/Pipeline.thy ===== *)
theory Pipeline
  imports ConnSpec Messages
begin

text \<open>
  The server and a client that uses \<open>Request.Write\<close>, put together: requests written one behind the other
  to one connection are the requests that are served.
\<close>

lemma concat_take_bytes: "concat (take_bytes n ss) = take n (concat ss)"
  by (induction n ss rule: take_bytes.induct) auto

lemma limited_rest: "br_rest (limited n r) = take n (br_rest r)"
  by (simp add: limited_def br_rest_def concat_take_bytes)

lemma unlimited_rest: "br_rest (unlimited n r r') = br_rest r' @ drop n (br_rest r)"
  by (simp add: unlimited_def br_rest_def)

section \<open>One request\<close>

text \<open>A request that the client has written to \<open>wire\<close>, with the transfer writer that sent its body.\<close>

definition written ::
  "url_lib \<Rightarrow> user_body Request \<Rightarrow> URL \<Rightarrow> transferWriter \<Rightarrow> string \<Rightarrow> string \<Rightarrow> bool" where
  "written U rq u tw body wire \<longleftrightarrow>
     sendable U rq u \<and> req_Write U buffer_write (\<lambda>s. (s, None)) rq [] = Some (wire, None) \<and>
     newTransferWriter (MRequest rq) = Inr tw \<and>
     body = (case tw_Body tw of None \<Rightarrow> [] | Some b \<Rightarrow> br_rest (ub_reader b)) \<and>
     (\<forall>b. tw_Body tw = Some b \<longrightarrow> br_end (ub_reader b) = io_EOF)"

text \<open>The request of a response is that one, with \<open>t\<close> behind its body.\<close>

definition received ::
  "user_body Request \<Rightarrow> URL \<Rightarrow> transferWriter \<Rightarrow> string \<Rightarrow> string \<Rightarrow> 's response \<Rightarrow> bool" where
  "received rq u tw body t w \<longleftrightarrow>
     req_Method (rs_req w) = valueOrDefault (req_Method rq) ''GET'' \<and> req_URL (rs_req w) = u \<and>
     req_Host (rs_req w) = write_host rq \<and> ProtoAtLeast (rs_req w) 1 1 \<and>
     (\<forall>k. \<not> reqWriteExcludeHeader k \<longrightarrow> gomap_get (req_Header (rs_req w)) k = gomap_get (req_Header rq) k) \<and>
     req_TransferEncoding (rs_req w) = tw_TransferEncoding tw \<and> req_ContentLength (rs_req w) = tw_ContentLength tw \<and>
     (\<exists>b. rs_reqBody w = PlainBody b \<and> framed b body t)"

text \<open>A body that was written can be told apart from what follows it.\<close>

lemma written_body_length:
  assumes "tw_WriteBody tw buffer_write [] = Some (bodywire, None)" and "\<not> chunked (tw_TransferEncoding tw)"
    and "0 \<le> tw_ContentLength tw" and "\<forall>b. tw_Body tw = Some b \<longrightarrow> br_end (ub_reader b) = io_EOF"
  shows "bodywire = (case tw_Body tw of None \<Rightarrow> [] | Some b \<Rightarrow> br_rest (ub_reader b)) \<and>
    int (length bodywire) = tw_ContentLength tw"
proof (cases "tw_Body tw")
  case None
  with assms show ?thesis by (auto simp: tw_WriteBody_def split: if_splits)
next
  case (Some b)
  have "ub_close b = None"
  proof (rule ccontr)
    assume "ub_close b \<noteq> None"
    then show False using assms(1) Some by (auto simp: tw_WriteBody_def split: option.splits prod.splits sum.splits)
  qed
  from limited_WriteBody [OF assms(2) Some assms(3) _ this, of "[]"] assms(1,4) Some
  have "bodywire = take (nat (tw_ContentLength tw)) (br_rest (ub_reader b))"
      "int (length (br_rest (ub_reader b))) = tw_ContentLength tw"
    by (auto split: if_splits)
  with Some show ?thesis by auto
qed

lemma written_body_chunks:
  assumes "tw_WriteBody tw buffer_write [] = Some (bodywire, None)" and "chunked (tw_TransferEncoding tw)"
    and "tw_ContentLength tw = -1" and "tw_Body tw = Some b" and "br_end (ub_reader b) = io_EOF"
  shows "\<exists>ds. bodywire = chunks ds CRLF \<and> concat ds = br_rest (ub_reader b) \<and> list_all (\<lambda>d. length d < 2 ^ 64) ds"
proof -
  have "ub_close b = None"
  proof (rule ccontr)
    assume "ub_close b \<noteq> None"
    then show False using assms(1,4) by (auto simp: tw_WriteBody_def split: option.splits prod.splits sum.splits)
  qed
  from chunked_WriteBody [OF assms(2,4,3,5) this, of "[]"] assms(1) show ?thesis by auto
qed

text \<open>Only a request with a body is sent in chunks.\<close>

lemma chunked_has_body:
  assumes "newTransferWriter (MRequest rq) = Inr tw" and "req_TransferEncoding rq = []" and "chunked (tw_TransferEncoding tw)"
  shows "\<exists>b. tw_Body tw = Some b"
  using assms by (auto simp: newTransferWriter_def request_writer_def sanitize_def chunked_def probe_body_def Let_def
      split: if_splits option.splits list.splits prod.splits)

lemma written_read:
  assumes w: "written U rq u tw body wire" and rest: "br_rest (cn_in c) = wire @ t" and "\<not> cn_hijacked c"
    and len: "length wire \<le> ahead + nat (maxHeaderBytes maxHeader) + 4096"
  shows "\<exists>w. readRequest ul U maxHeader ahead spent c = Some (Inr w) \<and> received rq u tw body t w"
proof -
  from w have snd: "sendable U rq u" and wr: "req_Write U buffer_write (\<lambda>s. (s, None)) rq [] = Some (wire, None)"
    and ntw: "newTransferWriter (MRequest rq) = Inr tw"
    and body: "body = (case tw_Body tw of None \<Rightarrow> [] | Some b \<Rightarrow> br_rest (ub_reader b))"
    and eof: "\<forall>b. tw_Body tw = Some b \<longrightarrow> br_end (ub_reader b) = io_EOF"
    by (simp_all add: written_def)
  let ?n = "ahead + nat (maxHeaderBytes maxHeader) + 4096"
  have "br_rest (limited ?n (cn_in c)) = wire @ take (?n - length wire) t"
    using rest len by (simp add: limited_rest)
  from request_read_back [OF snd wr this, of ul] ntw obtain bodywire rr r2
    where bw: "tw_WriteBody tw buffer_write [] = Some (bodywire, None)"
      and r2: "br_rest r2 = bodywire @ take (?n - length wire) t"
      and rr: "ReadRequest ul U (limited ?n (cn_in c)) = Some (Inr rr)"
      and fields: "req_Method rr = valueOrDefault (req_Method rq) ''GET''" "req_URL rr = u" "req_Host rr = write_host rq"
        "req_ProtoMajor rr = 1" "req_ProtoMinor rr = 1"
        "req_TransferEncoding rr = tw_TransferEncoding tw" "req_ContentLength rr = tw_ContentLength tw"
        "\<forall>k. \<not> reqWriteExcludeHeader k \<longrightarrow> gomap_get (req_Header rr) k = gomap_get (req_Header rq) k"
      and rb: "req_Body rr = Some (choose_body (tw_TransferEncoding tw) (tw_ContentLength tw) False r2)"
    by auto
  have S: "req_TransferEncoding rq = []" "ProtoAtLeast rq 1 1" "req_Trailer rq = None"
    using snd by (simp_all add: sendable_def Let_def)
  let ?r3 = "unlimited ?n (cn_in c) r2"
  let ?b = "body_unlimited ?n (cn_in c) (choose_body (tw_TransferEncoding tw) (tw_ContentLength tw) False r2)"
  have "drop ?n (wire @ t) = drop (?n - length wire) t" using len by simp
  then have r3: "br_rest ?r3 = bodywire @ t" using r2 rest by (simp add: unlimited_rest)
  have "framed ?b body t"
  proof (cases "chunked (tw_TransferEncoding tw)")
    case True
    then have cl: "tw_ContentLength tw = -1" using new_request_writer [OF ntw S] by (auto simp: chunked_def)
    obtain b where b: "tw_Body tw = Some b" using chunked_has_body [OF ntw S(1) True] by blast
    obtain ds where ds: "bodywire = chunks ds CRLF" "concat ds = br_rest (ub_reader b)" "list_all (\<lambda>d. length d < 2 ^ 64) ds"
      using written_body_chunks [OF bw True cl b] eof b by blast
    have "?b = new_body (SrcChunked (newChunkedReader ?r3)) True False"
      using True by (simp add: choose_body_def body_unlimited_def new_body_def newChunkedReader_def)
    moreover have "br_rest ?r3 = chunks ds (CRLF @ t)" using r3 ds(1) by (simp add: chunks_def)
    ultimately show ?thesis unfolding framed_def using ds b body by (intro disjI2 exI conjI) auto
  next
    case False
    then have cl: "0 \<le> tw_ContentLength tw" using new_request_writer [OF ntw S] by (auto simp: chunked_def)
    note l = written_body_length [OF bw False cl eof]
    have "tw_ContentLength tw = int (length bodywire)" by (rule l [THEN conjunct2, symmetric])
    then have "?b = new_body (SrcLimit ?r3 (int (length bodywire))) False False"
      using False by (simp add: choose_body_def body_unlimited_def new_body_def)
    then show ?thesis unfolding framed_def using r3 l body by (intro disjI1 exI conjI) auto
  qed
  moreover define w where "w = new_response c (request_head rr (cn_remoteAddr c)) ?b"
  moreover have "readRequest ul U maxHeader ahead spent c = Some (Inr w)"
    using rr rb assms(3) by (simp add: readRequest_def w_def Let_def)
  ultimately show ?thesis using fields
    by (intro exI [of _ w]) (simp add: received_def new_response_def request_head_def ProtoAtLeast_def)
qed

text \<open>A request without expectations goes to the handler.\<close>

lemma received_handled:
  assumes "readRequest ul U maxHeader ahead spent c = Some (Inr w)" and "received rq u tw body t w"
    and "gomap_get (req_Header rq) ''Expect'' = None"
  shows "serve_turn ul U timeout raw bw maxHeader handler date ahead spent c = reply_turn ul date bw handler c w"
proof -
  have "\<not> reqWriteExcludeHeader ''Expect''" and k: "CanonicalHeaderKey ''Expect'' = ''Expect''" by code_simp+
  with assms(2,3) have "Get (req_Header (rs_req w)) ''Expect'' = []" by (simp add: received_def Get_def)
  with assms(1) show ?thesis by (simp add: serve_turn_def expectsContinue_def ToLower_def)
qed

lemma kept_open: "serve_turn ul U timeout raw bw maxHeader handler date ahead spent c = Next c' \<Longrightarrow>
    \<not> cn_hijacked c \<Longrightarrow> \<not> cn_hijacked c'"
  by (auto simp: serve_turn_def reply_turn_def refuse_def close_conn_def Let_def
      split: option.splits sum.splits if_splits outcome.splits)

lemma received_kept:
  assumes "serve_turn ul U timeout raw bw maxHeader handler date ahead spent c = Next c'"
    and "readRequest ul U maxHeader ahead spent c = Some (Inr w)" and "received rq u tw body t w" and "respects_body handler"
  shows "br_rest (cn_in c') = t"
proof -
  from assms(3) obtain b where "rs_reqBody w = PlainBody b" "framed b body t" by (auto simp: received_def)
  from turn_behind_body [OF assms(1,2) this assms(4)] show ?thesis .
qed

section \<open>Two requests\<close>

text \<open>
  C18: Two requests that the client writes one behind the other, with bodies of any kind, and whatever
  follows them on the connection. The server reads the first one as it was written; if it keeps the
  connection after that turn, it reads the second one as it was written, and if it keeps the connection
  again, it goes on with what follows. Each of them is answered by the handler, called on it, unless the
  client has set an expectation. The handler reads bodies through their operations, and either request
  fits into the limit on what is read ahead and in a header.
\<close>

theorem pipelined_requests:
  assumes "written U rq1 u1 tw1 body1 wire1" and "written U rq2 u2 tw2 body2 wire2"
    and "br_rest (cn_in c) = wire1 @ wire2 @ tail" and "\<not> cn_hijacked c"
    and "length wire1 \<le> ahead1 + nat (maxHeaderBytes maxHeader) + 4096"
    and "length wire2 \<le> ahead2 + nat (maxHeaderBytes maxHeader) + 4096" and "respects_body handler"
  shows "\<exists>w1. readRequest ul U maxHeader ahead1 spent1 c = Some (Inr w1) \<and>
    received rq1 u1 tw1 body1 (wire2 @ tail) w1 \<and>
    (gomap_get (req_Header rq1) ''Expect'' = None \<longrightarrow>
       serve_turn ul U timeout raw bw maxHeader handler date1 ahead1 spent1 c = reply_turn ul date1 bw handler c w1) \<and>
    (\<forall>c1. serve_turn ul U timeout raw bw maxHeader handler date1 ahead1 spent1 c = Next c1 \<longrightarrow>
       (\<exists>w2. readRequest ul U maxHeader ahead2 spent2 c1 = Some (Inr w2) \<and> received rq2 u2 tw2 body2 tail w2 \<and>
          (gomap_get (req_Header rq2) ''Expect'' = None \<longrightarrow>
             serve_turn ul U timeout raw bw maxHeader handler date2 ahead2 spent2 c1 = reply_turn ul date2 bw handler c1 w2) \<and>
          (\<forall>c2. serve_turn ul U timeout raw bw maxHeader handler date2 ahead2 spent2 c1 = Next c2 \<longrightarrow>
             br_rest (cn_in c2) = tail)))"
proof -
  obtain w1 where w1: "readRequest ul U maxHeader ahead1 spent1 c = Some (Inr w1)" "received rq1 u1 tw1 body1 (wire2 @ tail) w1"
    using written_read [OF assms(1,3,4,5)] by blast
  have "\<exists>w2. readRequest ul U maxHeader ahead2 spent2 c1 = Some (Inr w2) \<and> received rq2 u2 tw2 body2 tail w2 \<and>
          (gomap_get (req_Header rq2) ''Expect'' = None \<longrightarrow>
             serve_turn ul U timeout raw bw maxHeader handler date2 ahead2 spent2 c1 = reply_turn ul date2 bw handler c1 w2) \<and>
          (\<forall>c2. serve_turn ul U timeout raw bw maxHeader handler date2 ahead2 spent2 c1 = Next c2 \<longrightarrow>
             br_rest (cn_in c2) = tail)"
    if n: "serve_turn ul U timeout raw bw maxHeader handler date1 ahead1 spent1 c = Next c1" for c1
  proof -
    note rest = received_kept [OF n w1 assms(7)] and open1 = kept_open [OF n assms(4)]
    obtain w2 where w2: "readRequest ul U maxHeader ahead2 spent2 c1 = Some (Inr w2)" "received rq2 u2 tw2 body2 tail w2"
      using written_read [OF assms(2) rest open1 assms(6)] by blast
    show ?thesis using w2 received_handled [OF w2] received_kept [OF _ w2 assms(7)] by blast
  qed
  then show ?thesis using w1 received_handled [OF w1] by blast
qed

section \<open>Examples\<close>

definition demo_conn :: "string \<Rightarrow> string conn" where
  "demo_conn input =
     \<lparr>cn_in = \<lparr>br_segs = [input], br_end = io_EOF\<rparr>, cn_buf = [], cn_hijacked = False, cn_remoteAddr = ''1.2.3.4:5''\<rparr>"

lemma demo_conn_rest [simp]: "br_rest (cn_in (demo_conn s)) = s" "cn_hijacked (demo_conn s) = False"
  by (simp_all add: demo_conn_def br_rest_def)

text \<open>A request with the Connection field of a client that wants to close.\<close>

definition demo_closing :: string where
  "demo_closing = ''GET /main HTTP/1.1'' @ CRLF @ mime_line (''Connection'', ''close'') @ CRLF"

lemma demo_closing_read:
  "\<exists>r h. ReadRequest ul demo_urls (limited n (cn_in (demo_conn demo_closing))) =
     Some (Inr \<lparr>req_Method = ''GET'', req_URL = demo_address, req_Proto = ''HTTP/1.1'', req_ProtoMajor = 1, req_ProtoMinor = 1,
       req_Header = [(''Connection'', [''close''])], req_Body = Some (new_body (SrcLimit r 0) False False), req_ContentLength = 0,
       req_TransferEncoding = [], req_Close = False, req_Host = [], req_Trailer = None, req_RemoteAddr = [],
       req_RequestURI = ''/main''\<rparr>) \<and> br_rest r = []"
  if "length demo_closing \<le> n"
proof -
  let ?r = "limited n (cn_in (demo_conn demo_closing))" and ?line = "''GET /main HTTP/1.1''"
  have "br_rest ?r = demo_closing" using that by (simp add: limited_rest)
  then have "br_rest ?r = ?line @ CRLF @ concat (map mime_line [(''Connection'', ''close'')]) @ CRLF"
    by (simp add: demo_closing_def)
  moreover have "LF \<notin> set ?line" by (simp add: LF_def)
  ultimately obtain r1 where r1: "tp_ReadLine ?r = (r1, Inr ?line)"
      "br_rest r1 = concat (map mime_line [(''Connection'', ''close'')]) @ CRLF @ []"
    using tp_ReadLine_line [of ?r ?line "concat (map mime_line [(''Connection'', ''close'')]) @ CRLF"] by auto
  have k: "clean_key ''Connection''" by code_simp
  have "list_all (\<lambda>kv. clean_key (fst kv) \<and> clean_value (snd kv)) [(''Connection'', ''close'')]"
    using k by (simp add: clean_value_def is_blank_def CR_def LF_def)
  from read_mime_lines [OF r1(2) this, of "[]"] obtain r2 where r2:
    "ReadMIMEHeader r1 = (r2, [(''Connection'', [''close''])], None)" "br_rest r2 = []"
    by (auto simp: ReadMIMEHeader_def header_append_def)
  have p: "parse_request_line demo_urls ?line = Inr (''GET'', ''/main'', ''HTTP/1.1'', 1, 1, demo_address)"
    using version_1_1 by (simp add: parse_request_line_def demo_urls_def demo_address_def numeral_3_eq_3 Let_def)
  let ?h = "[(''Connection'', [''close''])] :: header"
  have blank: "TrimSpace [] = []" by code_simp
  have "fixTransferEncoding ul ''GET'' ?h = Some (?h, Inr [])" by (simp add: fixTransferEncoding_def)
  moreover have "fixLength ul False 200 ''GET'' ?h [] = (?h, Inr 0)"
    by (simp add: fixLength_def noBodyExpected_def chunked_def Get_def Del_def canonical_fields blank Let_def)
  moreover have "fixTrailer ?h [] = (?h, Inr None)" by (simp add: fixTrailer_def Get_def canonical_fields)
  moreover have "fixPragmaCacheControl (Del ?h ''Host'') = ?h" "Get ?h ''Host'' = []"
    by (simp_all add: fixPragmaCacheControl_def Del_def Get_def canonical_fields)
  ultimately show ?thesis
    using r1(1) r2 p
    by (intro exI [of _ r2])
      (simp add: ReadRequest_def readTransfer_def choose_body_def chunked_def demo_address_def)
qed

lemma demo_closing_served:
  assumes "length demo_closing \<le> ahead + nat (maxHeaderBytes maxHeader) + 4096"
  shows "\<exists>w r. readRequest ul demo_urls maxHeader ahead spent (demo_conn demo_closing) = Some (Inr w) \<and>
    rs_reqBody w = PlainBody (new_body (SrcLimit r (int 0)) False False) \<and>
    ProtoAtLeast (rs_req w) 1 1 \<and> req_ContentLength (rs_req w) = 0 \<and>
    Get (req_Header (rs_req w)) ''Expect'' = [] \<and> Get (req_Header (rs_req w)) ''Connection'' = ''close'' \<and>
    br_rest r = []"
proof -
  have "CanonicalHeaderKey ''Expect'' = ''Expect''" "CanonicalHeaderKey ''Connection'' = ''Connection''" by code_simp+
  moreover have "drop (ahead + nat (maxHeaderBytes maxHeader) + 4096) demo_closing = []" using assms by simp
  ultimately show ?thesis using demo_closing_read [OF assms, of ul]
    by (auto simp: readRequest_def new_response_def request_head_def body_unlimited_def new_body_def Get_def
        ProtoAtLeast_def unlimited_rest Let_def)
qed

lemma demo_closing_short: "length demo_closing \<le> 0 + nat (maxHeaderBytes 0) + 4096"
  by (simp add: demo_closing_def mime_line_def CRLF_bytes)

theorem close_not_heard_witness:
  "\<exists>w c'. readRequest (\<lambda>s. s) demo_urls 0 0 False (demo_conn demo_closing) = Some (Inr w) \<and>
    Get (req_Header (rs_req w)) ''Connection'' = ''close'' \<and> \<not> req_Close (rs_req w) \<and>
    serve_turn (\<lambda>s. s) demo_urls (\<lambda>e. False) (@) mem 0 (\<lambda>w. Done w ()) ''now'' 0 False (demo_conn demo_closing) = Next c'"
proof -
  obtain w where w: "readRequest (\<lambda>s. s) demo_urls 0 0 False (demo_conn demo_closing) = Some (Inr w)"
      "ProtoAtLeast (rs_req w) 1 1" "req_ContentLength (rs_req w) = 0" "Get (req_Header (rs_req w)) ''Expect'' = []"
      "Get (req_Header (rs_req w)) ''Connection'' = ''close''"
    using demo_closing_served [OF demo_closing_short] by blast
  from close_not_heard [OF w(1), of "\<lambda>e. False" "(@)" mem "''now''"] w show ?thesis by blast
qed


text \<open>Two requests of which the second has another method.\<close>

definition demo_head :: "user_body Request" where
  "demo_head = demo_get\<lparr>req_Method := ''HEAD''\<rparr>"

lemma demo_written:
  assumes "rq = demo_get \<or> rq = demo_head"
  shows "\<exists>tw wire. written demo_urls rq demo_address tw [] wire \<and> tw_ContentLength tw = 0"
proof -
  have d: "sendable demo_urls demo_head demo_address"
    using demo_get_sendable
    by (simp add: sendable_def demo_head_def demo_urls_def write_uri_def write_host_def demo_get_def valueOrDefault_def
        ProtoAtLeast_def LF_def Let_def)
  have "\<exists>wire. req_Write demo_urls buffer_write (\<lambda>s. (s, None)) demo_head [] = Some (wire, None)"
    by (simp add: req_Write_def req_write_def demo_head_def demo_get_def newTransferWriter_def request_writer_def sanitize_def
        ProtoAtLeast_def chunked_def tw_WriteHeader_def shouldSendContentLength_def isIdentity_def WriteSubset_def
        tw_WriteBody_def Let_def)
  with d demo_get_written demo_get_sendable assms obtain wire where
    w: "sendable demo_urls rq demo_address" "req_Write demo_urls buffer_write (\<lambda>s. (s, None)) rq [] = Some (wire, None)"
    by blast
  have "\<exists>tw. newTransferWriter (MRequest demo_get) = Inr tw \<and> tw_Body tw = None \<and> tw_ContentLength tw = 0"
    by (simp add: newTransferWriter_def request_writer_def sanitize_def demo_get_def ProtoAtLeast_def chunked_def)
  moreover have "\<exists>tw. newTransferWriter (MRequest demo_head) = Inr tw \<and> tw_Body tw = None \<and> tw_ContentLength tw = 0"
    by (simp add: newTransferWriter_def request_writer_def sanitize_def demo_head_def demo_get_def ProtoAtLeast_def chunked_def)
  ultimately obtain tw where "newTransferWriter (MRequest rq) = Inr tw" "tw_Body tw = None" "tw_ContentLength tw = 0"
    using assms by blast
  with w show ?thesis by (intro exI [of _ tw] exI [of _ wire]) (simp add: written_def)
qed

theorem pipelined_requests_witness:
  "\<exists>wire1 wire2 c1 w2 c2. req_Write demo_urls buffer_write (\<lambda>s. (s, None)) demo_get [] = Some (wire1, None) \<and>
    req_Write demo_urls buffer_write (\<lambda>s. (s, None)) demo_head [] = Some (wire2, None) \<and>
    serve_turn (\<lambda>s. s) demo_urls (\<lambda>e. False) (@) mem 0 (\<lambda>w. Done w ()) ''now'' (length wire1) False
      (demo_conn (wire1 @ wire2 @ ''GET'')) = Next c1 \<and>
    readRequest (\<lambda>s. s) demo_urls 0 (length wire2) False c1 = Some (Inr w2) \<and>
    req_Method (rs_req w2) = ''HEAD'' \<and> gomap_get (req_Header (rs_req w2)) ''Accept'' = Some [''a'', ''b''] \<and>
    serve_turn (\<lambda>s. s) demo_urls (\<lambda>e. False) (@) mem 0 (\<lambda>w. Done w ()) ''then'' (length wire2) False c1 = Next c2 \<and>
    br_rest (cn_in c2) = ''GET''"
proof -
  let ?h = "\<lambda>w :: string response. Done w ()"
  obtain tw1 wire1 where g: "written demo_urls demo_get demo_address tw1 [] wire1" "tw_ContentLength tw1 = 0"
    using demo_written [OF disjI1 [OF refl]] by blast
  obtain tw2 wire2 where h: "written demo_urls demo_head demo_address tw2 [] wire2" "tw_ContentLength tw2 = 0"
    using demo_written [OF disjI2 [OF refl]] by blast
  let ?c = "demo_conn (wire1 @ wire2 @ ''GET'')"
  have r: "respects_body ?h" by (simp add: respects_body_def)
  have x: "\<not> reqWriteExcludeHeader ''Expect''" "CanonicalHeaderKey ''Expect'' = ''Expect''" by code_simp+
  have idle: "\<exists>c'. serve_turn (\<lambda>s. s) demo_urls (\<lambda>e. False) (@) mem 0 ?h date ahead False c = Next c'"
    if "readRequest (\<lambda>s. s) demo_urls 0 ahead False c = Some (Inr w)" "received rq u tw body t w" "tw_ContentLength tw = 0"
      "gomap_get (req_Header rq) ''Expect'' = None" for c w rq u tw body t ahead date
    using idle_turn_next [OF that(1)] that(2-4) x by (simp add: received_def Get_def)
  have e: "gomap_get (req_Header demo_get) ''Expect'' = None" "gomap_get (req_Header demo_head) ''Expect'' = None"
    by (simp_all add: demo_head_def demo_get_def)
  have "br_rest (cn_in ?c) = wire1 @ wire2 @ ''GET''" "\<not> cn_hijacked ?c" by simp_all
  moreover have "length wire1 \<le> length wire1 + nat (maxHeaderBytes 0) + 4096" "length wire2 \<le> length wire2 + nat (maxHeaderBytes 0) + 4096"
    by simp_all
  ultimately have p: "\<exists>w1. readRequest (\<lambda>s. s) demo_urls 0 (length wire1) False ?c = Some (Inr w1) \<and>
    received demo_get demo_address tw1 [] (wire2 @ ''GET'') w1 \<and>
    (\<forall>c1. serve_turn (\<lambda>s. s) demo_urls (\<lambda>e. False) (@) mem 0 ?h ''now'' (length wire1) False ?c = Next c1 \<longrightarrow>
       (\<exists>w2. readRequest (\<lambda>s. s) demo_urls 0 (length wire2) False c1 = Some (Inr w2) \<and>
          received demo_head demo_address tw2 [] ''GET'' w2 \<and>
          (\<forall>c2. serve_turn (\<lambda>s. s) demo_urls (\<lambda>e. False) (@) mem 0 ?h ''then'' (length wire2) False c1 = Next c2 \<longrightarrow>
             br_rest (cn_in c2) = ''GET'')))"
    using pipelined_requests [OF g(1) h(1) _ _ _ _ r, of ?c "''GET''" "length wire1" 0 "length wire2" "\<lambda>s. s" False "\<lambda>e. False" "(@)" mem
      "''now''" False "''then''"] by blast
  obtain w1 where w1: "readRequest (\<lambda>s. s) demo_urls 0 (length wire1) False ?c = Some (Inr w1)"
      "received demo_get demo_address tw1 [] (wire2 @ ''GET'') w1"
    and second: "\<And>c1. serve_turn (\<lambda>s. s) demo_urls (\<lambda>e. False) (@) mem 0 ?h ''now'' (length wire1) False ?c = Next c1 \<Longrightarrow>
       (\<exists>w2. readRequest (\<lambda>s. s) demo_urls 0 (length wire2) False c1 = Some (Inr w2) \<and>
          received demo_head demo_address tw2 [] ''GET'' w2 \<and>
          (\<forall>c2. serve_turn (\<lambda>s. s) demo_urls (\<lambda>e. False) (@) mem 0 ?h ''then'' (length wire2) False c1 = Next c2 \<longrightarrow>
             br_rest (cn_in c2) = ''GET''))"
    using p by blast
  obtain c1 where c1: "serve_turn (\<lambda>s. s) demo_urls (\<lambda>e. False) (@) mem 0 ?h ''now'' (length wire1) False ?c = Next c1"
    using idle [OF w1 g(2) e(1)] by blast
  obtain w2 where w2: "readRequest (\<lambda>s. s) demo_urls 0 (length wire2) False c1 = Some (Inr w2)"
      "received demo_head demo_address tw2 [] ''GET'' w2"
      "\<And>c2. serve_turn (\<lambda>s. s) demo_urls (\<lambda>e. False) (@) mem 0 ?h ''then'' (length wire2) False c1 = Next c2 \<Longrightarrow>
             br_rest (cn_in c2) = ''GET''"
    using second [OF c1] by blast
  obtain c2 where c2: "serve_turn (\<lambda>s. s) demo_urls (\<lambda>e. False) (@) mem 0 ?h ''then'' (length wire2) False c1 = Next c2"
    using idle [OF w2(1,2) h(2) e(2)] by blast
  have "req_Method (rs_req w2) = ''HEAD''" "gomap_get (req_Header (rs_req w2)) ''Accept'' = Some [''a'', ''b'']"
    using w2(2) by (auto simp: received_def demo_head_def demo_get_def valueOrDefault_def reqWriteExcludeHeader_def)
  with g(1) h(1) c1 w2(1) c2 w2(3) [OF c2] show ?thesis unfolding written_def by blast
qed

end
