(* ===== verification/Forms.thy ===== *)
theory Forms
  imports Request
begin

text \<open>
  Forms, of \<open>http/request.go\<close>: \<open>ParseForm\<close>, \<open>ParseMultipartForm\<close>, \<open>FormValue\<close>, \<open>FormFile\<close> and
  \<open>MultipartReader\<close>. The form fields of a request are the record \<open>forms\<close>. The body is what reading it
  gives: data, then an error unless it ends; \<open>fb_limited\<close> tells if it is a \<open>maxBytesReader\<close>. Package \<open>mime\<close>
  and the multipart reader are arguments, as is the error that \<open>url.ParseQuery\<close> gives for a bad pair; the
  URL of the request is not nil.
\<close>

section \<open>Values\<close>

type_synonym Values = "(string, string list) gomap"

definition values_get :: "Values \<Rightarrow> string \<Rightarrow> string list" where
  "values_get m k = (case gomap_get m k of None \<Rightarrow> [] | Some vs \<Rightarrow> vs)"

definition values_Add :: "Values \<Rightarrow> string \<Rightarrow> string \<Rightarrow> Values" where
  "values_Add m k v = gomap_set k (values_get m k @ [v]) m"

definition to_values :: "(string \<times> string) list \<Rightarrow> Values" where
  "to_values kvs = fold (\<lambda>(k, v) m. values_Add m k v) kvs []"

text \<open>\<open>url.ParseQuery\<close>: the good pairs, and the error if there was a bad one.\<close>

definition url_ParseQuery :: "error \<Rightarrow> string \<Rightarrow> Values \<times> error option" where
  "url_ParseQuery bad q =
     (to_values (ParseQuery q),
      if list_ex (\<lambda>kv. kv \<noteq> [] \<and> query_pair kv = None) (Split (CHR ''&'') q) then Some bad else None)"

section \<open>Requests with forms\<close>

text \<open>The sentinel \<open>multipartByReader\<close> is a form of its own.\<close>

datatype 'f MultipartForm = multipartByReader | ParsedForm Values "(string, 'f list) gomap"

record 'f forms =
  fm_Form :: "Values option"
  fm_Multipart :: "'f MultipartForm option"

record form_body =
  fb_limited :: bool
  fb_data :: string
  fb_error :: "error option"

record 'f form_lib =
  fl_ParseMediaType :: "string \<Rightarrow> string \<times> (string, string) gomap \<times> error option"
  fl_ReadForm :: "string \<Rightarrow> int \<Rightarrow> form_body \<Rightarrow> error + Values \<times> (string, 'f list) gomap"
  fl_bad_query :: error

definition ErrNotMultipart :: error where
  "ErrNotMultipart = ''request Content-Type isn'' @ [CHR 0x27] @ ''t multipart/form-data''"
definition ErrMissingBoundary :: error where
  "ErrMissingBoundary = ''no multipart boundary param Content-Type''"
definition ErrMissingFile :: error where
  "ErrMissingFile = ''http: no such file''"

definition maxFormSize :: nat where
  "maxFormSize = 10 * 1024 * 1024"

text \<open>Reading the body: through a limit, which hides an error behind it, unless it is limited already.\<close>

definition read_body :: "form_body \<Rightarrow> string \<times> error option" where
  "read_body b =
     (if fb_limited b then (fb_data b, fb_error b)
      else (take (Suc maxFormSize) (fb_data b),
            if length (fb_data b) \<le> maxFormSize then fb_error b else None))"

text \<open>Copying the values of the body into the form, in the order the runtime visits them.\<close>

definition add_all :: "Values \<Rightarrow> Values \<Rightarrow> Values" where
  "add_all new form = fold (\<lambda>(k, vs) m. fold (\<lambda>v m. values_Add m k v) vs m) new form"

text \<open>The form in the body of a POST or PUT; \<open>form\<close> is the form of the query.\<close>

definition ParseBody ::
  "'f form_lib \<Rightarrow> (Values \<Rightarrow> Values) \<Rightarrow> 'b Request \<Rightarrow> form_body \<Rightarrow> Values \<Rightarrow> Values \<times> error option" where
  "ParseBody L order r b form =
     (case fl_ParseMediaType L (Get (req_Header r) ''Content-Type'') of
        (ct, _, err) \<Rightarrow>
          if ct = ''application/x-www-form-urlencoded'' then
            (case read_body b of
               (d, Some e) \<Rightarrow> (form, case err of None \<Rightarrow> Some e | Some x \<Rightarrow> Some x)
             | (d, None) \<Rightarrow>
                 if \<not> fb_limited b \<and> maxFormSize < length d then (form, Some ''http: POST too large'')
                 else (case url_ParseQuery (fl_bad_query L) d of
                         (new, e) \<Rightarrow> (add_all (order new) form, case err of None \<Rightarrow> e | Some x \<Rightarrow> Some x)))
          else (form, err))"

definition ParseForm ::
  "'f form_lib \<Rightarrow> (Values \<Rightarrow> Values) \<Rightarrow> 'b Request \<Rightarrow> form_body option \<Rightarrow> 'f forms \<Rightarrow> 'f forms \<times> error option" where
  "ParseForm L order r body s =
     (if fm_Form s \<noteq> None then (s, None)
      else (case url_ParseQuery (fl_bad_query L) (url_RawQuery (req_URL r)) of
              (form, err) \<Rightarrow>
                if req_Method r = ''POST'' \<or> req_Method r = ''PUT'' then
                  (case body of
                     None \<Rightarrow> (s\<lparr>fm_Form := Some form\<rparr>, Some ''missing form body'')
                   | Some b \<Rightarrow>
                       (case ParseBody L order r b form of (form', err') \<Rightarrow> (s\<lparr>fm_Form := Some form'\<rparr>, err')))
                else (s\<lparr>fm_Form := Some form\<rparr>, err)))"

text \<open>The boundary of a multipart body.\<close>

definition multipartReader :: "'f form_lib \<Rightarrow> 'b Request \<Rightarrow> error + string" where
  "multipartReader L r =
     (let v = Get (req_Header r) ''Content-Type''
      in if v = [] then Inl ErrNotMultipart
         else (case fl_ParseMediaType L v of
                 (d, params, err) \<Rightarrow>
                   if err \<noteq> None \<or> d \<noteq> ''multipart/form-data'' then Inl ErrNotMultipart
                   else (case gomap_get params ''boundary'' of
                           None \<Rightarrow> Inl ErrMissingBoundary
                         | Some boundary \<Rightarrow> Inr boundary)))"

definition MultipartReader :: "'f form_lib \<Rightarrow> 'b Request \<Rightarrow> 'f forms \<Rightarrow> 'f forms \<times> (error + string)" where
  "MultipartReader L r s =
     (case fm_Multipart s of
        Some multipartByReader \<Rightarrow> (s, Inl ''http: MultipartReader called twice'')
      | Some (ParsedForm _ _) \<Rightarrow> (s, Inl ''http: multipart handled by ParseMultipartForm'')
      | None \<Rightarrow> (s\<lparr>fm_Multipart := Some multipartByReader\<rparr>, multipartReader L r))"

definition append_values :: "Values \<Rightarrow> Values \<Rightarrow> Values" where
  "append_values new form = fold (\<lambda>(k, vs) m. gomap_set k (values_get m k @ vs) m) new form"

text \<open>Without a body the multipart reader reads from nil, which is a panic.\<close>

definition ParseMultipartForm ::
  "'f form_lib \<Rightarrow> (Values \<Rightarrow> Values) \<Rightarrow> 'b Request \<Rightarrow> form_body option \<Rightarrow> int \<Rightarrow> 'f forms \<Rightarrow> ('f forms, error option) outcome" where
  "ParseMultipartForm L order r body maxMemory s =
     (if fm_Multipart s = Some multipartByReader then Done s (Some ''http: multipart handled by MultipartReader'')
      else (case (if fm_Form s = None then ParseForm L order r body s else (s, None)) of
              (s1, Some err) \<Rightarrow> Done s1 (Some err)
            | (s1, None) \<Rightarrow>
                if fm_Multipart s1 \<noteq> None then Done s1 None
                else (case multipartReader L r of
                        Inl e \<Rightarrow> Done s1 (if e = ErrNotMultipart then None else Some e)
                      | Inr boundary \<Rightarrow>
                          (case body of
                             None \<Rightarrow> Panic s1 ''nil pointer dereference''
                           | Some b \<Rightarrow>
                               (case fl_ReadForm L boundary maxMemory b of
                                  Inl e \<Rightarrow> Done s1 (Some e)
                                | Inr (vals, files) \<Rightarrow>
                                    Done (s1\<lparr>fm_Form := map_option (append_values (order vals)) (fm_Form s1),
                                             fm_Multipart := Some (ParsedForm vals files)\<rparr>) None)))))"

definition defaultMaxMemory :: int where
  "defaultMaxMemory = 32 * 2 ^ 20"

text \<open>The error of parsing is dropped.\<close>

definition FormValue ::
  "'f form_lib \<Rightarrow> (Values \<Rightarrow> Values) \<Rightarrow> 'b Request \<Rightarrow> form_body option \<Rightarrow> string \<Rightarrow> 'f forms \<Rightarrow> ('f forms, string) outcome" where
  "FormValue L order r body key s =
     obind (if fm_Form s = None then ParseMultipartForm L order r body defaultMaxMemory s else Done s None) (\<lambda>s1 _.
       Done s1 (case fm_Form s1 of
                  None \<Rightarrow> []
                | Some form \<Rightarrow> (case values_get form key of [] \<Rightarrow> [] | v # _ \<Rightarrow> v)))"

text \<open>\<open>fopen\<close> opens a file of the form.\<close>

definition FormFile ::
  "'f form_lib \<Rightarrow> (Values \<Rightarrow> Values) \<Rightarrow> ('f \<Rightarrow> error + 'h) \<Rightarrow> 'b Request \<Rightarrow> form_body option \<Rightarrow> string \<Rightarrow> 'f forms \<Rightarrow>
   ('f forms, error + 'h \<times> 'f) outcome" where
  "FormFile L order fopen r body key s =
     (if fm_Multipart s = Some multipartByReader then Done s (Inl ''http: multipart handled by MultipartReader'')
      else obind (if fm_Multipart s = None then ParseMultipartForm L order r body defaultMaxMemory s else Done s None)
        (\<lambda>s1 err. Done s1
           (case err of
              Some e \<Rightarrow> Inl e
            | None \<Rightarrow>
                (case fm_Multipart s1 of
                   Some (ParsedForm vals files) \<Rightarrow>
                     (case gomap_get files key of
                        Some (f # _) \<Rightarrow> (case fopen f of Inl e \<Rightarrow> Inl e | Inr h \<Rightarrow> Inr (h, f))
                      | _ \<Rightarrow> Inl ErrMissingFile)
                 | _ \<Rightarrow> Inl ErrMissingFile))))"

section \<open>The values of a form\<close>

definition values_of_key :: "string \<Rightarrow> (string \<times> string) list \<Rightarrow> string list" where
  "values_of_key k kvs = map snd (filter (\<lambda>kv. fst kv = k) kvs)"

lemma values_get_Add: "values_get (values_Add m k v) k' = values_get m k' @ (if k' = k then [v] else [])"
  by (simp add: values_get_def values_Add_def gomap_simps)

lemma values_get_to_values: "values_get (to_values kvs) k = values_of_key k kvs"
proof -
  have "values_get (fold (\<lambda>(k, v) m. values_Add m k v) kvs m) k = values_get m k @ values_of_key k kvs" for m
    by (induction kvs arbitrary: m) (auto simp: values_get_Add values_of_key_def)
  then show ?thesis by (simp add: to_values_def) (simp add: values_get_def)
qed

lemma to_values_wf: "gomap_wf (to_values kvs)"
proof -
  have "gomap_wf m \<Longrightarrow> gomap_wf (fold (\<lambda>(k, v) m. values_Add m k v) kvs m)" for m
    by (induction kvs arbitrary: m) (auto simp: values_Add_def)
  then show ?thesis by (simp add: to_values_def gomap_wf_def)
qed

lemma values_get_adds: "values_get (fold (\<lambda>v m. values_Add m k v) vs m) k' = values_get m k' @ (if k' = k then vs else [])"
  by (induction vs arbitrary: m) (auto simp: values_get_Add)

lemma values_get_add_all:
  assumes "gomap_wf new"
  shows "values_get (add_all new form) k = values_get form k @ values_get new k"
  using assms
proof (induction new arbitrary: form)
  case Nil
  then show ?case by (simp add: add_all_def values_get_def)
next
  case (Cons e new)
  obtain k1 vs where e: "e = (k1, vs)" by (cases e)
  from Cons.prems have w: "gomap_wf new" "gomap_get new k1 = None" by (simp_all add: e gomap_wf_def map_of_eq_None_iff)
  have "values_get (add_all new f) k = values_get f k @ values_get new k" for f using Cons.IH [OF w(1)] .
  then show ?case using w(2) by (auto simp: add_all_def e values_get_adds) (auto simp: values_get_def)
qed

lemma values_get_order: "gomap_wf m \<Longrightarrow> mset m' = mset m \<Longrightarrow> gomap_wf m' \<and> values_get m' k = values_get m k"
proof -
  assume a: "gomap_wf m" "mset m' = mset m"
  then have w: "gomap_wf m'" unfolding gomap_wf_def by (metis mset_map mset_eq_imp_distinct_iff)
  have "set m' = set m" using a(2) by (rule mset_eq_setD)
  then have "gomap_get m' k = gomap_get m k" using w a(1)
    unfolding gomap_wf_def by (metis map_of_eqI weak_map_of_SomeI map_of_inject_set)
  with w show ?thesis by (simp add: values_get_def)
qed

text \<open>
  The form of a POST has for each key the values of the query and then those of the body, in their
  order, whatever the order in which the runtime visits the values of the body; a second call changes
  nothing. A body of more than 10 MB is refused unless it was limited before, and malformed pairs of
  the query go unreported: the error is that of the body alone.
\<close>

theorem post_form_values:
  assumes "req_Method r = ''POST''" and "fm_Form s = None" and "\<And>m. mset (order m) = mset m"
    and "fl_ParseMediaType L (Get (req_Header r) ''Content-Type'') = (''application/x-www-form-urlencoded'', ps, None)"
    and "fb_error b = None"
  shows "let big = (\<not> fb_limited b \<and> maxFormSize < length (fb_data b));
      r1 = ParseForm L order r (Some b) s; q = ParseQuery (url_RawQuery (req_URL r))
    in (\<exists>form. fm_Form (fst r1) = Some form \<and>
         (\<forall>k. values_get form k = values_of_key k q @ (if big then [] else values_of_key k (ParseQuery (fb_data b))))) \<and>
       snd r1 = (if big then Some ''http: POST too large'' else snd (url_ParseQuery (fl_bad_query L) (fb_data b))) \<and>
       ParseForm L order r (Some b) (fst r1) = (fst r1, None)"
proof -
  let ?big = "\<not> fb_limited b \<and> maxFormSize < length (fb_data b)"
  obtain form err where q: "url_ParseQuery (fl_bad_query L) (url_RawQuery (req_URL r)) = (form, err)" by (rule prod.exhaust)
  have form: "values_get form k = values_of_key k (ParseQuery (url_RawQuery (req_URL r)))" for k
    using q by (auto simp: url_ParseQuery_def values_get_to_values)
  have rd: "read_body b = ((if ?big then take (Suc maxFormSize) (fb_data b) else fb_data b), None)"
    using assms(5) by (auto simp: read_body_def)
  let ?d = "fb_data b"
  obtain new e where n: "url_ParseQuery (fl_bad_query L) ?d = (new, e)" by (rule prod.exhaust)
  have "gomap_wf new \<and> (\<forall>k. values_get new k = values_of_key k (ParseQuery ?d))"
    using n by (auto simp: url_ParseQuery_def values_get_to_values to_values_wf)
  then have added: "values_get (add_all (order new) form) k = values_get form k @ values_of_key k (ParseQuery ?d)" for k
    using values_get_order [of new "order new" k] assms(3) [of new] by (simp add: values_get_add_all)
  have "ParseBody L order r b form =
      (if ?big then (form, Some ''http: POST too large'') else (add_all (order new) form, e))"
    using assms(4) rd n by (auto simp: ParseBody_def)
  then show ?thesis
    using assms(1,2) q n form added by (auto simp: ParseForm_def Let_def)
qed

definition demo_form_request :: "unit Request" where
  "demo_form_request =
     \<lparr>req_Method = ''POST'',
      req_URL = \<lparr>url_Scheme = [], url_Opaque = [], url_Host = [], url_Path = ''/'', url_RawQuery = ''a=1&%&b=2''\<rparr>,
      req_Proto = ''HTTP/1.1'', req_ProtoMajor = 1, req_ProtoMinor = 1, req_Header = [], req_Body = None,
      req_ContentLength = -1, req_TransferEncoding = [], req_Close = False, req_Host = [], req_Trailer = None,
      req_RemoteAddr = [], req_RequestURI = ''/''\<rparr>"

definition demo_form_lib :: "unit form_lib" where
  "demo_form_lib =
     \<lparr>fl_ParseMediaType = \<lambda>v. (''application/x-www-form-urlencoded'', [], None), fl_ReadForm = \<lambda>b m body. Inl ''no'',
      fl_bad_query = ''bad''\<rparr>"

theorem post_form_values_witness:
  "\<exists>s form. ParseForm demo_form_lib rev demo_form_request (Some \<lparr>fb_limited = False, fb_data = ''a=3'', fb_error = None\<rparr>)
      \<lparr>fm_Form = None, fm_Multipart = None\<rparr> = (s, None) \<and> fm_Form s = Some form \<and>
    values_get form ''a'' = [''1'', ''3''] \<and> values_get form ''b'' = [''2'']"
proof -
  let ?b = "\<lparr>fb_limited = False, fb_data = ''a=3'', fb_error = None\<rparr>" and ?s = "\<lparr>fm_Form = None, fm_Multipart = None\<rparr> :: unit forms"
  have q: "ParseQuery (url_RawQuery (req_URL demo_form_request)) = [(''a'', ''1''), (''b'', ''2'')]"
    "ParseQuery ''a=3'' = [(''a'', ''3'')]" "snd (url_ParseQuery (fl_bad_query demo_form_lib) ''a=3'') = None"
    by code_simp+
  have f: "req_Method demo_form_request = ''POST''" by (simp add: demo_form_request_def)
  obtain s e where r: "ParseForm demo_form_lib rev demo_form_request (Some ?b) ?s = (s, e)" by (rule prod.exhaust)
  have big: "\<not> maxFormSize < length ''a=3''" by (simp add: maxFormSize_def)
  from post_form_values [of demo_form_request ?s rev demo_form_lib "[]" ?b, OF f] r big q
  have "\<exists>form. fm_Form s = Some form \<and> (\<forall>k. values_get form k =
      values_of_key k [(''a'', ''1''), (''b'', ''2'')] @ values_of_key k [(''a'', ''3'')])" "e = None"
    by (auto simp: demo_form_lib_def Let_def)
  with r show ?thesis by (auto simp: values_of_key_def)
qed

end
