(* ===== verification/Browser.thy ===== *)
theory Browser
  imports HttpMsg
begin

text \<open>
  The HTTP client of \<open>http/client.go\<close>: \<open>Do\<close>, \<open>Get\<close>, \<open>Head\<close>, \<open>Post\<close>, \<open>PostForm\<close> and the loop that
  follows redirects. The transport and the cookie jar are arguments with a state \<open>'s\<close> of their own, the
  record \<open>http_Client\<close>; what is used of package \<open>net/url\<close> beyond \<open>url_lib\<close> is \<open>user_lib\<close>: \<open>String\<close> of a URL
  and of its user part. The headers and the URL of a request are not nil.
\<close>

section \<open>Sending\<close>

record user_lib =
  ul_String :: "URL \<Rightarrow> string"
  ul_User :: "URL \<Rightarrow> string option"
  ul_Base64URL :: "string \<Rightarrow> string"

text \<open>
  The transport gives a response or an error. \<open>cl_CheckRedirect\<close> and \<open>cl_Jar\<close> may be nil; a jar is a
  function for the cookies of a URL and one that stores cookies.
\<close>

record ('s, 'b, 't) http_Client =
  cl_RoundTrip :: "user_body Request \<Rightarrow> 's \<Rightarrow> 's \<times> (error + 'b Response)"
  cl_CloseBody :: "'b Response \<Rightarrow> 's \<Rightarrow> 's"
  cl_CheckRedirect :: "(user_body Request \<Rightarrow> user_body Request list \<Rightarrow> error option) option"
  cl_Jar :: "((URL \<Rightarrow> 's \<Rightarrow> 't Cookie list) \<times> (URL \<Rightarrow> 't Cookie list \<Rightarrow> 's \<Rightarrow> 's)) option"

definition hasPort :: "string \<Rightarrow> bool" where
  "hasPort s \<longleftrightarrow>
     (let colons = filter (\<lambda>i. s ! i = CHR '':'') [0 ..< length s]; brackets = filter (\<lambda>i. s ! i = CHR '']'') [0 ..< length s]
      in colons \<noteq> [] \<and> (brackets = [] \<or> last brackets < last colons))"

definition errRequestURI :: error where
  "errRequestURI = ''http: Request.RequestURI can'' @ [CHR 0x27] @ ''t be set in client requests.''"

text \<open>The user part of the URL becomes the \<open>Authorization\<close> header, in the caller's request.\<close>

definition with_user :: "user_lib \<Rightarrow> user_body Request \<Rightarrow> user_body Request" where
  "with_user V req =
     (case ul_User V (req_URL req) of
        None \<Rightarrow> req
      | Some u \<Rightarrow> req\<lparr>req_Header := Set (req_Header req) ''Authorization'' (''Basic '' @ ul_Base64URL V u)\<rparr>)"

definition send ::
  "user_lib \<Rightarrow> ('s, 'b, 't) http_Client \<Rightarrow> user_body Request \<Rightarrow> 's \<Rightarrow> 's \<times> (error + 'b Response)" where
  "send V c req s =
     (if req_RequestURI req \<noteq> [] then (s, Inl errRequestURI) else cl_RoundTrip c (with_user V req) s)"

definition shouldRedirect :: "int \<Rightarrow> bool" where
  "shouldRedirect statusCode \<longleftrightarrow>
     statusCode \<in> set [StatusMovedPermanently, StatusFound, StatusSeeOther, StatusTemporaryRedirect]"

definition defaultCheckRedirect :: "user_body Request \<Rightarrow> user_body Request list \<Rightarrow> error option" where
  "defaultCheckRedirect req via = (if 10 \<le> length via then Some ''stopped after 10 redirects'' else None)"

section \<open>Following redirects\<close>

text \<open>The error of a client: the operation, the URL and the error itself, or just an error.\<close>

datatype client_error = URLError string string error | PlainError error

text \<open>The request for a redirect; \<open>via\<close> holds the requests made, oldest first.\<close>

definition redirected_request ::
  "url_lib \<Rightarrow> user_lib \<Rightarrow> string \<Rightarrow> URL \<Rightarrow> string \<Rightarrow> user_body Request list \<Rightarrow> error + user_body Request" where
  "redirected_request U V meth base urlStr via =
     (case u_Resolve U base urlStr of
        Inl e \<Rightarrow> Inl e
      | Inr u \<Rightarrow>
          Inr \<lparr>req_Method = meth, req_URL = u, req_Proto = [], req_ProtoMajor = 0, req_ProtoMinor = 0,
            req_Header = (if via \<noteq> [] \<and> url_Scheme (req_URL (last via)) \<noteq> ''https''
                          then Set [] ''Referer'' (ul_String V (req_URL (last via))) else []),
            req_Body = None, req_ContentLength = 0, req_TransferEncoding = [], req_Close = False, req_Host = [],
            req_Trailer = None, req_RemoteAddr = [], req_RequestURI = []\<rparr>)"

definition jar_cookies :: "('s, 'b, 't) http_Client \<Rightarrow> URL \<Rightarrow> 's \<Rightarrow> 't Cookie list" where
  "jar_cookies c u s = (case cl_Jar c of None \<Rightarrow> [] | Some (load, store) \<Rightarrow> load u s)"

definition jar_store :: "('s, 'b, 't) http_Client \<Rightarrow> URL \<Rightarrow> 't Cookie list \<Rightarrow> 's \<Rightarrow> 's" where
  "jar_store c u cs s =
     (case cl_Jar c of None \<Rightarrow> s | Some (load, store) \<Rightarrow> if cs \<noteq> [] then store u cs s else s)"

text \<open>
  The end of the loop: closing the last response, if there is one, and the error. An empty method is the
  panic on its first byte.
\<close>

definition redirect_error ::
  "(string \<Rightarrow> string) \<Rightarrow> ('s, 'b, 't) http_Client \<Rightarrow> string \<Rightarrow> 'b Response option \<Rightarrow> string \<Rightarrow> error \<Rightarrow> 's \<Rightarrow>
   ('s, client_error + 'b Response) outcome" where
  "redirect_error ul c meth resp urlStr err s =
     (let s1 = (case resp of None \<Rightarrow> s | Some r \<Rightarrow> cl_CloseBody c r s)
      in if meth = [] then Panic s1 ''runtime error: slice bounds out of range''
         else Done s1 (Inl (URLError (take 1 meth @ ToLower ul (drop 1 meth)) urlStr err)))"

definition errMissingLocation :: "int \<Rightarrow> error" where
  "errMissingLocation code = Itoa code @ '' response missing Location header''"

text \<open>
  The loop from the request \<open>req\<close> on, after the requests \<open>via\<close>; \<open>Block\<close> is a loop that has not ended with
  the fuel. The result has the requests that were sent, too.
\<close>

fun redirect_loop ::
  "(string \<Rightarrow> string) \<Rightarrow> url_lib \<Rightarrow> user_lib \<Rightarrow> 't time_lib \<Rightarrow> ('s, 'b, 't) http_Client \<Rightarrow> string \<Rightarrow> nat \<Rightarrow>
   user_body Request \<Rightarrow> user_body Request list \<Rightarrow> 's \<Rightarrow> ('s, client_error + 'b Response) outcome \<times> user_body Request list" where
  "redirect_loop ul U V T c meth 0 req via s = (Block s, via)"
| "redirect_loop ul U V T c meth (Suc fuel) req via s =
     (let req1 = foldl req_AddCookie req (jar_cookies c (req_URL req) s);
          urlStr = ul_String V (req_URL req1)
      in case send V c req1 s of
           (s1, Inl e) \<Rightarrow> (redirect_error ul c meth None urlStr e s1, via @ [with_user V req1])
         | (s1, Inr resp) \<Rightarrow>
             (let s2 = jar_store c (req_URL req1) (resp_Cookies ul T resp) s1
              in if \<not> shouldRedirect (resp_StatusCode resp) then (Done s2 (Inr resp), via @ [with_user V req1])
                 else (let s3 = cl_CloseBody c resp s2; loc = Get (resp_Header resp) ''Location''; via1 = via @ [with_user V req1]
                       in if loc = [] then
                            (redirect_error ul c meth (Some resp) [] (errMissingLocation (resp_StatusCode resp)) s3, via1)
                          else (case redirected_request U V meth (req_URL req1) loc via1 of
                                  Inl e \<Rightarrow> (redirect_error ul c meth (Some resp) loc e s3, via1)
                                | Inr req2 \<Rightarrow>
                                    (case (case cl_CheckRedirect c of None \<Rightarrow> defaultCheckRedirect | Some f \<Rightarrow> f) req2 via1 of
                                       Some e \<Rightarrow> (redirect_error ul c meth (Some resp) loc e s3, via1)
                                     | None \<Rightarrow> redirect_loop ul U V T c meth fuel req2 via1 s3)))))"

definition doFollowingRedirects where
  "doFollowingRedirects ul U V T c fuel ireq s = redirect_loop ul U V T c (req_Method ireq) fuel ireq [] s"

definition Do where
  "Do ul U V T c fuel req s =
     (if req_Method req = ''GET'' \<or> req_Method req = ''HEAD'' then
        fst (doFollowingRedirects ul U V T c fuel req s)
      else (case send V c req s of
              (s1, Inl e) \<Rightarrow> Done s1 (Inl (PlainError e))
            | (s1, Inr resp) \<Rightarrow> Done s1 (Inr resp)))"

definition client_Get where
  "client_Get ul U V T c fuel url s =
     (case NewRequest U ''GET'' url None of
        Inl e \<Rightarrow> Done s (Inl (PlainError e))
      | Inr req \<Rightarrow> fst (doFollowingRedirects ul U V T c fuel req s))"

definition client_Head where
  "client_Head ul U V T c fuel url s =
     (case NewRequest U ''HEAD'' url None of
        Inl e \<Rightarrow> Done s (Inl (PlainError e))
      | Inr req \<Rightarrow> fst (doFollowingRedirects ul U V T c fuel req s))"

text \<open>\<open>Post\<close> stores the cookies of the response, also when there are none.\<close>

definition client_Post ::
  "(string \<Rightarrow> string) \<Rightarrow> url_lib \<Rightarrow> user_lib \<Rightarrow> 't time_lib \<Rightarrow> ('s, 'b, 't) http_Client \<Rightarrow> string \<Rightarrow> string \<Rightarrow>
   (bufreader \<times> error option \<times> nat option) option \<Rightarrow> 's \<Rightarrow> 's \<times> (error + 'b Response)" where
  "client_Post ul U V T c url bodyType bdy s =
     (case NewRequest U ''POST'' url bdy of
        Inl e \<Rightarrow> (s, Inl e)
      | Inr req \<Rightarrow>
          (let req1 = foldl req_AddCookie (req\<lparr>req_Header := Set (req_Header req) ''Content-Type'' bodyType\<rparr>)
                        (jar_cookies c (req_URL req) s)
           in case send V c req1 s of
                (s1, Inl e) \<Rightarrow> (s1, Inl e)
              | (s1, Inr resp) \<Rightarrow>
                  (case cl_Jar c of
                     None \<Rightarrow> s1
                   | Some (load, store) \<Rightarrow> store (req_URL req1) (resp_Cookies ul T resp) s1, Inr resp)))"

text \<open>The encoded values are a \<open>strings.Reader\<close>, whose length is known.\<close>

definition client_PostForm where
  "client_PostForm ul U V T c url encoded s =
     client_Post ul U V T c url ''application/x-www-form-urlencoded''
       (Some (\<lparr>br_segs = [encoded], br_end = io_EOF\<rparr>, None, Some (length encoded))) s"

section \<open>The loop ends\<close>

lemma redirect_error_ends [simp]:
  "redirect_error ul c meth resp u e s \<noteq> Block s'" "Block s' \<noteq> redirect_error ul c meth resp u e s"
  by (simp_all add: redirect_error_def Let_def)

text \<open>
  C27: With the default policy a request that is redirected again and again ends: ten turns of the loop are
  enough, so it never makes more than ten requests, which is at most nine redirects.
\<close>

theorem redirects_end:
  assumes "cl_CheckRedirect c = None" and "10 \<le> fuel"
  shows "length (snd (doFollowingRedirects ul U V T c fuel req s)) \<le> 10 \<and>
         fst (doFollowingRedirects ul U V T c fuel req s) \<noteq> Block s'"
proof -
  have "length sent \<le> 10 \<and> r \<noteq> Block s'"
    if "length via < 10" and "10 \<le> length via + fuel" and "redirect_loop ul U V T c meth fuel req via s = (r, sent)"
    for via req s r sent meth fuel
    using that
  proof (induction fuel arbitrary: req via s)
    case (Suc fuel)
    let ?req = "with_user V (foldl req_AddCookie req (jar_cookies c (req_URL req) s))"
    have later: "length sent \<le> 10 \<and> r \<noteq> Block s'"
      if "defaultCheckRedirect req2 (via @ [?req]) = None" "redirect_loop ul U V T c meth fuel req2 (via @ [?req]) s3 = (r, sent)"
      for req2 s3
      by (rule Suc.IH [OF _ _ that(2)]) (use that(1) Suc.prems(2) in \<open>auto simp: defaultCheckRedirect_def split: if_splits\<close>)
    show ?case using Suc.prems(1,3) assms(1) later
      by (auto simp: Let_def split: prod.splits sum.splits if_splits option.splits)
  qed simp
  from this [of "[]" fuel "req_Method req" req s] assms(2) show ?thesis
    by (auto simp: doFollowingRedirects_def prod_eq_iff)
qed

text \<open>A server that sends every request back to itself, and a count of the requests.\<close>

definition mirror_users :: user_lib where
  "mirror_users = \<lparr>ul_String = url_Path, ul_User = (\<lambda>u. None), ul_Base64URL = (\<lambda>s. s)\<rparr>"

definition mirror_urls :: url_lib where
  "mirror_urls = \<lparr>u_Parse = (\<lambda>s. Inl []), u_ParseRequestURI = (\<lambda>s. Inl []), u_RequestURI = url_Path,
     u_Resolve = (\<lambda>u s. Inr (u\<lparr>url_Path := s\<rparr>))\<rparr>"

definition mirror_client :: "(nat, bufreader, unit) http_Client" where
  "mirror_client =
     \<lparr>cl_RoundTrip = (\<lambda>req n. (Suc n, Inr \<lparr>resp_Status = [], resp_StatusCode = StatusFound, resp_Proto = [],
        resp_ProtoMajor = 1, resp_ProtoMinor = 1, resp_Header = [(''Location'', [''/''])], resp_Body = None,
        resp_ContentLength = 0, resp_TransferEncoding = [], resp_Close = False, resp_Trailer = None, resp_Method = None\<rparr>)),
      cl_CloseBody = (\<lambda>r n. n), cl_CheckRedirect = None, cl_Jar = None\<rparr>"

definition mirror_request :: "user_body Request" where
  "mirror_request =
     \<lparr>req_Method = ''GET'', req_URL = \<lparr>url_Scheme = ''https'', url_Opaque = [], url_Host = ''h'', url_Path = ''/'', url_RawQuery = []\<rparr>,
      req_Proto = [], req_ProtoMajor = 1, req_ProtoMinor = 1, req_Header = [], req_Body = None, req_ContentLength = 0,
      req_TransferEncoding = [], req_Close = False, req_Host = [], req_Trailer = None, req_RemoteAddr = [], req_RequestURI = []\<rparr>"

definition no_times :: "unit time_lib" where
  "no_times = \<lparr>t_Parse = (\<lambda>l s. None), t_Format1123 = (\<lambda>t. []), t_UTC = (\<lambda>t. t), t_Unix = (\<lambda>t. 0), t_zero = ()\<rparr>"

lemma mirror_result:
  "fst (doFollowingRedirects (\<lambda>s. s) mirror_urls mirror_users no_times mirror_client 10 mirror_request 0) =
     Done 10 (Inl (URLError ''Get'' ''/'' ''stopped after 10 redirects''))"
  "length (snd (doFollowingRedirects (\<lambda>s. s) mirror_urls mirror_users no_times mirror_client 10 mirror_request 0)) = 10"
  by code_simp+

theorem redirects_end_witness:
  "length (snd (doFollowingRedirects (\<lambda>s. s) mirror_urls mirror_users no_times mirror_client 10 mirror_request 0)) = 10 \<and>
   fst (doFollowingRedirects (\<lambda>s. s) mirror_urls mirror_users no_times mirror_client 10 mirror_request 0) =
     Done 10 (Inl (URLError ''Get'' ''/'' ''stopped after 10 redirects'')) \<and>
   (\<forall>s'. fst (doFollowingRedirects (\<lambda>s. s) mirror_urls mirror_users no_times mirror_client 10 mirror_request 0) \<noteq> Block s')"
proof -
  have "cl_CheckRedirect mirror_client = None" by (simp add: mirror_client_def)
  from redirects_end [OF this order_refl, of "\<lambda>s. s" mirror_urls mirror_users no_times mirror_request 0] mirror_result
  show ?thesis by blast
qed

end
