(* ===== verification/Fcgi.thy ===== *)
theory Fcgi
  imports Bufio "HOL-Library.Word"
begin

text \<open>
  The FastCGI protocol of \<open>http/fcgi/fcgi.go\<close>: records, sizes, name-value pairs and the streams that are
  cut into records. Fields have the width they have in the code. The connection is written by a function
  \<open>wr\<close>, which one call of \<open>writeRecord\<close> uses once, under the mutex of the connection, so writing a record is one
  step; it is read through a \<open>bufreader\<close>.
\<close>

unbundle bit_operations_syntax

section \<open>Bytes and words\<close>

definition put8 :: "8 word \<Rightarrow> char" where
  "put8 w = char_of (unat w)"

definition Uint8 :: "char \<Rightarrow> 8 word" where
  "Uint8 c = word_of_nat (byte c)"

text \<open>\<open>binary.BigEndian\<close>.\<close>

definition PutUint16 :: "16 word \<Rightarrow> string" where
  "PutUint16 w = [char_of (unat w div 256), char_of (unat w mod 256)]"

definition Uint16 :: "string \<Rightarrow> 16 word" where
  "Uint16 b = word_of_nat (byte (b ! 0) * 256 + byte (b ! 1))"

definition PutUint32 :: "32 word \<Rightarrow> string" where
  "PutUint32 w =
     [char_of (unat w div 2 ^ 24), char_of (unat w div 2 ^ 16 mod 256), char_of (unat w div 2 ^ 8 mod 256),
      char_of (unat w mod 256)]"

definition Uint32 :: "string \<Rightarrow> 32 word" where
  "Uint32 b = word_of_nat (byte (b ! 0) * 2 ^ 24 + byte (b ! 1) * 2 ^ 16 + byte (b ! 2) * 2 ^ 8 + byte (b ! 3))"

section \<open>Records\<close>

type_synonym recType = "8 word"

definition typeBeginRequest :: recType where "typeBeginRequest = 1"
definition typeAbortRequest :: recType where "typeAbortRequest = 2"
definition typeEndRequest :: recType where "typeEndRequest = 3"
definition typeParams :: recType where "typeParams = 4"
definition typeStdin :: recType where "typeStdin = 5"
definition typeStdout :: recType where "typeStdout = 6"
definition typeStderr :: recType where "typeStderr = 7"
definition typeData :: recType where "typeData = 8"
definition typeGetValues :: recType where "typeGetValues = 9"
definition typeGetValuesResult :: recType where "typeGetValuesResult = 10"
definition typeUnknownType :: recType where "typeUnknownType = 11"

lemmas recType_defs = typeBeginRequest_def typeAbortRequest_def typeEndRequest_def typeParams_def typeStdin_def
  typeStdout_def typeStderr_def typeData_def typeGetValues_def typeGetValuesResult_def typeUnknownType_def

definition flagKeepConn :: "8 word" where "flagKeepConn = 1"
definition maxWrite :: nat where "maxWrite = 65535"
definition roleResponder :: "16 word" where "roleResponder = 1"
definition statusRequestComplete :: "8 word" where "statusRequestComplete = 0"
definition statusUnknownRole :: "8 word" where "statusUnknownRole = 3"
definition headerLen :: nat where "headerLen = 8"

record fc_header =
  fh_Version :: "8 word"
  fh_Type :: recType
  fh_Id :: "16 word"
  fh_ContentLength :: "16 word"
  fh_PaddingLength :: "8 word"
  fh_Reserved :: "8 word"

text \<open>The padding is the negated length modulo 8.\<close>

definition header_init :: "recType \<Rightarrow> 16 word \<Rightarrow> nat \<Rightarrow> fc_header" where
  "header_init rt reqId contentLength =
     \<lparr>fh_Version = 1, fh_Type = rt, fh_Id = reqId, fh_ContentLength = word_of_nat contentLength,
      fh_PaddingLength = word_of_int ((- int contentLength) AND 7), fh_Reserved = 0\<rparr>"

text \<open>\<open>binary.Write\<close> and \<open>binary.Read\<close> of a header.\<close>

definition header_bytes :: "fc_header \<Rightarrow> string" where
  "header_bytes h =
     [put8 (fh_Version h), put8 (fh_Type h)] @ PutUint16 (fh_Id h) @ PutUint16 (fh_ContentLength h) @
     [put8 (fh_PaddingLength h), put8 (fh_Reserved h)]"

definition header_of :: "string \<Rightarrow> fc_header" where
  "header_of b =
     \<lparr>fh_Version = Uint8 (b ! 0), fh_Type = Uint8 (b ! 1), fh_Id = Uint16 (drop 2 b),
      fh_ContentLength = Uint16 (drop 4 b), fh_PaddingLength = Uint8 (b ! 6), fh_Reserved = Uint8 (b ! 7)\<rparr>"

record fc_record =
  rc_h :: fc_header
  rc_buf :: string

definition record_content :: "fc_record \<Rightarrow> string" where
  "record_content r = take (unat (fh_ContentLength (rc_h r))) (rc_buf r)"

definition record_read :: "bufreader \<Rightarrow> bufreader \<times> (error + fc_record)" where
  "record_read r =
     (case ReadFull headerLen r of
        (r1, d, Some e) \<Rightarrow> (r1, Inl e)
      | (r1, d, None) \<Rightarrow>
          (let h = header_of d
           in if fh_Version h \<noteq> 1 then (r1, Inl ''fcgi: invalid header version'')
              else (case ReadFull (unat (fh_ContentLength h) + unat (fh_PaddingLength h)) r1 of
                      (r2, b, Some e) \<Rightarrow> (r2, Inl e)
                    | (r2, b, None) \<Rightarrow> (r2, Inr \<lparr>rc_h = h, rc_buf = b\<rparr>))))"

text \<open>The body of a begin record: the role and the flags.\<close>

definition begin_read :: "string \<Rightarrow> error + 16 word \<times> 8 word" where
  "begin_read c =
     (if length c \<noteq> 8 then Inl ''fcgi: invalid begin request record'' else Inr (Uint16 c, Uint8 (c ! 2)))"

definition record_bytes :: "recType \<Rightarrow> 16 word \<Rightarrow> string \<Rightarrow> string" where
  "record_bytes rt reqId b =
     (let h = header_init rt reqId (length b)
      in header_bytes h @ b @ replicate (unat (fh_PaddingLength h)) (CHR 0x00))"

definition writeRecord :: "'s writer \<Rightarrow> recType \<Rightarrow> 16 word \<Rightarrow> string \<Rightarrow> 's \<Rightarrow> 's \<times> error option" where
  "writeRecord wr rt reqId b s = (case wr s (record_bytes rt reqId b) of (s', n, e) \<Rightarrow> (s', e))"

definition writeBeginRequest :: "'s writer \<Rightarrow> 16 word \<Rightarrow> 16 word \<Rightarrow> 8 word \<Rightarrow> 's \<Rightarrow> 's \<times> error option" where
  "writeBeginRequest wr reqId role flags s =
     writeRecord wr typeBeginRequest reqId (PutUint16 role @ [put8 flags] @ replicate 5 (CHR 0x00)) s"

definition writeEndRequest :: "'s writer \<Rightarrow> 16 word \<Rightarrow> int \<Rightarrow> 8 word \<Rightarrow> 's \<Rightarrow> 's \<times> error option" where
  "writeEndRequest wr reqId appStatus protocolStatus s =
     writeRecord wr typeEndRequest reqId
       (PutUint32 (word_of_int appStatus) @ [put8 protocolStatus] @ replicate 3 (CHR 0x00)) s"

section \<open>Sizes and strings\<close>

text \<open>The size and the number of bytes it took, 0 for none.\<close>

definition readSize :: "string \<Rightarrow> 32 word \<times> nat" where
  "readSize s =
     (case s of
        [] \<Rightarrow> (0, 0)
      | c # _ \<Rightarrow>
          (let sz = word_of_nat (byte c)
           in if sz AND 0x80 \<noteq> 0
              then (if length s < 4 then (0, 0) else (Uint32 s AND NOT 0x80000000, 4))
              else (sz, 1)))"

definition readString :: "string \<Rightarrow> 32 word \<Rightarrow> string" where
  "readString s sz = (if word_of_nat (length s) < sz then [] else take (unat sz) s)"

definition encodeSize :: "32 word \<Rightarrow> string" where
  "encodeSize sz = (if 127 < sz then PutUint32 (sz OR 0x80000000) else [put8 (ucast sz)])"

section \<open>Streams\<close>

text \<open>A stream is cut into records of at most \<open>maxWrite\<close> bytes.\<close>

function streamWriter_Write :: "'s writer \<Rightarrow> recType \<Rightarrow> 16 word \<Rightarrow> 's \<Rightarrow> string \<Rightarrow> nat \<Rightarrow> 's \<times> nat \<times> error option" where
  "streamWriter_Write wr rt reqId s p nn =
     (if p = [] then (s, nn, None)
      else let n = (if maxWrite < length p then maxWrite else length p)
           in case writeRecord wr rt reqId (take n p) s of
                (s', Some e) \<Rightarrow> (s', nn, Some e)
              | (s', None) \<Rightarrow> streamWriter_Write wr rt reqId s' (drop n p) (nn + n))"
  by pat_completeness auto
termination
  by (relation "measure (\<lambda>(wr, rt, reqId, s, p, nn). length p)") (auto simp: maxWrite_def)

declare streamWriter_Write.simps [simp del]

definition stream_write :: "'s writer \<Rightarrow> recType \<Rightarrow> 16 word \<Rightarrow> 's writer" where
  "stream_write wr rt reqId s p = streamWriter_Write wr rt reqId s p 0"

definition streamWriter_Close :: "'s writer \<Rightarrow> recType \<Rightarrow> 16 word \<Rightarrow> 's \<Rightarrow> 's \<times> error option" where
  "streamWriter_Close wr rt reqId s = writeRecord wr rt reqId [] s"

text \<open>
  \<open>bufio.Writer\<close> with a buffer of \<open>maxWrite\<close> bytes, on a writer \<open>w\<close>: what is buffered, and the first error, after
  which nothing is written any more.
\<close>

record bufio_Writer =
  bw_buf :: string
  bw_err :: "error option"

definition new_Writer :: bufio_Writer where
  "new_Writer = \<lparr>bw_buf = [], bw_err = None\<rparr>"

definition bio_Flush :: "'s writer \<Rightarrow> bufio_Writer \<times> 's \<Rightarrow> bufio_Writer \<times> 's" where
  "bio_Flush w bs =
     (case bs of (b, s) \<Rightarrow>
        if bw_err b \<noteq> None \<or> bw_buf b = [] then (b, s)
        else (case w s (bw_buf b) of
                (s', n, e) \<Rightarrow>
                  (let e' = (if n < length (bw_buf b) \<and> e = None then Some io_ErrShortWrite else e)
                   in (\<lparr>bw_buf = (if e' = None then [] else drop n (bw_buf b)), bw_err = e'\<rparr>, s'))))"

text \<open>Data that does not fit into an empty buffer is written directly.\<close>

definition bio_direct :: "'s writer \<Rightarrow> string \<Rightarrow> bufio_Writer \<times> 's \<Rightarrow> bufio_Writer \<times> 's" where
  "bio_direct w p bs =
     (case bs of (b, s) \<Rightarrow>
        if bw_err b \<noteq> None then (b, s)
        else if length p \<le> maxWrite then (b\<lparr>bw_buf := p\<rparr>, s)
        else (case w s p of (s', n, e) \<Rightarrow> (b\<lparr>bw_err := e\<rparr>, s')))"

definition bio_Write :: "'s writer \<Rightarrow> string \<Rightarrow> bufio_Writer \<times> 's \<Rightarrow> bufio_Writer \<times> 's" where
  "bio_Write w p bs =
     (case bs of (b, s) \<Rightarrow>
        if bw_err b \<noteq> None then (b, s)
        else let avail = maxWrite - length (bw_buf b)
             in if length p \<le> avail then (b\<lparr>bw_buf := bw_buf b @ p\<rparr>, s)
                else if bw_buf b = [] then bio_direct w p (b, s)
                else bio_direct w (drop avail p) (bio_Flush w (b\<lparr>bw_buf := bw_buf b @ take avail p\<rparr>, s)))"

lemma bio_Flush_cases:
  assumes "bio_Flush w (b, s) = (b', s')" and "bw_err b = None"
  shows "bw_buf b' = [] \<and> bw_err b' = None \<or> bw_err b' \<noteq> None"
  using assms by (auto simp: bio_Flush_def Let_def split: if_splits prod.splits)

text \<open>A string is always copied through the buffer.\<close>

function bio_WriteString :: "'s writer \<Rightarrow> string \<Rightarrow> bufio_Writer \<times> 's \<Rightarrow> bufio_Writer \<times> 's" where
  "bio_WriteString w p (b, s) =
     (if bw_err b \<noteq> None then (b, s)
      else let avail = maxWrite - length (bw_buf b)
           in if length p \<le> avail then (b\<lparr>bw_buf := bw_buf b @ p\<rparr>, s)
              else bio_WriteString w (drop avail p) (bio_Flush w (b\<lparr>bw_buf := bw_buf b @ take avail p\<rparr>, s)))"
  by pat_completeness auto

termination
proof (relation "measure (\<lambda>(w, p, b, s). if bw_err b \<noteq> None then 0 else 2 * length p + 1 + (if maxWrite \<le> length (bw_buf b) then 1 else 0))",
    goal_cases)
  case 1
  show ?case by (rule wf_measure)
next
  case (2 w p b s avail)
  obtain b' s' where f: "bio_Flush w (b\<lparr>bw_buf := bw_buf b @ take avail p\<rparr>, s) = (b', s')" by (rule prod.exhaust)
  from bio_Flush_cases [OF f] 2 show ?case unfolding f by (auto simp: maxWrite_def)
qed

declare bio_WriteString.simps [simp del]

definition bufWriter_Close :: "'s writer \<Rightarrow> recType \<Rightarrow> 16 word \<Rightarrow> bufio_Writer \<times> 's \<Rightarrow> (bufio_Writer \<times> 's) \<times> error option" where
  "bufWriter_Close wr rt reqId bs =
     (case bio_Flush (stream_write wr rt reqId) bs of
        (b, s) \<Rightarrow>
          (case streamWriter_Close wr rt reqId s of
             (s', e) \<Rightarrow> ((b, s'), if bw_err b \<noteq> None then bw_err b else e)))"

text \<open>The pairs in the order in which the runtime visits them; an error ends the loop, and nothing is closed.\<close>

fun write_pairs :: "'s writer \<Rightarrow> (string \<times> string) list \<Rightarrow> bufio_Writer \<times> 's \<Rightarrow> bufio_Writer \<times> 's" where
  "write_pairs w [] bs = bs"
| "write_pairs w ((k, v) # kvs) bs =
     (let bs1 = bio_Write w (encodeSize (word_of_nat (length k)) @ encodeSize (word_of_nat (length v))) bs
      in if bw_err (fst bs1) \<noteq> None then bs1
         else let bs2 = bio_WriteString w k bs1
              in if bw_err (fst bs2) \<noteq> None then bs2
                 else let bs3 = bio_WriteString w v bs2
                      in if bw_err (fst bs3) \<noteq> None then bs3 else write_pairs w kvs bs3)"

definition writePairs :: "'s writer \<Rightarrow> recType \<Rightarrow> 16 word \<Rightarrow> (string \<times> string) list \<Rightarrow> 's \<Rightarrow> 's \<times> error option" where
  "writePairs wr rt reqId pairs s =
     (let bs = write_pairs (stream_write wr rt reqId) pairs (new_Writer, s)
      in if bw_err (fst bs) \<noteq> None then (snd bs, bw_err (fst bs))
         else (snd (fst (bufWriter_Close wr rt reqId bs)), None))"

end
