(* ===== verification/FcgiSpec.thy ===== *)
theory FcgiSpec
  imports Fcgi
begin

text \<open>
  Lemmas on the records of Fcgi: a header and a record are read as they were written, sizes too, and a
  stream, however it is cut into writes, reaches the wire as records whose contents are its bytes in order.
\<close>

section \<open>Records are read back\<close>

lemma unat_bound: "unat (w :: 'w::len word) < 2 ^ LENGTH('w)"
  by (rule unsigned_less)

lemma base256: "(w :: nat) = 256 * x + d \<Longrightarrow> x = 256 * y + c \<Longrightarrow> y = 256 * a + b \<Longrightarrow> w = a * 2 ^ 24 + b * 2 ^ 16 + c * 2 ^ 8 + d"
  by simp

lemma byte_of_small: "n < 256 \<Longrightarrow> byte (char_of n) = n"
  by (simp add: of_char_of)

lemma Uint8_put8 [simp]: "Uint8 (put8 w) = w"
  using unat_bound [of w] by (simp add: Uint8_def put8_def byte_of_small)

lemma Uint16_PutUint16 [simp]: "Uint16 (PutUint16 w @ s) = w" "Uint16 (PutUint16 w) = w"
proof -
  have "unat w div 256 < 256" using unat_bound [of w] by simp
  then show "Uint16 (PutUint16 w @ s) = w" "Uint16 (PutUint16 w) = w"
    by (simp_all add: Uint16_def PutUint16_def byte_of_small)
qed

lemma Uint32_PutUint32: "Uint32 (PutUint32 w @ s) = w"
proof -
  have w: "unat w < 2 ^ 32" using unat_bound [of w] by simp
  then have d: "unat w div 2 ^ 24 < 256" by simp
  have e: "unat w = unat w div 2 ^ 24 * 2 ^ 24 + unat w div 2 ^ 16 mod 256 * 2 ^ 16 + unat w div 2 ^ 8 mod 256 * 2 ^ 8 + unat w mod 256"
  proof -
    have 1: "unat w = 256 * (unat w div 2 ^ 8) + unat w mod 256" by simp
    have 2: "unat w div 2 ^ 8 = 256 * (unat w div 2 ^ 16) + unat w div 2 ^ 8 mod 256"
      using mult_div_mod_eq [of 256 "unat w div 2 ^ 8"] by (simp flip: div_mult2_eq)
    have 3: "unat w div 2 ^ 16 = 256 * (unat w div 2 ^ 24) + unat w div 2 ^ 16 mod 256"
      using mult_div_mod_eq [of 256 "unat w div 2 ^ 16"] by (simp flip: div_mult2_eq)
    from 1 2 3 show ?thesis by (rule base256)
  qed
  have b: "Uint32 (PutUint32 w @ s) = word_of_nat
      (unat w div 2 ^ 24 * 2 ^ 24 + unat w div 2 ^ 16 mod 256 * 2 ^ 16 + unat w div 2 ^ 8 mod 256 * 2 ^ 8 + unat w mod 256)"
    using d by (simp add: Uint32_def PutUint32_def byte_of_small)
  show ?thesis unfolding b e [symmetric] by simp
qed

lemma length_header_bytes [simp]: "length (header_bytes h) = headerLen"
  by (simp add: header_bytes_def PutUint16_def headerLen_def)

lemma header_of_bytes: "header_of (header_bytes h) = h"
proof -
  have "drop 2 (header_bytes h) = PutUint16 (fh_Id h) @ PutUint16 (fh_ContentLength h) @ [put8 (fh_PaddingLength h), put8 (fh_Reserved h)]"
    "drop 4 (header_bytes h) = PutUint16 (fh_ContentLength h) @ [put8 (fh_PaddingLength h), put8 (fh_Reserved h)]"
    by (simp_all add: header_bytes_def PutUint16_def)
  moreover have "header_bytes h ! 0 = put8 (fh_Version h)" "header_bytes h ! 1 = put8 (fh_Type h)"
    "header_bytes h ! 6 = put8 (fh_PaddingLength h)" "header_bytes h ! 7 = put8 (fh_Reserved h)"
    by (simp_all add: header_bytes_def PutUint16_def)
  ultimately show ?thesis by (simp add: header_of_def)
qed

text \<open>The record that reading gives for written content.\<close>

definition record_of :: "recType \<Rightarrow> 16 word \<Rightarrow> string \<Rightarrow> fc_record" where
  "record_of rt reqId b =
     (let h = header_init rt reqId (length b)
      in \<lparr>rc_h = h, rc_buf = b @ replicate (unat (fh_PaddingLength h)) (CHR 0x00)\<rparr>)"

lemma record_of_fields [simp]:
  "fh_Type (rc_h (record_of rt reqId b)) = rt" "fh_Id (rc_h (record_of rt reqId b)) = reqId"
  by (simp_all add: record_of_def header_init_def Let_def)

lemma content_record_of [simp]: "length b \<le> maxWrite \<Longrightarrow> record_content (record_of rt reqId b) = b"
  by (simp add: record_content_def record_of_def header_init_def Let_def maxWrite_def unat_of_nat take_bit_eq_mod)

lemma record_read_written:
  assumes "br_rest r = record_bytes rt reqId b @ rest" and "length b \<le> maxWrite"
  obtains r' where "record_read r = (r', Inr (record_of rt reqId b))" and "br_rest r' = rest" and "br_end r' = br_end r"
proof -
  let ?h = "header_init rt reqId (length b)"
  let ?n = "unat (fh_ContentLength ?h) + unat (fh_PaddingLength ?h)"
  have cl: "unat (fh_ContentLength ?h) = length b"
    using assms(2) by (simp add: header_init_def maxWrite_def unat_of_nat take_bit_eq_mod)
  have rest: "br_rest r = header_bytes ?h @ (b @ replicate (unat (fh_PaddingLength ?h)) (CHR 0x00)) @ rest"
    using assms(1) by (simp add: record_bytes_def Let_def)
  have 1: "ReadFull headerLen r = (br_skip headerLen r, header_bytes ?h, None)"
    using rest by (simp add: ReadFull_enough)
  define r1 where "r1 = br_skip headerLen r"
  have 2: "br_rest r1 = (b @ replicate (unat (fh_PaddingLength ?h)) (CHR 0x00)) @ rest" using rest by (simp add: r1_def)
  have 3: "ReadFull ?n r1 =
      (br_skip ?n r1, b @ replicate (unat (fh_PaddingLength ?h)) (CHR 0x00), None)"
    unfolding cl by (subst ReadFull_enough) (simp_all add: 2 del: br_rest_skip)
  have "fh_Version ?h = 1" by (simp add: header_init_def)
  then have "record_read r = (br_skip ?n r1, Inr (record_of rt reqId b))"
    unfolding record_read_def 1 r1_def [symmetric] by (simp add: header_of_bytes 3 record_of_def Let_def)
  moreover have "br_rest (br_skip ?n r1) = rest"
  proof -
    have "drop ?n (br_rest r1) = rest" unfolding 2 cl by simp
    then show ?thesis by (simp only: br_rest_skip [of ?n r1])
  qed
  moreover have "br_end (br_skip ?n r1) = br_end r" by (simp add: r1_def)
  ultimately show ?thesis using that by blast
qed

text \<open>A record is padded to a multiple of eight bytes.\<close>

lemma record_aligned: "8 dvd length (record_bytes rt reqId b)"
proof -
  have "(- int n) AND 7 = (- int n) mod 8" for n
    using take_bit_eq_mask [of 3 "- int n"] by (simp add: take_bit_eq_mod mask_eq_exp_minus_1)
  then have p: "uint (fh_PaddingLength (header_init rt reqId n)) = (- int n) mod 8" for n
    by (simp add: header_init_def uint_word_of_int)
  have "int (length (record_bytes rt reqId b)) = 8 + int (length b) + uint (fh_PaddingLength (header_init rt reqId (length b)))"
    by (simp add: record_bytes_def Let_def headerLen_def)
  then have "int (length (record_bytes rt reqId b)) mod 8 = 0" unfolding p by presburger
  then show ?thesis by presburger
qed

section \<open>Sizes\<close>

lemma top_bit:
  fixes w :: "32 word"
  assumes "unat w < 2 ^ 31"
  shows "(w OR 0x80000000) AND NOT 0x80000000 = w" and "unat (w OR 0x80000000) = unat w + 2 ^ 31"
proof -
  have m: "(0x80000000 :: 32 word) = 2 ^ 31" by simp
  have n: "\<not> bit w 31"
  proof -
    have "unat (w div 2 ^ 31) = 0" using assms by (simp add: unat_div)
    then have "w div 2 ^ 31 = 0" by (simp only: unat_eq_0)
    then show ?thesis unfolding bit_iff_odd by (metis even_zero)
  qed
  have d: "w AND 0x80000000 = 0" unfolding m and_exp_eq_0_iff_not_bit by (rule n)
  show "(w OR 0x80000000) AND NOT 0x80000000 = w"
  proof (rule bit_eqI)
    fix i
    show "bit ((w OR 0x80000000) AND NOT 0x80000000) i = bit w i"
      unfolding m using n by (cases "i = 31") (auto simp: bit_and_iff bit_or_iff bit_not_iff bit_exp_iff simp del: power_numeral dest: bit_imp_le_length)
  qed
  have "w OR 0x80000000 = w + 0x80000000" using disjunctive_add_eq_or [OF d] by (rule sym)
  then show "unat (w OR 0x80000000) = unat w + 2 ^ 31" using assms by (simp add: unat_word_ariths)
qed

lemma odd_half: "(n :: nat) < 256 \<Longrightarrow> odd (n div 128) \<longleftrightarrow> 128 \<le> n"
proof -
  assume n: "n < 256"
  show ?thesis
  proof (cases "128 \<le> n")
    case True
    with n have "n div 128 = 1" by (simp add: div_nat_eqI)
    with True show ?thesis by simp
  qed simp
qed

lemma high_bit: "(word_of_nat (byte c) :: 32 word) AND 0x80 \<noteq> 0 \<longleftrightarrow> 128 \<le> byte c"
proof -
  have m: "(0x80 :: 32 word) = 2 ^ 7" by simp
  have "(word_of_nat (byte c) :: 32 word) AND 2 ^ 7 \<noteq> 0 \<longleftrightarrow> bit (byte c) 7"
    by (simp only: and_exp_eq_0_iff_not_bit) (simp add: bit_of_nat_iff)
  also have "\<dots> \<longleftrightarrow> odd (byte c div 128)" by (simp add: bit_iff_odd)
  also have "\<dots> \<longleftrightarrow> 128 \<le> byte c" by (rule odd_half [OF byte_less])
  finally show ?thesis unfolding m .
qed

lemma readSize_encodeSize:
  assumes "unat w < 2 ^ 31"
  shows "readSize (encodeSize w @ s) = (w, length (encodeSize w))"
proof (cases "127 < w")
  case True
  then have e: "encodeSize w = PutUint32 (w OR 0x80000000)" by (simp add: encodeSize_def)
  let ?c = "char_of (unat (w OR 0x80000000) div 2 ^ 24) :: char"
  obtain cs where c: "PutUint32 (w OR 0x80000000) @ s = ?c # cs" and l: "4 \<le> Suc (length cs)"
    by (simp add: PutUint32_def)
  have "unat w div 2 ^ 24 < 128" using assms by simp
  then have "byte ?c = unat w div 2 ^ 24 + 128"
    unfolding top_bit(2) [OF assms] by (simp add: of_char_of)
  then have h: "(word_of_nat (byte ?c) :: 32 word) AND 0x80 \<noteq> 0" unfolding high_bit by simp
  have "readSize (PutUint32 (w OR 0x80000000) @ s) = (Uint32 (PutUint32 (w OR 0x80000000) @ s) AND NOT 0x80000000, 4)"
    unfolding readSize_def c using h l by simp
  then show ?thesis unfolding e Uint32_PutUint32 top_bit(1) [OF assms] by (simp add: PutUint32_def)
next
  case False
  then have w: "unat w < 128" by (simp add: word_less_nat_alt)
  then have e: "encodeSize w = [char_of (unat w)]"
    using False by (simp add: encodeSize_def put8_def unsigned_ucast_eq take_bit_eq_mod)
  have "byte (char_of (unat w) :: char) = unat w" using w by (simp add: byte_of_small)
  moreover have "(word_of_nat (byte (char_of (unat w) :: char)) :: 32 word) AND 0x80 = 0"
    using high_bit [of "char_of (unat w)"] w calculation by linarith
  ultimately show ?thesis unfolding e readSize_def by simp
qed

section \<open>Streams\<close>

definition pieces :: "string list \<Rightarrow> bool" where
  "pieces cs \<longleftrightarrow> (\<forall>c \<in> set cs. c \<noteq> [] \<and> length c \<le> maxWrite)"

lemma pieces_append [simp]: "pieces (cs @ ds) \<longleftrightarrow> pieces cs \<and> pieces ds"
  by (auto simp: pieces_def)

definition records :: "recType \<Rightarrow> 16 word \<Rightarrow> string list \<Rightarrow> string" where
  "records rt reqId cs = concat (map (record_bytes rt reqId) cs)"

lemma records_append [simp]: "records rt reqId (cs @ ds) = records rt reqId cs @ records rt reqId ds"
  by (simp add: records_def)

lemma writeRecord_buffer [simp]: "writeRecord buffer_write rt reqId b s = (s @ record_bytes rt reqId b, None)"
  by (simp add: writeRecord_def buffer_write_def)

lemma streamWriter_Write_pieces:
  "\<exists>cs. concat cs = p \<and> pieces cs \<and>
     streamWriter_Write buffer_write rt reqId s p nn = (s @ records rt reqId cs, nn + length p, None)"
proof (induction p arbitrary: s nn rule: length_induct)
  case (1 p)
  show ?case
  proof (cases "p = []")
    case True
    then show ?thesis by (intro exI [of _ "[]"]) (simp add: streamWriter_Write.simps pieces_def records_def)
  next
    case False
    let ?n = "if maxWrite < length p then maxWrite else length p"
    have n: "0 < ?n" "?n \<le> length p" "?n \<le> maxWrite" using False by (auto simp: maxWrite_def)
    then have "length (drop ?n p) < length p" using False by simp
    with 1 obtain cs where cs: "concat cs = drop ?n p" "pieces cs"
      "streamWriter_Write buffer_write rt reqId (s @ record_bytes rt reqId (take ?n p)) (drop ?n p) (nn + ?n) =
         (s @ record_bytes rt reqId (take ?n p) @ records rt reqId cs, nn + ?n + length (drop ?n p), None)"
      by (metis append_assoc)
    have "streamWriter_Write buffer_write rt reqId s p nn =
        (s @ records rt reqId (take ?n p # cs), nn + length p, None)"
      by (subst streamWriter_Write.simps) (use False n cs(3) in \<open>simp add: Let_def records_def\<close>)
    moreover have "concat (take ?n p # cs) = p" "pieces (take ?n p # cs)"
      using cs(1,2) n False by (auto simp: pieces_def)
    ultimately show ?thesis by blast
  qed
qed

lemma stream_write_pieces:
  obtains cs where "concat cs = p" and "pieces cs"
    and "stream_write buffer_write rt reqId s p = (s @ records rt reqId cs, length p, None)"
  using streamWriter_Write_pieces [of p rt reqId s 0] by (auto simp: stream_write_def)

text \<open>What has been written so far: the records on the wire, then what is buffered.\<close>

definition streamed :: "recType \<Rightarrow> 16 word \<Rightarrow> string \<Rightarrow> string \<Rightarrow> bufio_Writer \<times> string \<Rightarrow> bool" where
  "streamed rt reqId s0 d bs \<longleftrightarrow>
     (\<exists>cs. snd bs = s0 @ records rt reqId cs \<and> concat cs @ bw_buf (fst bs) = d \<and> pieces cs) \<and>
     bw_err (fst bs) = None \<and> length (bw_buf (fst bs)) \<le> maxWrite"

lemma streamed_new: "streamed rt reqId s [] (new_Writer, s)"
  by (auto simp: streamed_def new_Writer_def records_def pieces_def intro: exI [of _ "[]"])

lemma streamed_Flush:
  assumes "streamed rt reqId s0 d bs"
  shows "streamed rt reqId s0 d (bio_Flush (stream_write buffer_write rt reqId) bs)"
    and "bw_buf (fst (bio_Flush (stream_write buffer_write rt reqId) bs)) = []"
proof -
  obtain b s where bs: "bs = (b, s)" by (rule prod.exhaust)
  from assms obtain cs where cs: "s = s0 @ records rt reqId cs" "concat cs @ bw_buf b = d" "pieces cs" "bw_err b = None"
    by (auto simp: streamed_def bs)
  obtain ds where ds: "concat ds = bw_buf b" "pieces ds"
      "stream_write buffer_write rt reqId s (bw_buf b) = (s @ records rt reqId ds, length (bw_buf b), None)"
    by (rule stream_write_pieces)
  have "\<exists>es. s0 @ records rt reqId cs @ records rt reqId ds = s0 @ records rt reqId es \<and> concat es = d \<and> pieces es"
    using cs ds by (intro exI [of _ "cs @ ds"]) simp
  then show "streamed rt reqId s0 d (bio_Flush (stream_write buffer_write rt reqId) bs)"
    using assms ds(3) cs by (auto simp: bio_Flush_def bs streamed_def Let_def)
  show "bw_buf (fst (bio_Flush (stream_write buffer_write rt reqId) bs)) = []"
    using cs(4) ds(3) by (simp add: bio_Flush_def bs Let_def)
qed

lemma streamed_buffer:
  assumes "streamed rt reqId s0 d (b, s)" and "length (bw_buf b @ p) \<le> maxWrite"
  shows "streamed rt reqId s0 (d @ p) (b\<lparr>bw_buf := bw_buf b @ p\<rparr>, s)"
  using assms by (auto simp: streamed_def)

lemma streamed_direct:
  assumes "streamed rt reqId s0 d bs" and "bw_buf (fst bs) = []"
  shows "streamed rt reqId s0 (d @ p) (bio_direct (stream_write buffer_write rt reqId) p bs)"
proof -
  obtain b s where bs: "bs = (b, s)" by (rule prod.exhaust)
  from assms obtain cs where cs: "s = s0 @ records rt reqId cs" "concat cs = d" "pieces cs" "bw_err b = None" "bw_buf b = []"
    by (auto simp: streamed_def bs)
  show ?thesis
  proof (cases "length p \<le> maxWrite")
    case True
    with cs show ?thesis by (auto simp: bio_direct_def bs streamed_def)
  next
    case False
    obtain ds where ds: "concat ds = p" "pieces ds"
        "stream_write buffer_write rt reqId s p = (s @ records rt reqId ds, length p, None)"
      by (rule stream_write_pieces)
    have "\<exists>es. s0 @ records rt reqId cs @ records rt reqId ds = s0 @ records rt reqId es \<and> concat es = d @ p \<and> pieces es"
      using cs ds by (intro exI [of _ "cs @ ds"]) simp
    with False cs ds show ?thesis by (auto simp: bio_direct_def bs streamed_def)
  qed
qed

text \<open>The part of the data that fits into the buffer, and the rest after a flush.\<close>

lemma streamed_fill:
  assumes "streamed rt reqId s0 d (b, s)" and "avail = maxWrite - length (bw_buf b)"
  shows "streamed rt reqId s0 (d @ take avail p) (bio_Flush (stream_write buffer_write rt reqId) (b\<lparr>bw_buf := bw_buf b @ take avail p\<rparr>, s))"
    and "bw_buf (fst (bio_Flush (stream_write buffer_write rt reqId) (b\<lparr>bw_buf := bw_buf b @ take avail p\<rparr>, s))) = []"
  using streamed_Flush [OF streamed_buffer [OF assms(1), of "take avail p"]] assms by (auto simp: streamed_def)

lemma streamed_Write:
  assumes "streamed rt reqId s0 d bs"
  shows "streamed rt reqId s0 (d @ p) (bio_Write (stream_write buffer_write rt reqId) p bs)"
proof -
  obtain b s where bs: "bs = (b, s)" by (rule prod.exhaust)
  let ?n = "maxWrite - length (bw_buf b)"
  have b: "bw_err b = None" "length (bw_buf b) \<le> maxWrite" using assms by (auto simp: streamed_def bs)
  note a = assms [unfolded bs]
  show ?thesis
    using streamed_direct [OF streamed_fill [OF a refl, of p], of "drop ?n p"] streamed_direct [OF a, of p]
      streamed_buffer [OF a, of p] b by (auto simp: bio_Write_def bs Let_def)
qed

lemma streamed_WriteString:
  assumes "streamed rt reqId s0 d bs"
  shows "streamed rt reqId s0 (d @ p) (bio_WriteString (stream_write buffer_write rt reqId) p bs)"
  using assms
proof (induction w \<equiv> "stream_write buffer_write rt reqId" p bs arbitrary: d rule: bio_WriteString.induct)
  case (1 p b s)
  let ?n = "maxWrite - length (bw_buf b)"
  have b: "bw_err b = None" "length (bw_buf b) \<le> maxWrite" using 1(2) by (auto simp: streamed_def)
  have "streamed rt reqId s0 (d @ p)
      (bio_WriteString (stream_write buffer_write rt reqId) (drop ?n p)
        (bio_Flush (stream_write buffer_write rt reqId) (b\<lparr>bw_buf := bw_buf b @ take ?n p\<rparr>, s)))"
    if "\<not> length p \<le> ?n"
    using 1(1) [OF _ refl that streamed_fill(1) [OF 1(2) refl]] b by simp
  with b streamed_buffer [OF 1(2), of p] show ?case by (simp add: bio_WriteString.simps Let_def)
qed

text \<open>The pairs of a map as bytes, and the records that carry them.\<close>

definition pair_bytes :: "string \<times> string \<Rightarrow> string" where
  "pair_bytes kv = encodeSize (word_of_nat (length (fst kv))) @ encodeSize (word_of_nat (length (snd kv))) @ fst kv @ snd kv"

lemma streamed_pairs:
  "streamed rt reqId s0 d bs \<Longrightarrow>
   streamed rt reqId s0 (d @ concat (map pair_bytes kvs)) (write_pairs (stream_write buffer_write rt reqId) kvs bs)"
proof (induction kvs arbitrary: d bs)
  case (Cons kv kvs)
  obtain k v where kv: "kv = (k, v)" by (rule prod.exhaust)
  let ?w = "stream_write buffer_write rt reqId"
  let ?b1 = "bio_Write ?w (encodeSize (word_of_nat (length k)) @ encodeSize (word_of_nat (length v))) bs"
  let ?b2 = "bio_WriteString ?w k ?b1"
  let ?b3 = "bio_WriteString ?w v ?b2"
  note 1 = streamed_Write [OF Cons.prems, of "encodeSize (word_of_nat (length k)) @ encodeSize (word_of_nat (length v))"]
  note 2 = streamed_WriteString [OF 1, of k]
  note 3 = streamed_WriteString [OF 2, of v]
  have "bw_err (fst ?b1) = None" "bw_err (fst ?b2) = None" "bw_err (fst ?b3) = None"
    using 1 2 3 unfolding streamed_def by blast+
  then have "write_pairs ?w (kv # kvs) bs = write_pairs ?w kvs ?b3" by (simp add: kv Let_def)
  with Cons.IH [OF 3] show ?case by (simp add: kv pair_bytes_def)
qed simp

lemma streamed_Close:
  assumes "streamed rt reqId s0 d bs"
  obtains cs bs' where "bufWriter_Close buffer_write rt reqId bs = (bs', None)"
    and "snd bs' = s0 @ records rt reqId (cs @ [[]])" and "concat cs = d" and "pieces cs"
proof -
  obtain b s where f: "bio_Flush (stream_write buffer_write rt reqId) bs = (b, s)" by (rule prod.exhaust)
  from streamed_Flush [OF assms] f obtain cs where "s = s0 @ records rt reqId cs" "concat cs = d" "pieces cs" "bw_err b = None"
    by (auto simp: streamed_def)
  then show ?thesis
    by (intro that [of "(b, s @ record_bytes rt reqId [])" cs])
      (simp_all add: bufWriter_Close_def f streamWriter_Close_def records_def)
qed

lemma writePairs_records:
  obtains cs where "writePairs buffer_write rt reqId kvs s = (s @ records rt reqId (cs @ [[]]), None)"
    and "concat cs = concat (map pair_bytes kvs)" and "pieces cs"
proof -
  note p = streamed_pairs [OF streamed_new, of rt reqId s kvs]
  obtain cs bs' where "bufWriter_Close buffer_write rt reqId (write_pairs (stream_write buffer_write rt reqId) kvs (new_Writer, s)) = (bs', None)"
    "snd bs' = s @ records rt reqId (cs @ [[]])" "concat cs = [] @ concat (map pair_bytes kvs)" "pieces cs"
    using streamed_Close [OF p] by blast
  moreover have "bw_err (fst (write_pairs (stream_write buffer_write rt reqId) kvs (new_Writer, s))) = None"
    using p by (simp add: streamed_def)
  ultimately show ?thesis by (intro that) (simp_all add: writePairs_def Let_def)
qed

end
