(* ===== verification/FcgiChild.thy ===== *)
theory FcgiChild
  imports FcgiSpec Reply
begin

text \<open>
  The child side of FastCGI, \<open>http/fcgi/child.go\<close>. The requests are pointers into \<open>ch_heap\<close>; the goroutines
  that were started to serve requests, with whether they have a body, are in \<open>ch_started\<close>, and
  \<open>serveRequest\<close> is what one of them does. What is written into the pipe of a body is read by its goroutine: writes
  wait for it, and the model keeps what was written and whether the pipe was closed.
\<close>

section \<open>Requests and their parameters\<close>

record fc_request =
  rq_pw :: "(string \<times> bool) option"
  rq_reqId :: "16 word"
  rq_params :: "(string, string) gomap"
  rq_rawParams :: string
  rq_keepConn :: bool

definition newRequest :: "16 word \<Rightarrow> 8 word \<Rightarrow> fc_request" where
  "newRequest reqId flags =
     \<lparr>rq_pw = None, rq_reqId = reqId, rq_params = [], rq_rawParams = [], rq_keepConn = (flags AND flagKeepConn \<noteq> 0)\<rparr>"

text \<open>The loop ends where no size can be read; a slice beyond the text panics.\<close>

function parse_pairs :: "string \<Rightarrow> (string, string) gomap \<Rightarrow> ((string, string) gomap, unit) outcome" where
  "parse_pairs txt params =
     (if txt = [] then Done params ()
      else case readSize txt of (keyLen, n) \<Rightarrow>
        if n = 0 then Done params ()
        else let txt1 = drop n txt
             in case readSize txt1 of (valLen, n1) \<Rightarrow>
               if n1 = 0 then Done params ()
               else let txt2 = drop n1 txt1; key = readString txt2 keyLen
                    in if length txt2 < unat keyLen then Panic params ''runtime error: slice bounds out of range''
                       else let txt3 = drop (unat keyLen) txt2; val = readString txt3 valLen
                            in if length txt3 < unat valLen then Panic params ''runtime error: slice bounds out of range''
                               else parse_pairs (drop (unat valLen) txt3) (gomap_set key val params))"
  by pat_completeness auto
termination
  by (relation "measure (\<lambda>(txt, params). length txt)") auto

declare parse_pairs.simps [simp del]

definition parseParams :: "fc_request \<Rightarrow> (fc_request, unit) outcome" where
  "parseParams r =
     (case parse_pairs (rq_rawParams r) (rq_params r) of
        Done params u \<Rightarrow> Done (r\<lparr>rq_rawParams := [], rq_params := params\<rparr>) ()
      | Panic params msg \<Rightarrow> Panic (r\<lparr>rq_rawParams := [], rq_params := params\<rparr>) msg
      | Block params \<Rightarrow> Block r)"

section \<open>The records of a connection\<close>

record 's fc_child =
  ch_conn :: 's
  ch_requests :: "(16 word, nat) gomap"
  ch_heap :: "nat \<Rightarrow> fc_request"
  ch_next :: nat
  ch_started :: "(nat \<times> bool) list"

definition newChild :: "'s \<Rightarrow> 's fc_child" where
  "newChild s = \<lparr>ch_conn = s, ch_requests = [], ch_heap = (\<lambda>_. newRequest 0 0), ch_next = 0, ch_started = []\<rparr>"

definition errCloseConn :: error where
  "errCloseConn = ''fcgi: connection should be closed''"

definition errInFlight :: error where
  "errInFlight = ''fcgi: received ID that is already in-flight''"

definition set_request :: "nat \<Rightarrow> fc_request \<Rightarrow> 's fc_child \<Rightarrow> 's fc_child" where
  "set_request p r ch = ch\<lparr>ch_heap := (ch_heap ch)(p := r)\<rparr>"

definition on_begin :: "'s writer \<Rightarrow> fc_record \<Rightarrow> 's fc_child \<Rightarrow> 's fc_child \<times> error option" where
  "on_begin wr rc ch =
     (case begin_read (record_content rc) of
        Inl e \<Rightarrow> (ch, Some e)
      | Inr (role, flags) \<Rightarrow>
          if role \<noteq> roleResponder
          then (ch\<lparr>ch_conn := fst (writeEndRequest wr (fh_Id (rc_h rc)) 0 statusUnknownRole (ch_conn ch))\<rparr>, None)
          else (set_request (ch_next ch) (newRequest (fh_Id (rc_h rc)) flags)
                  (ch\<lparr>ch_requests := gomap_set (fh_Id (rc_h rc)) (ch_next ch) (ch_requests ch), ch_next := Suc (ch_next ch)\<rparr>), None))"

definition on_params :: "fc_record \<Rightarrow> nat \<Rightarrow> 's fc_child \<Rightarrow> ('s fc_child, error option) outcome" where
  "on_params rc p ch =
     (let req = ch_heap ch p
      in if record_content rc \<noteq> [] then Done (set_request p (req\<lparr>rq_rawParams := rq_rawParams req @ record_content rc\<rparr>) ch) None
         else (case parseParams req of
                 Done req1 u \<Rightarrow> Done (set_request p req1 ch) None
               | Panic req1 msg \<Rightarrow> Panic (set_request p req1 ch) msg
               | Block req1 \<Rightarrow> Block ch))"

text \<open>The first piece of the body creates the pipe; without one the request has no body.\<close>

definition on_stdin :: "fc_record \<Rightarrow> nat \<Rightarrow> 's fc_child \<Rightarrow> 's fc_child" where
  "on_stdin rc p ch =
     (let req = ch_heap ch p; c = record_content rc;
          has = (c \<noteq> []);
          ch1 = (if rq_pw req = None
                 then (if has then set_request p (req\<lparr>rq_pw := Some ([], False)\<rparr>) ch else ch)\<lparr>ch_started := ch_started ch @ [(p, has)]\<rparr>
                 else ch);
          req1 = ch_heap ch1 p
      in case rq_pw req1 of
           None \<Rightarrow> ch1
         | Some (d, closed) \<Rightarrow>
             if has then (if closed then ch1 else set_request p (req1\<lparr>rq_pw := Some (d @ c, False)\<rparr>) ch1)
             else set_request p (req1\<lparr>rq_pw := Some (d, True)\<rparr>) ch1)"

definition on_abort :: "'s writer \<Rightarrow> fc_record \<Rightarrow> nat \<Rightarrow> 's fc_child \<Rightarrow> 's fc_child \<times> error option" where
  "on_abort wr rc p ch =
     (ch\<lparr>ch_requests := gomap_del (fh_Id (rc_h rc)) (ch_requests ch),
        ch_conn := fst (writeEndRequest wr (fh_Id (rc_h rc)) 0 statusRequestComplete (ch_conn ch))\<rparr>,
      if rq_keepConn (ch_heap ch p) then None else Some errCloseConn)"

definition handleRecord :: "'s writer \<Rightarrow> fc_record \<Rightarrow> 's fc_child \<Rightarrow> ('s fc_child, error option) outcome" where
  "handleRecord wr rc ch =
     (let t = fh_Type (rc_h rc)
      in case gomap_get (ch_requests ch) (fh_Id (rc_h rc)) of
           None \<Rightarrow>
             if t = typeBeginRequest then (case on_begin wr rc ch of (ch', e) \<Rightarrow> Done ch' e)
             else if t = typeGetValues
             then Done (ch\<lparr>ch_conn := fst (writePairs wr typeGetValuesResult 0 [(''FCGI_MPXS_CONNS'', ''1'')] (ch_conn ch))\<rparr>) None
             else Done ch None
         | Some p \<Rightarrow>
             if t = typeBeginRequest then Done ch (Some errInFlight)
             else if t = typeParams then on_params rc p ch
             else if t = typeStdin then Done (on_stdin rc p ch) None
             else if t = typeGetValues
             then Done (ch\<lparr>ch_conn := fst (writePairs wr typeGetValuesResult 0 [(''FCGI_MPXS_CONNS'', ''1'')] (ch_conn ch))\<rparr>) None
             else if t = typeData then Done ch None
             else if t = typeAbortRequest then (case on_abort wr rc p ch of (ch', e) \<Rightarrow> Done ch' e)
             else Done (ch\<lparr>ch_conn := fst (writeRecord wr typeUnknownType 0 ([put8 t] @ replicate 7 (CHR 0x00)) (ch_conn ch))\<rparr>) None)"

lemma record_read_shorter: "record_read r = (r', Inr rc) \<Longrightarrow> length (br_rest r') < length (br_rest r)"
  by (auto simp: record_read_def ReadFull_def headerLen_def Let_def split: prod.splits option.splits if_splits)

text \<open>Reading records until there is an error; then the connection is closed.\<close>

function child_serve :: "'s writer \<Rightarrow> bufreader \<Rightarrow> 's fc_child \<Rightarrow> ('s fc_child, unit) outcome" where
  "child_serve wr r ch =
     (case record_read r of
        (r1, Inl e) \<Rightarrow> Done ch ()
      | (r1, Inr rc) \<Rightarrow>
          (case handleRecord wr rc ch of
             Done ch1 None \<Rightarrow> child_serve wr r1 ch1
           | Done ch1 (Some e) \<Rightarrow> Done ch1 ()
           | Panic ch1 msg \<Rightarrow> Panic ch1 msg
           | Block ch1 \<Rightarrow> Block ch1))"
  by pat_completeness auto
termination
  by (relation "measure (\<lambda>(wr, r, ch). length (br_rest r))") (auto dest: sym intro!: record_read_shorter)

declare child_serve.simps [simp del]

section \<open>Responses\<close>

text \<open>
  The response of a request: its header and the buffered stream of its output, on the connection's
  state. What the writes return is not looked at.
\<close>

record 's fc_response =
  fr_req :: fc_request
  fr_header :: header
  fr_w :: "bufio_Writer \<times> 's"
  fr_wroteHeader :: bool

definition newResponse :: "fc_request \<Rightarrow> 's \<Rightarrow> 's fc_response" where
  "newResponse req s = \<lparr>fr_req = req, fr_header = [], fr_w = (new_Writer, s), fr_wroteHeader = False\<rparr>"

abbreviation fr_stream :: "'s writer \<Rightarrow> 's fc_response \<Rightarrow> 's writer" where
  "fr_stream wr r \<equiv> stream_write wr typeStdout (rq_reqId (fr_req r))"

text \<open>\<open>bufio.Writer.WriteString\<close> as a writer.\<close>

definition string_writer :: "'s writer \<Rightarrow> (bufio_Writer \<times> 's) writer" where
  "string_writer w bs p = (let bs' = bio_WriteString w p bs in (bs', length p, bw_err (fst bs')))"

definition reply_header :: "string \<Rightarrow> int \<Rightarrow> header \<Rightarrow> header" where
  "reply_header now code h =
     (let h1 = (if code = StatusNotModified then Del (Del (Del h ''Content-Type'') ''Content-Length'') ''Transfer-Encoding''
                else if Get h ''Content-Type'' = [] then Set h ''Content-Type'' ''text/html; charset=utf-8'' else h)
      in if Get h1 ''Date'' = [] then Set h1 ''Date'' now else h1)"

definition fr_WriteHeader :: "'s writer \<Rightarrow> string \<Rightarrow> int \<Rightarrow> 's fc_response \<Rightarrow> 's fc_response" where
  "fr_WriteHeader wr now code r =
     (if fr_wroteHeader r then r
      else let h = reply_header now code (fr_header r);
               bs1 = bio_Write (fr_stream wr r) (''Status: '' @ Itoa code @ '' '' @ StatusText code @ CRLF) (fr_w r);
               bs2 = fst (Write (string_writer (fr_stream wr r)) bs1 h);
               bs3 = bio_WriteString (fr_stream wr r) CRLF bs2
           in r\<lparr>fr_wroteHeader := True, fr_header := h, fr_w := bs3\<rparr>)"

definition fr_Write :: "'s writer \<Rightarrow> string \<Rightarrow> string \<Rightarrow> 's fc_response \<Rightarrow> 's fc_response" where
  "fr_Write wr now d r =
     (let r1 = (if fr_wroteHeader r then r else fr_WriteHeader wr now StatusOK r)
      in r1\<lparr>fr_w := bio_Write (fr_stream wr r1) d (fr_w r1)\<rparr>)"

definition fr_Flush :: "'s writer \<Rightarrow> string \<Rightarrow> 's fc_response \<Rightarrow> 's fc_response" where
  "fr_Flush wr now r =
     (let r1 = (if fr_wroteHeader r then r else fr_WriteHeader wr now StatusOK r)
      in r1\<lparr>fr_w := bio_Flush (fr_stream wr r1) (fr_w r1)\<rparr>)"

definition fr_Close :: "'s writer \<Rightarrow> string \<Rightarrow> 's fc_response \<Rightarrow> 's fc_response \<times> error option" where
  "fr_Close wr now r =
     (let r1 = fr_Flush wr now r
      in case bufWriter_Close wr typeStdout (rq_reqId (fr_req r1)) (fr_w r1) of (bs, e) \<Rightarrow> (r1\<lparr>fr_w := bs\<rparr>, e))"

text \<open>The calls of a handler; the response is not a \<open>Hijacker\<close>.\<close>

fun fr_call :: "'s writer \<Rightarrow> string \<Rightarrow> rw_call \<Rightarrow> 's fc_response \<Rightarrow> 's fc_response" where
  "fr_call wr now (RW_Set k v) r = r\<lparr>fr_header := Set (fr_header r) k v\<rparr>"
| "fr_call wr now (RW_WriteHeader code) r = fr_WriteHeader wr now code r"
| "fr_call wr now (RW_Write d) r = fr_Write wr now d r"
| "fr_call wr now RW_Flush r = fr_Flush wr now r"
| "fr_call wr now RW_Hijack r = r"

text \<open>
  What a goroutine does for a request, and whether it closes the connection in the end. \<open>from_map\<close> is
  \<open>cgi.RequestFromMap\<close>; the handler gives the calls it makes.
\<close>

definition serveRequest ::
  "'s writer \<Rightarrow> string \<Rightarrow> ((string, string) gomap \<Rightarrow> error + 'r) \<Rightarrow> ('r \<Rightarrow> rw_call list) \<Rightarrow> fc_request \<Rightarrow> 's \<Rightarrow> 's \<times> bool" where
  "serveRequest wr now from_map handler req s =
     (let r = newResponse req s;
          r1 = (case from_map (rq_params req) of
                  Inl e \<Rightarrow>
                    (let r0 = fr_WriteHeader wr now StatusInternalServerError r
                     in r0\<lparr>fr_w := (fst (fr_w r0), fst (writeRecord wr typeStderr (rq_reqId req) e (snd (fr_w r0))))\<rparr>)
                | Inr hr \<Rightarrow> fold (fr_call wr now) (handler hr) r);
          r2 = fst (fr_Close wr now r1);
          s1 = fst (writeEndRequest wr (rq_reqId req) 0 statusRequestComplete (snd (fr_w r2)))
      in (s1, \<not> rq_keepConn req))"

end
