(* ===== verification/FcgiRun.thy ===== *)
theory FcgiRun
  imports FcgiChild
begin

text \<open>
  What a web server sends to a FastCGI child and what the child makes of it: parameters, identifiers that
  stay taken, lengths that are too big, and the reply on the wire.
\<close>

section \<open>Parameters\<close>

lemma child_serve_record:
  assumes "br_rest r = record_bytes t reqId b @ rest" and "length b \<le> maxWrite"
    and "handleRecord wr (record_of t reqId b) ch = Done ch1 None"
  obtains r1 where "child_serve wr r ch = child_serve wr r1 ch1" and "br_rest r1 = rest" and "br_end r1 = br_end r"
proof -
  obtain r1 where "record_read r = (r1, Inr (record_of t reqId b))" "br_rest r1 = rest" "br_end r1 = br_end r"
    by (rule record_read_written [OF assms(1,2)])
  with assms(3) that show ?thesis by (simp add: child_serve.simps [of wr r])
qed

lemma readString_written: "length s < 2 ^ 31 \<Longrightarrow> unat n = length s \<Longrightarrow> length (s @ t) < 2 ^ 32 \<Longrightarrow> readString (s @ t) n = s"
proof -
  assume a: "length s < 2 ^ 31" "unat n = length s" "length (s @ t) < 2 ^ 32"
  then have "unat (word_of_nat (length (s @ t)) :: 32 word) = length (s @ t)"
    by (simp only: unat_of_nat take_bit_eq_mod) simp
  with a show ?thesis by (simp add: readString_def word_less_nat_alt del: of_nat_add)
qed

definition short_pair :: "string \<times> string \<Rightarrow> bool" where
  "short_pair kv \<longleftrightarrow> length (fst kv) < 2 ^ 31 \<and> length (snd kv) < 2 ^ 31"

lemma unat_length: "length s < 2 ^ 31 \<Longrightarrow> unat (word_of_nat (length s) :: 32 word) = length s"
  by (simp add: unat_of_nat take_bit_eq_mod)

lemma encodeSize_nonempty: "encodeSize w \<noteq> []"
  by (simp add: encodeSize_def PutUint32_def)

lemma parse_pairs_written:
  assumes "\<forall>kv \<in> set kvs. short_pair kv" and "length (concat (map pair_bytes kvs)) < 2 ^ 32"
  shows "parse_pairs (concat (map pair_bytes kvs)) params = Done (fold (\<lambda>(k, v). gomap_set k v) kvs params) ()"
  using assms
proof (induction kvs arbitrary: params)
  case (Cons kv kvs)
  obtain k v where kv: "kv = (k, v)" by (rule prod.exhaust)
  let ?rest = "concat (map pair_bytes kvs)"
  let ?k = "word_of_nat (length k) :: 32 word" and ?v = "word_of_nat (length v) :: 32 word"
  have l: "length k < 2 ^ 31" "length v < 2 ^ 31" using Cons.prems(1) by (auto simp: kv short_pair_def)
  have u: "unat ?k = length k" "unat ?v = length v" using l by (simp_all add: unat_length)
  have t: "concat (map pair_bytes (kv # kvs)) = encodeSize ?k @ encodeSize ?v @ k @ v @ ?rest"
    by (simp add: kv pair_bytes_def)
  have s: "length (k @ v @ ?rest) < 2 ^ 32" "length (v @ ?rest) < 2 ^ 32" using Cons.prems(2) unfolding t by simp_all
  have 1: "readSize (encodeSize ?k @ x) = (?k, length (encodeSize ?k))" for x
    by (rule readSize_encodeSize) (use l u in simp)
  have 2: "readSize (encodeSize ?v @ x) = (?v, length (encodeSize ?v))" for x
    by (rule readSize_encodeSize) (use l u in simp)
  have 3: "readString (k @ v @ ?rest) ?k = k" by (rule readString_written [OF l(1) u(1) s(1)])
  have 4: "readString (v @ ?rest) ?v = v" by (rule readString_written [OF l(2) u(2) s(2)])
  have "parse_pairs ?rest (gomap_set k v params) = Done (fold (\<lambda>(k, v). gomap_set k v) kvs (gomap_set k v params)) ()"
    by (rule Cons.IH) (use Cons.prems in simp_all)
  then show ?case
    unfolding t by (subst parse_pairs.simps) (simp add: 1 2 3 4 u encodeSize_nonempty Let_def kv)
qed (simp add: parse_pairs.simps)

lemma fold_gomap_set_fresh:
  assumes "distinct (map fst kvs)" and "\<forall>k \<in> fst ` set kvs. gomap_get m k = None"
  shows "fold (\<lambda>(k, v). gomap_set k v) kvs m = m @ kvs"
  using assms
proof (induction kvs arbitrary: m)
  case (Cons kv kvs)
  obtain k v where kv: "kv = (k, v)" by (rule prod.exhaust)
  have "gomap_set k v m = m @ [(k, v)]" using Cons.prems(2) by (intro gomap_set_fresh) (simp add: kv)
  moreover have "fold (\<lambda>(k, v). gomap_set k v) kvs (m @ [(k, v)]) = (m @ [(k, v)]) @ kvs"
    by (rule Cons.IH) (use Cons.prems in \<open>auto simp: kv map_add_def split: option.split\<close>)
  ultimately show ?case by (simp add: kv)
qed simp

text \<open>The parameter records of a request that is in flight.\<close>

lemma serve_params:
  assumes "br_rest r = records typeParams reqId cs @ rest" and "pieces cs"
    and "gomap_get (ch_requests ch) reqId = Some p"
  obtains r1 where "child_serve wr r ch =
      child_serve wr r1 (set_request p ((ch_heap ch p)\<lparr>rq_rawParams := rq_rawParams (ch_heap ch p) @ concat cs\<rparr>) ch)"
    and "br_rest r1 = rest" and "br_end r1 = br_end r"
proof -
  have "\<exists>r1. child_serve wr r ch =
      child_serve wr r1 (set_request p ((ch_heap ch p)\<lparr>rq_rawParams := rq_rawParams (ch_heap ch p) @ concat cs\<rparr>) ch) \<and>
      br_rest r1 = rest \<and> br_end r1 = br_end r"
    using assms
  proof (induction cs arbitrary: r ch)
    case Nil
    then show ?case by (intro exI [of _ r]) (simp add: records_def set_request_def)
  next
    case (Cons c cs)
    let ?ch = "set_request p ((ch_heap ch p)\<lparr>rq_rawParams := rq_rawParams (ch_heap ch p) @ c\<rparr>) ch"
    have c: "c \<noteq> []" "length c \<le> maxWrite" "pieces cs" using Cons.prems(2) by (auto simp: pieces_def)
    have h: "handleRecord wr (record_of typeParams reqId c) ch = Done ?ch None"
      using c Cons.prems(3) by (simp add: handleRecord_def on_params_def Let_def recType_defs)
    have "br_rest r = record_bytes typeParams reqId c @ (records typeParams reqId cs @ rest)"
      using Cons.prems(1) by (simp add: records_def)
    then obtain r1 where r1: "child_serve wr r ch = child_serve wr r1 ?ch" "br_rest r1 = records typeParams reqId cs @ rest"
      "br_end r1 = br_end r" using child_serve_record [OF _ c(2) h] by blast
    have p: "gomap_get (ch_requests ?ch) reqId = Some p" using Cons.prems(3) by (simp add: set_request_def)
    from Cons.IH [OF r1(2) c(3) p] show ?case using r1(1,3) by (auto simp: set_request_def)
  qed
  with that show ?thesis by blast
qed

text \<open>
  C30: The parameters of a request arrive as they were sent: however the bytes of the encoded pairs are cut
  into records, each with at least one and at most 65535 of them, once the empty record has followed the
  begin record and these, there is a new request of the child with exactly these parameters, and the
  child goes on right behind. \<open>writePairs\<close> makes one of these cuts. The records are padded as
  \<open>header.init\<close> pads them.
\<close>

theorem fcgi_params_round_trip:
  assumes "gomap_get (ch_requests ch) reqId = None"
    and "distinct (map fst kvs)" and "\<forall>kv \<in> set kvs. short_pair kv" and "length (concat (map pair_bytes kvs)) < 2 ^ 32"
    and "writeBeginRequest buffer_write reqId roleResponder flags [] = (wire1, None)"
    and "concat cs = concat (map pair_bytes kvs)" and "\<forall>c \<in> set cs. c \<noteq> [] \<and> length c \<le> 65535"
    and "br_rest r = wire1 @ concat (map (record_bytes typeParams reqId) cs) @ record_bytes typeParams reqId [] @ rest"
  shows "(\<exists>r1. child_serve wr r ch =
      child_serve wr r1 (set_request (ch_next ch) ((newRequest reqId flags)\<lparr>rq_params := kvs\<rparr>)
        (ch\<lparr>ch_requests := gomap_set reqId (ch_next ch) (ch_requests ch), ch_next := Suc (ch_next ch)\<rparr>)) \<and>
      br_rest r1 = rest) \<and>
    (\<exists>ds. writePairs buffer_write typeParams reqId kvs wire1 =
        (wire1 @ concat (map (record_bytes typeParams reqId) ds) @ record_bytes typeParams reqId [], None) \<and>
      concat ds = concat (map pair_bytes kvs) \<and> (\<forall>c \<in> set ds. c \<noteq> [] \<and> length c \<le> 65535))"
proof -
  let ?b = "PutUint16 roleResponder @ [put8 flags] @ replicate 5 (CHR 0x00)"
  let ?p = "ch_next ch"
  let ?ch1 = "set_request ?p (newRequest reqId flags)
      (ch\<lparr>ch_requests := gomap_set reqId ?p (ch_requests ch), ch_next := Suc ?p\<rparr>)"
  have w1: "wire1 = record_bytes typeBeginRequest reqId ?b" using assms(5) by (simp add: writeBeginRequest_def)
  have cs: "pieces cs" using assms(7) by (simp add: pieces_def maxWrite_def)
  have b: "length ?b = 8" by (simp add: PutUint16_def)
  have "begin_read ?b = Inr (roleResponder, flags)"
    unfolding begin_read_def b by (simp add: nth_append PutUint16_def Uint16_def roleResponder_def of_char_of)
  then have h1: "handleRecord wr (record_of typeBeginRequest reqId ?b) ch = Done ?ch1 None"
    using assms(1) b by (simp add: handleRecord_def on_begin_def maxWrite_def)
  have r0: "br_rest r = record_bytes typeBeginRequest reqId ?b @ (records typeParams reqId cs @ record_bytes typeParams reqId [] @ rest)"
    using assms(8) by (simp add: w1 records_def)
  obtain r1 where r1: "child_serve wr r ch = child_serve wr r1 ?ch1"
    "br_rest r1 = records typeParams reqId cs @ (record_bytes typeParams reqId [] @ rest)"
    by (rule child_serve_record [OF r0 _ h1]) (simp_all add: maxWrite_def PutUint16_def)
  have g: "gomap_get (ch_requests ?ch1) reqId = Some ?p" by (simp add: set_request_def gomap_simps)
  obtain r2 where r2: "child_serve wr r1 ?ch1 = child_serve wr r2
      (set_request ?p ((ch_heap ?ch1 ?p)\<lparr>rq_rawParams := rq_rawParams (ch_heap ?ch1 ?p) @ concat cs\<rparr>) ?ch1)"
    "br_rest r2 = record_bytes typeParams reqId [] @ rest"
    by (rule serve_params [OF r1(2) cs g])
  let ?ch2 = "set_request ?p ((newRequest reqId flags)\<lparr>rq_rawParams := concat (map pair_bytes kvs)\<rparr>) ?ch1"
  have e2: "set_request ?p ((ch_heap ?ch1 ?p)\<lparr>rq_rawParams := rq_rawParams (ch_heap ?ch1 ?p) @ concat cs\<rparr>) ?ch1 = ?ch2"
    by (simp add: set_request_def newRequest_def assms(6))
  let ?ch3 = "set_request ?p ((newRequest reqId flags)\<lparr>rq_params := kvs\<rparr>) ?ch1"
  have pp: "parseParams ((newRequest reqId flags)\<lparr>rq_rawParams := concat (map pair_bytes kvs)\<rparr>) =
      Done ((newRequest reqId flags)\<lparr>rq_params := kvs\<rparr>) ()"
    using parse_pairs_written [OF assms(3,4), of "[]"] fold_gomap_set_fresh [OF assms(2), of "[]"]
    by (simp add: parseParams_def newRequest_def)
  have h3: "handleRecord wr (record_of typeParams reqId []) ?ch2 = Done ?ch3 None"
    using pp by (simp add: handleRecord_def on_params_def Let_def recType_defs set_request_def gomap_simps)
  obtain r3 where "child_serve wr r2 ?ch2 = child_serve wr r3 ?ch3" "br_rest r3 = rest"
    by (rule child_serve_record [OF r2(2) _ h3]) simp
  moreover obtain ds where "writePairs buffer_write typeParams reqId kvs wire1 = (wire1 @ records typeParams reqId (ds @ [[]]), None)"
    "concat ds = concat (map pair_bytes kvs)" "pieces ds"
    by (rule writePairs_records)
  ultimately show ?thesis
    using r1(1) r2(1) e2 by (auto simp: set_request_def records_def pieces_def maxWrite_def)
qed

section \<open>Many requests on one connection\<close>

fun handle_all :: "'s writer \<Rightarrow> fc_record list \<Rightarrow> 's fc_child \<Rightarrow> ('s fc_child, error option) outcome" where
  "handle_all wr [] ch = Done ch None"
| "handle_all wr (rc # rcs) ch =
     (case handleRecord wr rc ch of
        Done ch1 None \<Rightarrow> handle_all wr rcs ch1
      | r \<Rightarrow> r)"

abbreviation rc_Id :: "fc_record \<Rightarrow> 16 word" where
  "rc_Id rc \<equiv> fh_Id (rc_h rc)"

text \<open>Requests in flight have their own identifier, and different ones do not share a pointer.\<close>

definition child_inv :: "'s fc_child \<Rightarrow> bool" where
  "child_inv ch \<longleftrightarrow>
     (\<forall>i p. gomap_get (ch_requests ch) i = Some p \<longrightarrow> p < ch_next ch \<and> rq_reqId (ch_heap ch p) = i)"

definition in_flight :: "16 word \<Rightarrow> 's fc_child \<Rightarrow> fc_request option" where
  "in_flight i ch = map_option (ch_heap ch) (gomap_get (ch_requests ch) i)"

lemma parseParams_reqId: "parseParams r = Done r' u \<Longrightarrow> rq_reqId r' = rq_reqId r"
  by (auto simp: parseParams_def split: outcome.splits)

text \<open>What a record does to the request in flight with its identifier.\<close>

definition request_step :: "fc_record \<Rightarrow> fc_request option \<Rightarrow> (fc_request option \<times> error option) option" where
  "request_step rc v =
     (let t = fh_Type (rc_h rc)
      in case v of
           None \<Rightarrow>
             if t = typeBeginRequest
             then (case begin_read (record_content rc) of
                     Inl e \<Rightarrow> Some (None, Some e)
                   | Inr (role, flags) \<Rightarrow> Some (if role \<noteq> roleResponder then None else Some (newRequest (rc_Id rc) flags), None))
             else Some (None, None)
         | Some req \<Rightarrow>
             if t = typeBeginRequest then Some (v, Some errInFlight)
             else if t = typeParams
             then (if record_content rc \<noteq> [] then Some (Some (req\<lparr>rq_rawParams := rq_rawParams req @ record_content rc\<rparr>), None)
                   else case parseParams req of Done req1 u \<Rightarrow> Some (Some req1, None) | _ \<Rightarrow> None)
             else if t = typeStdin
             then Some (Some (case (if rq_pw req = None \<and> record_content rc \<noteq> [] then Some ([], False) else rq_pw req) of
                     None \<Rightarrow> req
                   | Some (d, closed) \<Rightarrow>
                       if record_content rc = [] then req\<lparr>rq_pw := Some (d, True)\<rparr>
                       else req\<lparr>rq_pw := Some (if closed then d else d @ record_content rc, closed)\<rparr>), None)
             else if t = typeAbortRequest then Some (None, if rq_keepConn req then None else Some errCloseConn)
             else Some (v, None))"

text \<open>A new state of a request that is in flight.\<close>

lemma set_in_flight:
  assumes "child_inv ch" and "gomap_get (ch_requests ch) i = Some p" and "rq_reqId r = i"
  shows "child_inv (set_request p r ch)" and "in_flight i (set_request p r ch) = Some r"
    and "j \<noteq> i \<Longrightarrow> in_flight j (set_request p r ch) = in_flight j ch"
proof -
  have i: "rq_reqId (ch_heap ch p) = i" using assms(1,2) by (simp add: child_inv_def)
  show "child_inv (set_request p r ch)" unfolding child_inv_def
  proof (intro allI impI)
    fix j q
    assume "gomap_get (ch_requests (set_request p r ch)) j = Some q"
    then have "gomap_get (ch_requests ch) j = Some q" by (simp add: set_request_def)
    then have "q < ch_next ch" "rq_reqId (ch_heap ch q) = j" using assms(1) by (auto simp: child_inv_def)
    with i assms(3) show "q < ch_next (set_request p r ch) \<and> rq_reqId (ch_heap (set_request p r ch) q) = j"
      by (auto simp: set_request_def)
  qed
  show "in_flight i (set_request p r ch) = Some r" using assms(2) by (simp add: in_flight_def set_request_def)
  show "in_flight j (set_request p r ch) = in_flight j ch" if "j \<noteq> i"
  proof (cases "gomap_get (ch_requests ch) j")
    case (Some q)
    with assms(1) i that have "q \<noteq> p" by (auto simp: child_inv_def)
    with Some show ?thesis by (simp add: in_flight_def set_request_def)
  qed (simp add: in_flight_def set_request_def)
qed

lemma child_other_fields [simp]:
  "child_inv (ch\<lparr>ch_conn := s\<rparr>) = child_inv ch" "in_flight i (ch\<lparr>ch_conn := s\<rparr>) = in_flight i ch"
  "child_inv (ch\<lparr>ch_started := st\<rparr>) = child_inv ch" "in_flight i (ch\<lparr>ch_started := st\<rparr>) = in_flight i ch"
  by (simp_all add: child_inv_def in_flight_def)

lemma on_begin_step:
  assumes "child_inv ch" and "gomap_get (ch_requests ch) (rc_Id rc) = None" and "on_begin wr rc ch = (ch', e)"
    and "fh_Type (rc_h rc) = typeBeginRequest"
  shows "child_inv ch'" and "request_step rc None = Some (in_flight (rc_Id rc) ch', e)"
    and "i \<noteq> rc_Id rc \<Longrightarrow> in_flight i ch' = in_flight i ch"
proof -
  have fresh: "q < ch_next ch" if "gomap_get (ch_requests ch) j = Some q" for j q
    using assms(1) that by (auto simp: child_inv_def)
  have none: "in_flight (rc_Id rc) ch = None" using assms(2) by (simp add: in_flight_def)
  show "child_inv ch'" using assms(1,3) fresh
    by (fastforce simp: on_begin_def child_inv_def set_request_def newRequest_def gomap_simps less_Suc_eq
        split: sum.splits prod.splits if_splits)
  show "request_step rc None = Some (in_flight (rc_Id rc) ch', e)" using assms(3,4) none
    by (auto simp: request_step_def on_begin_def Let_def in_flight_def set_request_def gomap_simps split: sum.splits prod.splits if_splits)
  show "in_flight i ch' = in_flight i ch" if "i \<noteq> rc_Id rc" using assms(3) that
    by (auto simp: on_begin_def in_flight_def set_request_def gomap_simps dest: fresh split: sum.splits prod.splits if_splits
        intro!: option.map_cong)
qed

lemma on_params_step:
  assumes "child_inv ch" and "gomap_get (ch_requests ch) (rc_Id rc) = Some p" and "on_params rc p ch = Done ch' e"
    and "fh_Type (rc_h rc) = typeParams"
  shows "child_inv ch'" and "request_step rc (Some (ch_heap ch p)) = Some (in_flight (rc_Id rc) ch', e)"
    and "i \<noteq> rc_Id rc \<Longrightarrow> in_flight i ch' = in_flight i ch"
proof -
  have id: "rq_reqId (ch_heap ch p) = rc_Id rc" using assms(1,2) by (simp add: child_inv_def)
  obtain req1 where ch': "ch' = set_request p req1 ch" "rq_reqId req1 = rc_Id rc"
    "request_step rc (Some (ch_heap ch p)) = Some (Some req1, e)"
    using assms(3,4) id parseParams_reqId [of "ch_heap ch p"]
    by (auto simp: on_params_def request_step_def Let_def recType_defs split: if_splits outcome.splits)
  note set_in_flight [OF assms(1,2) ch'(2)]
  then show "child_inv ch'" and "request_step rc (Some (ch_heap ch p)) = Some (in_flight (rc_Id rc) ch', e)"
    and "i \<noteq> rc_Id rc \<Longrightarrow> in_flight i ch' = in_flight i ch"
    using ch' by simp_all
qed

lemma on_stdin_step:
  assumes "child_inv ch" and "gomap_get (ch_requests ch) (rc_Id rc) = Some p" and "fh_Type (rc_h rc) = typeStdin"
  shows "child_inv (on_stdin rc p ch)"
    and "request_step rc (Some (ch_heap ch p)) = Some (in_flight (rc_Id rc) (on_stdin rc p ch), None)"
    and "i \<noteq> rc_Id rc \<Longrightarrow> in_flight i (on_stdin rc p ch) = in_flight i ch"
proof -
  have id: "rq_reqId (ch_heap ch p) = rc_Id rc" using assms(1,2) by (simp add: child_inv_def)
  obtain req1 st where ch': "on_stdin rc p ch = set_request p req1 ch\<lparr>ch_started := st\<rparr>" "rq_reqId req1 = rc_Id rc"
    "request_step rc (Some (ch_heap ch p)) = Some (Some req1, None)"
  proof (cases "rq_pw (ch_heap ch p)")
    case None
    show ?thesis
    proof (rule that [of "ch_started ch @ [(p, record_content rc \<noteq> [])]"
          "if record_content rc = [] then ch_heap ch p else (ch_heap ch p)\<lparr>rq_pw := Some (record_content rc, False)\<rparr>"])
      show "on_stdin rc p ch = set_request p (if record_content rc = [] then ch_heap ch p else (ch_heap ch p)\<lparr>rq_pw := Some (record_content rc, False)\<rparr>) ch
          \<lparr>ch_started := ch_started ch @ [(p, record_content rc \<noteq> [])]\<rparr>"
        using None by (simp add: on_stdin_def set_request_def Let_def)
    qed (use None id assms(3) in \<open>auto simp: request_step_def recType_defs Let_def\<close>)
  next
    case (Some dc)
    obtain d closed where dc: "dc = (d, closed)" by (rule prod.exhaust)
    show ?thesis
    proof (rule that [of "ch_started ch" "if record_content rc = [] then (ch_heap ch p)\<lparr>rq_pw := Some (d, True)\<rparr>
          else (ch_heap ch p)\<lparr>rq_pw := Some (if closed then d else d @ record_content rc, closed)\<rparr>"])
      show "on_stdin rc p ch = set_request p (if record_content rc = [] then (ch_heap ch p)\<lparr>rq_pw := Some (d, True)\<rparr>
          else (ch_heap ch p)\<lparr>rq_pw := Some (if closed then d else d @ record_content rc, closed)\<rparr>) ch\<lparr>ch_started := ch_started ch\<rparr>"
        using Some dc by (auto simp: on_stdin_def set_request_def Let_def intro!: fc_child.equality)
    qed (use Some dc id assms(3) in \<open>auto simp: request_step_def recType_defs Let_def\<close>)
  qed
  note set_in_flight [OF assms(1,2) ch'(2)]
  then show "child_inv (on_stdin rc p ch)"
    and "request_step rc (Some (ch_heap ch p)) = Some (in_flight (rc_Id rc) (on_stdin rc p ch), None)"
    and "i \<noteq> rc_Id rc \<Longrightarrow> in_flight i (on_stdin rc p ch) = in_flight i ch"
    using ch' by simp_all
qed

lemma abort_step:
  assumes "child_inv ch" and "gomap_get (ch_requests ch) (rc_Id rc) = Some p" and "on_abort wr rc p ch = (ch', e)"
    and "fh_Type (rc_h rc) = typeAbortRequest"
  shows "child_inv ch'" and "request_step rc (Some (ch_heap ch p)) = Some (in_flight (rc_Id rc) ch', e)"
    and "i \<noteq> rc_Id rc \<Longrightarrow> in_flight i ch' = in_flight i ch"
proof -
  show "child_inv ch'" using assms(1,3) by (auto simp: on_abort_def child_inv_def gomap_simps split: if_splits)
  show "request_step rc (Some (ch_heap ch p)) = Some (in_flight (rc_Id rc) ch', e)" using assms(3,4)
    by (auto simp: on_abort_def request_step_def in_flight_def Let_def recType_defs gomap_simps)
  show "in_flight i ch' = in_flight i ch" if "i \<noteq> rc_Id rc" using assms(3) that
    by (auto simp: on_abort_def in_flight_def gomap_simps)
qed

lemma handleRecord_step:
  assumes "child_inv ch" and "handleRecord wr rc ch = Done ch' e"
  shows "child_inv ch' \<and> request_step rc (in_flight (rc_Id rc) ch) = Some (in_flight (rc_Id rc) ch', e) \<and>
    (i \<noteq> rc_Id rc \<longrightarrow> in_flight i ch' = in_flight i ch)"
proof (cases "gomap_get (ch_requests ch) (rc_Id rc)")
  case None
  then have n: "in_flight (rc_Id rc) ch = None" by (simp add: in_flight_def)
  show ?thesis
  proof (cases "fh_Type (rc_h rc) = typeBeginRequest")
    case True
    then have "on_begin wr rc ch = (ch', e)" using assms(2) None by (simp add: handleRecord_def Let_def split: prod.splits)
    from on_begin_step [OF assms(1) None this True] n show ?thesis by simp
  next
    case False
    with assms n None show ?thesis by (auto simp: handleRecord_def request_step_def Let_def split: if_splits)
  qed
next
  case (Some p)
  then have s: "in_flight (rc_Id rc) ch = Some (ch_heap ch p)" by (simp add: in_flight_def)
  consider "fh_Type (rc_h rc) = typeParams" | "fh_Type (rc_h rc) = typeStdin" | "fh_Type (rc_h rc) = typeAbortRequest"
    | "fh_Type (rc_h rc) \<noteq> typeParams" "fh_Type (rc_h rc) \<noteq> typeStdin" "fh_Type (rc_h rc) \<noteq> typeAbortRequest" by blast
  then show ?thesis
  proof cases
    case 1
    then have "on_params rc p ch = Done ch' e" using assms(2) Some by (simp add: handleRecord_def Let_def recType_defs)
    from on_params_step [OF assms(1) Some this 1] s show ?thesis by simp
  next
    case 2
    then have "ch' = on_stdin rc p ch" "e = None" using assms(2) Some by (auto simp: handleRecord_def Let_def recType_defs)
    with on_stdin_step [OF assms(1) Some 2] s show ?thesis by simp
  next
    case 3
    then have "on_abort wr rc p ch = (ch', e)"
      using assms(2) Some by (simp add: handleRecord_def Let_def recType_defs split: prod.splits)
    from abort_step [OF assms(1) Some this 3] s show ?thesis by simp
  next
    case 4
    with assms s Some show ?thesis by (auto simp: handleRecord_def request_step_def Let_def split: if_splits)
  qed
qed

lemma handleRecord_ends:
  assumes "child_inv ch" and "request_step rc (in_flight (rc_Id rc) ch) = Some (v, e)"
  obtains ch' where "handleRecord wr rc ch = Done ch' e"
proof -
  have "\<exists>ch' e'. handleRecord wr rc ch = Done ch' e'"
    using assms(2)
    by (auto simp: handleRecord_def request_step_def in_flight_def on_params_def Let_def split: option.splits prod.splits outcome.splits if_splits)
  with handleRecord_step [OF assms(1), of wr rc] assms(2) that show ?thesis by fastforce
qed

text \<open>
  C31: Requests on one connection do not touch each other: what a request has received after any
  sequence of records is what it would have received from the records with its own identifier alone.
\<close>

theorem fcgi_multiplexing:
  assumes "child_inv ch" and "handle_all wr rcs ch = Done ch' None"
  shows "\<exists>ch1. handle_all wr (filter (\<lambda>rc. rc_Id rc = i) rcs) ch = Done ch1 None \<and> in_flight i ch1 = in_flight i ch'"
proof -
  have "\<exists>ch1. handle_all wr (filter (\<lambda>rc. rc_Id rc = i) rcs) ch2 = Done ch1 None \<and> in_flight i ch1 = in_flight i ch'"
    if "child_inv ch2" "in_flight i ch2 = in_flight i ch" "child_inv ch" "handle_all wr rcs ch = Done ch' None" for ch ch2
    using that
  proof (induction rcs arbitrary: ch ch2)
    case (Cons rc rcs)
    from Cons.prems(4) obtain ch3 where h: "handleRecord wr rc ch = Done ch3 None" "handle_all wr rcs ch3 = Done ch' None"
      by (auto split: outcome.splits option.splits)
    note st = handleRecord_step [OF Cons.prems(3) h(1)]
    show ?case
    proof (cases "rc_Id rc = i")
      case True
      with st Cons.prems(2) have r: "request_step rc (in_flight (rc_Id rc) ch2) = Some (in_flight i ch3, None)" by simp
      from handleRecord_ends [OF Cons.prems(1) r] obtain ch4 where 4: "handleRecord wr rc ch2 = Done ch4 None" by blast
      with handleRecord_step [OF Cons.prems(1) 4] r True have "child_inv ch4" "in_flight i ch4 = in_flight i ch3" by auto
      with Cons.IH [of ch4 ch3] st h(2) 4 True show ?thesis by simp
    next
      case False
      with st Cons.prems(2) have "in_flight i ch2 = in_flight i ch3" by simp
      with Cons.IH [of ch2 ch3] st h(2) Cons.prems(1) False show ?thesis by simp
    qed
  qed auto
  from this [OF assms(1) refl assms] show ?thesis .
qed

lemma request_step_stays:
  "request_step rc (Some req) = Some (v, e) \<Longrightarrow> fh_Type (rc_h rc) \<noteq> typeAbortRequest \<Longrightarrow> v \<noteq> None"
  by (auto simp: request_step_def Let_def split: if_splits outcome.splits)

text \<open>
  An identifier is never free again: whatever comes in between, as long as the request is not aborted,
  a second request with the identifier of an earlier one is refused and ends the connection, also
  when the earlier one has long been answered and the connection is to be kept.
\<close>

theorem fcgi_id_stays_taken:
  assumes "child_inv ch" and "in_flight i ch \<noteq> None" and "handle_all wr rcs ch = Done ch' None"
    and "\<forall>rc \<in> set rcs. rc_Id rc = i \<longrightarrow> fh_Type (rc_h rc) \<noteq> typeAbortRequest"
  shows "handleRecord wr (record_of typeBeginRequest i b) ch' = Done ch' (Some errInFlight)"
proof -
  have "in_flight i ch' \<noteq> None" using assms
  proof (induction rcs arbitrary: ch)
    case (Cons rc rcs)
    from Cons.prems(3) obtain ch1 where h: "handleRecord wr rc ch = Done ch1 None" "handle_all wr rcs ch1 = Done ch' None"
      by (auto split: outcome.splits option.splits)
    note st = handleRecord_step [OF Cons.prems(1) h(1), of i]
    have "in_flight i ch1 \<noteq> None"
      using st Cons.prems(2,4) request_step_stays [of rc] by (cases "rc_Id rc = i") fastforce+
    with Cons.IH [of ch1] st h(2) Cons.prems(4) show ?case by auto
  qed auto
  then show ?thesis by (auto simp: handleRecord_def in_flight_def Let_def)
qed

text \<open>A length beyond the end of the parameters panics.\<close>

lemma bad_length_panics: "parse_pairs [CHR 0x05, CHR 0x00] [] = Panic [] ''runtime error: slice bounds out of range''"
  by code_simp

section \<open>Replies\<close>

text \<open>A response without buffers and records: its header, whether it was written, and the text so far.\<close>

type_synonym plain = "header \<times> bool \<times> string"

fun plain_WriteHeader :: "string \<Rightarrow> int \<Rightarrow> plain \<Rightarrow> plain" where
  "plain_WriteHeader now code (h, wrote, t) =
     (if wrote then (h, wrote, t)
      else (reply_header now code h, True,
            t @ ''Status: '' @ Itoa code @ '' '' @ StatusText code @ CRLF @
              concat (subset_lines (reply_header now code h) (\<lambda>k. False)) @ CRLF))"

fun plain_call :: "string \<Rightarrow> rw_call \<Rightarrow> plain \<Rightarrow> plain" where
  "plain_call now (RW_Set k v) (h, wrote, t) = (Set h k v, wrote, t)"
| "plain_call now (RW_WriteHeader code) r = plain_WriteHeader now code r"
| "plain_call now (RW_Write d) r = (case plain_WriteHeader now StatusOK r of (h, wrote, t) \<Rightarrow> (h, wrote, t @ d))"
| "plain_call now RW_Flush r = plain_WriteHeader now StatusOK r"
| "plain_call now RW_Hijack r = r"

definition plain_reply :: "string \<Rightarrow> rw_call list \<Rightarrow> string" where
  "plain_reply now calls = snd (snd (plain_call now RW_Flush (fold (plain_call now) calls ([], False, []))))"

definition refines :: "string \<Rightarrow> string fc_response \<Rightarrow> plain \<Rightarrow> bool" where
  "refines s0 r a \<longleftrightarrow>
     (case a of (h, wrote, t) \<Rightarrow>
        fr_header r = h \<and> fr_wroteHeader r = wrote \<and> streamed typeStdout (rq_reqId (fr_req r)) s0 t (fr_w r))"

lemma streamed_write_all:
  "streamed rt reqId s0 d bs \<Longrightarrow>
   streamed rt reqId s0 (d @ concat ls) (fst (write_all (string_writer (stream_write buffer_write rt reqId)) bs ls))"
proof (induction ls arbitrary: d bs)
  case (Cons l ls)
  let ?bs = "bio_WriteString (stream_write buffer_write rt reqId) l bs"
  have s: "streamed rt reqId s0 (d @ l) ?bs" by (rule streamed_WriteString [OF Cons.prems])
  then have "bw_err (fst ?bs) = None" by (simp add: streamed_def)
  with Cons.IH [OF s] show ?case by (simp add: string_writer_def Let_def)
qed simp

lemma refines_WriteHeader:
  assumes "refines s0 r a"
  shows "refines s0 (fr_WriteHeader buffer_write now code r) (plain_WriteHeader now code a)"
    and "fr_req (fr_WriteHeader buffer_write now code r) = fr_req r"
proof -
  obtain h wrote t where a: "a = (h, wrote, t)" by (rule prod_cases3)
  let ?line = "''Status: '' @ Itoa code @ '' '' @ StatusText code @ CRLF"
  from assms have r: "fr_header r = h" "fr_wroteHeader r = wrote" "streamed typeStdout (rq_reqId (fr_req r)) s0 t (fr_w r)"
    by (simp_all add: refines_def a)
  note s = streamed_WriteString [OF streamed_write_all [OF streamed_Write [OF r(3), of ?line],
      of "subset_lines (reply_header now code h) (\<lambda>k. False)"], of CRLF]
  show "refines s0 (fr_WriteHeader buffer_write now code r) (plain_WriteHeader now code a)"
    using r s by (auto simp: refines_def a fr_WriteHeader_def Let_def Write_def WriteSubset_def)
  show "fr_req (fr_WriteHeader buffer_write now code r) = fr_req r" by (simp add: fr_WriteHeader_def Let_def)
qed

lemma refines_header_once:
  "refines s0 r a \<Longrightarrow> fr_wroteHeader r \<Longrightarrow> plain_WriteHeader now code a = a"
  by (cases a) (auto simp: refines_def)

lemma refines_start:
  assumes "refines s0 r a" and "r1 = (if fr_wroteHeader r then r else fr_WriteHeader buffer_write now StatusOK r)"
  shows "refines s0 r1 (plain_WriteHeader now StatusOK a)" and "fr_req r1 = fr_req r"
  using assms refines_header_once [OF assms(1)] refines_WriteHeader [OF assms(1)] by auto

lemma refines_call:
  assumes "refines s0 r a"
  shows "refines s0 (fr_call buffer_write now c r) (plain_call now c a)" and "fr_req (fr_call buffer_write now c r) = fr_req r"
proof -
  note st = refines_start [OF assms refl, of now]
  have "refines s0 (fr_call buffer_write now c r) (plain_call now c a) \<and> fr_req (fr_call buffer_write now c r) = fr_req r"
  proof (cases c)
    case (RW_Set k v)
    with assms show ?thesis by (cases a) (auto simp: refines_def)
  next
    case (RW_WriteHeader code)
    with refines_WriteHeader [OF assms] show ?thesis by simp
  next
    case (RW_Write d)
    obtain h wrote t where p: "plain_WriteHeader now StatusOK a = (h, wrote, t)" by (rule prod_cases3)
    from st show ?thesis by (auto simp: RW_Write fr_Write_def Let_def p refines_def intro: streamed_Write)
  next
    case RW_Flush
    obtain h wrote t where p: "plain_WriteHeader now StatusOK a = (h, wrote, t)" by (rule prod_cases3)
    from st show ?thesis by (auto simp: RW_Flush fr_Flush_def Let_def p refines_def intro: streamed_Flush)
  next
    case RW_Hijack
    with assms show ?thesis by simp
  qed
  then show "refines s0 (fr_call buffer_write now c r) (plain_call now c a)" "fr_req (fr_call buffer_write now c r) = fr_req r"
    by blast+
qed

lemma refines_calls:
  "refines s0 r a \<Longrightarrow> refines s0 (fold (fr_call buffer_write now) calls r) (fold (plain_call now) calls a) \<and>
     fr_req (fold (fr_call buffer_write now) calls r) = fr_req r"
proof (induction calls arbitrary: r a)
  case (Cons c calls)
  from Cons.IH [OF refines_call(1) [OF Cons.prems, of now c]] refines_call(2) [OF Cons.prems, of now c] show ?case by simp
qed simp

text \<open>
  C32: The reply of a handler goes out whole and in order: the output records of the request hold, put
  together, the status line, the header and the data of a response that is not buffered or cut, then
  come the empty record that ends the stream and the end of the request, and nothing else.
\<close>

theorem fcgi_reply:
  assumes "from_map (rq_params req) = Inr hr"
  shows "\<exists>cs. serveRequest buffer_write now from_map handler req s =
      (s @ records typeStdout (rq_reqId req) (cs @ [[]]) @ record_bytes typeEndRequest (rq_reqId req) (replicate 8 (CHR 0x00)),
       \<not> rq_keepConn req) \<and>
    concat cs = plain_reply now (handler hr) \<and> pieces cs"
proof -
  let ?r1 = "fold (fr_call buffer_write now) (handler hr) (newResponse req s)"
  have "refines s (newResponse req s) ([], False, [])"
    by (simp add: refines_def newResponse_def streamed_new)
  from refines_calls [OF this, of now "handler hr"]
  have 1: "refines s ?r1 (fold (plain_call now) (handler hr) ([], False, []))" "fr_req ?r1 = req"
    by (simp_all add: newResponse_def)
  obtain h wrote t where p: "plain_call now RW_Flush (fold (plain_call now) (handler hr) ([], False, [])) = (h, wrote, t)"
    by (rule prod_cases3)
  from refines_call [OF 1(1), of now RW_Flush] p 1(2)
  have 2: "streamed typeStdout (rq_reqId req) s t (fr_w (fr_Flush buffer_write now ?r1))" "fr_req (fr_Flush buffer_write now ?r1) = req"
    by (simp_all add: refines_def)
  obtain cs bs where c: "bufWriter_Close buffer_write typeStdout (rq_reqId req) (fr_w (fr_Flush buffer_write now ?r1)) = (bs, None)"
    "snd bs = s @ records typeStdout (rq_reqId req) (cs @ [[]])" "concat cs = t" "pieces cs"
    by (rule streamed_Close [OF 2(1)])
  have e: "PutUint32 (word_of_int 0) @ [put8 statusRequestComplete] @ replicate 3 (CHR 0x00) = replicate 8 (CHR 0x00)"
  proof -
    have "replicate 3 x = [x, x, x]" "replicate 8 x = [x, x, x, x, x, x, x, x]" for x :: char
      by (simp_all add: numeral_3_eq_3 eval_nat_numeral)
    then show ?thesis by (simp add: PutUint32_def put8_def statusRequestComplete_def char_of_def)
  qed
  have t: "t = plain_reply now (handler hr)" unfolding plain_reply_def p by simp
  have f: "snd (fr_w (fst (fr_Close buffer_write now ?r1))) = snd bs"
    by (simp add: fr_Close_def Let_def c(1) 2(2))
  have "serveRequest buffer_write now from_map handler req s =
      (fst (writeEndRequest buffer_write (rq_reqId req) 0 statusRequestComplete (snd bs)), \<not> rq_keepConn req)"
    unfolding serveRequest_def Let_def assms sum.case f ..
  also have "fst (writeEndRequest buffer_write (rq_reqId req) 0 statusRequestComplete (snd bs)) =
      snd bs @ record_bytes typeEndRequest (rq_reqId req) (replicate 8 (CHR 0x00))"
    unfolding writeEndRequest_def writeRecord_buffer e fst_conv ..
  finally show ?thesis using c(2-4) t by (intro exI [of _ cs]) simp
qed

section \<open>Concrete runs\<close>

definition demo_pairs :: "(string \<times> string) list" where
  "demo_pairs = [(''REQUEST_METHOD'', ''GET''), (''QUERY_STRING'', [])]"

theorem fcgi_params_round_trip_witness:
  "\<exists>r1. child_serve buffer_write
      \<lparr>br_segs = [record_bytes typeBeginRequest 7 (PutUint16 roleResponder @ [put8 1] @ replicate 5 (CHR 0x00)),
         concat (map (\<lambda>c. record_bytes typeParams 7 [c]) (concat (map pair_bytes demo_pairs))),
         record_bytes typeParams 7 [] @ ''next''], br_end = io_EOF\<rparr> (newChild []) =
     child_serve buffer_write r1 (set_request 0 ((newRequest 7 1)\<lparr>rq_params := demo_pairs\<rparr>)
       ((newChild [])\<lparr>ch_requests := [(7, 0)], ch_next := 1\<rparr>)) \<and> br_rest r1 = ''next''"
proof -
  let ?c = "newChild [] :: string fc_child"
  let ?w = "record_bytes typeBeginRequest 7 (PutUint16 roleResponder @ [put8 1] @ replicate 5 (CHR 0x00))"
  let ?cs = "map (\<lambda>c. [c]) (concat (map pair_bytes demo_pairs))"
  let ?r = "\<lparr>br_segs = [?w, concat (map (\<lambda>c. record_bytes typeParams 7 [c]) (concat (map pair_bytes demo_pairs))),
         record_bytes typeParams 7 [] @ ''next''], br_end = io_EOF\<rparr>"
  have c1: "gomap_get (ch_requests (newChild [] :: string fc_child)) 7 = None" by (simp add: newChild_def)
  have c2: "distinct (map fst demo_pairs)" "\<forall>kv \<in> set demo_pairs. short_pair kv" "length (concat (map pair_bytes demo_pairs)) < 2 ^ 32"
    by (simp_all add: demo_pairs_def short_pair_def pair_bytes_def encodeSize_def PutUint32_def)
  have w1: "writeBeginRequest buffer_write 7 roleResponder 1 [] = (?w, None)" by (simp add: writeBeginRequest_def)
  have one: "concat (map (\<lambda>c. [c]) s) = s" for s :: string by (induction s) simp_all
  have cut: "concat ?cs = concat (map pair_bytes demo_pairs)" by (rule one)
  have short: "\<forall>c \<in> set ?cs. c \<noteq> [] \<and> length c \<le> 65535" by auto
  have rest: "br_rest ?r = ?w @ concat (map (record_bytes typeParams 7) ?cs) @ record_bytes typeParams 7 [] @ ''next''"
    by (simp add: br_rest_def comp_def)
  from fcgi_params_round_trip [OF c1 c2 w1 cut short rest, of buffer_write] show ?thesis by (simp add: newChild_def)
qed

definition demo_records :: "fc_record list" where
  "demo_records =
     [record_of typeBeginRequest 1 (PutUint16 1 @ [CHR 0x01] @ replicate 5 (CHR 0x00)),
      record_of typeBeginRequest 2 (PutUint16 1 @ [CHR 0x01] @ replicate 5 (CHR 0x00)),
      record_of typeParams 2 ''other'', record_of typeParams 1 ''one'', record_of typeStdin 2 ''body'', record_of typeParams 1 ''more'']"

theorem fcgi_multiplexing_witness:
  "\<exists>ch1. handle_all buffer_write (filter (\<lambda>rc. rc_Id rc = 1) demo_records) (newChild []) = Done ch1 None \<and>
     in_flight 1 ch1 = Some ((newRequest 1 1)\<lparr>rq_rawParams := ''onemore''\<rparr>)"
proof -
  obtain ch' where run: "handle_all buffer_write demo_records (newChild []) = Done ch' None"
    and got: "in_flight 1 ch' = Some ((newRequest 1 1)\<lparr>rq_rawParams := ''onemore''\<rparr>)"
  proof -
    have "case handle_all buffer_write demo_records (newChild []) of
        Done ch' e \<Rightarrow> e = None \<and> in_flight 1 ch' = Some ((newRequest 1 1)\<lparr>rq_rawParams := ''onemore''\<rparr>)
      | _ \<Rightarrow> False" by code_simp
    with that show ?thesis by (auto split: outcome.splits)
  qed
  have "child_inv (newChild [])" by (simp add: child_inv_def newChild_def)
  from fcgi_multiplexing [OF this run, of 1] got show ?thesis by simp
qed

theorem fcgi_reply_witness:
  "\<exists>cs. fst (serveRequest buffer_write ''now'' (\<lambda>ps. Inr ps) (\<lambda>ps. [RW_Write ''hello'']) ((newRequest 3 0)\<lparr>rq_params := demo_pairs\<rparr>) []) =
      records typeStdout 3 (cs @ [[]]) @ record_bytes typeEndRequest 3 (replicate 8 (CHR 0x00)) \<and>
    concat cs = ''Status: 200 OK'' @ CRLF @ ''Content-Type: text/html; charset=utf-8'' @ CRLF @ ''Date: now'' @ CRLF @ CRLF @ ''hello''"
proof -
  let ?req = "(newRequest 3 0)\<lparr>rq_params := demo_pairs\<rparr>"
  have "plain_reply ''now'' [RW_Write ''hello''] =
      ''Status: 200 OK'' @ CRLF @ ''Content-Type: text/html; charset=utf-8'' @ CRLF @ ''Date: now'' @ CRLF @ CRLF @ ''hello''"
  proof -
    have "reply_header ''now'' 200 [] = [(''Content-Type'', [''text/html; charset=utf-8'']), (''Date'', [''now''])]" by code_simp
    moreover have "subset_lines [(''Content-Type'', [''text/html; charset=utf-8'']), (''Date'', [''now''])] (\<lambda>k. False) =
        [''Content-Type: text/html; charset=utf-8'' @ CRLF, ''Date: now'' @ CRLF]" by code_simp
    moreover have "Itoa 200 = ''200''" by code_simp
    moreover have "StatusText 200 = ''OK''" by code_simp
    ultimately show ?thesis by (simp add: plain_reply_def)
  qed
  with fcgi_reply [of "\<lambda>ps. Inr ps" ?req "rq_params ?req" "''now''" "\<lambda>ps. [RW_Write ''hello'']" "[]"]
  show ?thesis by (auto simp: newRequest_def)
qed

text \<open>A begin record, its parameters and the end of its body; then the same identifier again.\<close>

theorem fcgi_id_stays_taken_witness:
  "\<exists>ch' b. handle_all buffer_write
      [record_of typeBeginRequest 1 (PutUint16 1 @ [CHR 0x01] @ replicate 5 (CHR 0x00)), record_of typeParams 1 [], record_of typeStdin 1 []]
      (newChild []) = Done ch' None \<and>
    handleRecord buffer_write (record_of typeBeginRequest 1 b) ch' = Done ch' (Some errInFlight)"
proof -
  let ?rc = "record_of typeBeginRequest 1 (PutUint16 1 @ [CHR 0x01] @ replicate 5 (CHR 0x00))"
  let ?rcs = "[record_of typeParams 1 [], record_of typeStdin 1 []]"
  have i: "child_inv (newChild [] :: string fc_child)" by (simp add: child_inv_def newChild_def)
  have "case handleRecord buffer_write ?rc (newChild []) of
      Done ch e \<Rightarrow> e = None \<and> in_flight 1 ch \<noteq> None \<and>
        (case handle_all buffer_write ?rcs ch of Done ch' e' \<Rightarrow> e' = None | _ \<Rightarrow> False)
    | _ \<Rightarrow> False" by code_simp
  then obtain ch ch' where h: "handleRecord buffer_write ?rc (newChild []) = Done ch None" "in_flight 1 ch \<noteq> None"
    "handle_all buffer_write ?rcs ch = Done ch' None" by (auto split: outcome.splits)
  have "child_inv ch" using handleRecord_step [OF i h(1)] by blast
  from fcgi_id_stays_taken [OF this h(2,3)] h show ?thesis by (auto simp: recType_defs)
qed

end
