(* ===== verification/Cgi.thy ===== *)
theory Cgi
  imports HttpMsg Mux Respond
begin

text \<open>
  CGI, \<open>http/cgi\<close>: the host, which runs a program for a request (\<open>host.go\<close>), and the child, which is such a
  program (\<open>child.go\<close>). The environment of the operating system is the argument \<open>getenv\<close>, starting the program is
  \<open>start\<close>, which gives its standard output; TLS is a flag. Messages to a log are left out.
\<close>

section \<open>The child\<close>

definition params_get :: "(string, string) gomap \<Rightarrow> string \<Rightarrow> string" where
  "params_get params k = (case gomap_get params k of None \<Rightarrow> [] | Some v \<Rightarrow> v)"

definition env_key :: "string \<Rightarrow> string" where
  "env_key kv = takeWhile (\<lambda>c. c \<noteq> CHR ''='') kv"

definition env_val :: "string \<Rightarrow> string" where
  "env_val kv = tl (dropWhile (\<lambda>c. c \<noteq> CHR ''='') kv)"

definition envMap :: "string list \<Rightarrow> (string, string) gomap" where
  "envMap env = fold (\<lambda>kv m. if CHR ''='' \<in> set kv then gomap_set (env_key kv) (env_val kv) m else m) env []"

definition JoinHostPort :: "string \<Rightarrow> string \<Rightarrow> string" where
  "JoinHostPort host port =
     (if CHR '':'' \<in> set host \<or> CHR ''%'' \<in> set host then ''['' @ host @ '']:'' @ port else host @ '':'' @ port)"

text \<open>A variable that stands for a header field, and the name of the field.\<close>

definition is_field :: "string \<Rightarrow> bool" where
  "is_field k \<longleftrightarrow> HasPrefix k ''HTTP_'' \<and> k \<noteq> ''HTTP_HOST''"

definition field_name :: "string \<Rightarrow> string" where
  "field_name k = map (\<lambda>c. if c = CHR ''_'' then CHR ''-'' else c) (drop 5 k)"

text \<open>The loop over the variables, in the order in which the runtime visits the map.\<close>

definition add_fields :: "(string, string) gomap \<Rightarrow> header \<Rightarrow> header" where
  "add_fields params h = fold (\<lambda>(k, v) h. if is_field k then Add h (field_name k) v else h) params h"

definition map_URL :: "url_lib \<Rightarrow> (string, string) gomap \<Rightarrow> error + URL" where
  "map_URL U params =
     (let host = params_get params ''HTTP_HOST'';
          raw = (if host \<noteq> [] then ''http://'' @ host @ params_get params ''REQUEST_URI'' else params_get params ''REQUEST_URI'')
      in case u_Parse U raw of
           Inl e \<Rightarrow> Inl ((if host \<noteq> [] then ''cgi: failed to parse host and REQUEST_URI into a URL: ''
                         else ''cgi: failed to parse REQUEST_URI into a URL: '') @ raw)
         | Inr u \<Rightarrow> Inr u)"

definition RequestFromMap :: "url_lib \<Rightarrow> (string, string) gomap \<Rightarrow> error + 'b Request" where
  "RequestFromMap U params =
     (if params_get params ''REQUEST_METHOD'' = [] then Inl ''cgi: no REQUEST_METHOD in environment''
      else (case ParseHTTPVersion (params_get params ''SERVER_PROTOCOL'') of
        (major, minor, ok) \<Rightarrow>
          if \<not> ok then Inl ''cgi: invalid SERVER_PROTOCOL version''
          else let lenstr = params_get params ''CONTENT_LENGTH''; ct = params_get params ''CONTENT_TYPE''
               in case (if lenstr = [] then Some 0 else ParseInt lenstr) of
                    None \<Rightarrow> Inl (''cgi: bad CONTENT_LENGTH in environment: '' @ lenstr)
                  | Some clen \<Rightarrow>
                      (case map_URL U params of
                         Inl e \<Rightarrow> Inl e
                       | Inr u \<Rightarrow>
                           Inr \<lparr>req_Method = params_get params ''REQUEST_METHOD'', req_URL = u,
                             req_Proto = params_get params ''SERVER_PROTOCOL'', req_ProtoMajor = major, req_ProtoMinor = minor,
                             req_Header = add_fields params (if ct \<noteq> [] then Set [] ''Content-Type'' ct else []),
                             req_Body = None, req_ContentLength = clen, req_TransferEncoding = [], req_Close = True,
                             req_Host = params_get params ''HTTP_HOST'', req_Trailer = Some [],
                             req_RemoteAddr = JoinHostPort (params_get params ''REMOTE_ADDR'') ''0'', req_RequestURI = []\<rparr>)))"

text \<open>A body is a limited reader on the standard input.\<close>

definition cgi_Request :: "url_lib \<Rightarrow> string list \<Rightarrow> bufreader \<Rightarrow> error + (bufreader \<times> nat) Request" where
  "cgi_Request U environ stdin =
     (case RequestFromMap U (envMap environ) of
        Inl e \<Rightarrow> Inl e
      | Inr r \<Rightarrow>
          Inr (if 0 < req_ContentLength r then r\<lparr>req_Body := Some (stdin, nat (req_ContentLength r))\<rparr> else r))"

text \<open>The response, on a buffered standard output whose state is \<open>'s\<close>.\<close>

record 's cgi_response =
  cgr_header :: header
  cgr_out :: 's
  cgr_headerSent :: bool

definition cgi_WriteHeader :: "'s bufwriter \<Rightarrow> int \<Rightarrow> 's cgi_response \<Rightarrow> 's cgi_response" where
  "cgi_WriteHeader bw code r =
     (if cgr_headerSent r then r
      else let s1 = fst (bw_Write bw (cgr_out r) (''Status: '' @ Itoa code @ '' '' @ StatusText code @ CRLF));
               h = (if gomap_get (cgr_header r) ''Content-Type'' = None
                    then Add (cgr_header r) ''Content-Type'' ''text/html; charset=utf-8'' else cgr_header r);
               s2 = fst (Write (bw_Write bw) s1 h);
               s3 = fst (bw_Write bw s2 CRLF)
           in \<lparr>cgr_header = h, cgr_out = bw_Flush bw s3, cgr_headerSent = True\<rparr>)"

definition cgi_Write :: "'s bufwriter \<Rightarrow> string \<Rightarrow> 's cgi_response \<Rightarrow> 's cgi_response" where
  "cgi_Write bw d r =
     (let r1 = (if cgr_headerSent r then r else cgi_WriteHeader bw StatusOK r)
      in r1\<lparr>cgr_out := fst (bw_Write bw (cgr_out r1) d)\<rparr>)"

fun cgi_call :: "'s bufwriter \<Rightarrow> rw_call \<Rightarrow> 's cgi_response \<Rightarrow> 's cgi_response" where
  "cgi_call bw (RW_Set k v) r = r\<lparr>cgr_header := Set (cgr_header r) k v\<rparr>"
| "cgi_call bw (RW_WriteHeader code) r = cgi_WriteHeader bw code r"
| "cgi_call bw (RW_Write d) r = cgi_Write bw d r"
| "cgi_call bw RW_Flush r = r\<lparr>cgr_out := bw_Flush bw (cgr_out r)\<rparr>"
| "cgi_call bw RW_Hijack r = r"

text \<open>\<open>Serve\<close>: the last, empty write makes sure that a response is sent.\<close>

definition cgi_Serve ::
  "url_lib \<Rightarrow> 's bufwriter \<Rightarrow> string list \<Rightarrow> bufreader \<Rightarrow> ((bufreader \<times> nat) Request \<Rightarrow> rw_call list) \<Rightarrow> 's \<Rightarrow> 's \<times> error option" where
  "cgi_Serve U bw environ stdin handler s =
     (case cgi_Request U environ stdin of
        Inl e \<Rightarrow> (s, Some e)
      | Inr r \<Rightarrow>
          (let w = fold (cgi_call bw) (handler r) \<lparr>cgr_header = [], cgr_out = s, cgr_headerSent = False\<rparr>;
               w1 = cgi_Write bw [] w
           in (bw_Flush bw (cgr_out w1), None)))"

section \<open>The environment of the program\<close>

definition osDefaultInheritEnv :: "(string, string list) gomap" where
  "osDefaultInheritEnv =
     [(''darwin'', [''DYLD_LIBRARY_PATH'']),
      (''freebsd'', [''LD_LIBRARY_PATH'']),
      (''hpux'', [''LD_LIBRARY_PATH'', ''SHLIB_PATH'']),
      (''irix'', [''LD_LIBRARY_PATH'', ''LD_LIBRARYN32_PATH'', ''LD_LIBRARY64_PATH'']),
      (''linux'', [''LD_LIBRARY_PATH'']),
      (''openbsd'', [''LD_LIBRARY_PATH'']),
      (''solaris'', [''LD_LIBRARY_PATH'', ''LD_LIBRARY_PATH_32'', ''LD_LIBRARY_PATH_64'']),
      (''windows'', [''SystemRoot'', ''COMSPEC'', ''PATHEXT'', ''WINDIR''])]"

record cgi_Handler =
  cg_Path :: string
  cg_Root :: string
  cg_Dir :: string
  cg_Env :: "string list"
  cg_InheritEnv :: "string list"
  cg_Args :: "string list"
  cg_PathLocationHandler :: bool

text \<open>An entry is dropped if a later one has its key.\<close>

fun removeLeadingDuplicates :: "string list \<Rightarrow> string list" where
  "removeLeadingDuplicates [] = []"
| "removeLeadingDuplicates (e # es) =
     (if list_ex (\<lambda>e'. env_key e = env_key e') es then removeLeadingDuplicates es else e # removeLeadingDuplicates es)"

definition upperCaseAndUnderscore :: "char \<Rightarrow> char" where
  "upperCaseAndUnderscore c =
     (if 97 \<le> byte c \<and> byte c \<le> 122 then char_of (byte c - 32)
      else if c = CHR ''-'' then CHR ''_'' else if c = CHR ''='' then CHR ''_'' else c)"

text \<open>\<open>strings.Map\<close>; \<open>um\<close> is what it does to a name with a byte above 127.\<close>

definition map_name :: "(string \<Rightarrow> string) \<Rightarrow> string \<Rightarrow> string" where
  "map_name um k = (if list_all is_ascii k then map upperCaseAndUnderscore k else um k)"

fun join_with :: "string \<Rightarrow> string list \<Rightarrow> string" where
  "join_with sep [] = []"
| "join_with sep [s] = s"
| "join_with sep (s # t # ss) = s @ sep @ join_with sep (t # ss)"

text \<open>The digits behind the last colon, if there are digits only.\<close>

definition trailingPort :: "string \<Rightarrow> string option" where
  "trailingPort host =
     (let ds = rev (takeWhile is_digit (rev host)); rest = dropWhile is_digit (rev host)
      in if ds \<noteq> [] \<and> rest \<noteq> [] \<and> hd rest = CHR '':'' then Some ds else None)"

definition field_entry :: "(string \<Rightarrow> string) \<Rightarrow> string \<times> string list \<Rightarrow> string" where
  "field_entry um kvs =
     (let k = map_name um (fst kvs)
      in ''HTTP_'' @ k @ ''='' @ join_with (if k = ''COOKIE'' then ''; '' else '', '') (snd kvs))"

definition base_env :: "url_lib \<Rightarrow> cgi_Handler \<Rightarrow> 'b Request \<Rightarrow> string list" where
  "base_env U h req =
     (let root = (if cg_Root h = [] then ''/'' else cg_Root h);
          path = url_Path (req_URL req);
          pathInfo = (if root \<noteq> ''/'' \<and> HasPrefix path root then drop (length root) path else path);
          port = (case trailingPort (req_Host req) of None \<Rightarrow> ''80'' | Some p \<Rightarrow> p)
      in [''SERVER_SOFTWARE=go'', ''SERVER_NAME='' @ req_Host req, ''SERVER_PROTOCOL=HTTP/1.1'', ''HTTP_HOST='' @ req_Host req,
          ''GATEWAY_INTERFACE=CGI/1.1'', ''REQUEST_METHOD='' @ req_Method req, ''QUERY_STRING='' @ url_RawQuery (req_URL req),
          ''REQUEST_URI='' @ u_RequestURI U (req_URL req), ''PATH_INFO='' @ pathInfo, ''SCRIPT_NAME='' @ root,
          ''SCRIPT_FILENAME='' @ cg_Path h, ''REMOTE_ADDR='' @ req_RemoteAddr req, ''REMOTE_HOST='' @ req_RemoteAddr req,
          ''SERVER_PORT='' @ port])"

text \<open>What comes behind the variables of the request: those of the handler and of the operating system.\<close>

definition inherited :: "(string \<Rightarrow> string) \<Rightarrow> string list \<Rightarrow> string list" where
  "inherited getenv names = map (\<lambda>e. e @ ''='' @ getenv e) (filter (\<lambda>e. getenv e \<noteq> []) names)"

definition extra_env :: "(string \<Rightarrow> string) \<Rightarrow> string \<Rightarrow> cgi_Handler \<Rightarrow> string list" where
  "extra_env getenv GOOS h =
     (let envPath = (if getenv ''PATH'' = [] then ''/bin:/usr/bin:/usr/ucb:/usr/bsd:/usr/local/bin'' else getenv ''PATH'')
      in cg_Env h @ [''PATH='' @ envPath] @ inherited getenv (cg_InheritEnv h) @
         inherited getenv (case gomap_get osDefaultInheritEnv GOOS of None \<Rightarrow> [] | Some es \<Rightarrow> es))"

definition request_env :: "url_lib \<Rightarrow> (string \<Rightarrow> string) \<Rightarrow> cgi_Handler \<Rightarrow> bool \<Rightarrow> 'b Request \<Rightarrow> string list" where
  "request_env U um h tls req =
     base_env U h req @ (if tls then [''HTTPS=on''] else []) @ map (field_entry um) (req_Header req) @
     (if 0 < req_ContentLength req then [''CONTENT_LENGTH='' @ Itoa (req_ContentLength req)] else []) @
     (let ctype = Get (req_Header req) ''Content-Type'' in if ctype \<noteq> [] then [''CONTENT_TYPE='' @ ctype] else [])"

definition cgi_env ::
  "url_lib \<Rightarrow> (string \<Rightarrow> string) \<Rightarrow> (string \<Rightarrow> string) \<Rightarrow> string \<Rightarrow> cgi_Handler \<Rightarrow> bool \<Rightarrow> 'b Request \<Rightarrow> string list" where
  "cgi_env U um getenv GOOS h tls req = removeLeadingDuplicates (request_env U um h tls req @ extra_env getenv GOOS h)"

section \<open>Running it\<close>

record Cmd =
  cmd_Path :: string
  cmd_Args :: "string list"
  cmd_Dir :: string
  cmd_Env :: "string list"
  cmd_Stdin :: bool

definition cgi_Cmd :: "cgi_Handler \<Rightarrow> string list \<Rightarrow> 'b Request \<Rightarrow> Cmd" where
  "cgi_Cmd h env req =
     (let dir = path_dir (cg_Path h);
          (cwd, path) = (if cg_Dir h \<noteq> [] then (cg_Dir h, cg_Path h) else (dir, drop (length dir) (cg_Path h)))
      in \<lparr>cmd_Path = path, cmd_Args = cg_Path h # cg_Args h, cmd_Dir = (if cwd = [] then ''.'' else cwd), cmd_Env = env,
          cmd_Stdin = (req_ContentLength req \<noteq> 0)\<rparr>)"

text \<open>
  \<open>bufio.Reader.ReadLine\<close> with a buffer of \<open>n\<close> bytes: a line without its end, and whether it is only the
  beginning of one.
\<close>

definition ReadLine :: "nat \<Rightarrow> bufreader \<Rightarrow> bufreader \<times> string \<times> bool \<times> error option" where
  "ReadLine n r =
     (let s = br_rest r; a = takeWhile (\<lambda>c. c \<noteq> LF) s
      in if LF \<in> set s \<and> length a < n
         then (br_skip (Suc (length a)) r, if a \<noteq> [] \<and> last a = CR then butlast a else a, False, None)
         else if n \<le> length s then (br_skip n r, take n s, True, None)
         else if s = [] then (r, [], False, Some (br_end r))
         else (r\<lparr>br_segs := []\<rparr>, s, False, None))"

text \<open>
  How the host answers: with a status alone and a text, with the header, status and body of the program,
  with nothing, or by serving another request internally.
\<close>

datatype cgi_reply =
    StatusReply int string
  | ProgramReply "(string \<times> string) list" int string
  | NoReply
  | InternalRedirect "user_body Request"

lemma ReadLine_shorter: "ReadLine n r = (r1, l, p, None) \<Longrightarrow> 0 < n \<Longrightarrow> length (br_rest r1) < length (br_rest r)"
  using length_pos_if_in_set [of LF "br_rest r"] by (auto simp: ReadLine_def Let_def split: if_splits)

text \<open>The header of the program's output: the fields, the status, or the end of it all.\<close>

function cgi_header :: "bufreader \<Rightarrow> header \<Rightarrow> int \<Rightarrow> cgi_reply + header \<times> int \<times> bufreader" where
  "cgi_header r h statusCode =
     (case ReadLine 1024 r of
        (r1, l, isPrefix, err) \<Rightarrow>
          if isPrefix then Inl (StatusReply StatusInternalServerError [])
          else if err = Some io_EOF then Inr (h, statusCode, r1)
          else if err \<noteq> None then Inl (StatusReply StatusInternalServerError [])
          else if l = [] then Inr (h, statusCode, r1)
          else (case SplitN 2 (CHR '':'') l of
                  [f, v] \<Rightarrow>
                    (let header = TrimSpace f; val = TrimSpace v
                     in if header = ''Status''
                        then (if length val < 3 then Inl NoReply
                              else case Atoi (take 3 val) of
                                     None \<Rightarrow> Inl NoReply
                                   | Some code \<Rightarrow> cgi_header r1 h code)
                        else cgi_header r1 (Add h header val) statusCode)
                | _ \<Rightarrow> cgi_header r1 h statusCode))"
  by pat_completeness auto

termination
  by (relation "measure (\<lambda>(r, h, c). length (br_rest r))") (auto dest!: sym [of "(_, _, _, _)"] intro!: ReadLine_shorter)

declare cgi_header.simps [simp del]

definition internal_request :: "url_lib \<Rightarrow> user_body Request \<Rightarrow> string \<Rightarrow> cgi_reply" where
  "internal_request U req path =
     (case u_Resolve U (req_URL req) path of
        Inl e \<Rightarrow> StatusReply StatusInternalServerError []
      | Inr u \<Rightarrow>
          InternalRedirect \<lparr>req_Method = ''GET'', req_URL = u, req_Proto = ''HTTP/1.1'', req_ProtoMajor = 1,
            req_ProtoMinor = 1, req_Header = [], req_Body = None, req_ContentLength = 0, req_TransferEncoding = [],
            req_Close = False, req_Host = url_Host u, req_Trailer = None, req_RemoteAddr = req_RemoteAddr req,
            req_RequestURI = []\<rparr>)"

text \<open>The fields in the order in which the runtime visits the map.\<close>

definition program_reply :: "url_lib \<Rightarrow> cgi_Handler \<Rightarrow> user_body Request \<Rightarrow> header \<times> int \<times> bufreader \<Rightarrow> cgi_reply" where
  "program_reply U h req hsr =
     (case hsr of (headers, statusCode, r) \<Rightarrow>
        (let loc = Get headers ''Location''
         in if loc \<noteq> [] \<and> HasPrefix loc ''/'' \<and> cg_PathLocationHandler h then internal_request U req loc
            else let code1 = (if loc \<noteq> [] \<and> statusCode = 0 then StatusFound else statusCode);
                     code2 = (if code1 = 0 then StatusOK else code1)
                 in ProgramReply (concat (map (\<lambda>(k, vv). map (Pair k) vv) headers)) code2 (br_rest r)))"

definition cgi_ServeHTTP ::
  "url_lib \<Rightarrow> (string \<Rightarrow> string) \<Rightarrow> (string \<Rightarrow> string) \<Rightarrow> string \<Rightarrow> (Cmd \<Rightarrow> error + bufreader) \<Rightarrow> cgi_Handler \<Rightarrow> bool \<Rightarrow>
   user_body Request \<Rightarrow> cgi_reply" where
  "cgi_ServeHTTP U um getenv GOOS start h tls req =
     (if req_TransferEncoding req \<noteq> [] \<and> hd (req_TransferEncoding req) = ''chunked''
      then StatusReply StatusBadRequest ''Chunked request bodies are not supported by CGI.''
      else (case start (cgi_Cmd h (cgi_env U um getenv GOOS h tls req) req) of
              Inl e \<Rightarrow> StatusReply StatusInternalServerError []
            | Inr out \<Rightarrow>
                (case cgi_header out [] 0 of
                   Inl rep \<Rightarrow> rep
                 | Inr hsr \<Rightarrow> program_reply U h req hsr)))"

end
