(* ===== verification/CgiSpec.thy ===== *)
theory CgiSpec
  imports Cgi Messages
begin

text \<open>What the child of a CGI host learns of a request: the request itself, as far as CGI carries it.\<close>

section \<open>Environments\<close>

definition split_entry :: "string \<Rightarrow> string \<times> string" where
  "split_entry e = (env_key e, env_val e)"

lemma env_entry [simp]:
  "CHR ''='' \<notin> set k \<Longrightarrow> env_key (k @ CHR ''='' # v) = k" "CHR ''='' \<notin> set k \<Longrightarrow> env_val (k @ CHR ''='' # v) = v"
  by (simp_all add: env_key_def env_val_def)

lemma set_removeLeadingDuplicates: "set (removeLeadingDuplicates es) \<subseteq> set es"
  by (induction es) auto

lemma env_key_removeLeadingDuplicates: "env_key ` set (removeLeadingDuplicates es) = env_key ` set es"
  by (induction es) (auto simp: list_ex_iff)

lemma distinct_removeLeadingDuplicates: "distinct (map env_key (removeLeadingDuplicates es))"
proof (induction es)
  case (Cons e es)
  have "env_key e \<in> env_key ` set (removeLeadingDuplicates es) \<longleftrightarrow> list_ex (\<lambda>e'. env_key e = env_key e') es"
    unfolding env_key_removeLeadingDuplicates by (auto simp: list_ex_iff)
  with Cons show ?case by auto
qed simp

lemma removeLeadingDuplicates_distinct: "distinct (map env_key es) \<Longrightarrow> removeLeadingDuplicates es = es"
  by (induction es) (auto simp: list_ex_iff)

lemma filter_removeLeadingDuplicates:
  "filter (\<lambda>e. P (env_key e)) (removeLeadingDuplicates es) = removeLeadingDuplicates (filter (\<lambda>e. P (env_key e)) es)"
  by (induction es) (auto simp: list_ex_iff)

lemma fold_set_entries:
  assumes "distinct (map env_key es)" and "\<forall>e \<in> set es. CHR ''='' \<in> set e" and "\<forall>e \<in> set es. gomap_get m (env_key e) = None"
  shows "fold (\<lambda>kv m. if CHR ''='' \<in> set kv then gomap_set (env_key kv) (env_val kv) m else m) es m = m @ map split_entry es"
  using assms
proof (induction es arbitrary: m)
  case (Cons e es)
  have "gomap_set (env_key e) (env_val e) m = m @ [split_entry e]"
    using Cons.prems(3) by (simp add: gomap_set_fresh split_entry_def)
  moreover have "\<forall>e' \<in> set es. gomap_get (m @ [split_entry e]) (env_key e') = None"
    using Cons.prems(1,3) by (auto simp: split_entry_def map_add_def image_iff split: option.split)
  ultimately show ?case using Cons.IH [of "m @ [split_entry e]"] Cons.prems by simp
qed simp

lemma envMap_removeLeadingDuplicates:
  assumes "\<forall>e \<in> set es. CHR ''='' \<in> set e"
  shows "envMap (removeLeadingDuplicates es) = map split_entry (removeLeadingDuplicates es)"
proof -
  have "\<forall>e \<in> set (removeLeadingDuplicates es). CHR ''='' \<in> set e"
    using assms set_removeLeadingDuplicates by blast
  from fold_set_entries [OF distinct_removeLeadingDuplicates this, of "[]"] show ?thesis by (simp add: envMap_def)
qed

text \<open>The value of a variable with one entry, and the entries a loop over all of them picks out.\<close>

lemma envMap_get:
  assumes "\<forall>e \<in> set es. CHR ''='' \<in> set e" and "mset params = mset (envMap (removeLeadingDuplicates es))"
    and "filter (\<lambda>e. env_key e = k) es = [e]"
  shows "gomap_get params k = Some (env_val e)"
proof -
  have "removeLeadingDuplicates (filter (\<lambda>e. env_key e = k) es) = [e]" unfolding assms(3) by simp
  then have "filter (\<lambda>e. env_key e = k) (removeLeadingDuplicates es) = [e]" by (simp only: filter_removeLeadingDuplicates [of "\<lambda>x. x = k"])
  then have "e \<in> set (filter (\<lambda>e. env_key e = k) (removeLeadingDuplicates es))" by simp
  then have "(k, env_val e) \<in> set (map split_entry (removeLeadingDuplicates es))" by (auto simp: split_entry_def)
  moreover have "set params = set (map split_entry (removeLeadingDuplicates es))"
    using mset_eq_setD [OF assms(2)] unfolding envMap_removeLeadingDuplicates [OF assms(1)] .
  ultimately have i: "(k, env_val e) \<in> set params" by blast
  have "gomap_wf (map split_entry (removeLeadingDuplicates es))"
    using distinct_removeLeadingDuplicates by (simp add: gomap_wf_def split_entry_def comp_def)
  then have "gomap_wf params"
    by (rule gomap_order_wf [OF assms(2) [unfolded envMap_removeLeadingDuplicates [OF assms(1)]]])
  with i show ?thesis by (simp add: gomap_get_in)
qed

lemma envMap_get_none:
  assumes "\<forall>e \<in> set es. CHR ''='' \<in> set e" and "mset params = mset (envMap (removeLeadingDuplicates es))"
    and "filter (\<lambda>e. env_key e = k) es = []"
  shows "gomap_get params k = None"
proof -
  have "set params = split_entry ` set (removeLeadingDuplicates es)"
    using mset_eq_setD [OF assms(2)] unfolding envMap_removeLeadingDuplicates [OF assms(1)] by simp
  moreover have "\<forall>e \<in> set (removeLeadingDuplicates es). env_key e \<noteq> k"
    using assms(3) set_removeLeadingDuplicates by (auto simp: filter_empty_conv)
  ultimately show ?thesis by (auto simp: map_of_eq_None_iff split_entry_def)
qed

lemma envMap_filter:
  assumes "\<forall>e \<in> set es. CHR ''='' \<in> set e" and "mset params = mset (envMap (removeLeadingDuplicates es))"
    and "filter (\<lambda>e. P (env_key e)) es = fs" and "distinct (map env_key fs)"
  shows "mset (filter (\<lambda>kv. P (fst kv)) params) = mset (map split_entry fs)"
proof -
  have "filter (\<lambda>e. P (env_key e)) (removeLeadingDuplicates es) = fs"
    unfolding filter_removeLeadingDuplicates assms(3) by (rule removeLeadingDuplicates_distinct [OF assms(4)])
  then have "filter (\<lambda>kv. P (fst kv)) (map split_entry (removeLeadingDuplicates es)) = map split_entry fs"
    by (simp add: filter_map comp_def split_entry_def)
  with assms(2) show ?thesis unfolding envMap_removeLeadingDuplicates [OF assms(1)] by (metis mset_filter)
qed

section \<open>Header fields\<close>

text \<open>A name of letters, digits and hyphens in its canonical form survives the way through the environment.\<close>

definition cgi_name :: "string \<Rightarrow> bool" where
  "cgi_name k \<longleftrightarrow> list_all (\<lambda>c. is_alnum c \<or> c = CHR ''-'') k \<and> CanonicalHeaderKey k = k"

lemma alnum_other: "is_alnum c \<Longrightarrow> c \<noteq> CHR ''_'' \<and> c \<noteq> CHR ''='' \<and> c \<noteq> CHR ''-'' \<and> is_ascii c"
  by (auto simp: is_alnum_def is_ascii_def)

lemma upperCaseAndUnderscore_alnum: "is_alnum c \<Longrightarrow> upperCaseAndUnderscore c = upper_byte c"
  using alnum_other [of c] by (simp add: upperCaseAndUnderscore_def upper_byte_def)

lemma env_char:
  assumes "is_alnum c \<or> c = CHR ''-''"
  shows "(if upperCaseAndUnderscore c = CHR ''_'' then CHR ''-'' else upperCaseAndUnderscore c) = upper_byte c"
    and "upperCaseAndUnderscore c \<noteq> CHR ''=''" and "is_ascii c" and "valid_field_byte c"
proof -
  have "(if upperCaseAndUnderscore c = CHR ''_'' then CHR ''-'' else upperCaseAndUnderscore c) = upper_byte c \<and>
      upperCaseAndUnderscore c \<noteq> CHR ''='' \<and> is_ascii c \<and> valid_field_byte c"
  proof (cases "is_alnum c")
    case True
    with alnum_other [of c] alnum_other [of "upper_byte c"] show ?thesis
      by (simp add: upperCaseAndUnderscore_alnum valid_field_byte_def)
  next
    case False
    with assms have "c = CHR ''-''" by simp
    then show ?thesis by (simp, code_simp)
  qed
  then show "(if upperCaseAndUnderscore c = CHR ''_'' then CHR ''-'' else upperCaseAndUnderscore c) = upper_byte c"
    "upperCaseAndUnderscore c \<noteq> CHR ''=''" "is_ascii c" "valid_field_byte c" by blast+
qed

abbreviation field_key :: "string \<Rightarrow> string" where
  "field_key k \<equiv> ''HTTP_'' @ map upperCaseAndUnderscore k"

lemma cgi_name_chars: "cgi_name k \<Longrightarrow> c \<in> set k \<Longrightarrow> is_alnum c \<or> c = CHR ''-''"
  by (simp add: cgi_name_def list_all_iff)

lemma field_entry_parts:
  assumes "cgi_name k"
  shows "field_entry um (k, vs) = field_key k @ CHR ''='' # join_with (if map upperCaseAndUnderscore k = ''COOKIE'' then ''; '' else '', '') vs"
    and "env_key (field_entry um (k, vs)) = field_key k"
    and "env_val (field_entry um (k, vs)) = join_with (if map upperCaseAndUnderscore k = ''COOKIE'' then ''; '' else '', '') vs"
proof -
  note c = cgi_name_chars [OF assms]
  have "list_all is_ascii k" using env_char(3) c by (auto simp: list_all_iff)
  then show e: "field_entry um (k, vs) = field_key k @ CHR ''='' # join_with (if map upperCaseAndUnderscore k = ''COOKIE'' then ''; '' else '', '') vs"
    by (simp add: field_entry_def map_name_def Let_def)
  have "upperCaseAndUnderscore x \<noteq> CHR ''=''" if "x \<in> set k" for x using env_char(2) [OF c [OF that]] .
  then have n: "CHR ''='' \<notin> set (field_key k)" by (force simp: image_iff)
  show "env_key (field_entry um (k, vs)) = field_key k"
    "env_val (field_entry um (k, vs)) = join_with (if map upperCaseAndUnderscore k = ''COOKIE'' then ''; '' else '', '') vs"
    unfolding e by (rule env_entry [OF n])+
qed

lemma field_name_key: "cgi_name k \<Longrightarrow> field_name (field_key k) = map upper_byte k"
  using env_char(1) cgi_name_chars by (simp add: field_name_def)

lemma CanonicalHeaderKey_field:
  assumes "cgi_name k"
  shows "CanonicalHeaderKey (field_name (field_key k)) = k"
proof -
  have "list_all valid_field_byte (map upper_byte k)" using env_char(4) cgi_name_chars [OF assms] by (simp add: list_all_iff)
  then have "CanonicalHeaderKey (map upper_byte k) = CanonicalHeaderKey k"
    by (intro CanonicalHeaderKey_fold) (simp_all add: comp_def)
  then show ?thesis using assms field_name_key [OF assms] by (simp add: cgi_name_def)
qed

lemma field_key_is_field:
  assumes "cgi_name k" and "k \<noteq> ''Host''"
  shows "is_field (field_key k)"
proof -
  have "field_key k \<noteq> ''HTTP_HOST''"
  proof
    assume "field_key k = ''HTTP_HOST''"
    then have "CanonicalHeaderKey (field_name ''HTTP_HOST'') = k" using CanonicalHeaderKey_field [OF assms(1)] by simp
    moreover have "CanonicalHeaderKey (field_name ''HTTP_HOST'') = ''Host''" by code_simp
    ultimately show False using assms(2) by simp
  qed
  then show ?thesis by (simp add: is_field_def)
qed

text \<open>The loop over the variables: what it adds to a field.\<close>

lemma add_fields_get:
  "gomap_get (add_fields params h) k =
     (let vs = map snd (filter (\<lambda>kv. is_field (fst kv) \<and> CanonicalHeaderKey (field_name (fst kv)) = k) params)
      in if vs = [] then gomap_get h k else Some ((case gomap_get h k of None \<Rightarrow> [] | Some ws \<Rightarrow> ws) @ vs))"
proof (induction params arbitrary: h)
  case (Cons kv params)
  obtain k1 v1 where kv: "kv = (k1, v1)" by (rule prod.exhaust)
  have "add_fields (kv # params) h = add_fields params (if is_field k1 then Add h (field_name k1) v1 else h)"
    by (simp add: add_fields_def kv)
  with Cons show ?case by (auto simp: kv Add_def Let_def gomap_simps split: option.split)
qed (simp add: add_fields_def)

section \<open>The round trip\<close>

definition reserved :: "string list" where
  "reserved = [''REQUEST_METHOD'', ''SERVER_PROTOCOL'', ''CONTENT_LENGTH'', ''CONTENT_TYPE'', ''REQUEST_URI'', ''REMOTE_ADDR'', ''HTTP_HOST'']"

text \<open>
  The variables of the handler and of the operating system leave those of the request alone, and the
  names of the header fields are plain ones.
\<close>

definition no_override :: "string list \<Rightarrow> bool" where
  "no_override es \<longleftrightarrow>
     (\<forall>e \<in> set es. CHR ''='' \<in> set e \<and> \<not> HasPrefix (env_key e) ''HTTP_'' \<and> env_key e \<notin> set reserved)"

definition plain_fields :: "header \<Rightarrow> bool" where
  "plain_fields h \<longleftrightarrow> gomap_wf h \<and> (\<forall>kvs \<in> set h. cgi_name (fst kvs) \<and> fst kvs \<noteq> ''Host'')"

lemma HasPrefix_HTTP: "HasPrefix (''HTTP_'' @ s) ''HTTP_''"
  by simp

lemma field_entries_key:
  assumes "plain_fields h" and "e \<in> set (map (field_entry um) h)"
  obtains k vs where "(k, vs) \<in> set h" and "cgi_name k" and "k \<noteq> ''Host''" and "e = field_entry um (k, vs)" and "env_key e = field_key k"
  using assms field_entry_parts(2) by (force simp: plain_fields_def)

lemma field_keys_distinct:
  assumes "plain_fields h"
  shows "distinct (map env_key (map (field_entry um) h))"
proof -
  have c: "cgi_name k" if "k \<in> set (map fst h)" for k using assms that by (auto simp: plain_fields_def)
  have "map env_key (map (field_entry um) h) = map field_key (map fst h)"
    using assms field_entry_parts(2) by (auto simp: plain_fields_def)
  moreover have "inj_on field_key (set (map fst h))"
    by (rule inj_onI) (metis c CanonicalHeaderKey_field)
  moreover have "distinct (map fst h)" using assms by (simp add: plain_fields_def gomap_wf_def)
  ultimately show ?thesis by (metis distinct_map)
qed

lemma request_env_entries:
  assumes "plain_fields (req_Header req)"
  shows "\<forall>e \<in> set (request_env U um h tls req). CHR ''='' \<in> set e"
  using field_entry_parts(1) assms
  by (auto simp: request_env_def base_env_def plain_fields_def Let_def split: if_splits)

lemma filter_fields_none:
  assumes "plain_fields h" and "\<not> HasPrefix k ''HTTP_'' \<or> k = ''HTTP_HOST''"
  shows "filter (\<lambda>e. env_key e = k) (map (field_entry um) h) = []"
proof -
  have "env_key e \<noteq> k" if e: "e \<in> set (map (field_entry um) h)" for e
  proof -
    obtain k1 where "cgi_name k1" "k1 \<noteq> ''Host''" "env_key e = field_key k1"
      by (rule field_entries_key [OF assms(1) e])
    with field_key_is_field [of k1] assms(2) show ?thesis by (auto simp: is_field_def)
  qed
  then show ?thesis by (simp add: filter_empty_conv)
qed

lemma filter_extra_none: "no_override es \<Longrightarrow> k \<in> set reserved \<Longrightarrow> filter (\<lambda>e. env_key e = k) es = []"
  by (auto simp: no_override_def filter_empty_conv)

lemmas base_keys = base_env_def env_key_def Let_def

lemma request_vars:
  assumes "plain_fields (req_Header req)" and "no_override es"
  shows "filter (\<lambda>e. env_key e = ''REQUEST_METHOD'') (request_env U um h tls req @ es) = [''REQUEST_METHOD='' @ req_Method req]"
    and "filter (\<lambda>e. env_key e = ''SERVER_PROTOCOL'') (request_env U um h tls req @ es) = [''SERVER_PROTOCOL=HTTP/1.1'']"
    and "filter (\<lambda>e. env_key e = ''REQUEST_URI'') (request_env U um h tls req @ es) = [''REQUEST_URI='' @ u_RequestURI U (req_URL req)]"
    and "filter (\<lambda>e. env_key e = ''REMOTE_ADDR'') (request_env U um h tls req @ es) = [''REMOTE_ADDR='' @ req_RemoteAddr req]"
    and "filter (\<lambda>e. env_key e = ''HTTP_HOST'') (request_env U um h tls req @ es) = [''HTTP_HOST='' @ req_Host req]"
    and "filter (\<lambda>e. env_key e = ''CONTENT_LENGTH'') (request_env U um h tls req @ es) =
      (if 0 < req_ContentLength req then [''CONTENT_LENGTH='' @ Itoa (req_ContentLength req)] else [])"
    and "filter (\<lambda>e. env_key e = ''CONTENT_TYPE'') (request_env U um h tls req @ es) =
      (let ctype = Get (req_Header req) ''Content-Type'' in if ctype \<noteq> [] then [''CONTENT_TYPE='' @ ctype] else [])"
proof -
  have f: "filter (\<lambda>e. env_key e = k) (map (field_entry um) (req_Header req)) = []" "filter (\<lambda>e. env_key e = k) es = []"
    if "k \<in> set reserved" for k
    using that filter_fields_none [OF assms(1), of k] filter_extra_none [OF assms(2) that] by (auto simp: reserved_def)
  have "filter (\<lambda>e. env_key e = k) (request_env U um h tls req @ es) =
      filter (\<lambda>e. env_key e = k) (base_env U h req @ (if tls then [''HTTPS=on''] else []) @
        (if 0 < req_ContentLength req then [''CONTENT_LENGTH='' @ Itoa (req_ContentLength req)] else []) @
        (let ctype = Get (req_Header req) ''Content-Type'' in if ctype \<noteq> [] then [''CONTENT_TYPE='' @ ctype] else []))"
    if "k \<in> set reserved" for k
    unfolding request_env_def filter_append f [OF that] by simp
  note only = this
  show "filter (\<lambda>e. env_key e = ''REQUEST_METHOD'') (request_env U um h tls req @ es) = [''REQUEST_METHOD='' @ req_Method req]"
    by (subst only, simp add: reserved_def) (simp add: base_keys)
  show "filter (\<lambda>e. env_key e = ''SERVER_PROTOCOL'') (request_env U um h tls req @ es) = [''SERVER_PROTOCOL=HTTP/1.1'']"
    by (subst only, simp add: reserved_def) (simp add: base_keys)
  show "filter (\<lambda>e. env_key e = ''REQUEST_URI'') (request_env U um h tls req @ es) = [''REQUEST_URI='' @ u_RequestURI U (req_URL req)]"
    by (subst only, simp add: reserved_def) (simp add: base_keys)
  show "filter (\<lambda>e. env_key e = ''REMOTE_ADDR'') (request_env U um h tls req @ es) = [''REMOTE_ADDR='' @ req_RemoteAddr req]"
    by (subst only, simp add: reserved_def) (simp add: base_keys)
  show "filter (\<lambda>e. env_key e = ''HTTP_HOST'') (request_env U um h tls req @ es) = [''HTTP_HOST='' @ req_Host req]"
    by (subst only, simp add: reserved_def) (simp add: base_keys)
  show "filter (\<lambda>e. env_key e = ''CONTENT_LENGTH'') (request_env U um h tls req @ es) =
      (if 0 < req_ContentLength req then [''CONTENT_LENGTH='' @ Itoa (req_ContentLength req)] else [])"
    by (subst only, simp add: reserved_def) (simp add: base_keys)
  show "filter (\<lambda>e. env_key e = ''CONTENT_TYPE'') (request_env U um h tls req @ es) =
      (let ctype = Get (req_Header req) ''Content-Type'' in if ctype \<noteq> [] then [''CONTENT_TYPE='' @ ctype] else [])"
    by (subst only, simp add: reserved_def) (simp add: base_keys)
qed

text \<open>The variables that the loop of the child picks out.\<close>

lemma request_fields:
  assumes "plain_fields (req_Header req)" and "no_override es"
  shows "filter (\<lambda>e. is_field (env_key e)) (request_env U um h tls req @ es) = map (field_entry um) (req_Header req)"
proof -
  have "filter (\<lambda>e. is_field (env_key e)) (map (field_entry um) (req_Header req)) = map (field_entry um) (req_Header req)"
  proof (rule filter_True, rule ballI)
    fix e assume "e \<in> set (map (field_entry um) (req_Header req))"
    then obtain k where "cgi_name k" "k \<noteq> ''Host''" "env_key e = field_key k" by (rule field_entries_key [OF assms(1)])
    then show "is_field (env_key e)" using field_key_is_field by simp
  qed
  moreover have "filter (\<lambda>e. is_field (env_key e)) es = []"
    using assms(2) by (auto simp: no_override_def is_field_def filter_empty_conv)
  ultimately show ?thesis by (simp add: request_env_def base_keys is_field_def)
qed

lemma filter_key:
  "gomap_wf m \<Longrightarrow> filter (\<lambda>kv. fst kv = k) m = (case gomap_get m k of None \<Rightarrow> [] | Some v \<Rightarrow> [(k, v)])"
proof (induction m)
  case (Cons kv m)
  have w: "gomap_wf m" "fst kv \<notin> fst ` set m" using Cons.prems by (auto simp: gomap_wf_def)
  then have "gomap_get m (fst kv) = None" by (simp add: map_of_eq_None_iff)
  with Cons.IH [OF w(1)] show ?case by (cases kv) auto
qed simp

lemma mset_short: "mset xs = mset ys \<Longrightarrow> length ys \<le> 1 \<Longrightarrow> xs = ys"
  by (cases ys; cases xs) auto

text \<open>What the child has of a field: its values joined, and for the content type the first value as well.\<close>

definition carried :: "header \<Rightarrow> string \<Rightarrow> string list option" where
  "carried h k =
     map_option (\<lambda>vs. (if k = ''Content-Type'' \<and> Get h k \<noteq> [] then [Get h k] else []) @
       [join_with (if k = ''Cookie'' then ''; '' else '', '') vs]) (gomap_get h k)"

lemma COOKIE_key: "cgi_name k \<Longrightarrow> map upperCaseAndUnderscore k = ''COOKIE'' \<longleftrightarrow> k = ''Cookie''"
proof
  assume k: "cgi_name k" "map upperCaseAndUnderscore k = ''COOKIE''"
  then have "CanonicalHeaderKey (field_name ''HTTP_COOKIE'') = k" using CanonicalHeaderKey_field [of k] by simp
  moreover have "CanonicalHeaderKey (field_name ''HTTP_COOKIE'') = ''Cookie''" by code_simp
  ultimately show "k = ''Cookie''" by simp
next
  assume "k = ''Cookie''"
  then show "map upperCaseAndUnderscore k = ''COOKIE''" by (simp, code_simp)
qed

lemma field_entry_val:
  "cgi_name k \<Longrightarrow> env_val (field_entry um (k, vs)) = join_with (if k = ''Cookie'' then ''; '' else '', '') vs"
  by (simp only: field_entry_parts(3) COOKIE_key)

text \<open>The variables of the request and its header fields, as the child finds them.\<close>

lemma cgi_params:
  assumes "plain_fields (req_Header req)" and "no_override (extra_env getenv GOOS h)"
    and "mset params = mset (envMap (cgi_env U um getenv GOOS h tls req))"
  shows "params_get params ''REQUEST_METHOD'' = req_Method req" and "params_get params ''SERVER_PROTOCOL'' = ''HTTP/1.1''"
    and "params_get params ''REQUEST_URI'' = u_RequestURI U (req_URL req)"
    and "params_get params ''REMOTE_ADDR'' = req_RemoteAddr req" and "params_get params ''HTTP_HOST'' = req_Host req"
    and "params_get params ''CONTENT_LENGTH'' = (if 0 < req_ContentLength req then Itoa (req_ContentLength req) else [])"
    and "params_get params ''CONTENT_TYPE'' = Get (req_Header req) ''Content-Type''"
proof -
  let ?env = "request_env U um h tls req @ extra_env getenv GOOS h"
  have e: "\<forall>e \<in> set ?env. CHR ''='' \<in> set e"
    using request_env_entries [OF assms(1), of U um h tls] assms(2) by (auto simp: no_override_def)
  have p: "mset params = mset (envMap (removeLeadingDuplicates ?env))" using assms(3) by (simp add: cgi_env_def)
  note vars = request_vars [OF assms(1,2), of U um h tls]
  note get = envMap_get [OF e p] and none = envMap_get_none [OF e p]
  show "params_get params ''REQUEST_METHOD'' = req_Method req" using get [OF vars(1)] by (simp add: params_get_def env_val_def)
  show "params_get params ''SERVER_PROTOCOL'' = ''HTTP/1.1''" using get [OF vars(2)] by (simp add: params_get_def env_val_def)
  show "params_get params ''REQUEST_URI'' = u_RequestURI U (req_URL req)"
    using get [OF vars(3)] by (simp add: params_get_def env_val_def)
  show "params_get params ''REMOTE_ADDR'' = req_RemoteAddr req" using get [OF vars(4)] by (simp add: params_get_def env_val_def)
  show "params_get params ''HTTP_HOST'' = req_Host req" using get [OF vars(5)] by (simp add: params_get_def env_val_def)
  show "params_get params ''CONTENT_LENGTH'' = (if 0 < req_ContentLength req then Itoa (req_ContentLength req) else [])"
    using get [of "''CONTENT_LENGTH''"] none [of "''CONTENT_LENGTH''"] vars(6) by (auto simp: params_get_def env_val_def split: if_splits)
  show "params_get params ''CONTENT_TYPE'' = Get (req_Header req) ''Content-Type''"
    using get [of "''CONTENT_TYPE''"] none [of "''CONTENT_TYPE''"] vars(7) by (auto simp: params_get_def env_val_def Let_def split: if_splits)
qed

lemma cgi_fields:
  assumes "plain_fields (req_Header req)" and "no_override (extra_env getenv GOOS h)"
    and "mset params = mset (envMap (cgi_env U um getenv GOOS h tls req))"
  shows "gomap_get (add_fields params (if Get (req_Header req) ''Content-Type'' \<noteq> []
      then Set [] ''Content-Type'' (Get (req_Header req) ''Content-Type'') else [])) k = carried (req_Header req) k"
proof -
  let ?h = "req_Header req" and ?es = "extra_env getenv GOOS h"
  let ?env = "request_env U um h tls req @ ?es"
  let ?init = "if Get ?h ''Content-Type'' \<noteq> [] then Set [] ''Content-Type'' (Get ?h ''Content-Type'') else []"
  have e: "\<forall>e \<in> set ?env. CHR ''='' \<in> set e"
    using request_env_entries [OF assms(1), of U um h tls] assms(2) by (auto simp: no_override_def)
  have p: "mset params = mset (envMap (removeLeadingDuplicates ?env))" using assms(3) by (simp add: cgi_env_def)
  let ?P = "\<lambda>k1. is_field k1 \<and> CanonicalHeaderKey (field_name k1) = k"
  have c: "cgi_name k1" "k1 \<noteq> ''Host''" if "(k1, vs) \<in> set ?h" for k1 vs using assms(1) that by (auto simp: plain_fields_def)
  have "filter (\<lambda>e. ?P (env_key e)) ?env = filter (\<lambda>e. CanonicalHeaderKey (field_name (env_key e)) = k) (map (field_entry um) ?h)"
    unfolding request_fields [OF assms(1,2), of U um h tls, symmetric] by simp
  also have "\<dots> = map (field_entry um) (filter (\<lambda>kvs. fst kvs = k) ?h)"
    unfolding filter_map comp_def
    by (intro arg_cong [where f = "map (field_entry um)"] filter_cong refl)
      (use c CanonicalHeaderKey_field field_entry_parts(2) in auto)
  also have "\<dots> = (case gomap_get ?h k of None \<Rightarrow> [] | Some vs \<Rightarrow> [field_entry um (k, vs)])"
    using assms(1) by (simp add: plain_fields_def filter_key split: option.split)
  finally have f: "filter (\<lambda>e. ?P (env_key e)) ?env = (case gomap_get ?h k of None \<Rightarrow> [] | Some vs \<Rightarrow> [field_entry um (k, vs)])" .
  have "mset (filter (\<lambda>kv. ?P (fst kv)) params) =
      mset (map split_entry (case gomap_get ?h k of None \<Rightarrow> [] | Some vs \<Rightarrow> [field_entry um (k, vs)]))"
    by (rule envMap_filter [OF e p f]) (simp split: option.split)
  then have "filter (\<lambda>kv. ?P (fst kv)) params =
      map split_entry (case gomap_get ?h k of None \<Rightarrow> [] | Some vs \<Rightarrow> [field_entry um (k, vs)])"
    by (rule mset_short) (simp split: option.split)
  then have vals: "map snd (filter (\<lambda>kv. ?P (fst kv)) params) =
      (case gomap_get ?h k of None \<Rightarrow> [] | Some vs \<Rightarrow> [join_with (if k = ''Cookie'' then ''; '' else '', '') vs])"
    using c(1) [OF map_of_SomeD] by (simp add: split_entry_def field_entry_val split: option.split)
  have ct: "CanonicalHeaderKey ''Content-Type'' = ''Content-Type''" by code_simp
  then have h0: "gomap_get ?init k = (if k = ''Content-Type'' \<and> Get ?h k \<noteq> [] then Some [Get ?h k] else None)"
    by (auto simp: Set_def)
  have none: "Get ?h k = []" if "gomap_get ?h k = None" "k = ''Content-Type''"
    using that ct by (simp add: Get_def)
  show ?thesis
  proof (cases "gomap_get ?h k")
    case None
    with none show ?thesis unfolding add_fields_get vals h0 by (cases "k = ''Content-Type''") (simp_all add: carried_def Let_def)
  next
    case (Some vs)
    then show ?thesis unfolding add_fields_get vals h0 by (cases "k = ''Content-Type''") (simp_all add: carried_def Let_def)
  qed
qed

text \<open>
  C28: A request comes through CGI: what the child makes of the environment that the host gives its program
  has the method, the host, the length and the address of the request and the URL that its host
  and URI spell, in any order of the variables. Each header field arrives with its values joined to one,
  the content type with its first value in front of that, and the address with a second port. The variables
  that the configuration of the handler and the operating system add must not be \<open>HTTP_\<close> variables or one of
  those that carry the request; those take the place of the host's own (\<open>TestEnvOverride\<close> of the code replaces
  \<open>REQUEST_URI\<close> so). The names of the fields are in canonical form, of letters, digits and hyphens, and none is Host.
\<close>

theorem cgi_round_trip:
  assumes "plain_fields (req_Header req)" and "no_override (extra_env getenv GOOS h)"
    and "req_Method req \<noteq> []" and "req_Host req \<noteq> []" and "0 \<le> req_ContentLength req" and "req_ContentLength req < 2 ^ 63"
    and "u_Parse U (''http://'' @ req_Host req @ u_RequestURI U (req_URL req)) = Inr u"
    and "mset params = mset (envMap (cgi_env U um getenv GOOS h tls req))"
  shows "\<exists>r. RequestFromMap U params = Inr r \<and> req_Method r = req_Method req \<and> req_URL r = u \<and> ProtoAtLeast r 1 1 \<and>
    req_Host r = req_Host req \<and> req_ContentLength r = req_ContentLength req \<and>
    req_RemoteAddr r = JoinHostPort (req_RemoteAddr req) ''0'' \<and> gomap_get (req_Header r) = carried (req_Header req)"
proof -
  let ?h = "req_Header req"
  note params = cgi_params [OF assms(1,2,8)]
  have len: "(if params_get params ''CONTENT_LENGTH'' = [] then Some 0 else ParseInt (params_get params ''CONTENT_LENGTH'')) =
      Some (req_ContentLength req)"
    using params(6) assms(5,6) ParseInt_Itoa [of "req_ContentLength req"] by (auto simp: FormatInt_def split: if_splits)
  have hd: "gomap_get (add_fields params (if Get ?h ''Content-Type'' \<noteq> []
      then Set [] ''Content-Type'' (Get ?h ''Content-Type'') else [])) = carried ?h"
    by (rule ext) (rule cgi_fields [OF assms(1,2,8)])
  have u: "map_URL U params = Inr u" using assms(4,7) by (simp add: map_URL_def params)
  show ?thesis using assms(3) hd len u
    by (simp add: RequestFromMap_def params(1-5,7) version_1_1 Let_def ProtoAtLeast_def)
qed

text \<open>
  C29: A client chooses environment variables of the program: a header field of the name \<open>Proxy\<close>, which no
  part of the server removes, is in its environment as \<open>HTTP_PROXY\<close>, which HTTP clients take their proxy
  from.
\<close>

theorem cgi_proxy_injected:
  assumes "plain_fields (req_Header req)" and "no_override (extra_env getenv GOOS h)"
    and "gomap_get (req_Header req) ''Proxy'' = Some vs"
  shows "gomap_get (envMap (cgi_env U um getenv GOOS h tls req)) ''HTTP_PROXY'' = Some (join_with '', '' vs)"
proof -
  let ?env = "request_env U um h tls req @ extra_env getenv GOOS h"
  have n: "cgi_name ''Proxy''" using assms(1) map_of_SomeD [OF assms(3)] by (auto simp: plain_fields_def)
  have k: "field_key ''Proxy'' = ''HTTP_PROXY''" by code_simp
  have e: "\<forall>e \<in> set ?env. CHR ''='' \<in> set e"
    using request_env_entries [OF assms(1), of U um h tls] assms(2) by (auto simp: no_override_def)
  have i: "is_field ''HTTP_PROXY''" by code_simp
  have inj: "k1 = ''Proxy''" if "cgi_name k1" "field_key k1 = ''HTTP_PROXY''" for k1
    using CanonicalHeaderKey_field [OF that(1)] CanonicalHeaderKey_field [OF n] by (simp only: that(2) k)
  have c: "cgi_name k1" if "(k1, ws) \<in> set (req_Header req)" for k1 ws using assms(1) that by (auto simp: plain_fields_def)
  have "filter (\<lambda>e. env_key e = ''HTTP_PROXY'') ?env =
      filter (\<lambda>e. env_key e = ''HTTP_PROXY'') (filter (\<lambda>e. is_field (env_key e)) ?env)"
    by (simp only: filter_filter) (metis i)
  also have "\<dots> = map (field_entry um) (filter (\<lambda>kvs. fst kvs = ''Proxy'') (req_Header req))"
    unfolding request_fields [OF assms(1,2)] filter_map comp_def
    by (intro arg_cong [where f = "map (field_entry um)"] filter_cong refl)
      (use c inj k field_entry_parts(2) in auto)
  also have "\<dots> = [field_entry um (''Proxy'', vs)]"
    using assms(1,3) by (simp add: plain_fields_def filter_key)
  finally have "filter (\<lambda>e. env_key e = ''HTTP_PROXY'') ?env = [field_entry um (''Proxy'', vs)]" .
  from envMap_get [OF e refl this] show ?thesis by (simp add: cgi_env_def field_entry_val [OF n])
qed

section \<open>A concrete request\<close>

definition demo_cgi_urls :: url_lib where
  "demo_cgi_urls =
     \<lparr>u_Parse = (\<lambda>s. Inr \<lparr>url_Scheme = ''http'', url_Opaque = [], url_Host = ''h'', url_Path = ''/p'', url_RawQuery = []\<rparr>),
      u_ParseRequestURI = (\<lambda>s. Inl []), u_RequestURI = url_Path, u_Resolve = (\<lambda>u s. Inl [])\<rparr>"

definition demo_cgi_handler :: cgi_Handler where
  "demo_cgi_handler =
     \<lparr>cg_Path = ''/bin/prog'', cg_Root = ''/'', cg_Dir = [], cg_Env = [''MODE=test'', ''MODE=run''], cg_InheritEnv = [''HOME''],
      cg_Args = [], cg_PathLocationHandler = False\<rparr>"

definition demo_getenv :: "string \<Rightarrow> string" where
  "demo_getenv k = (if k = ''HOME'' then ''/root'' else [])"

definition demo_cgi_request :: "unit Request" where
  "demo_cgi_request =
     \<lparr>req_Method = ''POST'',
      req_URL = \<lparr>url_Scheme = [], url_Opaque = [], url_Host = [], url_Path = ''/p'', url_RawQuery = []\<rparr>,
      req_Proto = ''HTTP/1.1'', req_ProtoMajor = 1, req_ProtoMinor = 1,
      req_Header = [(''Cookie'', [''a=b'', ''c=d'']), (''Content-Type'', [''text/plain'']), (''Proxy'', [''evil''])],
      req_Body = None, req_ContentLength = 7, req_TransferEncoding = [], req_Close = False, req_Host = ''h'', req_Trailer = None,
      req_RemoteAddr = ''1.2.3.4:5'', req_RequestURI = ''/p''\<rparr>"

lemma demo_cgi_env:
  "plain_fields (req_Header demo_cgi_request)" "no_override (extra_env demo_getenv ''linux'' demo_cgi_handler)"
  by code_simp+

theorem cgi_round_trip_witness:
  "\<exists>r. RequestFromMap demo_cgi_urls
       (rev (envMap (cgi_env demo_cgi_urls (\<lambda>s. s) demo_getenv ''linux'' demo_cgi_handler False demo_cgi_request))) = Inr r \<and>
     req_ContentLength r = 7 \<and> req_RemoteAddr r = ''[1.2.3.4:5]:0'' \<and>
     gomap_get (req_Header r) ''Cookie'' = Some [''a=b; c=d''] \<and>
     gomap_get (req_Header r) ''Content-Type'' = Some [''text/plain'', ''text/plain'']"
proof -
  have r: "req_Method demo_cgi_request \<noteq> []" "req_Host demo_cgi_request \<noteq> []" "0 \<le> req_ContentLength demo_cgi_request"
    "req_ContentLength demo_cgi_request < 2 ^ 63" by (simp_all add: demo_cgi_request_def)
  have u: "u_Parse demo_cgi_urls x = Inr \<lparr>url_Scheme = ''http'', url_Opaque = [], url_Host = ''h'', url_Path = ''/p'', url_RawQuery = []\<rparr>" for x
    by (simp add: demo_cgi_urls_def)
  have c: "carried (req_Header demo_cgi_request) ''Cookie'' = Some [''a=b; c=d'']"
    "carried (req_Header demo_cgi_request) ''Content-Type'' = Some [''text/plain'', ''text/plain'']"
    "JoinHostPort (req_RemoteAddr demo_cgi_request) ''0'' = ''[1.2.3.4:5]:0''" "req_ContentLength demo_cgi_request = 7" by code_simp+
  have m: "mset (rev (envMap (cgi_env demo_cgi_urls (\<lambda>s. s) demo_getenv ''linux'' demo_cgi_handler False demo_cgi_request))) =
      mset (envMap (cgi_env demo_cgi_urls (\<lambda>s. s) demo_getenv ''linux'' demo_cgi_handler False demo_cgi_request))" by simp
  from cgi_round_trip [OF demo_cgi_env r u m] c show ?thesis by force
qed

theorem cgi_proxy_injected_witness:
  "gomap_get (envMap (cgi_env demo_cgi_urls (\<lambda>s. s) demo_getenv ''linux'' demo_cgi_handler False demo_cgi_request)) ''HTTP_PROXY'' =
     Some ''evil''"
proof -
  have "gomap_get (req_Header demo_cgi_request) ''Proxy'' = Some [''evil'']" by (simp add: demo_cgi_request_def)
  from cgi_proxy_injected [OF demo_cgi_env this] show ?thesis by simp
qed

end
