(* ===== verification/Transport.thy ===== *)
theory Transport
  imports Browser Files
begin

text \<open>
  The transport of the HTTP client, \<open>http/transport.go\<close>: choosing a proxy, the pool of idle connections and
  the life of a connection. Dialling, the handshake of TLS, the exchange with a proxy, parsing addresses
  and the environment are arguments; \<open>user_lib\<close> has the text of a URL and its user part.
\<close>

section \<open>Addresses and proxies\<close>

definition portMap :: "(string, string) gomap" where
  "portMap = [(''http'', ''80''), (''https'', ''443'')]"

definition canonicalAddr :: "URL \<Rightarrow> string" where
  "canonicalAddr u =
     (let addr = url_Host u
      in if \<not> hasPort addr then addr @ '':'' @ (case gomap_get portMap (url_Scheme u) of None \<Rightarrow> [] | Some p \<Rightarrow> p) else addr)"

definition getenvEitherCase :: "(string \<Rightarrow> string) \<Rightarrow> (string \<Rightarrow> string) \<Rightarrow> (string \<Rightarrow> string) \<Rightarrow> string \<Rightarrow> string" where
  "getenvEitherCase uu ul getenv k =
     (let v = getenv (ToUpper uu k) in if v \<noteq> [] then v else getenv (ToLower ul k))"

text \<open>\<open>net.SplitHostPort\<close>, and whether an address is one of the loopback network.\<close>

record addr_lib =
  al_SplitHostPort :: "string \<Rightarrow> (string \<times> string) option"
  al_IsLoopback :: "string \<Rightarrow> bool"

definition strip_port :: "string \<Rightarrow> string" where
  "strip_port s = (if hasPort s then rev (tl (dropWhile (\<lambda>c. c \<noteq> CHR '':'') (rev s))) else s)"

text \<open>
  One entry of the list of hosts without a proxy; \<open>None\<close> is the panic on the first byte of an entry of which
  nothing is left without its port.
\<close>

definition no_proxy_match :: "(string \<Rightarrow> string) \<Rightarrow> string \<Rightarrow> string \<Rightarrow> bool option" where
  "no_proxy_match ul addr entry =
     (let p = ToLower ul (TrimSpace entry)
      in if p = [] then Some False
         else let q = strip_port p
              in if addr = q then Some True
                 else if q = [] then None
                 else Some (hd q = CHR ''.'' \<and> (HasSuffix addr q \<or> addr = tl q)))"

fun no_proxy_loop :: "(string \<Rightarrow> bool option) \<Rightarrow> string list \<Rightarrow> bool option" where
  "no_proxy_loop matches [] = Some True"
| "no_proxy_loop matches (p # ps) =
     (case matches p of None \<Rightarrow> None | Some True \<Rightarrow> Some False | Some False \<Rightarrow> no_proxy_loop matches ps)"

definition useProxy :: "addr_lib \<Rightarrow> (string \<Rightarrow> string) \<Rightarrow> string \<Rightarrow> string \<Rightarrow> bool option" where
  "useProxy A ul no_proxy addr =
     (if addr = [] then Some True
      else case al_SplitHostPort A addr of
        None \<Rightarrow> Some False
      | Some (host, _) \<Rightarrow>
          if host = ''localhost'' then Some False
          else if al_IsLoopback A host then Some False
          else if no_proxy = ''*'' then Some False
          else no_proxy_loop (no_proxy_match ul (strip_port (ToLower ul (TrimSpace addr)))) (Split (CHR '','') no_proxy))"

text \<open>
  The proxy of the environment: none, a URL, or an error, whose text has the address as it is where the code quotes
  it; \<open>None\<close> is the panic. A second attempt with a scheme in front sets an
  error variable of its own, so the error of the first one stays.
\<close>

definition ProxyFromEnvironment ::
  "url_lib \<Rightarrow> addr_lib \<Rightarrow> (string \<Rightarrow> string) \<Rightarrow> (string \<Rightarrow> string) \<Rightarrow> (string \<Rightarrow> string) \<Rightarrow> 'b Request \<Rightarrow>
   (error + URL option) option" where
  "ProxyFromEnvironment U A uu ul getenv req =
     (let proxy = getenvEitherCase uu ul getenv ''HTTP_PROXY''
      in if proxy = [] then Some (Inr None)
         else case useProxy A ul (getenvEitherCase uu ul getenv ''NO_PROXY'') (canonicalAddr (req_URL req)) of
                None \<Rightarrow> None
              | Some False \<Rightarrow> Some (Inr None)
              | Some True \<Rightarrow>
                  Some (case u_Parse U proxy of
                          Inl e \<Rightarrow> Inl (''invalid proxy address '' @ proxy @ '': '' @ e)
                        | Inr u \<Rightarrow>
                            if url_Scheme u = [] then
                              (case u_Parse U (''http://'' @ proxy) of Inl e \<Rightarrow> Inr (Some u) | Inr u' \<Rightarrow> Inr (Some u'))
                            else Inr (Some u)))"

text \<open>A proxy function that always gives the same URL.\<close>

definition ProxyURL :: "URL option \<Rightarrow> 'b Request \<Rightarrow> error + URL option" where
  "ProxyURL fixedURL req = Inr fixedURL"

section \<open>Connect methods\<close>

record connectMethod =
  cm_proxyURL :: "URL option"
  cm_targetScheme :: string
  cm_targetAddr :: string

definition cm_String :: "user_lib \<Rightarrow> connectMethod \<Rightarrow> string" where
  "cm_String V ck =
     (case cm_proxyURL ck of
        None \<Rightarrow> [] @ ''|'' @ cm_targetScheme ck @ ''|'' @ cm_targetAddr ck
      | Some u \<Rightarrow> ul_String V u @ ''|'' @ cm_targetScheme ck @ ''|'' @ (if cm_targetScheme ck = ''http'' then [] else cm_targetAddr ck))"

definition cm_addr :: "connectMethod \<Rightarrow> string" where
  "cm_addr cm = (case cm_proxyURL cm of None \<Rightarrow> cm_targetAddr cm | Some u \<Rightarrow> canonicalAddr u)"

definition tlsHost :: "connectMethod \<Rightarrow> string" where
  "tlsHost cm = strip_port (cm_targetAddr cm)"

definition proxyAuth :: "user_lib \<Rightarrow> connectMethod \<Rightarrow> string" where
  "proxyAuth V cm =
     (case cm_proxyURL cm of
        None \<Rightarrow> []
      | Some p \<Rightarrow> (case ul_User V p of None \<Rightarrow> [] | Some u \<Rightarrow> ''Basic '' @ ul_Base64URL V u))"

definition connectMethodForRequest ::
  "(user_body Request \<Rightarrow> error + URL option) option \<Rightarrow> user_body Request \<Rightarrow> error + connectMethod" where
  "connectMethodForRequest proxy req =
     (let cm = \<lparr>cm_proxyURL = None, cm_targetScheme = url_Scheme (req_URL req), cm_targetAddr = canonicalAddr (req_URL req)\<rparr>
      in case proxy of
           None \<Rightarrow> Inr cm
         | Some f \<Rightarrow> (case f req of Inl e \<Rightarrow> Inl e | Inr u \<Rightarrow> Inr (cm\<lparr>cm_proxyURL := u\<rparr>)))"

section \<open>Connections and the pool\<close>

text \<open>
  What the reading goroutine of a connection does: waiting for the next response, waiting for the body
  of the last one to be read, with whether the connection can be kept, or nothing any more.
\<close>

datatype read_loop = Reading | AwaitBody bool | Ended

text \<open>A request on its way: closed after the reply, its method, and whether compression was asked for.\<close>

record request_chan =
  rq_Close :: bool
  rq_HEAD :: bool
  rq_addedGzip :: bool

record persistConn =
  pc_cacheKey :: string
  pc_closed :: bool
  pc_reqch :: "request_chan list"
  pc_isProxy :: bool
  pc_mutateHeader :: "string option"
  pc_expected :: int
  pc_broken :: bool
  pc_loop :: read_loop

record transport_config =
  tc_DisableKeepAlives :: bool
  tc_DisableCompression :: bool
  tc_MaxIdleConnsPerHost :: int

text \<open>
  The pool, where \<open>None\<close> is the nil map, and the connections by pointer. Goroutines that call \<open>RoundTrip\<close> are
  listed by the connection they hold: before they announce their request, before they have sent it, and
  when they have been given its response.
\<close>

record transport =
  tr_idle :: "(string, nat list) gomap option"
  tr_conns :: "nat \<Rightarrow> persistConn"
  tr_next :: nat
  tr_got :: "nat list"
  tr_sending :: "nat list"
  tr_answered :: "nat list"

definition DefaultMaxIdleConnsPerHost :: int where
  "DefaultMaxIdleConnsPerHost = 2"

definition maxIdle :: "transport_config \<Rightarrow> int" where
  "maxIdle C = (if tc_MaxIdleConnsPerHost C = 0 then DefaultMaxIdleConnsPerHost else tc_MaxIdleConnsPerHost C)"

definition upd_conn :: "nat \<Rightarrow> (persistConn \<Rightarrow> persistConn) \<Rightarrow> transport \<Rightarrow> transport" where
  "upd_conn p f t = t\<lparr>tr_conns := (tr_conns t)(p := f (tr_conns t p))\<rparr>"

definition closeLocked :: "persistConn \<Rightarrow> persistConn" where
  "closeLocked pc = pc\<lparr>pc_broken := True, pc_closed := True, pc_mutateHeader := None\<rparr>"

definition pc_close :: "nat \<Rightarrow> transport \<Rightarrow> transport" where
  "pc_close p t = upd_conn p closeLocked t"

definition isBroken :: "transport \<Rightarrow> nat \<Rightarrow> bool" where
  "isBroken t p = pc_broken (tr_conns t p)"

definition idle_of :: "transport \<Rightarrow> string \<Rightarrow> nat list" where
  "idle_of t key = (case tr_idle t of None \<Rightarrow> [] | Some m \<Rightarrow> (case gomap_get m key of None \<Rightarrow> [] | Some ps \<Rightarrow> ps))"

definition putIdleConn :: "transport_config \<Rightarrow> nat \<Rightarrow> transport \<Rightarrow> transport \<times> bool" where
  "putIdleConn C p t =
     (if tc_DisableKeepAlives C \<or> tc_MaxIdleConnsPerHost C < 0 then (pc_close p t, False)
      else if isBroken t p then (t, False)
      else let key = pc_cacheKey (tr_conns t p);
               t1 = (if tr_idle t = None then t\<lparr>tr_idle := Some []\<rparr> else t)
           in if maxIdle C \<le> int (length (idle_of t1 key)) then (pc_close p t1, False)
              else (t1\<lparr>tr_idle := map_option (gomap_set key (idle_of t1 key @ [p])) (tr_idle t1)\<rparr>, True))"

text \<open>The loop takes the last connection, and goes on while it is broken; the list is given in reverse.\<close>

fun pop_idle :: "(nat \<Rightarrow> bool) \<Rightarrow> nat list \<Rightarrow> nat option \<times> nat list" where
  "pop_idle broken [] = (None, [])"
| "pop_idle broken (p # ps) = (if broken p then pop_idle broken ps else (Some p, ps))"

text \<open>An empty list in the pool would be the panic on its last element.\<close>

definition getIdleConn :: "string \<Rightarrow> transport \<Rightarrow> (transport, nat option) outcome" where
  "getIdleConn key t =
     (case tr_idle t of
        None \<Rightarrow> Done t None
      | Some m \<Rightarrow>
          (case gomap_get m key of
             None \<Rightarrow> Done t None
           | Some ps \<Rightarrow>
               if ps = [] then Panic t ''runtime error: index out of range''
               else (case pop_idle (isBroken t) (rev ps) of
                       (p, rest) \<Rightarrow>
                         Done (t\<lparr>tr_idle := Some (if rest = [] then gomap_del key m else gomap_set key (rev rest) m)\<rparr>) p)))"

text \<open>All connections of the old pool are closed, in the order in which the runtime visits it.\<close>

definition CloseIdleConnections :: "transport \<Rightarrow> transport" where
  "CloseIdleConnections t =
     (case tr_idle t of
        None \<Rightarrow> t
      | Some m \<Rightarrow> fold pc_close (concat (map snd m)) (t\<lparr>tr_idle := None\<rparr>))"

section \<open>Getting a connection\<close>

text \<open>The network: dialling, the answer of a proxy to \<open>CONNECT\<close>, the handshake, and checking the host name.\<close>

record net_lib =
  nl_dial :: "string \<Rightarrow> error option"
  nl_connect :: "user_body Request \<Rightarrow> error + int \<times> string"
  nl_handshake :: "string \<Rightarrow> error option"
  nl_verify :: "(string \<Rightarrow> error option) option"

definition connect_request :: "string \<Rightarrow> string \<Rightarrow> user_body Request" where
  "connect_request addr pa =
     \<lparr>req_Method = ''CONNECT'',
      req_URL = \<lparr>url_Scheme = [], url_Opaque = addr, url_Host = [], url_Path = [], url_RawQuery = []\<rparr>,
      req_Proto = [], req_ProtoMajor = 0, req_ProtoMinor = 0,
      req_Header = (if pa \<noteq> [] then Set [] ''Proxy-Authorization'' pa else []),
      req_Body = None, req_ContentLength = 0, req_TransferEncoding = [], req_Close = False, req_Host = addr,
      req_Trailer = None, req_RemoteAddr = [], req_RequestURI = []\<rparr>"

text \<open>The errors on the way to a connection that is ready; \<open>None\<close> is the panic on a status of one word.\<close>

definition establish :: "user_lib \<Rightarrow> addr_lib \<Rightarrow> net_lib \<Rightarrow> connectMethod \<Rightarrow> error option option" where
  "establish V A N cm =
     (case nl_dial N (cm_addr cm) of
        Some e \<Rightarrow>
          Some (Some (case cm_proxyURL cm of
                  None \<Rightarrow> e | Some u \<Rightarrow> ''http: error connecting to proxy '' @ ul_String V u @ '': '' @ e))
      | None \<Rightarrow>
          (let tunnel = (if cm_proxyURL cm \<noteq> None \<and> cm_targetScheme cm = ''https''
                         then (case nl_connect N (connect_request (cm_targetAddr cm) (proxyAuth V cm)) of
                                 Inl e \<Rightarrow> Some (Some e)
                               | Inr (code, status) \<Rightarrow>
                                   if code \<noteq> 200
                                   then (case SplitN 2 (CHR '' '') status of [a, b] \<Rightarrow> Some (Some b) | _ \<Rightarrow> None)
                                   else Some None)
                         else Some None)
           in if tunnel \<noteq> Some None then tunnel
              else if cm_targetScheme cm = ''https''
              then (case nl_handshake N (case al_SplitHostPort A (cm_addr cm) of None \<Rightarrow> [] | Some (h, _) \<Rightarrow> h) of
                      Some e \<Rightarrow> Some (Some e)
                    | None \<Rightarrow> Some (case nl_verify N of None \<Rightarrow> None | Some f \<Rightarrow> f (tlsHost cm)))
              else Some None))"

definition new_conn :: "user_lib \<Rightarrow> connectMethod \<Rightarrow> persistConn" where
  "new_conn V cm =
     (let proxied = (cm_proxyURL cm \<noteq> None \<and> cm_targetScheme cm = ''http'')
      in \<lparr>pc_cacheKey = cm_String V cm, pc_closed = False, pc_reqch = [], pc_isProxy = proxied,
          pc_mutateHeader = (if proxied \<and> proxyAuth V cm \<noteq> [] then Some (proxyAuth V cm) else None),
          pc_expected = 0, pc_broken = False, pc_loop = Reading\<rparr>)"

definition getConn :: "user_lib \<Rightarrow> addr_lib \<Rightarrow> net_lib \<Rightarrow> connectMethod \<Rightarrow> transport \<Rightarrow> (transport, error + nat) outcome" where
  "getConn V A N cm t =
     obind (getIdleConn (cm_String V cm) t) (\<lambda>t1 pc.
       case pc of
         Some p \<Rightarrow> Done t1 (Inr p)
       | None \<Rightarrow>
           (case establish V A N cm of
              None \<Rightarrow> Panic t1 ''runtime error: index out of range''
            | Some (Some e) \<Rightarrow> Done t1 (Inl e)
            | Some None \<Rightarrow>
                Done (t1\<lparr>tr_conns := (tr_conns t1)(tr_next t1 := new_conn V cm), tr_next := Suc (tr_next t1)\<rparr>) (Inr (tr_next t1))))"

section \<open>One request and its response\<close>

text \<open>The extra headers of a request and whether compression was asked for.\<close>

definition request_extra :: "transport_config \<Rightarrow> persistConn \<Rightarrow> 'b Request \<Rightarrow> header \<times> bool" where
  "request_extra C pc req =
     (let h = (case pc_mutateHeader pc of None \<Rightarrow> [] | Some pa \<Rightarrow> Set [] ''Proxy-Authorization'' pa)
      in if \<not> tc_DisableCompression C \<and> Get (req_Header req) ''Accept-Encoding'' = []
         then (Set h ''Accept-Encoding'' ''gzip'', True) else (h, False))"

text \<open>
  What has been read: an error, or a response, whose body may turn out not to be compressed data. The
  response comes without its compression, if that was not the caller's wish.
\<close>

definition decoded :: "request_chan \<Rightarrow> 'b Response \<Rightarrow> error option \<Rightarrow> 'b Response \<times> error option" where
  "decoded rc resp zerr =
     (if rq_addedGzip rc \<and> \<not> rq_HEAD rc \<and> resp_ContentLength resp \<noteq> 0 \<and> Get (resp_Header resp) ''Content-Encoding'' = ''gzip''
      then (resp\<lparr>resp_Header := Del (Del (resp_Header resp) ''Content-Encoding'') ''Content-Length'', resp_ContentLength := -1\<rparr>, zerr)
      else (resp, None))"

definition response_handled ::
  "transport_config \<Rightarrow> nat \<Rightarrow> request_chan \<Rightarrow> 'b Response option \<times> error option \<Rightarrow> transport \<Rightarrow> transport" where
  "response_handled C p rc re t =
     (case re of (resp, err) \<Rightarrow>
        let t1 = (if err \<noteq> None then pc_close p t else t);
            alive = (err = None \<and> (case resp of None \<Rightarrow> True | Some r \<Rightarrow> \<not> resp_Close r) \<and> \<not> rq_Close rc);
            hasBody = (case resp of None \<Rightarrow> False | Some r \<Rightarrow> resp_ContentLength r \<noteq> 0);
            (t2, alive2) = (if alive \<and> \<not> hasBody then putIdleConn C p t1 else (t1, alive));
            t3 = t2\<lparr>tr_answered := p # tr_answered t2\<rparr>
        in if hasBody then upd_conn p (\<lambda>pc. pc\<lparr>pc_loop := AwaitBody alive2\<rparr>) t3
           else if alive2 then t3
           else upd_conn p (\<lambda>pc. pc\<lparr>pc_loop := Ended\<rparr>) (pc_close p t3))"

text \<open>
  The end of a body: the connection goes back to the pool or is closed. The function that does it and the assignment
  that clears it, which \<open>bodyEOFSignal\<close> runs one after the other, are one step.
\<close>

definition body_read :: "transport_config \<Rightarrow> nat \<Rightarrow> bool \<Rightarrow> transport \<Rightarrow> transport" where
  "body_read C p alive t =
     (let (t1, alive1) = (if alive then putIdleConn C p t else (t, False))
      in if alive1 then upd_conn p (\<lambda>pc. pc\<lparr>pc_loop := Reading\<rparr>) t1
         else upd_conn p (\<lambda>pc. pc\<lparr>pc_loop := Ended\<rparr>) (pc_close p t1))"

text \<open>
  The steps of all goroutines: getting a connection, announcing a request, sending it or failing to, the
  reading goroutine with its response, with something nobody asked for, and with the end of a body, a
  caller with its response, and the closing of idle connections.
\<close>

inductive tr_step :: "transport_config \<Rightarrow> transport \<Rightarrow> transport \<Rightarrow> bool" for C where
  get: "getConn V A N cm t = Done t1 (Inr p) \<Longrightarrow> tr_step C t (t1\<lparr>tr_got := p # tr_got t1\<rparr>)"
| get_failed: "getConn V A N cm t = Done t1 (Inl e) \<Longrightarrow> tr_step C t t1"
| announce: "p \<in> set (tr_got t) \<Longrightarrow>
    tr_step C t (upd_conn p (\<lambda>pc. pc\<lparr>pc_expected := pc_expected pc + 1\<rparr>)
      (t\<lparr>tr_got := remove1 p (tr_got t), tr_sending := p # tr_sending t\<rparr>))"
| sent: "p \<in> set (tr_sending t) \<Longrightarrow>
    tr_step C t (upd_conn p (\<lambda>pc. pc\<lparr>pc_reqch := pc_reqch pc @ [rc]\<rparr>) (t\<lparr>tr_sending := remove1 p (tr_sending t)\<rparr>))"
| not_sent: "p \<in> set (tr_sending t) \<Longrightarrow> tr_step C t (pc_close p (t\<lparr>tr_sending := remove1 p (tr_sending t)\<rparr>))"
| unsolicited: "pc_loop (tr_conns t p) = Reading \<Longrightarrow> pc_expected (tr_conns t p) = 0 \<Longrightarrow> p < tr_next t \<Longrightarrow>
    tr_step C t (upd_conn p (\<lambda>pc. pc\<lparr>pc_loop := Ended\<rparr>) (pc_close p t))"
| response: "pc_loop (tr_conns t p) = Reading \<Longrightarrow> pc_expected (tr_conns t p) \<noteq> 0 \<Longrightarrow> p < tr_next t \<Longrightarrow>
    pc_reqch (tr_conns t p) = rc # rcs \<Longrightarrow>
    re = (None, Some e) \<or> re = (Some (fst (decoded rc (r :: unit Response) zerr)), snd (decoded rc r zerr)) \<Longrightarrow>
    tr_step C t (response_handled C p rc re (upd_conn p (\<lambda>pc. pc\<lparr>pc_reqch := rcs\<rparr>) t))"
| body_end: "pc_loop (tr_conns t p) = AwaitBody alive \<Longrightarrow> p < tr_next t \<Longrightarrow> tr_step C t (body_read C p alive t)"
| answered: "p \<in> set (tr_answered t) \<Longrightarrow>
    tr_step C t (upd_conn p (\<lambda>pc. pc\<lparr>pc_expected := pc_expected pc - 1\<rparr>) (t\<lparr>tr_answered := remove1 p (tr_answered t)\<rparr>))"
| close_idle: "tr_step C t (CloseIdleConnections t)"

definition new_transport :: transport where
  "new_transport =
     \<lparr>tr_idle = None,
      tr_conns = (\<lambda>_. \<lparr>pc_cacheKey = [], pc_closed = False, pc_reqch = [], pc_isProxy = False, pc_mutateHeader = None,
        pc_expected = 0, pc_broken = False, pc_loop = Ended\<rparr>),
      tr_next = 0, tr_got = [], tr_sending = [], tr_answered = []\<rparr>"

inductive tr_reachable :: "transport_config \<Rightarrow> transport \<Rightarrow> bool" for C where
  start: "tr_reachable C new_transport"
| step: "tr_reachable C t \<Longrightarrow> tr_step C t t' \<Longrightarrow> tr_reachable C t'"

section \<open>Dispatch\<close>

text \<open>
  Other schemes have transports of their own, in a map that may be nil. \<open>over\<close> is the way over a connection;
  the URL and the headers of a request are not nil.
\<close>

definition alt_transport :: "(string, 'r) gomap option \<Rightarrow> string \<Rightarrow> 'r option" where
  "alt_transport alt scheme = (case alt of None \<Rightarrow> None | Some m \<Rightarrow> gomap_get m scheme)"

definition RoundTrip ::
  "(string, user_body Request \<Rightarrow> error + 'b Response) gomap option \<Rightarrow> (user_body Request \<Rightarrow> error + 'b Response) \<Rightarrow>
   user_body Request \<Rightarrow> error + 'b Response" where
  "RoundTrip alt over req =
     (let scheme = url_Scheme (req_URL req)
      in if scheme \<noteq> ''http'' \<and> scheme \<noteq> ''https'' then
           (case alt_transport alt scheme of
              None \<Rightarrow> Inl (badStringError ''unsupported protocol scheme'' scheme)
            | Some rt \<Rightarrow> rt req)
         else over req)"

definition already_registered :: "string \<Rightarrow> string" where
  "already_registered scheme = ''protocol '' @ scheme @ '' already registered''"

definition RegisterProtocol ::
  "string \<Rightarrow> 'r \<Rightarrow> (string, 'r) gomap option \<Rightarrow> ((string, 'r) gomap option, unit) outcome" where
  "RegisterProtocol scheme rt alt =
     (if scheme = ''http'' \<or> scheme = ''https'' then Panic alt (already_registered scheme)
      else let m = (case alt of None \<Rightarrow> [] | Some m \<Rightarrow> m)
           in if gomap_get m scheme \<noteq> None then Panic (Some m) (already_registered scheme)
              else Done (Some (gomap_set scheme rt m)) ())"

definition remoteSideClosed :: "(error \<Rightarrow> bool) option \<Rightarrow> error \<Rightarrow> bool" where
  "remoteSideClosed f err \<longleftrightarrow> (if err = ''EOF'' then True else case f of Some g \<Rightarrow> g err | None \<Rightarrow> False)"

section \<open>The end of a body\<close>

text \<open>
  The function of a body that runs at its end: \<open>es_fn\<close> is whether it is still to be run. An operation gives
  what the body underneath gave, and whether the function ran.
\<close>

record eof_signal =
  es_fn :: bool
  es_isClosed :: bool

definition es_Read :: "nat \<times> error option \<Rightarrow> eof_signal \<Rightarrow> (eof_signal, (nat \<times> error option) \<times> bool) outcome" where
  "es_Read r es =
     (if es_isClosed es \<and> 0 < fst r then Panic es ''http: unexpected bodyEOFSignal Read after Close; see issue 1725''
      else if snd r = Some ''EOF'' \<and> es_fn es then Done (es\<lparr>es_fn := False\<rparr>) (r, True)
      else Done es (r, False))"

definition es_Close :: "error option \<Rightarrow> eof_signal \<Rightarrow> (eof_signal, error option \<times> bool) outcome" where
  "es_Close err es =
     (if es_isClosed es then Done es (None, False)
      else let es1 = es\<lparr>es_isClosed := True\<rparr>
           in if err = None \<and> es_fn es1 then Done (es1\<lparr>es_fn := False\<rparr>) (err, True) else Done es1 (err, False))"

text \<open>Both are closed, the reader first, and the error of the reader goes before that of the closer.\<close>

definition readFirstCloseBoth_Close :: "('s \<Rightarrow> 's \<times> error option) \<Rightarrow> ('s \<Rightarrow> 's \<times> error option) \<Rightarrow> 's \<Rightarrow> 's \<times> error option" where
  "readFirstCloseBoth_Close reader closer s =
     (case reader s of
        (s1, Some err) \<Rightarrow> (fst (closer s1), Some err)
      | (s1, None) \<Rightarrow> (case closer s1 of (s2, Some err) \<Rightarrow> (s2, Some err) | (s2, None) \<Rightarrow> (s2, None)))"

end
