(* ===== verification/TransportSpec.thy ===== *)
theory TransportSpec
  imports Transport
begin

text \<open>
  What the pool of idle connections of \<open>http/transport.go\<close> keeps. Every connection has at most one owner: the
  pool, a goroutine that is about to send a request, the queue of requests of the connection, or the body of
  the last response; \<open>held\<close> counts them.
\<close>

definition held :: "transport \<Rightarrow> nat \<Rightarrow> nat" where
  "held t p =
     count_list (idle_of t (pc_cacheKey (tr_conns t p))) p + count_list (tr_got t) p + count_list (tr_sending t) p +
     length (pc_reqch (tr_conns t p)) + (case pc_loop (tr_conns t p) of AwaitBody a \<Rightarrow> 1 | _ \<Rightarrow> 0)"

text \<open>The invariant of all goroutines.\<close>

definition pool_ok :: "transport_config \<Rightarrow> transport \<Rightarrow> bool" where
  "pool_ok C t \<longleftrightarrow>
     (\<forall>p. held t p \<le> 1) \<and> (\<forall>p \<ge> tr_next t. held t p = 0) \<and>
     (\<forall>k p. p \<in> set (idle_of t k) \<longrightarrow> pc_cacheKey (tr_conns t p) = k) \<and>
     (\<forall>p < tr_next t. pc_loop (tr_conns t p) = Ended \<longrightarrow> pc_broken (tr_conns t p)) \<and>
     (\<forall>m k. tr_idle t = Some m \<longrightarrow> gomap_get m k \<noteq> Some []) \<and>
     (\<forall>k. length (idle_of t k) \<le> nat (maxIdle C))"

lemma pool_okI:
  assumes "\<And>p. held t p \<le> 1" and "\<And>p. tr_next t \<le> p \<Longrightarrow> held t p = 0"
    and "\<And>k p. p \<in> set (idle_of t k) \<Longrightarrow> pc_cacheKey (tr_conns t p) = k"
    and "\<And>p. p < tr_next t \<Longrightarrow> pc_loop (tr_conns t p) = Ended \<Longrightarrow> pc_broken (tr_conns t p)"
    and "\<And>m k. tr_idle t = Some m \<Longrightarrow> gomap_get m k \<noteq> Some []"
    and "\<And>k. length (idle_of t k) \<le> nat (maxIdle C)"
  shows "pool_ok C t"
  using assms by (simp add: pool_ok_def)

lemma pool_okD:
  assumes "pool_ok C t"
  shows "held t p \<le> 1" and "tr_next t \<le> p \<Longrightarrow> held t p = 0"
    and "p \<in> set (idle_of t k) \<Longrightarrow> pc_cacheKey (tr_conns t p) = k"
    and "p < tr_next t \<Longrightarrow> pc_loop (tr_conns t p) = Ended \<Longrightarrow> pc_broken (tr_conns t p)"
    and "tr_idle t = Some m \<Longrightarrow> gomap_get m k \<noteq> Some []"
    and "length (idle_of t k) \<le> nat (maxIdle C)"
  using assms by (simp_all add: pool_ok_def)

text \<open>A state with the same pool, less in the hands of each, and no more running readers keeps it.\<close>

lemma pool_ok_mono:
  assumes "pool_ok C t" and "tr_idle t' = tr_idle t" and "tr_next t' = tr_next t"
    and "\<And>q. pc_cacheKey (tr_conns t' q) = pc_cacheKey (tr_conns t q)"
    and "\<And>q. held t' q \<le> held t q"
    and "\<And>q. q < tr_next t \<Longrightarrow> pc_loop (tr_conns t' q) = Ended \<Longrightarrow> pc_broken (tr_conns t' q)"
  shows "pool_ok C t'"
proof (rule pool_okI)
  have idle: "idle_of t' = idle_of t" using assms(2) by (simp add: fun_eq_iff idle_of_def)
  fix p k m
  show "held t' p \<le> 1" using assms(5) [of p] pool_okD(1) [OF assms(1), of p] by linarith
  show "tr_next t' \<le> p \<Longrightarrow> held t' p = 0" using assms(3) assms(5) [of p] pool_okD(2) [OF assms(1), of p] by simp
  show "p \<in> set (idle_of t' k) \<Longrightarrow> pc_cacheKey (tr_conns t' p) = k"
    using assms(4) idle pool_okD(3) [OF assms(1)] by simp
  show "p < tr_next t' \<Longrightarrow> pc_loop (tr_conns t' p) = Ended \<Longrightarrow> pc_broken (tr_conns t' p)" using assms(3,6) by simp
  show "tr_idle t' = Some m \<Longrightarrow> gomap_get m k \<noteq> Some []" using assms(2) pool_okD(5) [OF assms(1)] by simp
  show "length (idle_of t' k) \<le> nat (maxIdle C)" using idle pool_okD(6) [OF assms(1)] by simp
qed

section \<open>Fields\<close>

lemma upd_conn_simps [simp]:
  "tr_idle (upd_conn p f t) = tr_idle t" "tr_next (upd_conn p f t) = tr_next t" "tr_got (upd_conn p f t) = tr_got t"
  "tr_sending (upd_conn p f t) = tr_sending t" "tr_answered (upd_conn p f t) = tr_answered t"
  "tr_conns (upd_conn p f t) q = (if q = p then f (tr_conns t p) else tr_conns t q)"
  "idle_of (upd_conn p f t) k = idle_of t k"
  by (simp_all add: upd_conn_def idle_of_def)

lemma idle_of_update [simp]:
  "idle_of (t\<lparr>tr_got := xs\<rparr>) = idle_of t" "idle_of (t\<lparr>tr_sending := xs\<rparr>) = idle_of t"
  "idle_of (t\<lparr>tr_answered := xs\<rparr>) = idle_of t" "idle_of (t\<lparr>tr_conns := c\<rparr>) = idle_of t" "idle_of (t\<lparr>tr_next := n\<rparr>) = idle_of t"
  by (simp_all add: idle_of_def fun_eq_iff)

lemma closeLocked_simps [simp]:
  "pc_cacheKey (closeLocked c) = pc_cacheKey c" "pc_reqch (closeLocked c) = pc_reqch c"
  "pc_loop (closeLocked c) = pc_loop c" "pc_broken (closeLocked c)" "pc_expected (closeLocked c) = pc_expected c"
  by (simp_all add: closeLocked_def)

lemma held_close [simp]: "held (pc_close p t) q = held t q"
  by (simp add: held_def pc_close_def)

lemma held_answered [simp]: "held (t\<lparr>tr_answered := xs\<rparr>) q = held t q"
  by (simp add: held_def)

lemma pc_close_simps [simp]:
  "tr_idle (pc_close p t) = tr_idle t" "tr_next (pc_close p t) = tr_next t" "tr_got (pc_close p t) = tr_got t"
  "tr_sending (pc_close p t) = tr_sending t" "idle_of (pc_close p t) k = idle_of t k"
  "tr_conns (pc_close p t) q = (if q = p then closeLocked (tr_conns t p) else tr_conns t q)"
  by (simp_all add: pc_close_def)

lemma pool_ok_close [simp]:
  assumes "pool_ok C t" shows "pool_ok C (pc_close p t)"
  by (rule pool_ok_mono [OF assms]) (use pool_okD(4) [OF assms] in \<open>auto split: if_splits\<close>)

lemma pool_ok_answered [simp]: "pool_ok C (t\<lparr>tr_answered := xs\<rparr>) = pool_ok C t"
  by (auto simp: pool_ok_def)

text \<open>A reader that ends has closed its connection.\<close>

lemma pool_ok_ended:
  assumes "pool_ok C t" shows "pool_ok C (upd_conn p (\<lambda>pc. pc\<lparr>pc_loop := Ended\<rparr>) (pc_close p t))"
proof (rule pool_ok_mono [OF pool_ok_close [OF assms, of p]])
  show "held (upd_conn p (\<lambda>pc. pc\<lparr>pc_loop := Ended\<rparr>) (pc_close p t)) q \<le> held (pc_close p t) q" for q
    by (simp add: held_def)
  show "q < tr_next (pc_close p t) \<Longrightarrow>
      pc_loop (tr_conns (upd_conn p (\<lambda>pc. pc\<lparr>pc_loop := Ended\<rparr>) (pc_close p t)) q) = Ended \<Longrightarrow>
      pc_broken (tr_conns (upd_conn p (\<lambda>pc. pc\<lparr>pc_loop := Ended\<rparr>) (pc_close p t)) q)" for q
    using pool_okD(4) [OF pool_ok_close [OF assms, of p], of q] by (auto split: if_splits)
qed simp_all

lemma pool_ok_start: "pool_ok C new_transport"
  by (simp add: pool_ok_def new_transport_def held_def idle_of_def)

section \<open>The operations on the pool\<close>

lemma pop_idle_split:
  assumes "pop_idle b xs = (r, rest)"
  shows "\<exists>dropped. xs = dropped @ (case r of None \<Rightarrow> [] | Some p \<Rightarrow> [p]) @ rest \<and> list_all b dropped \<and>
    (r = None \<longrightarrow> rest = []) \<and> (\<forall>p. r = Some p \<longrightarrow> \<not> b p)"
  using assms
proof (induction xs)
  case (Cons x xs)
  show ?case
  proof (cases "b x")
    case True
    with Cons obtain d where "xs = d @ (case r of None \<Rightarrow> [] | Some p \<Rightarrow> [p]) @ rest" "list_all b d"
      "r = None \<longrightarrow> rest = []" "\<forall>p. r = Some p \<longrightarrow> \<not> b p" by auto
    with True show ?thesis by (intro exI [of _ "x # d"]) simp
  next
    case False with Cons.prems show ?thesis by (intro exI [of _ "[]"]) auto
  qed
qed simp

text \<open>Taking a connection: no panic, and a good one comes out, which the pool no longer has.\<close>

lemma getIdleConn_spec:
  assumes ok: "pool_ok C t"
  obtains t' r where "getIdleConn key t = Done t' r" and "pool_ok C t'" and "tr_conns t' = tr_conns t"
    and "tr_next t' = tr_next t" and "tr_got t' = tr_got t" and "tr_sending t' = tr_sending t"
    and "\<And>p. r = Some p \<Longrightarrow>
      held t' p = 0 \<and> p < tr_next t \<and> pc_cacheKey (tr_conns t p) = key \<and> \<not> isBroken t p"
proof (cases "\<exists>m ps. tr_idle t = Some m \<and> gomap_get m key = Some ps")
  case False
  then have "getIdleConn key t = Done t None" by (auto simp: getIdleConn_def split: option.splits)
  with ok that show thesis by simp
next
  case True
  then obtain m ps where m: "tr_idle t = Some m" "gomap_get m key = Some ps" by blast
  have ps: "ps = idle_of t key" "ps \<noteq> []" using m pool_okD(5) [OF ok m(1), of key] by (auto simp: idle_of_def)
  obtain r rest where pop: "pop_idle (isBroken t) (rev ps) = (r, rest)" by fastforce
  define t' where "t' = t\<lparr>tr_idle := Some (if rest = [] then gomap_del key m else gomap_set key (rev rest) m)\<rparr>"
  have get: "getIdleConn key t = Done t' r" using m ps(2) pop by (simp add: getIdleConn_def t'_def)
  obtain d where d: "rev ps = d @ (case r of None \<Rightarrow> [] | Some p \<Rightarrow> [p]) @ rest" "\<forall>p. r = Some p \<longrightarrow> \<not> isBroken t p"
    using pop_idle_split [OF pop] by blast
  have idle: "idle_of t' k = (if k = key then rev rest else idle_of t k)" for k
    by (auto simp: idle_of_def t'_def m gomap_simps)
  have cl: "count_list (idle_of t' k) q + (if r = Some q \<and> k = key then 1 else 0) \<le> count_list (idle_of t k) q" for k q
  proof -
    have "count_list ps q = count_list (rev ps) q" by simp
    then have "count_list ps q = count_list d q + (if r = Some q then 1 else 0) + count_list rest q"
      using d(1) by (auto split: option.splits)
    then show ?thesis using idle ps(1) by simp
  qed
  have sub: "set (idle_of t' k) \<subseteq> set (idle_of t k)" for k
    using cl [of k] by (metis (no_types, lifting) add_leE count_list_0_iff le_zero_eq subsetI)
  have fld: "tr_conns t' = tr_conns t" "tr_next t' = tr_next t" "tr_got t' = tr_got t" "tr_sending t' = tr_sending t"
    by (simp_all add: t'_def)
  have h: "held t' q \<le> held t q" for q
    using cl [of "pc_cacheKey (tr_conns t q)" q] by (simp add: held_def fld)
  have ok': "pool_ok C t'"
  proof (rule pool_okI)
    fix p k mm
    show "held t' p \<le> 1" using h [of p] pool_okD(1) [OF ok, of p] by linarith
    show "tr_next t' \<le> p \<Longrightarrow> held t' p = 0" using h [of p] pool_okD(2) [OF ok, of p] fld by simp
    show "p \<in> set (idle_of t' k) \<Longrightarrow> pc_cacheKey (tr_conns t' p) = k" using sub pool_okD(3) [OF ok] fld by auto
    show "p < tr_next t' \<Longrightarrow> pc_loop (tr_conns t' p) = Ended \<Longrightarrow> pc_broken (tr_conns t' p)"
      using pool_okD(4) [OF ok] fld by simp
    show "tr_idle t' = Some mm \<Longrightarrow> gomap_get mm k \<noteq> Some []"
      using pool_okD(5) [OF ok m(1)] by (auto simp: t'_def gomap_simps split: if_splits)
    have "length rest \<le> length ps" using d(1) by (metis length_append length_rev add_leD2 le_add2)
    then show "length (idle_of t' k) \<le> nat (maxIdle C)"
      using idle pool_okD(6) [OF ok, of k] ps(1) by auto
  qed
  have out: "held t' p = 0 \<and> p < tr_next t \<and> pc_cacheKey (tr_conns t p) = key \<and> \<not> isBroken t p" if r: "r = Some p" for p
  proof -
    have "1 \<le> count_list (idle_of t key) p" using cl [of key p] r by simp
    then have mem: "p \<in> set (idle_of t key)" by (metis count_list_0_iff not_one_le_zero)
    then have key: "pc_cacheKey (tr_conns t p) = key" by (rule pool_okD(3) [OF ok])
    have "held t' p + 1 \<le> held t p" using cl [of key p] r key by (simp add: held_def fld)
    then have "held t' p = 0" and "held t p \<noteq> 0" using pool_okD(1) [OF ok, of p] by simp_all
    with key d(2) r pool_okD(2) [OF ok, of p] show ?thesis by force
  qed
  show thesis by (rule that [OF get ok' fld out])
qed

text \<open>Putting back a connection that nobody holds.\<close>

lemma putIdleConn_ok:
  assumes ok: "pool_ok C t" and p: "held t p = 0" "p < tr_next t"
  shows "pool_ok C (fst (putIdleConn C p t))"
proof -
  define key where "key = pc_cacheKey (tr_conns t p)"
  define t1 where "t1 = (if tr_idle t = None then t\<lparr>tr_idle := Some []\<rparr> else t)"
  have t1: "idle_of t1 k = idle_of t k" for k by (auto simp: t1_def idle_of_def split: option.splits)
  have fld1: "tr_conns t1 = tr_conns t" "tr_next t1 = tr_next t" "tr_got t1 = tr_got t" "tr_sending t1 = tr_sending t"
    by (simp_all add: t1_def)
  have held1: "held t1 q = held t q" for q by (simp add: held_def fld1 t1)
  have ok1: "pool_ok C t1"
    using ok by (auto simp: pool_ok_def held1 fld1 t1) (auto simp: t1_def split: if_splits)
  define t2 where "t2 = t1\<lparr>tr_idle := map_option (gomap_set key (idle_of t1 key @ [p])) (tr_idle t1)\<rparr>"
  have some: "\<exists>m. tr_idle t1 = Some m" by (auto simp: t1_def)
  have fld2: "tr_conns t2 = tr_conns t" "tr_next t2 = tr_next t" "tr_got t2 = tr_got t" "tr_sending t2 = tr_sending t"
    by (simp_all add: t2_def fld1)
  have idle2: "idle_of t2 k = (if k = key then idle_of t key @ [p] else idle_of t k)" for k
  proof -
    obtain m where m: "tr_idle t1 = Some m" using some by blast
    have "idle_of t2 k = (if k = key then idle_of t1 key @ [p] else idle_of t1 k)"
      by (simp add: t2_def idle_of_def [of "t1\<lparr>tr_idle := x\<rparr>" for x] m gomap_simps) (simp add: idle_of_def m)
    then show ?thesis by (simp add: t1)
  qed
  have held2: "held t2 q = (if q = p then 1 else held t q)" for q
    using p(1) by (auto simp: held_def fld2 idle2 key_def)
  have ok2: "pool_ok C t2" if room: "int (length (idle_of t1 key)) < maxIdle C"
  proof (rule pool_okI)
    fix q k mm
    show "held t2 q \<le> 1" using pool_okD(1) [OF ok, of q] by (simp add: held2)
    show "tr_next t2 \<le> q \<Longrightarrow> held t2 q = 0" using pool_okD(2) [OF ok, of q] p(2) by (auto simp: held2 fld2)
    show "q \<in> set (idle_of t2 k) \<Longrightarrow> pc_cacheKey (tr_conns t2 q) = k"
      using pool_okD(3) [OF ok, of q] by (auto simp: idle2 fld2 key_def split: if_splits)
    show "q < tr_next t2 \<Longrightarrow> pc_loop (tr_conns t2 q) = Ended \<Longrightarrow> pc_broken (tr_conns t2 q)"
      using pool_okD(4) [OF ok] by (simp add: fld2)
    show "tr_idle t2 = Some mm \<Longrightarrow> gomap_get mm k \<noteq> Some []"
      using pool_okD(5) [OF ok1] by (auto simp: t2_def gomap_simps split: if_splits)
    show "length (idle_of t2 k) \<le> nat (maxIdle C)"
      using pool_okD(6) [OF ok, of k] room by (auto simp: idle2 t1)
  qed
  show ?thesis
    using ok ok1 ok2 by (auto simp: putIdleConn_def Let_def t2_def t1_def [symmetric] key_def [symmetric])
qed

section \<open>The steps\<close>

lemma putIdleConn_simps [simp]:
  "tr_next (fst (putIdleConn C p t)) = tr_next t"
  "pc_cacheKey (tr_conns (fst (putIdleConn C p t)) q) = pc_cacheKey (tr_conns t q)"
  "pc_reqch (tr_conns (fst (putIdleConn C p t)) q) = pc_reqch (tr_conns t q)"
  "pc_loop (tr_conns (fst (putIdleConn C p t)) q) = pc_loop (tr_conns t q)"
  by (auto simp: putIdleConn_def Let_def)

lemma upd_loop_twice [simp]:
  "upd_conn p (\<lambda>pc. pc\<lparr>pc_loop := l\<rparr>) (upd_conn p (\<lambda>pc. pc\<lparr>pc_loop := l'\<rparr>) t) = upd_conn p (\<lambda>pc. pc\<lparr>pc_loop := l\<rparr>) t"
  by (simp add: upd_conn_def)

lemma closeLocked_loop: "closeLocked (c\<lparr>pc_loop := l\<rparr>) = (closeLocked c)\<lparr>pc_loop := l\<rparr>"
  by (cases c) (simp add: closeLocked_def)

lemma upd_loop_close:
  "pc_close p (upd_conn p (\<lambda>pc. pc\<lparr>pc_loop := l\<rparr>) t) = upd_conn p (\<lambda>pc. pc\<lparr>pc_loop := l\<rparr>) (pc_close p t)"
  by (simp add: pc_close_def upd_conn_def closeLocked_loop)

lemma upd_conn_idle: "(upd_conn p f t)\<lparr>tr_idle := m\<rparr> = upd_conn p f (t\<lparr>tr_idle := m\<rparr>)"
  by (cases t) (simp add: upd_conn_def)

text \<open>What is put in the pool does not depend on what the reader of the connection does.\<close>

lemma putIdleConn_loop:
  "putIdleConn C p (upd_conn p (\<lambda>pc. pc\<lparr>pc_loop := l\<rparr>) t) =
     (upd_conn p (\<lambda>pc. pc\<lparr>pc_loop := l\<rparr>) (fst (putIdleConn C p t)), snd (putIdleConn C p t))"
  by (simp add: putIdleConn_def Let_def isBroken_def upd_loop_close upd_conn_idle)

text \<open>Something more in the hands of one goroutine.\<close>

lemma pool_ok_take:
  assumes ok: "pool_ok C t" and p: "held t p = 0" "p < tr_next t"
    and t': "tr_idle t' = tr_idle t" "tr_next t' = tr_next t"
    and h: "held t' p \<le> 1" "\<And>q. q \<noteq> p \<Longrightarrow> held t' q = held t q"
    and c: "\<And>q. pc_cacheKey (tr_conns t' q) = pc_cacheKey (tr_conns t q)"
      "\<And>q. q < tr_next t \<Longrightarrow> pc_loop (tr_conns t' q) = Ended \<Longrightarrow> pc_broken (tr_conns t' q)"
  shows "pool_ok C t'"
proof (rule pool_okI)
  have idle: "idle_of t' = idle_of t" using t' by (simp add: fun_eq_iff idle_of_def)
  fix q k m
  show "held t' q \<le> 1" using h(1) h(2) [of q] pool_okD(1) [OF ok, of q] by (cases "q = p") auto
  show "tr_next t' \<le> q \<Longrightarrow> held t' q = 0" using h(2) [of q] pool_okD(2) [OF ok, of q] p(2) t'(2) by (cases "q = p") auto
  show "q \<in> set (idle_of t' k) \<Longrightarrow> pc_cacheKey (tr_conns t' q) = k" using c(1) idle pool_okD(3) [OF ok] by simp
  show "q < tr_next t' \<Longrightarrow> pc_loop (tr_conns t' q) = Ended \<Longrightarrow> pc_broken (tr_conns t' q)" using c(2) t'(2) by simp
  show "tr_idle t' = Some m \<Longrightarrow> gomap_get m k \<noteq> Some []" using t'(1) pool_okD(5) [OF ok] by simp
  show "length (idle_of t' k) \<le> nat (maxIdle C)" using idle pool_okD(6) [OF ok] by simp
qed

lemma held_pool:
  "held t p = 0 \<Longrightarrow> p \<notin> set (tr_got t) \<and> p \<notin> set (tr_sending t) \<and> pc_reqch (tr_conns t p) = [] \<and>
     p \<notin> set (idle_of t (pc_cacheKey (tr_conns t p))) \<and> (\<forall>a. pc_loop (tr_conns t p) \<noteq> AwaitBody a)"
  by (auto simp: held_def count_list_0_iff split: read_loop.splits)

text \<open>A request gets a connection of its own, with a reader, for its own address.\<close>

lemma getConn_ok:
  assumes ok: "pool_ok C t" and get: "getConn V A N cm t = Done t' (Inr p)"
  shows "pool_ok C t' \<and> held t' p = 0 \<and> p < tr_next t' \<and> pc_cacheKey (tr_conns t' p) = cm_String V cm \<and>
    \<not> isBroken t' p \<and> pc_loop (tr_conns t' p) = Reading"
proof -
  obtain t1 r where i: "getIdleConn (cm_String V cm) t = Done t1 r" "pool_ok C t1" "tr_conns t1 = tr_conns t"
    "tr_next t1 = tr_next t" "tr_got t1 = tr_got t" "tr_sending t1 = tr_sending t"
    "\<And>p. r = Some p \<Longrightarrow> held t1 p = 0 \<and> p < tr_next t \<and> pc_cacheKey (tr_conns t p) = cm_String V cm \<and> \<not> isBroken t p"
    using getIdleConn_spec [OF ok, of "cm_String V cm"] by blast
  show ?thesis
  proof (cases r)
    case (Some q)
    then have q: "t' = t1" "p = q" using get i(1) by (simp_all add: getConn_def)
    have h: "held t1 q = 0" "q < tr_next t" "\<not> isBroken t q" using i(7) [OF Some] by auto
    then have "pc_loop (tr_conns t1 q) \<noteq> Ended" using pool_okD(4) [OF i(2), of q] i(3,4) by (auto simp: isBroken_def)
    then have "pc_loop (tr_conns t1 q) = Reading" using held_pool [OF h(1)] by (cases "pc_loop (tr_conns t1 q)") auto
    then show ?thesis using q i(2,3,4) i(7) [OF Some] by (simp add: isBroken_def)
  next
    case None
    then have t': "t' = t1\<lparr>tr_conns := (tr_conns t1)(tr_next t1 := new_conn V cm), tr_next := Suc (tr_next t1)\<rparr>" "p = tr_next t1"
      using get i(1) by (auto simp: getConn_def split: option.splits)
    have z: "held t1 q = 0" if "tr_next t1 \<le> q" for q using pool_okD(2) [OF i(2) that] .
    have new: "pc_cacheKey (new_conn V cm) = cm_String V cm" "pc_reqch (new_conn V cm) = []"
      "pc_loop (new_conn V cm) = Reading" "\<not> pc_broken (new_conn V cm)" by (simp_all add: new_conn_def Let_def)
    have mem: "tr_next t1 \<notin> set (idle_of t1 k)" for k
      using held_pool [OF z [of "tr_next t1"]] pool_okD(3) [OF i(2), of "tr_next t1" k] by auto
    have idle: "idle_of t' k = idle_of t1 k" for k by (simp add: t'(1))
    have hq: "held t' q = (if q = p then 0 else held t1 q)" for q
      using held_pool [OF z [of "tr_next t1"]] mem new by (auto simp: held_def t' count_list_0_iff)
    have "pool_ok C t'"
    proof (rule pool_okI)
      fix q k m
      show "held t' q \<le> 1" using hq pool_okD(1) [OF i(2), of q] by simp
      show "tr_next t' \<le> q \<Longrightarrow> held t' q = 0" using hq z [of q] t' by simp
      show "q \<in> set (idle_of t' k) \<Longrightarrow> pc_cacheKey (tr_conns t' q) = k"
        using idle mem [of k] pool_okD(3) [OF i(2), of q k] t' by auto
      show "q < tr_next t' \<Longrightarrow> pc_loop (tr_conns t' q) = Ended \<Longrightarrow> pc_broken (tr_conns t' q)"
        using pool_okD(4) [OF i(2), of q] new t' by (auto simp: less_Suc_eq split: if_splits)
      show "tr_idle t' = Some m \<Longrightarrow> gomap_get m k \<noteq> Some []" using pool_okD(5) [OF i(2)] t' by simp
      show "length (idle_of t' k) \<le> nat (maxIdle C)" using idle pool_okD(6) [OF i(2)] by simp
    qed
    then show ?thesis using hq [of p] new t' by (simp add: isBroken_def)
  qed
qed

lemma getConn_err_ok:
  assumes ok: "pool_ok C t" and get: "getConn V A N cm t = Done t' (Inl e)"
  shows "pool_ok C t'"
proof -
  obtain t1 r where i: "getIdleConn (cm_String V cm) t = Done t1 r" "pool_ok C t1"
    using getIdleConn_spec [OF ok, of "cm_String V cm"] by blast
  then have "t' = t1" using get by (auto simp: getConn_def split: option.splits)
  with i show ?thesis by simp
qed

lemma pool_ok_handled:
  assumes ok: "pool_ok C t" and p: "held t p = 0" "p < tr_next t" "pc_loop (tr_conns t p) = Reading"
  shows "pool_ok C (response_handled C p rc re t)"
proof -
  obtain resp err where re: "re = (resp, err)" by fastforce
  define t1 where "t1 = (if err \<noteq> None then pc_close p t else t)"
  have t1: "pool_ok C t1" "held t1 p = 0" "p < tr_next t1" using ok p by (auto simp: t1_def)
  have put: "pool_ok C (fst (putIdleConn C p t1))" using t1 by (rule putIdleConn_ok)
  have wait: "pool_ok C (upd_conn p (\<lambda>pc. pc\<lparr>pc_loop := AwaitBody a\<rparr>) (t1\<lparr>tr_answered := xs\<rparr>))" for a xs
    by (rule pool_ok_take [OF t1])
       (use t1 pool_okD(4) [OF t1(1)] in \<open>auto simp: held_def split: if_splits\<close>)
  define alive where "alive = (err = None \<and> (case resp of None \<Rightarrow> True | Some r \<Rightarrow> \<not> resp_Close r) \<and> \<not> rq_Close rc)"
  define body where "body = (case resp of None \<Rightarrow> False | Some r \<Rightarrow> resp_ContentLength r \<noteq> 0)"
  have shape: "response_handled C p rc re t =
     (let (t2, alive2) = (if alive \<and> \<not> body then putIdleConn C p t1 else (t1, alive));
          t3 = t2\<lparr>tr_answered := p # tr_answered t2\<rparr>
      in if body then upd_conn p (\<lambda>pc. pc\<lparr>pc_loop := AwaitBody alive2\<rparr>) t3
         else if alive2 then t3 else upd_conn p (\<lambda>pc. pc\<lparr>pc_loop := Ended\<rparr>) (pc_close p t3))"
    by (simp only: response_handled_def re alive_def body_def t1_def Let_def prod.case)
  have ended: "pool_ok C u \<Longrightarrow> pool_ok C (upd_conn p (\<lambda>pc. pc\<lparr>pc_loop := Ended\<rparr>) (pc_close p (u\<lparr>tr_answered := xs\<rparr>)))" for u xs
    by (rule pool_ok_ended) simp
  show ?thesis
    using t1(1) put wait by (simp add: shape Let_def split_beta ended)
qed

lemma pool_ok_body:
  assumes ok: "pool_ok C t" and p: "pc_loop (tr_conns t p) = AwaitBody a" "p < tr_next t"
  shows "pool_ok C (body_read C p alive t)"
proof -
  define t0 where "t0 = upd_conn p (\<lambda>pc. pc\<lparr>pc_loop := Reading\<rparr>) t"
  have h: "held t0 p = 0" using pool_okD(1) [OF ok, of p] p by (simp add: held_def t0_def)
  have "held t0 q \<le> held t q" for q by (auto simp: held_def t0_def)
  then have ok0: "pool_ok C t0"
    by (rule pool_ok_mono [OF ok, rotated 3]) (use pool_okD(4) [OF ok] in \<open>auto simp: t0_def split: if_splits\<close>)
  have put: "pool_ok C (fst (putIdleConn C p t0))" using putIdleConn_ok [OF ok0 h] p by (simp add: t0_def)
  have "body_read C p alive t =
    (if alive \<and> snd (putIdleConn C p t) then fst (putIdleConn C p t0)
     else upd_conn p (\<lambda>pc. pc\<lparr>pc_loop := Ended\<rparr>) (pc_close p (if alive then fst (putIdleConn C p t0) else t0)))"
    by (simp add: body_read_def t0_def putIdleConn_loop upd_loop_close split: prod.splits)
  then show ?thesis using put ok0 by (simp add: pool_ok_ended)
qed

lemma pool_ok_closed_list: "pool_ok C t \<Longrightarrow> pool_ok C (fold pc_close ps t)"
  by (induction ps arbitrary: t) simp_all

lemma pool_ok_forget: "pool_ok C t \<Longrightarrow> pool_ok C (t\<lparr>tr_idle := None\<rparr>)"
proof -
  assume ok: "pool_ok C t"
  have i: "idle_of (t\<lparr>tr_idle := None\<rparr>) k = []" for k by (simp add: idle_of_def)
  have h: "held (t\<lparr>tr_idle := None\<rparr>) q \<le> held t q" for q by (simp add: held_def i)
  show ?thesis
  proof (rule pool_okI)
    fix q show "held (t\<lparr>tr_idle := None\<rparr>) q \<le> 1" using h [of q] pool_okD(1) [OF ok, of q] by linarith
    show "tr_next (t\<lparr>tr_idle := None\<rparr>) \<le> q \<Longrightarrow> held (t\<lparr>tr_idle := None\<rparr>) q = 0"
      using h [of q] pool_okD(2) [OF ok, of q] by simp
  qed (use i pool_okD(4) [OF ok] in auto)
qed

lemma count_remove1: "p \<in> set xs \<Longrightarrow> count_list xs p = Suc (count_list (remove1 p xs) p)"
  by (induction xs) auto

lemma distinct_counts: "(\<And>x. count_list xs x \<le> 1) \<Longrightarrow> distinct xs"
proof (induction xs)
  case (Cons a xs)
  have "count_list xs x \<le> 1" for x using Cons.prems [of x] by (auto split: if_splits)
  moreover have "a \<notin> set xs" using Cons.prems [of a] by (simp add: count_list_0_iff)
  ultimately show ?case using Cons.IH by simp
qed simp

lemma count_remove1_other: "q \<noteq> p \<Longrightarrow> count_list (remove1 p xs) q = count_list xs q"
  by (induction xs) auto

lemma count_remove1_le: "count_list (remove1 p xs) q \<le> count_list xs q"
  by (induction xs) auto

lemma pool_ok_step:
  assumes "tr_step C t t'" and ok: "pool_ok C t" shows "pool_ok C t'"
  using assms(1)
proof cases
  case (get V A N cm t1 p)
  have g: "pool_ok C t1" "held t1 p = 0" "p < tr_next t1" using getConn_ok [OF ok get(2)] by auto
  show ?thesis unfolding get(1)
    by (rule pool_ok_take [OF g]) (use g pool_okD(4) [OF g(1)] in \<open>auto simp: held_def\<close>)
next
  case (get_failed V A N cm e)
  show ?thesis by (rule getConn_err_ok [OF ok get_failed(1)])
next
  case (announce p)
  have c: "count_list (tr_got t) p = Suc (count_list (remove1 p (tr_got t)) p)"
    using announce(2) by (rule count_remove1)
  show ?thesis unfolding announce(1)
    by (rule pool_ok_mono [OF ok]) (use c pool_okD(4) [OF ok] in \<open>auto simp: held_def count_remove1_other split: if_splits\<close>)
next
  case (sent p rc)
  have c: "count_list (tr_sending t) p = Suc (count_list (remove1 p (tr_sending t)) p)"
    using sent(2) by (rule count_remove1)
  show ?thesis unfolding sent(1)
    by (rule pool_ok_mono [OF ok]) (use c pool_okD(4) [OF ok] in \<open>auto simp: held_def count_remove1_other split: if_splits\<close>)
next
  case (not_sent p)
  have "pool_ok C (t\<lparr>tr_sending := remove1 p (tr_sending t)\<rparr>)"
    by (rule pool_ok_mono [OF ok]) (use pool_okD(4) [OF ok] in \<open>auto simp: held_def count_remove1_le\<close>)
  then show ?thesis unfolding not_sent(1) by simp
next
  case (unsolicited p)
  show ?thesis unfolding unsolicited(1) by (rule pool_ok_ended [OF ok])
next
  case (response p rc rcs re e r zerr)
  define t0 where "t0 = upd_conn p (\<lambda>pc. pc\<lparr>pc_reqch := rcs\<rparr>) t"
  have h: "held t0 p = 0" using pool_okD(1) [OF ok, of p] response by (simp add: held_def t0_def)
  have "held t0 q \<le> held t q" for q using response by (auto simp: held_def t0_def)
  then have "pool_ok C t0"
    by (rule pool_ok_mono [OF ok, rotated 3]) (use pool_okD(4) [OF ok] in \<open>auto simp: t0_def split: if_splits\<close>)
  then show ?thesis unfolding response(1) t0_def [symmetric]
    by (rule pool_ok_handled) (use h response in \<open>simp_all add: t0_def\<close>)
next
  case (body_end p alive)
  show ?thesis unfolding body_end(1) by (rule pool_ok_body [OF ok body_end(2,3)])
next
  case (answered p)
  show ?thesis unfolding answered(1)
    by (rule pool_ok_mono [OF ok]) (use pool_okD(4) [OF ok] in \<open>auto simp: held_def split: if_splits\<close>)
next
  case close_idle
  show ?thesis unfolding close_idle(1)
    by (auto simp: CloseIdleConnections_def ok split: option.splits intro!: pool_ok_closed_list pool_ok_forget)
qed

lemma pool_ok_reachable: "tr_reachable C t \<Longrightarrow> pool_ok C t"
  by (induction rule: tr_reachable.induct) (auto intro: pool_ok_start pool_ok_step)

section \<open>Responses that somebody waits for\<close>

definition awaited :: "transport \<Rightarrow> nat \<Rightarrow> nat" where
  "awaited t p = count_list (tr_sending t) p + length (pc_reqch (tr_conns t p)) + count_list (tr_answered t) p"

definition expected_ok :: "transport \<Rightarrow> bool" where
  "expected_ok t \<longleftrightarrow> (\<forall>p. int (awaited t p) \<le> pc_expected (tr_conns t p)) \<and> (\<forall>p \<ge> tr_next t. count_list (tr_answered t) p = 0)"

lemma expected_okI:
  assumes "expected_ok t" and "tr_next t' = tr_next t"
    and "\<And>q. int (awaited t' q) - pc_expected (tr_conns t' q) \<le> int (awaited t q) - pc_expected (tr_conns t q)"
    and "\<And>q. tr_next t \<le> q \<Longrightarrow> count_list (tr_answered t') q = 0"
  shows "expected_ok t'"
  using assms by (simp add: expected_ok_def) (smt (verit))

lemma awaited_close [simp]: "awaited (pc_close p t) q = awaited t q"
  by (simp add: awaited_def pc_close_def)

lemma expected_close [simp]: "expected_ok (pc_close p t) = expected_ok t"
  by (auto simp: expected_ok_def pc_close_def awaited_def)

lemma expected_loop [simp]: "expected_ok (upd_conn p (\<lambda>pc. pc\<lparr>pc_loop := l\<rparr>) t) = expected_ok t"
  by (auto simp: expected_ok_def awaited_def)

lemma expected_idle [simp]: "expected_ok (t\<lparr>tr_idle := m\<rparr>) = expected_ok t"
  by (simp add: expected_ok_def awaited_def)

lemma expected_got [simp]: "expected_ok (t\<lparr>tr_got := m\<rparr>) = expected_ok t"
  by (simp add: expected_ok_def awaited_def)

lemma expected_put [simp]: "expected_ok (fst (putIdleConn C p t)) = expected_ok t"
  by (simp add: putIdleConn_def Let_def)

lemma expected_body [simp]: "expected_ok (body_read C p alive t) = expected_ok t"
  by (simp add: body_read_def split_beta)

lemma expected_closed_list [simp]: "expected_ok (fold pc_close ps t) = expected_ok t"
  by (induction ps arbitrary: t) simp_all

lemma expected_getIdle: "getIdleConn key t = Done t' r \<Longrightarrow> expected_ok t' = expected_ok t"
  by (auto simp: getIdleConn_def split: option.splits if_splits prod.splits)

lemma expected_getConn:
  assumes ok: "pool_ok C t" and e: "expected_ok t" and get: "getConn V A N cm t = Done t' r"
  shows "expected_ok t'"
proof -
  obtain t1 c where i: "getIdleConn (cm_String V cm) t = Done t1 c" "pool_ok C t1"
    using getIdleConn_spec [OF ok, of "cm_String V cm"] by blast
  then have e1: "expected_ok t1" using e expected_getIdle by blast
  define u where "u = t1\<lparr>tr_conns := (tr_conns t1)(tr_next t1 := new_conn V cm), tr_next := Suc (tr_next t1)\<rparr>"
  have h: "held t1 (tr_next t1) = 0" using pool_okD(2) [OF i(2)] by simp
  have "expected_ok u"
    using e1 held_pool [OF h] by (auto simp: expected_ok_def awaited_def u_def new_conn_def Let_def count_list_0_iff)
  moreover have "t' = t1 \<or> t' = u"
    using get i(1) by (auto simp: getConn_def u_def split: option.splits)
  ultimately show ?thesis using e1 by auto
qed

lemma awaited_answered:
  "tr_answered t = xs \<Longrightarrow> awaited (t\<lparr>tr_answered := p # xs\<rparr>) q = awaited t q + (if q = p then 1 else 0)"
  by (simp add: awaited_def)

lemma expected_handled:
  assumes "expected_ok t" and "pc_reqch (tr_conns t p) = rc # rcs" and p: "p < tr_next t"
  shows "expected_ok (response_handled C p rc re (upd_conn p (\<lambda>pc. pc\<lparr>pc_reqch := rcs\<rparr>) t))"
proof -
  define shift where "shift u = (tr_next u = tr_next t \<and>
    (\<forall>q. int (awaited u q) - pc_expected (tr_conns u q) = int (awaited t q) - pc_expected (tr_conns t q) - (if q = p then 1 else 0)) \<and>
    tr_answered u = tr_answered t)" for u
  have answer: "expected_ok (u\<lparr>tr_answered := p # tr_answered u\<rparr>)" if "shift u" for u
  proof (rule expected_okI [OF assms(1)])
    fix q
    have "int (awaited u q) - pc_expected (tr_conns u q) = int (awaited t q) - pc_expected (tr_conns t q) - (if q = p then 1 else 0)"
      using that unfolding shift_def by blast
    then show "int (awaited (u\<lparr>tr_answered := p # tr_answered u\<rparr>) q) - pc_expected (tr_conns (u\<lparr>tr_answered := p # tr_answered u\<rparr>) q) \<le>
        int (awaited t q) - pc_expected (tr_conns t q)" by (simp add: awaited_answered split: if_splits)
  qed (use that p assms(1) in \<open>auto simp: shift_def expected_ok_def\<close>)
  have put: "shift (fst (putIdleConn C p u)) = shift u" and close: "shift (pc_close p u) = shift u" for u
    by (auto simp: putIdleConn_def Let_def shift_def awaited_def pc_close_def)
  have "shift (upd_conn p (\<lambda>pc. pc\<lparr>pc_reqch := rcs\<rparr>) t)" using assms(2) by (auto simp: shift_def awaited_def)
  then show ?thesis
    by (simp add: response_handled_def split_beta Let_def answer put close)
qed

lemma expected_step:
  assumes "tr_step C t t'" and ok: "pool_ok C t" and e: "expected_ok t" shows "expected_ok t'"
  using assms(1)
proof cases
  case (get V A N cm t1 p)
  show ?thesis unfolding get(1) using expected_getConn [OF ok e get(2)] by simp
next
  case (get_failed V A N cm e)
  show ?thesis by (rule expected_getConn [OF ok e get_failed(1)])
next
  case (announce p)
  show ?thesis unfolding announce(1)
    by (rule expected_okI [OF e]) (use e in \<open>auto simp: awaited_def expected_ok_def\<close>)
next
  case (sent p rc)
  show ?thesis unfolding sent(1)
    by (rule expected_okI [OF e])
       (use e count_remove1 [OF sent(2)] in \<open>auto simp: awaited_def expected_ok_def count_remove1_other\<close>)
next
  case (not_sent p)
  show ?thesis unfolding not_sent(1) expected_close
    by (rule expected_okI [OF e]) (use e in \<open>auto simp: awaited_def expected_ok_def count_remove1_le\<close>)
next
  case (unsolicited p)
  show ?thesis unfolding unsolicited(1) using e by simp
next
  case (response p rc rcs re e' r zerr)
  show ?thesis unfolding response(1) by (rule expected_handled [OF e response(5,4)])
next
  case (body_end p alive)
  show ?thesis unfolding body_end(1) using e by simp
next
  case (answered p)
  show ?thesis unfolding answered(1)
    by (rule expected_okI [OF e])
       (use e count_remove1 [OF answered(2)] count_remove1_le [of p "tr_answered t"] in
         \<open>auto simp: awaited_def expected_ok_def count_remove1_other\<close>)
next
  case close_idle
  show ?thesis unfolding close_idle(1) using e by (simp add: CloseIdleConnections_def split: option.splits)
qed

lemma expected_reachable: "tr_reachable C t \<Longrightarrow> expected_ok t"
proof (induction rule: tr_reachable.induct)
  case start
  show ?case by (simp add: expected_ok_def awaited_def new_transport_def)
next
  case (step t t')
  then show ?case using expected_step pool_ok_reachable by blast
qed

section \<open>What the transport promises\<close>

text \<open>
  C36: in every state that the goroutines of a transport can reach, the connection that \<open>getConn\<close> gives for a
  request is one for the request's proxy, scheme and address (it has their key in the pool), it is not broken, its reader waits for a
  response, and nobody else has it: no other request is about to be sent, queued or being read on it, and the
  pool no longer has it.
\<close>
theorem transport_exclusive:
  assumes "tr_reachable C t" and "getConn V A N cm t = Done t' (Inr p)"
  shows "pc_cacheKey (tr_conns t' p) = cm_String V cm \<and> \<not> isBroken t' p \<and> pc_loop (tr_conns t' p) = Reading \<and>
    p \<notin> set (tr_got t') \<and> p \<notin> set (tr_sending t') \<and> pc_reqch (tr_conns t' p) = [] \<and> (\<forall>k. p \<notin> set (idle_of t' k))"
proof -
  have g: "pool_ok C t'" "held t' p = 0" "pc_cacheKey (tr_conns t' p) = cm_String V cm" "\<not> isBroken t' p"
    "pc_loop (tr_conns t' p) = Reading"
    using getConn_ok [OF pool_ok_reachable [OF assms(1)] assms(2)] by auto
  have "p \<notin> set (idle_of t' k)" for k using held_pool [OF g(2)] pool_okD(3) [OF g(1), of p k] by auto
  then show ?thesis using g held_pool [OF g(2)] by simp
qed

text \<open>
  C37: in every reachable state, taking an idle connection does not fail; the idle connections of an address
  are no more than allowed, distinct, and free of requests and unread bodies; and a connection on which
  somebody waits for a response is not taken for one with a response that nobody asked for.
\<close>
theorem transport_pool:
  assumes "tr_reachable C t"
  shows "(\<exists>t' r. getIdleConn key t = Done t' r) \<and> length (idle_of t key) \<le> nat (maxIdle C) \<and> distinct (idle_of t key) \<and>
    (\<forall>p \<in> set (idle_of t key). pc_cacheKey (tr_conns t p) = key \<and> pc_reqch (tr_conns t p) = [] \<and>
       p \<notin> set (tr_got t) \<and> p \<notin> set (tr_sending t) \<and> (\<forall>a. pc_loop (tr_conns t p) \<noteq> AwaitBody a)) \<and>
    (\<forall>p. p \<in> set (tr_sending t) \<or> pc_reqch (tr_conns t p) \<noteq> [] \<or> p \<in> set (tr_answered t) \<longrightarrow> 0 < pc_expected (tr_conns t p))"
proof -
  have ok: "pool_ok C t" and e: "expected_ok t" using assms by (rule pool_ok_reachable, rule expected_reachable)
  have "count_list (idle_of t key) p \<le> 1" for p
  proof (cases "p \<in> set (idle_of t key)")
    case True
    then have "pc_cacheKey (tr_conns t p) = key" by (rule pool_okD(3) [OF ok])
    then show ?thesis using pool_okD(1) [OF ok, of p] by (simp add: held_def)
  qed (simp add: count_list_0_iff)
  then have dist: "distinct (idle_of t key)" by (rule distinct_counts)
  have free: "pc_cacheKey (tr_conns t p) = key \<and> pc_reqch (tr_conns t p) = [] \<and> p \<notin> set (tr_got t) \<and> p \<notin> set (tr_sending t) \<and>
      (\<forall>a. pc_loop (tr_conns t p) \<noteq> AwaitBody a)" if "p \<in> set (idle_of t key)" for p
  proof -
    have k: "pc_cacheKey (tr_conns t p) = key" using that by (rule pool_okD(3) [OF ok])
    have "1 \<le> count_list (idle_of t key) p" using that by (metis count_list_0_iff less_one not_le)
    then have "count_list (tr_got t) p + count_list (tr_sending t) p + length (pc_reqch (tr_conns t p)) +
        (case pc_loop (tr_conns t p) of AwaitBody a \<Rightarrow> 1 | _ \<Rightarrow> 0) = 0"
      using pool_okD(1) [OF ok, of p] unfolding held_def k by linarith
    then show ?thesis using k by (auto simp: count_list_0_iff split: read_loop.splits)
  qed
  have wait: "0 < pc_expected (tr_conns t p)"
    if "p \<in> set (tr_sending t) \<or> pc_reqch (tr_conns t p) \<noteq> [] \<or> p \<in> set (tr_answered t)" for p
  proof -
    have "awaited t p \<noteq> 0" using that by (auto simp: awaited_def count_list_0_iff)
    then show ?thesis using e by (simp add: expected_ok_def) (smt (verit) of_nat_0_less_iff)
  qed
  show ?thesis
    using getIdleConn_spec [OF ok, of key] pool_okD(6) [OF ok, of key] dist free wait by (metis (no_types, lifting))
qed

text \<open>A transport that has sent one request and got its response; the connection is idle again.\<close>

definition ex_user :: user_lib where
  "ex_user = \<lparr>ul_String = url_Host, ul_User = (\<lambda>_. None), ul_Base64URL = (\<lambda>s. s)\<rparr>"

definition ex_addr :: addr_lib where
  "ex_addr = \<lparr>al_SplitHostPort = (\<lambda>s. Some (s, [])), al_IsLoopback = (\<lambda>_. False)\<rparr>"

definition ex_net :: net_lib where
  "ex_net = \<lparr>nl_dial = (\<lambda>_. None), nl_connect = (\<lambda>_. Inl []), nl_handshake = (\<lambda>_. None), nl_verify = None\<rparr>"

definition ex_cm :: connectMethod where
  "ex_cm = \<lparr>cm_proxyURL = None, cm_targetScheme = ''http'', cm_targetAddr = ''a:80''\<rparr>"

definition ex_tc :: transport_config where
  "ex_tc = \<lparr>tc_DisableKeepAlives = False, tc_DisableCompression = False, tc_MaxIdleConnsPerHost = 0\<rparr>"

definition ex_rc :: request_chan where
  "ex_rc = \<lparr>rq_Close = False, rq_HEAD = False, rq_addedGzip = True\<rparr>"

definition ex_resp :: "unit Response" where
  "ex_resp = \<lparr>resp_Status = ''200 OK'', resp_StatusCode = 200, resp_Proto = ''HTTP/1.1'', resp_ProtoMajor = 1,
     resp_ProtoMinor = 1, resp_Header = [], resp_Body = None, resp_ContentLength = 0, resp_TransferEncoding = [],
     resp_Close = False, resp_Trailer = None, resp_Method = None\<rparr>"

definition ex_got :: transport where
  "ex_got = (out_state (getConn ex_user ex_addr ex_net ex_cm new_transport))\<lparr>tr_got := [0]\<rparr>"

definition ex_announced :: transport where
  "ex_announced = upd_conn 0 (\<lambda>pc. pc\<lparr>pc_expected := pc_expected pc + 1\<rparr>)
     (ex_got\<lparr>tr_got := remove1 0 (tr_got ex_got), tr_sending := 0 # tr_sending ex_got\<rparr>)"

definition ex_sent :: transport where
  "ex_sent = upd_conn 0 (\<lambda>pc. pc\<lparr>pc_reqch := pc_reqch pc @ [ex_rc]\<rparr>)
     (ex_announced\<lparr>tr_sending := remove1 0 (tr_sending ex_announced)\<rparr>)"

definition ex_idle :: transport where
  "ex_idle = response_handled ex_tc 0 ex_rc (Some ex_resp, None) (upd_conn 0 (\<lambda>pc. pc\<lparr>pc_reqch := []\<rparr>) ex_sent)"

lemmas ex_defs = ex_user_def ex_addr_def ex_net_def ex_cm_def ex_tc_def ex_rc_def ex_resp_def new_transport_def

lemma ex_got_eq:
  "getConn ex_user ex_addr ex_net ex_cm new_transport = Done (ex_got\<lparr>tr_got := []\<rparr>) (Inr 0)"
  "tr_got ex_got = [0]" "tr_sending ex_got = []" "tr_answered ex_got = []" "tr_next ex_got = 1" "tr_idle ex_got = None"
  "tr_conns ex_got 0 = \<lparr>pc_cacheKey = ''|http|a:80'', pc_closed = False, pc_reqch = [], pc_isProxy = False,
     pc_mutateHeader = None, pc_expected = 0, pc_broken = False, pc_loop = Reading\<rparr>"
  by (simp_all add: ex_got_def getConn_def getIdleConn_def establish_def new_conn_def cm_String_def cm_addr_def ex_defs Let_def)

lemma ex_reachable: "tr_reachable ex_tc ex_idle"
proof -
  have 1: "tr_step ex_tc new_transport ex_got"
    using tr_step.get [OF ex_got_eq(1), of ex_tc] by (simp add: ex_got_def)
  have 2: "tr_step ex_tc ex_got ex_announced"
    unfolding ex_announced_def by (rule tr_step.announce) (simp add: ex_got_eq)
  have 3: "tr_step ex_tc ex_announced ex_sent"
    unfolding ex_sent_def by (rule tr_step.sent) (simp add: ex_announced_def)
  have 4: "tr_step ex_tc ex_sent ex_idle"
    unfolding ex_idle_def
    by (rule tr_step.response [where r = ex_resp and zerr = None])
       (simp_all add: ex_sent_def ex_announced_def ex_got_eq decoded_def ex_rc_def ex_resp_def)
  show ?thesis using 1 2 3 4 tr_reachable.start tr_reachable.step by metis
qed

lemma ex_idle_pool: "tr_idle ex_idle = Some [(''|http|a:80'', [0])]" "\<not> isBroken ex_idle 0"
  by (simp_all add: ex_idle_def response_handled_def ex_resp_def ex_rc_def putIdleConn_def isBroken_def maxIdle_def
      ex_tc_def DefaultMaxIdleConnsPerHost_def idle_of_def ex_sent_def ex_announced_def ex_got_eq)

lemma ex_again:
  "getConn ex_user ex_addr ex_net ex_cm ex_idle = Done (ex_idle\<lparr>tr_idle := Some []\<rparr>) (Inr 0)"
  using ex_idle_pool(2) by (simp add: getConn_def getIdleConn_def ex_idle_pool(1) cm_String_def ex_cm_def)

theorem transport_exclusive_witness:
  "pc_loop (tr_conns (ex_idle\<lparr>tr_idle := Some []\<rparr>) 0) = Reading \<and> pc_reqch (tr_conns (ex_idle\<lparr>tr_idle := Some []\<rparr>) 0) = []"
  using transport_exclusive [OF ex_reachable ex_again] by simp

theorem transport_pool_witness: "idle_of ex_idle ''|http|a:80'' = [0] \<and> pc_reqch (tr_conns ex_idle 0) = []"
  using transport_pool [OF ex_reachable, of "''|http|a:80''"] by (simp add: idle_of_def ex_idle_pool(1))

section \<open>Proxies of the environment\<close>

text \<open>
  An entry of \<open>NO_PROXY\<close> that is only a port ends the request with a panic, and a proxy that is only valid with
  its scheme in front is refused.
\<close>

lemma no_proxy_port_panics: "useProxy ex_addr (\<lambda>s. s) '':80'' ''a:80'' = None"
proof -
  have trim: "TrimSpace '':80'' = '':80''" "TrimSpace ''a:80'' = ''a:80''"
    by (simp_all add: TrimSpace_graphic graphic_def)
  have low: "ToLower (\<lambda>s. s) '':80'' = '':80''" "ToLower (\<lambda>s. s) ''a:80'' = ''a:80''"
    by (simp_all add: ToLower_def lower_byte_def)
  have port: "strip_port '':80'' = []" "strip_port ''a:80'' = ''a''"
    by (simp_all add: strip_port_def hasPort_def upt_rec)
  have split: "Split (CHR '','') '':80'' = ['':80'']" by simp
  show ?thesis by (simp add: useProxy_def ex_addr_def no_proxy_match_def trim low port split)
qed

lemma schemeless_proxy_refused:
  assumes "getenv ''HTTP_PROXY'' = proxy" and "proxy \<noteq> []" and "u_Parse U proxy = Inl e"
    and "useProxy A ul (getenvEitherCase uu ul getenv ''NO_PROXY'') (canonicalAddr (req_URL req)) = Some True"
    and "ToUpper uu ''HTTP_PROXY'' = ''HTTP_PROXY''"
  shows "ProxyFromEnvironment U A uu ul getenv req = Some (Inl (''invalid proxy address '' @ proxy @ '': '' @ e))"
  using assms by (simp add: ProxyFromEnvironment_def getenvEitherCase_def)

section \<open>The end of a body\<close>

text \<open>A body that is read and closed in any order, with whatever the body underneath gives.\<close>

datatype es_op = ReadOp "nat \<times> error option" | CloseOp "error option"

fun es_run :: "es_op list \<Rightarrow> eof_signal \<Rightarrow> nat" where
  "es_run [] es = 0"
| "es_run (ReadOp r # ops) es =
     (case es_Read r es of Done es' (_, did) \<Rightarrow> (if did then 1 else 0) + es_run ops es' | _ \<Rightarrow> 0)"
| "es_run (CloseOp e # ops) es =
     (case es_Close e es of Done es' (_, did) \<Rightarrow> (if did then 1 else 0) + es_run ops es' | _ \<Rightarrow> 0)"

lemma es_run_once: "es_run ops es \<le> (if es_fn es then 1 else 0)"
proof (induction ops arbitrary: es)
  case (Cons op ops)
  note IH = Cons.IH [of es] Cons.IH [of "es\<lparr>es_fn := False\<rparr>"] Cons.IH [of "es\<lparr>es_isClosed := True\<rparr>"]
    Cons.IH [of "es\<lparr>es_isClosed := True, es_fn := False\<rparr>"]
  show ?case
    by (cases op) (use IH in \<open>auto simp: es_Read_def es_Close_def Let_def split: if_splits\<close>)
qed simp

end
