(* ===== verification/Persist.thy ===== *)
theory Persist
  imports Bufio
begin

text \<open>
  The pipelining connections of \<open>http/httputil/persist.go\<close>: \<open>ServerConn\<close>, which reads requests and sends
  responses, and \<open>ClientConn\<close>, which does the opposite. Both have the same fields, here the record
  \<open>persist_conn\<close>; requests are pointers, numbers here. Reading and writing messages and closing bodies are
  arguments: their results are given to the operations. The sequencers of \<open>textproto.Pipeline\<close> are counters.
\<close>

section \<open>The state\<close>

definition ErrPersistEOF :: error where
  "ErrPersistEOF = ''persistent connection closed''"
definition persist_ErrClosed :: error where
  "persist_ErrClosed = ''connection closed by user''"
definition ErrPipeline :: error where
  "ErrPipeline = ''pipeline error''"
definition persist_errClosed :: error where
  "persist_errClosed = ''i/o operation on closed connection''"
definition errPipeCount :: error where
  "errPipeCount = ''persist server pipe count''"

text \<open>The next identifier, and whose turn it is to start a request and a response.\<close>

record Pipeline =
  pl_next :: nat
  pl_request :: nat
  pl_response :: nat

record persist_conn =
  pn_c :: bool
  pn_r :: bool
  pn_re :: "error option"
  pn_we :: "error option"
  pn_lastbody :: bool
  pn_nread :: int
  pn_nwritten :: int
  pn_pipereq :: "(nat, nat) gomap"
  pn_pipe :: Pipeline

definition NewServerConn :: persist_conn where
  "NewServerConn = \<lparr>pn_c = True, pn_r = True, pn_re = None, pn_we = None, pn_lastbody = False, pn_nread = 0, pn_nwritten = 0,
     pn_pipereq = [], pn_pipe = \<lparr>pl_next = 0, pl_request = 0, pl_response = 0\<rparr>\<rparr>"

definition NewClientConn :: persist_conn where
  "NewClientConn = \<lparr>pn_c = True, pn_r = True, pn_re = None, pn_we = None, pn_lastbody = False, pn_nread = 0, pn_nwritten = 0,
     pn_pipereq = [], pn_pipe = \<lparr>pl_next = 0, pl_request = 0, pl_response = 0\<rparr>\<rparr>"

definition persist_Hijack :: "persist_conn \<Rightarrow> persist_conn \<times> bool \<times> bool" where
  "persist_Hijack c = (c\<lparr>pn_c := False, pn_r := False\<rparr>, pn_c c, pn_r c)"

text \<open>Closing gives the error of the connection, if there still was one.\<close>

definition persist_Close :: "error option \<Rightarrow> persist_conn \<Rightarrow> persist_conn \<times> error option" where
  "persist_Close close_err c = (case persist_Hijack c of (c', had, _) \<Rightarrow> (c', if had then close_err else None))"

definition ServerConn_Pending :: "persist_conn \<Rightarrow> int" where
  "ServerConn_Pending c = pn_nread c - pn_nwritten c"

definition ClientConn_Pending :: "persist_conn \<Rightarrow> int" where
  "ClientConn_Pending c = pn_nwritten c - pn_nread c"

text \<open>The identifier of a request that waits for its response; it is forgotten.\<close>

definition take_pipereq :: "nat \<Rightarrow> persist_conn \<Rightarrow> persist_conn \<times> (error + nat)" where
  "take_pipereq req c =
     (c\<lparr>pn_pipereq := gomap_del req (pn_pipereq c)\<rparr>,
      case gomap_get (pn_pipereq c) req of None \<Rightarrow> Inl ErrPipeline | Some i \<Rightarrow> Inr i)"

section \<open>ServerConn\<close>

text \<open>
  What \<open>Read\<close> does under the lock before it reads, with whether there is a body to be closed first, and
  after it has closed the body and read a request: its pointer, whether it closes, and whether it has a body.
\<close>

definition sc_read_begin :: "persist_conn \<Rightarrow> persist_conn \<times> (error + bool)" where
  "sc_read_begin c =
     (case pn_we c of Some e \<Rightarrow> (c, Inl e)
      | None \<Rightarrow> (case pn_re c of Some e \<Rightarrow> (c, Inl e)
                 | None \<Rightarrow> if \<not> pn_r c then (c, Inl persist_errClosed)
                            else (c\<lparr>pn_lastbody := False\<rparr>, Inr (pn_lastbody c))))"

definition sc_read_end ::
  "bool \<Rightarrow> error option \<times> (error + nat \<times> bool \<times> bool) \<Rightarrow> persist_conn \<Rightarrow> persist_conn \<times> nat option \<times> error option" where
  "sc_read_end lastbody io c =
     (case (if lastbody then fst io else None) of
        Some e \<Rightarrow> (c\<lparr>pn_re := Some e\<rparr>, None, Some e)
      | None \<Rightarrow>
          (case snd io of
             Inl e \<Rightarrow>
               if e = io_ErrUnexpectedEOF then (c\<lparr>pn_re := Some ErrPersistEOF\<rparr>, None, Some ErrPersistEOF)
               else (c\<lparr>pn_re := Some e\<rparr>, None, Some e)
           | Inr (req, closes, body) \<Rightarrow>
               let c1 = c\<lparr>pn_lastbody := body, pn_nread := pn_nread c + 1\<rparr>
               in if closes then (c1\<lparr>pn_re := Some ErrPersistEOF\<rparr>, Some req, Some ErrPersistEOF) else (c1, Some req, None)))"

text \<open>\<open>Write\<close>, before and after the response is written; \<open>closes\<close> is the flag of the response.\<close>

definition sc_write_begin :: "bool \<Rightarrow> persist_conn \<Rightarrow> persist_conn \<times> (error + unit)" where
  "sc_write_begin closes c =
     (case pn_we c of Some e \<Rightarrow> (c, Inl e)
      | None \<Rightarrow> if \<not> pn_c c then (c, Inl persist_ErrClosed)
                 else if pn_nread c \<le> pn_nwritten c then (c, Inl errPipeCount)
                 else (if closes then c\<lparr>pn_re := Some ErrPersistEOF\<rparr> else c, Inr ()))"

definition sc_write_end :: "error option \<Rightarrow> persist_conn \<Rightarrow> persist_conn \<times> error option" where
  "sc_write_end err c =
     (case err of Some e \<Rightarrow> (c\<lparr>pn_we := Some e\<rparr>, Some e) | None \<Rightarrow> (c\<lparr>pn_nwritten := pn_nwritten c + 1\<rparr>, None))"

section \<open>ClientConn\<close>

definition cc_write_begin :: "nat \<times> bool \<Rightarrow> persist_conn \<Rightarrow> persist_conn \<times> (error + nat)" where
  "cc_write_begin req c =
     (case pn_re c of Some e \<Rightarrow> (c, Inl e)
      | None \<Rightarrow> (case pn_we c of Some e \<Rightarrow> (c, Inl e)
                 | None \<Rightarrow> if \<not> pn_c c then (c, Inl persist_errClosed)
                            else (if snd req then c\<lparr>pn_we := Some ErrPersistEOF\<rparr> else c, Inr (fst req))))"

definition cc_write_end :: "error option \<Rightarrow> persist_conn \<Rightarrow> persist_conn \<times> error option" where
  "cc_write_end err c =
     (case err of Some e \<Rightarrow> (c\<lparr>pn_we := Some e\<rparr>, Some e) | None \<Rightarrow> (c\<lparr>pn_nwritten := pn_nwritten c + 1\<rparr>, None))"

definition cc_read_begin :: "persist_conn \<Rightarrow> persist_conn \<times> (error + bool)" where
  "cc_read_begin c =
     (case pn_re c of Some e \<Rightarrow> (c, Inl e)
      | None \<Rightarrow> if \<not> pn_r c then (c, Inl persist_errClosed) else (c\<lparr>pn_lastbody := False\<rparr>, Inr (pn_lastbody c)))"

text \<open>The response has a flag, whether it closes, and whether it has a body.\<close>

definition cc_read_end ::
  "bool \<Rightarrow> error option \<times> (error + bool \<times> bool) \<Rightarrow> persist_conn \<Rightarrow> persist_conn \<times> bool \<times> error option" where
  "cc_read_end lastbody io c =
     (case (if lastbody then fst io else None) of
        Some e \<Rightarrow> (c\<lparr>pn_re := Some e\<rparr>, False, Some e)
      | None \<Rightarrow>
          (case snd io of
             Inl e \<Rightarrow> (c\<lparr>pn_re := Some e\<rparr>, False, Some e)
           | Inr (closes, body) \<Rightarrow>
               let c1 = c\<lparr>pn_lastbody := body, pn_nread := pn_nread c + 1\<rparr>
               in if closes then (c1\<lparr>pn_re := Some ErrPersistEOF\<rparr>, True, Some ErrPersistEOF) else (c1, True, None)))"

section \<open>Goroutines on one connection\<close>

text \<open>
  The half of an exchange that deals with a request (\<open>Read\<close> of a server, \<open>Write\<close> of a client) and the half
  that deals with the response, each split where it holds no lock. A half that handles a request may be
  waiting for its turn, at work, or has failed and waits for the turn of its response before it returns.
\<close>

datatype ('a, 'm) first_half = FNone | FWaiting 'a | FBusy 'm | FFailed | FReturned
datatype ('b, 'n) second_half = SNone | SWaiting nat 'b | SBusy nat 'n | SReturned

text \<open>
  All halves by identifier; what has been handled successfully is logged, the requests in \<open>px_order\<close> and the
  responses in \<open>px_wire\<close>, as the identifier and the pointer of the request.
\<close>

record ('a, 'm, 'b, 'n) persist_run =
  px_conn :: persist_conn
  px_first :: "nat \<Rightarrow> ('a, 'm) first_half"
  px_second :: "nat \<Rightarrow> ('b, 'n) second_half"
  px_order :: "(nat \<times> nat) list"
  px_wire :: "(nat \<times> nat) list"

abbreviation px_pipe :: "('a, 'm, 'b, 'n) persist_run \<Rightarrow> Pipeline" where
  "px_pipe s \<equiv> pn_pipe (px_conn s)"

definition on_pipe :: "(Pipeline \<Rightarrow> Pipeline) \<Rightarrow> persist_conn \<Rightarrow> persist_conn" where
  "on_pipe f c = c\<lparr>pn_pipe := f (pn_pipe c)\<rparr>"

definition pipe_Next :: "persist_conn \<Rightarrow> persist_conn" where
  "pipe_Next = on_pipe (\<lambda>p. p\<lparr>pl_next := Suc (pl_next p)\<rparr>)"
definition EndRequest :: "persist_conn \<Rightarrow> persist_conn" where
  "EndRequest = on_pipe (\<lambda>p. p\<lparr>pl_request := Suc (pl_request p)\<rparr>)"
definition EndResponse :: "persist_conn \<Rightarrow> persist_conn" where
  "EndResponse = on_pipe (\<lambda>p. p\<lparr>pl_response := Suc (pl_response p)\<rparr>)"

definition remember :: "nat \<Rightarrow> nat \<Rightarrow> persist_conn \<Rightarrow> persist_conn" where
  "remember req i c = c\<lparr>pn_pipereq := gomap_set req i (pn_pipereq c)\<rparr>"

text \<open>
  The steps, for the four pieces of code: \<open>b1\<close> and \<open>e1\<close> for the request, \<open>b2\<close> and \<open>e2\<close> for the response. \<open>e1\<close> gives the
  request to be remembered, and \<open>e2\<close> whether the response was handled.
\<close>

inductive persist_step ::
  "('a \<Rightarrow> persist_conn \<Rightarrow> persist_conn \<times> (error + 'm)) \<Rightarrow> ('m \<Rightarrow> 'x \<Rightarrow> persist_conn \<Rightarrow> persist_conn \<times> nat option) \<Rightarrow>
   ('b \<Rightarrow> persist_conn \<Rightarrow> persist_conn \<times> (error + 'n)) \<Rightarrow> ('n \<Rightarrow> 'y \<Rightarrow> persist_conn \<Rightarrow> persist_conn \<times> bool) \<Rightarrow>
   ('a, 'm, 'b, 'n) persist_run \<Rightarrow> ('a, 'm, 'b, 'n) persist_run \<Rightarrow> bool"
  for b1 e1 b2 e2 where
  call_first: "i = pl_next (px_pipe s) \<Longrightarrow>
    persist_step b1 e1 b2 e2 s (s\<lparr>px_conn := pipe_Next (px_conn s), px_first := (px_first s)(i := FWaiting a)\<rparr>)"
| begin_first: "px_first s i = FWaiting a \<Longrightarrow> pl_request (px_pipe s) = i \<Longrightarrow> b1 a (px_conn s) = (c, Inr m) \<Longrightarrow>
    persist_step b1 e1 b2 e2 s (s\<lparr>px_conn := c, px_first := (px_first s)(i := FBusy m)\<rparr>)"
| refuse_first: "px_first s i = FWaiting a \<Longrightarrow> pl_request (px_pipe s) = i \<Longrightarrow> b1 a (px_conn s) = (c, Inl e) \<Longrightarrow>
    persist_step b1 e1 b2 e2 s (s\<lparr>px_conn := EndRequest c, px_first := (px_first s)(i := FFailed)\<rparr>)"
| end_first: "px_first s i = FBusy m \<Longrightarrow> e1 m x (px_conn s) = (c, Some p) \<Longrightarrow>
    persist_step b1 e1 b2 e2 s (s\<lparr>px_conn := remember p i (EndRequest c), px_first := (px_first s)(i := FReturned),
      px_order := px_order s @ [(i, p)]\<rparr>)"
| fail_first: "px_first s i = FBusy m \<Longrightarrow> e1 m x (px_conn s) = (c, None) \<Longrightarrow>
    persist_step b1 e1 b2 e2 s (s\<lparr>px_conn := EndRequest c, px_first := (px_first s)(i := FFailed)\<rparr>)"
| return_failed: "px_first s i = FFailed \<Longrightarrow> pl_response (px_pipe s) = i \<Longrightarrow>
    persist_step b1 e1 b2 e2 s (s\<lparr>px_conn := EndResponse (px_conn s), px_first := (px_first s)(i := FReturned)\<rparr>)"
| call_second: "take_pipereq p (px_conn s) = (c, Inr i) \<Longrightarrow>
    persist_step b1 e1 b2 e2 s (s\<lparr>px_conn := c, px_second := (px_second s)(i := SWaiting p b)\<rparr>)"
| begin_second: "px_second s i = SWaiting p b \<Longrightarrow> pl_response (px_pipe s) = i \<Longrightarrow> b2 b (px_conn s) = (c, Inr n) \<Longrightarrow>
    persist_step b1 e1 b2 e2 s (s\<lparr>px_conn := c, px_second := (px_second s)(i := SBusy p n)\<rparr>)"
| refuse_second: "px_second s i = SWaiting p b \<Longrightarrow> pl_response (px_pipe s) = i \<Longrightarrow> b2 b (px_conn s) = (c, Inl e) \<Longrightarrow>
    persist_step b1 e1 b2 e2 s (s\<lparr>px_conn := EndResponse c, px_second := (px_second s)(i := SReturned)\<rparr>)"
| end_second: "px_second s i = SBusy p n \<Longrightarrow> e2 n y (px_conn s) = (c, ok) \<Longrightarrow>
    persist_step b1 e1 b2 e2 s (s\<lparr>px_conn := EndResponse c, px_second := (px_second s)(i := SReturned),
      px_wire := px_wire s @ (if ok then [(i, p)] else [])\<rparr>)"
| hijack: "persist_step b1 e1 b2 e2 s (s\<lparr>px_conn := fst (persist_Hijack (px_conn s))\<rparr>)"

inductive persist_reach ::
  "('a \<Rightarrow> persist_conn \<Rightarrow> persist_conn \<times> (error + 'm)) \<Rightarrow> ('m \<Rightarrow> 'x \<Rightarrow> persist_conn \<Rightarrow> persist_conn \<times> nat option) \<Rightarrow>
   ('b \<Rightarrow> persist_conn \<Rightarrow> persist_conn \<times> (error + 'n)) \<Rightarrow> ('n \<Rightarrow> 'y \<Rightarrow> persist_conn \<Rightarrow> persist_conn \<times> bool) \<Rightarrow>
   ('a, 'm, 'b, 'n) persist_run \<Rightarrow> ('a, 'm, 'b, 'n) persist_run \<Rightarrow> bool"
  for b1 e1 b2 e2 s0 where
  start: "persist_reach b1 e1 b2 e2 s0 s0"
| step: "persist_reach b1 e1 b2 e2 s0 s \<Longrightarrow> persist_step b1 e1 b2 e2 s s' \<Longrightarrow> persist_reach b1 e1 b2 e2 s0 s'"

definition persist_start :: "persist_conn \<Rightarrow> ('a, 'm, 'b, 'n) persist_run" where
  "persist_start c = \<lparr>px_conn = c, px_first = (\<lambda>_. FNone), px_second = (\<lambda>_. SNone), px_order = [], px_wire = []\<rparr>"

text \<open>The pieces of a server, and of a client, which remembers the request that it was given.\<close>

definition srv_b1 :: "unit \<Rightarrow> persist_conn \<Rightarrow> persist_conn \<times> (error + bool)" where
  "srv_b1 a = sc_read_begin"
definition srv_e1 :: "bool \<Rightarrow> error option \<times> (error + nat \<times> bool \<times> bool) \<Rightarrow> persist_conn \<Rightarrow> persist_conn \<times> nat option" where
  "srv_e1 m io c = (case sc_read_end m io c of (c', req, _) \<Rightarrow> (c', req))"
definition srv_e2 :: "unit \<Rightarrow> error option \<Rightarrow> persist_conn \<Rightarrow> persist_conn \<times> bool" where
  "srv_e2 n err c = (case sc_write_end err c of (c', e) \<Rightarrow> (c', e = None))"

definition cli_e1 :: "nat \<Rightarrow> error option \<Rightarrow> persist_conn \<Rightarrow> persist_conn \<times> nat option" where
  "cli_e1 req err c = (case cc_write_end err c of (c', e) \<Rightarrow> (c', if e = None then Some req else None))"
definition cli_b2 :: "unit \<Rightarrow> persist_conn \<Rightarrow> persist_conn \<times> (error + bool)" where
  "cli_b2 b = cc_read_begin"
definition cli_e2 :: "bool \<Rightarrow> error option \<times> (error + bool \<times> bool) \<Rightarrow> persist_conn \<Rightarrow> persist_conn \<times> bool" where
  "cli_e2 n io c = (case cc_read_end n io c of (c', ok, _) \<Rightarrow> (c', ok))"

definition server_reach :: "(unit, bool, bool, unit) persist_run \<Rightarrow> bool" where
  "server_reach = persist_reach srv_b1 srv_e1 sc_write_begin srv_e2 (persist_start NewServerConn)"

definition client_reach :: "(nat \<times> bool, nat, unit, bool) persist_run \<Rightarrow> bool" where
  "client_reach = persist_reach cc_write_begin cli_e1 cli_b2 cli_e2 (persist_start NewClientConn)"

text \<open>\<open>Do\<close> of a client that is alone on its connection: the results of its two halves.\<close>

definition ClientConn_Do :: "nat \<times> bool \<Rightarrow> error option \<Rightarrow> error option \<times> (error + bool \<times> bool) \<Rightarrow> persist_conn \<Rightarrow>
    persist_conn \<times> bool \<times> error option" where
  "ClientConn_Do req werr io c =
     (case cc_write_begin req c of
        (c1, Inl e) \<Rightarrow> (c1, False, Some e)
      | (c1, Inr p) \<Rightarrow>
          (case cc_write_end werr c1 of
             (c2, Some e) \<Rightarrow> (c2, False, Some e)
           | (c2, None) \<Rightarrow>
               (case cc_read_begin c2 of (c3, Inl e) \<Rightarrow> (c3, False, Some e) | (c3, Inr lb) \<Rightarrow> cc_read_end lb io c3)))"

end
