(* ===== verification/PersistSpec.thy ===== *)
theory PersistSpec
  imports Persist "HOL-Library.Sublist"
begin

text \<open>
  Responses go in the order of the requests. The locale has the four pieces of code of a pipelining
  connection as its operations, and as its laws that they leave the pipeline alone and count what they have
  handled; it is interpreted on \<open>ServerConn\<close> and on \<open>ClientConn\<close> of \<open>http/httputil/persist.go\<close>.
\<close>

section \<open>Sorted logs\<close>

abbreviation ids :: "(nat \<times> nat) list \<Rightarrow> nat list" where
  "ids xs \<equiv> map fst xs"

lemma subseq_by_ids:
  assumes "sorted_wrt (<) (ids xs)" and "sorted_wrt (<) (ids ys)" and "set xs \<subseteq> set ys"
  shows "subseq xs ys"
  using assms
proof (induction ys arbitrary: xs)
  case (Cons y ys)
  show ?case
  proof (cases xs)
    case (Cons x xs')
    show ?thesis
    proof (cases "x = y")
      case True
      have "set xs' \<subseteq> set ys" using Cons Cons.prems True by auto
      then have "subseq xs' ys" using Cons Cons.prems Cons.IH by simp
      then show ?thesis using Cons True by simp
    next
      case False
      then have "x \<in> set ys" using Cons Cons.prems by auto
      then have "fst y < fst x" using Cons.prems(2) by auto
      then have "y \<notin> set xs" using Cons Cons.prems(1) by auto
      then have "set xs \<subseteq> set ys" using Cons.prems(3) by auto
      then have "subseq xs ys" using Cons.prems Cons.IH by simp
      then show ?thesis by (rule list_emb_Cons)
    qed
  qed simp
qed simp

lemma ids_unique: "sorted_wrt (<) (ids xs) \<Longrightarrow> (i, p) \<in> set xs \<Longrightarrow> (i, q) \<in> set xs \<Longrightarrow> p = q"
  by (induction xs) force+

section \<open>The invariant\<close>

definition pipe_ok :: "('a, 'm, 'b, 'n) persist_run \<Rightarrow> bool" where
  "pipe_ok s \<longleftrightarrow>
     pl_response (px_pipe s) \<le> pl_request (px_pipe s) \<and> pl_request (px_pipe s) \<le> pl_next (px_pipe s) \<and>
     (\<forall>i \<ge> pl_next (px_pipe s). px_first s i = FNone) \<and>
     (\<forall>i a. px_first s i = FWaiting a \<longrightarrow> pl_request (px_pipe s) \<le> i) \<and>
     (\<forall>i m. px_first s i = FBusy m \<longrightarrow> pl_request (px_pipe s) = i) \<and>
     (\<forall>i. px_first s i = FFailed \<longrightarrow> pl_response (px_pipe s) \<le> i \<and> i < pl_request (px_pipe s))"

text \<open>The halves that handle responses, and the logs.\<close>

definition logs_ok :: "('a, 'm, 'b, 'n) persist_run \<Rightarrow> bool" where
  "logs_ok s \<longleftrightarrow>
     sorted_wrt (<) (ids (px_order s)) \<and> sorted_wrt (<) (ids (px_wire s)) \<and> set (px_wire s) \<subseteq> set (px_order s) \<and>
     (\<forall>i p. (i, p) \<in> set (px_order s) \<longrightarrow> i < pl_request (px_pipe s) \<and> px_first s i = FReturned \<and>
        (i < pl_response (px_pipe s) \<longrightarrow> px_second s i = SReturned)) \<and>
     (\<forall>i p. (i, p) \<in> set (px_wire s) \<longrightarrow> i < pl_response (px_pipe s)) \<and>
     (\<forall>i. px_second s i \<noteq> SNone \<longrightarrow> i < pl_request (px_pipe s)) \<and>
     (\<forall>p i. gomap_get (pn_pipereq (px_conn s)) p = Some i \<longrightarrow>
        (i, p) \<in> set (px_order s) \<and> pl_response (px_pipe s) \<le> i \<and> px_second s i = SNone) \<and>
     (\<forall>i p b. px_second s i = SWaiting p b \<longrightarrow> (i, p) \<in> set (px_order s) \<and> pl_response (px_pipe s) \<le> i) \<and>
     (\<forall>i p n. px_second s i = SBusy p n \<longrightarrow> (i, p) \<in> set (px_order s) \<and> pl_response (px_pipe s) = i)"

lemma logs_okI:
  assumes "sorted_wrt (<) (ids (px_order s))" and "sorted_wrt (<) (ids (px_wire s))" and "set (px_wire s) \<subseteq> set (px_order s)"
    and "\<And>i p. (i, p) \<in> set (px_order s) \<Longrightarrow> i < pl_request (px_pipe s)"
    and "\<And>i p. (i, p) \<in> set (px_order s) \<Longrightarrow> px_first s i = FReturned"
    and "\<And>i p. (i, p) \<in> set (px_order s) \<Longrightarrow> i < pl_response (px_pipe s) \<Longrightarrow> px_second s i = SReturned"
    and "\<And>i p. (i, p) \<in> set (px_wire s) \<Longrightarrow> i < pl_response (px_pipe s)"
    and "\<And>i. px_second s i \<noteq> SNone \<Longrightarrow> i < pl_request (px_pipe s)"
    and "\<And>p i. gomap_get (pn_pipereq (px_conn s)) p = Some i \<Longrightarrow>
        (i, p) \<in> set (px_order s) \<and> pl_response (px_pipe s) \<le> i \<and> px_second s i = SNone"
    and "\<And>i p b. px_second s i = SWaiting p b \<Longrightarrow> (i, p) \<in> set (px_order s) \<and> pl_response (px_pipe s) \<le> i"
    and "\<And>i p n. px_second s i = SBusy p n \<Longrightarrow> (i, p) \<in> set (px_order s) \<and> pl_response (px_pipe s) = i"
  shows "logs_ok s"
  using assms unfolding logs_ok_def by blast

lemma logs_okD:
  assumes "logs_ok s"
  shows "sorted_wrt (<) (ids (px_order s))" and "sorted_wrt (<) (ids (px_wire s))" and "set (px_wire s) \<subseteq> set (px_order s)"
    and "(i, p) \<in> set (px_order s) \<Longrightarrow> i < pl_request (px_pipe s)"
    and "(i, p) \<in> set (px_order s) \<Longrightarrow> px_first s i = FReturned"
    and "(i, p) \<in> set (px_order s) \<Longrightarrow> i < pl_response (px_pipe s) \<Longrightarrow> px_second s i = SReturned"
    and "(i, p) \<in> set (px_wire s) \<Longrightarrow> i < pl_response (px_pipe s)"
    and "px_second s i \<noteq> SNone \<Longrightarrow> i < pl_request (px_pipe s)"
    and "gomap_get (pn_pipereq (px_conn s)) p = Some i \<Longrightarrow>
        (i, p) \<in> set (px_order s) \<and> pl_response (px_pipe s) \<le> i \<and> px_second s i = SNone"
    and "px_second s i = SWaiting p b \<Longrightarrow> (i, p) \<in> set (px_order s) \<and> pl_response (px_pipe s) \<le> i"
    and "px_second s i = SBusy p n \<Longrightarrow> (i, p) \<in> set (px_order s) \<and> pl_response (px_pipe s) = i"
  using assms unfolding logs_ok_def by blast+

text \<open>Steps on requests that leave the logs alone, and the turn of a response that passes on.\<close>

lemma logs_frame:
  assumes l: "logs_ok s" and "px_order s' = px_order s" and "px_wire s' = px_wire s" and "px_second s' = px_second s"
    and "pn_pipereq (px_conn s') = pn_pipereq (px_conn s)" and "pl_response (px_pipe s') = pl_response (px_pipe s)"
    and "pl_request (px_pipe s) \<le> pl_request (px_pipe s')"
    and "\<And>i. px_first s i = FReturned \<Longrightarrow> px_first s' i = FReturned"
  shows "logs_ok s'"
proof -
  note D = logs_okD [OF l] and E = assms(2-6)
  show ?thesis
  proof (rule logs_okI)
    show "i < pl_request (px_pipe s')" if "(i, p) \<in> set (px_order s')" for i p
      using that D(4) [of i p] E assms(7) by simp
    show "i < pl_request (px_pipe s')" if "px_second s' i \<noteq> SNone" for i
      using that D(8) [of i] E assms(7) by simp
    show "px_first s' i = FReturned" if "(i, p) \<in> set (px_order s')" for i p
      using that D(5) [of i p] E assms(8) by simp
    show "px_second s' i = SReturned" if "(i, p) \<in> set (px_order s')" "i < pl_response (px_pipe s')" for i p
      using that D(6) [of i p] E by simp
    show "i < pl_response (px_pipe s')" if "(i, p) \<in> set (px_wire s')" for i p using that D(7) [of i p] E by simp
  qed (use D(1-3,9-11) E in simp_all)
qed

lemma logs_advance:
  assumes l: "logs_ok s" and "px_order s' = px_order s"
    and "px_wire s' = px_wire s @ w" and "set w \<subseteq> {(i, p)} \<inter> set (px_order s)" and "length w \<le> 1"
    and "px_second s' = (if j then (px_second s)(i := SReturned) else px_second s)"
    and "pn_pipereq (px_conn s') = pn_pipereq (px_conn s)"
    and "pl_response (px_pipe s) = i" and "pl_response (px_pipe s') = Suc i"
    and "pl_request (px_pipe s) = pl_request (px_pipe s')"
    and "\<And>k. px_first s k = FReturned \<Longrightarrow> px_first s' k = FReturned"
    and "j \<longrightarrow> px_second s i \<noteq> SNone" and "\<not> j \<longrightarrow> px_first s i \<noteq> FReturned"
  shows "logs_ok s'"
proof -
  note D = logs_okD [OF l]
  have none: "(i, q) \<in> set (px_order s) \<Longrightarrow> j" for q using D(5) assms(13) by blast
  have notpipe: "gomap_get (pn_pipereq (px_conn s)) q \<noteq> Some i" for q using D(9) assms(12) none by blast
  show ?thesis
  proof (rule logs_okI)
    show "sorted_wrt (<) (ids (px_wire s'))"
      using D(2,7) assms(3,4,5,8) by (cases w) (auto simp: sorted_wrt_append)
    show "set (px_wire s') \<subseteq> set (px_order s')" using D(3) assms(2-4) by auto
    show "k < pl_request (px_pipe s')" if "(k, q) \<in> set (px_order s')" for k q
      using that D(4) [of k q] assms(2,10) by simp
    show "px_first s' k = FReturned" if "(k, q) \<in> set (px_order s')" for k q
      using that D(5) [of k q] assms(2,11) by simp
    show "k < pl_response (px_pipe s')" if "(k, q) \<in> set (px_wire s')" for k q
      using that D(7) [of k q] assms(3,4,8,9) by auto
    show "k < pl_request (px_pipe s')" if "px_second s' k \<noteq> SNone" for k
      using that D(8) [of k] assms(6,10,12) by (auto split: if_splits)
    show "px_second s' k = SReturned" if "(k, q) \<in> set (px_order s')" "k < pl_response (px_pipe s')" for k q
      using that D(6) [of k q] none assms(2,6,8,9) by (cases "k = i") auto
    show "gomap_get (pn_pipereq (px_conn s')) q = Some k \<Longrightarrow>
        (k, q) \<in> set (px_order s') \<and> pl_response (px_pipe s') \<le> k \<and> px_second s' k = SNone" for q k
      using D(9) [of q k] notpipe [of q] assms(2,6,7,8,9) by (cases "k = i") (auto split: if_splits)
    show "px_second s' k = SWaiting q b \<Longrightarrow> (k, q) \<in> set (px_order s') \<and> pl_response (px_pipe s') \<le> k" for k q b
      using D(10) [of k q b] none [of q] assms(2,6,8,9) by (cases "k = i") (auto split: if_splits)
    show "px_second s' k = SBusy q n \<Longrightarrow> (k, q) \<in> set (px_order s') \<and> pl_response (px_pipe s') = k" for k q n
      using D(11) [of k q n] none [of q] assms(2,6,8,9) by (cases "k = i") (auto split: if_splits)
  qed (use D(1) assms(2) in simp)
qed

text \<open>What a piece of code leaves alone.\<close>

definition same_pipe :: "persist_conn \<Rightarrow> persist_conn \<Rightarrow> bool" where
  "same_pipe c c' \<longleftrightarrow> pn_pipe c' = pn_pipe c \<and> pn_pipereq c' = pn_pipereq c"

lemma pipe_simps [simp]:
  "pn_pipe (on_pipe f c) = f (pn_pipe c)" "pn_pipereq (on_pipe f c) = pn_pipereq c"
  "pn_nread (on_pipe f c) = pn_nread c" "pn_nwritten (on_pipe f c) = pn_nwritten c"
  "pn_pipe (remember p i c) = pn_pipe c" "pn_pipereq (remember p i c) = gomap_set p i (pn_pipereq c)"
  "pn_nread (remember p i c) = pn_nread c" "pn_nwritten (remember p i c) = pn_nwritten c"
  "pn_pipe (fst (persist_Hijack c)) = pn_pipe c" "pn_pipereq (fst (persist_Hijack c)) = pn_pipereq c"
  "pn_nread (fst (persist_Hijack c)) = pn_nread c" "pn_nwritten (fst (persist_Hijack c)) = pn_nwritten c"
  by (simp_all add: on_pipe_def remember_def persist_Hijack_def)

lemmas pipe_steps = pipe_Next_def EndRequest_def EndResponse_def

lemma pipe_started: "pipe_ok s \<Longrightarrow> px_first s i \<noteq> FNone \<Longrightarrow> i < pl_next (px_pipe s)"
  by (auto simp: pipe_ok_def not_less [symmetric])

lemma pipe_busy: "pipe_ok s \<Longrightarrow> px_first s i = FBusy m \<Longrightarrow> i = pl_request (px_pipe s) \<and> i < pl_next (px_pipe s)"
  using pipe_started [of s i] by (auto simp: pipe_ok_def)

text \<open>The turn of a request passes on.\<close>

lemma pipe_pass:
  assumes p: "pipe_ok s" and i: "i < pl_next (px_pipe s)" "pl_request (px_pipe s) = i"
    and busy: "\<And>k m. px_first s k = FBusy m \<Longrightarrow> k = i"
    and s': "px_first s' = (px_first s)(i := ph)" "ph = FFailed \<or> ph = FReturned"
    and t: "pl_request (px_pipe s') = Suc i" "pl_next (px_pipe s') = pl_next (px_pipe s)"
      "pl_response (px_pipe s') = pl_response (px_pipe s)"
  shows "pipe_ok s'"
proof -
  have r: "pl_response (px_pipe s) \<le> i" using p i(2) by (simp add: pipe_ok_def)
  have 1: "px_first s' k = FNone" if "pl_next (px_pipe s') \<le> k" for k
    using that p i(1) s' t by (auto simp: pipe_ok_def)
  have 2: "pl_request (px_pipe s') \<le> k" if "px_first s' k = FWaiting a" for k a
  proof -
    have "k \<noteq> i" "px_first s k = FWaiting a" using that s' by (auto split: if_splits)
    moreover from this have "pl_request (px_pipe s) \<le> k" using p by (simp add: pipe_ok_def)
    ultimately show ?thesis using i(2) t by simp
  qed
  have 3: "False" if "px_first s' k = FBusy m" for k m using that busy [of k m] s' by (auto split: if_splits)
  have 4: "pl_response (px_pipe s') \<le> k \<and> k < pl_request (px_pipe s')" if "px_first s' k = FFailed" for k
  proof (cases "k = i")
    case False
    then have "px_first s k = FFailed" using that s' by simp
    then have "pl_response (px_pipe s) \<le> k \<and> k < pl_request (px_pipe s)" using p by (simp add: pipe_ok_def)
    then show ?thesis using i(2) t by simp
  qed (use r t in simp)
  show ?thesis unfolding pipe_ok_def using 1 2 3 4 r i(1) t by (simp add: Suc_le_eq) (use 3 in blast)
qed

lemma pipe_respond:
  assumes p: "pipe_ok s" and i: "i < pl_request (px_pipe s)" "pl_response (px_pipe s) = i" "px_first s i \<noteq> FFailed"
    and s': "px_first s' = px_first s" "pl_request (px_pipe s') = pl_request (px_pipe s)"
      "pl_next (px_pipe s') = pl_next (px_pipe s)" "pl_response (px_pipe s') = Suc i"
  shows "pipe_ok s'"
proof -
  have "Suc i \<le> k \<and> k < pl_request (px_pipe s)" if "px_first s k = FFailed" for k
    using that p i by (cases "k = i") (auto simp: pipe_ok_def Suc_le_eq)
  then show ?thesis using p i(1) s' by (simp add: pipe_ok_def Suc_le_eq)
qed

text \<open>A request whose identifier is no longer remembered is never answered, and holds up the others.\<close>

definition lost :: "nat \<Rightarrow> ('a, 'm, 'b, 'n) persist_run \<Rightarrow> bool" where
  "lost i s \<longleftrightarrow> i < pl_request (px_pipe s) \<and> px_first s i = FReturned \<and> px_second s i = SNone \<and>
     (\<forall>p. gomap_get (pn_pipereq (px_conn s)) p \<noteq> Some i) \<and> pl_response (px_pipe s) \<le> i"

text \<open>Counters are the lengths of the logs.\<close>

locale pipelined =
  fixes b1 :: "'a \<Rightarrow> persist_conn \<Rightarrow> persist_conn \<times> (error + 'm)"
    and e1 :: "'m \<Rightarrow> 'x \<Rightarrow> persist_conn \<Rightarrow> persist_conn \<times> nat option"
    and b2 :: "'b \<Rightarrow> persist_conn \<Rightarrow> persist_conn \<times> (error + 'n)"
    and e2 :: "'n \<Rightarrow> 'y \<Rightarrow> persist_conn \<Rightarrow> persist_conn \<times> bool"
    and c1 :: "persist_conn \<Rightarrow> int" and c2 :: "persist_conn \<Rightarrow> int"
  assumes b1: "b1 a c = (c', r1) \<Longrightarrow> same_pipe c c' \<and> c1 c' = c1 c \<and> c2 c' = c2 c"
    and e1: "e1 m x c = (c', req) \<Longrightarrow> same_pipe c c' \<and> c1 c' = c1 c + (if req = None then 0 else 1) \<and> c2 c' = c2 c"
    and b2: "b2 b c = (c', r2) \<Longrightarrow> same_pipe c c' \<and> c1 c' = c1 c \<and> c2 c' = c2 c"
    and e2: "e2 n y c = (c', ok) \<Longrightarrow> same_pipe c c' \<and> c1 c' = c1 c \<and> c2 c' = c2 c + (if ok then 1 else 0)"
    and frame: "c1 (on_pipe f c) = c1 c" "c2 (on_pipe f c) = c2 c" "c1 (remember p i c) = c1 c" "c2 (remember p i c) = c2 c"
      "c1 (fst (persist_Hijack c)) = c1 c" "c2 (fst (persist_Hijack c)) = c2 c"
      "c1 (c\<lparr>pn_pipereq := q\<rparr>) = c1 c" "c2 (c\<lparr>pn_pipereq := q\<rparr>) = c2 c"
begin

lemma pipe_ok_step:
  assumes "persist_step b1 e1 b2 e2 s s'" and p: "pipe_ok s" and l: "logs_ok s"
  shows "pipe_ok s'"
  using assms(1)
proof cases
  case (call_first i a)
  show ?thesis unfolding call_first(1) using p call_first(2) by (auto simp: pipe_ok_def pipe_steps)
next
  case (begin_first i a c m)
  show ?thesis unfolding begin_first(1) using p begin_first(2,3) b1 [OF begin_first(4)]
    by (auto simp: pipe_ok_def same_pipe_def)
next
  case (refuse_first i a c e)
  have B: "i < pl_next (px_pipe s)" "pl_request (px_pipe s) = i" "\<And>k n. px_first s k = FBusy n \<Longrightarrow> k = i"
    using pipe_started [OF p] pipe_busy [OF p] refuse_first(2,3) by auto
  have c: "pn_pipe c = pn_pipe (px_conn s)" using b1 [OF refuse_first(4)] by (simp add: same_pipe_def)
  show ?thesis unfolding refuse_first(1)
    by (rule pipe_pass [OF p B, where ph = FFailed]) (simp_all add: pipe_steps c B(2))
next
  case (end_first i m x c r)
  have B: "i < pl_next (px_pipe s)" "pl_request (px_pipe s) = i" "\<And>k n. px_first s k = FBusy n \<Longrightarrow> k = i"
    using pipe_busy [OF p] end_first(2) by metis+
  have c: "pn_pipe c = pn_pipe (px_conn s)" using e1 [OF end_first(3)] by (simp add: same_pipe_def)
  show ?thesis unfolding end_first(1)
    by (rule pipe_pass [OF p B, where ph = FReturned]) (simp_all add: pipe_steps c B(2))
next
  case (fail_first i m x c)
  have B: "i < pl_next (px_pipe s)" "pl_request (px_pipe s) = i" "\<And>k n. px_first s k = FBusy n \<Longrightarrow> k = i"
    using pipe_busy [OF p] fail_first(2) by metis+
  have c: "pn_pipe c = pn_pipe (px_conn s)" using e1 [OF fail_first(3)] by (simp add: same_pipe_def)
  show ?thesis unfolding fail_first(1)
    by (rule pipe_pass [OF p B, where ph = FFailed]) (simp_all add: pipe_steps c B(2))
next
  case (return_failed i)
  show ?thesis unfolding return_failed(1) using p return_failed(2,3)
    by (auto simp: pipe_ok_def pipe_steps Suc_le_eq le_neq_trans)
next
  case (call_second r c i b)
  then show ?thesis using p by (auto simp: pipe_ok_def take_pipereq_def)
next
  case (begin_second i r b c n)
  then show ?thesis using p b2 [OF begin_second(4)] by (simp add: pipe_ok_def same_pipe_def)
next
  case (refuse_second i r b c e)
  have B: "i < pl_request (px_pipe s)" "pl_response (px_pipe s) = i" "px_first s i \<noteq> FFailed"
    using logs_okD(4,5) [OF l, of i r] logs_okD(10) [OF l refuse_second(2)] refuse_second(3) by auto
  have c: "pn_pipe c = pn_pipe (px_conn s)" using b2 [OF refuse_second(4)] by (simp add: same_pipe_def)
  show ?thesis unfolding refuse_second(1) by (rule pipe_respond [OF p B]) (simp_all add: pipe_steps c B(2))
next
  case (end_second i r n y c ok)
  have B: "i < pl_request (px_pipe s)" "pl_response (px_pipe s) = i" "px_first s i \<noteq> FFailed"
    using logs_okD(4,5) [OF l, of i r] logs_okD(11) [OF l end_second(2)] by auto
  have c: "pn_pipe c = pn_pipe (px_conn s)" using e2 [OF end_second(3)] by (simp add: same_pipe_def)
  show ?thesis unfolding end_second(1) by (rule pipe_respond [OF p B]) (simp_all add: pipe_steps c B(2))
next
  case hijack
  then show ?thesis using p by (simp add: pipe_ok_def)
qed

lemma logs_ok_step:
  assumes "persist_step b1 e1 b2 e2 s s'" and p: "pipe_ok s" and l: "logs_ok s"
  shows "logs_ok s'"
  using assms(1)
proof cases
  case (call_first i a)
  have "px_first s i = FNone" using p call_first(2) by (simp add: pipe_ok_def)
  then show ?thesis unfolding call_first(1) by (intro logs_frame [OF l]) (auto simp: pipe_steps)
next
  case (begin_first i a c m)
  show ?thesis unfolding begin_first(1) using begin_first(2) b1 [OF begin_first(4)]
    by (intro logs_frame [OF l]) (auto simp: same_pipe_def)
next
  case (refuse_first i a c e)
  show ?thesis unfolding refuse_first(1) using refuse_first(2) b1 [OF refuse_first(4)]
    by (intro logs_frame [OF l]) (auto simp: same_pipe_def pipe_steps)
next
  case (end_first i m x c r)
  note D = logs_okD [OF l]
  have i: "i = pl_request (px_pipe s)" "pl_response (px_pipe s) \<le> i" using pipe_busy [OF p end_first(2)] p by (auto simp: pipe_ok_def)
  have c: "pn_pipe c = pn_pipe (px_conn s)" "pn_pipereq c = pn_pipereq (px_conn s)"
    using e1 [OF end_first(3)] by (simp_all add: same_pipe_def)
  have none: "(i, q) \<notin> set (px_order s)" for q using D(4) [of i q] i by auto
  have new: "px_second s i = SNone" using D(8) [of i] i by auto
  show ?thesis unfolding end_first(1)
  proof (rule logs_okI, goal_cases)
    case 1 then show ?case using D(1,4) i by (auto simp: sorted_wrt_append)
  next
    case (8 k) then show ?case using D(8) [of k] c by (simp add: pipe_steps)
  next
    case (9 q k) then show ?case using D(9) [of q k] new i c by (auto simp: pipe_steps gomap_simps split: if_splits)
  next
    case (10 k q b) then show ?case using D(10) [of k q b] c by (simp add: pipe_steps)
  next
    case (11 k q n) then show ?case using D(11) [of k q n] c by (simp add: pipe_steps)
  next
    case (6 k q) then show ?case using D(6) [of k q] i c by (auto simp: pipe_steps)
  next
    case (7 k q) then show ?case using D(7) [of k q] c by (simp add: pipe_steps)
  next
    case (4 k q) then show ?case using D(4) [of k q] i c by (auto simp: pipe_steps)
  next
    case (5 k q) then show ?case using D(5) [of k q] by auto
  qed (use D(2,3) in auto)
next
  case (fail_first i m x c)
  show ?thesis unfolding fail_first(1) using fail_first(2) e1 [OF fail_first(3)]
    by (intro logs_frame [OF l]) (auto simp: same_pipe_def pipe_steps)
next
  case (return_failed i)
  show ?thesis unfolding return_failed(1)
    by (rule logs_advance [OF l, where w = "[]" and j = False and i = i])
       (use return_failed in \<open>auto simp: pipe_steps\<close>)
next
  case (call_second r c i b)
  note D = logs_okD [OF l]
  have r: "gomap_get (pn_pipereq (px_conn s)) r = Some i" "c = (px_conn s)\<lparr>pn_pipereq := gomap_del r (pn_pipereq (px_conn s))\<rparr>"
    using call_second(2) by (auto simp: take_pipereq_def split: option.splits)
  have same: "q = r" if "(i, q) \<in> set (px_order s)" for q
    using ids_unique [OF D(1) that] D(9) [OF r(1)] by blast
  show ?thesis unfolding call_second(1)
  proof (rule logs_okI, goal_cases)
    case (6 k q) then show ?case using D(6) [of k q] D(9) [OF r(1)] r(2) by auto
  next
    case (8 k) then show ?case using D(8) [of k] D(4) D(9) [OF r(1)] r(2) by (auto split: if_splits)
  next
    case (9 q k) then show ?case using D(9) [of q k] same [of q] r(2) by (auto simp: gomap_simps split: if_splits)
  next
    case (10 k q b') then show ?case using D(10) [of k q b'] D(9) [OF r(1)] r(2) by (auto split: if_splits)
  next
    case (11 k q n) then show ?case using D(11) [of k q n] r(2) by (auto split: if_splits)
  next
    case (4 k q) then show ?case using D(4) [of k q] r(2) by simp
  next
    case (5 k q) then show ?case using D(5) [of k q] by simp
  next
    case (7 k q) then show ?case using D(7) [of k q] r(2) by simp
  qed (use D(1-3) in simp_all)
next
  case (begin_second i r b c n)
  note D = logs_okD [OF l]
  have c: "pn_pipe c = pn_pipe (px_conn s)" "pn_pipereq c = pn_pipereq (px_conn s)"
    using b2 [OF begin_second(4)] by (simp_all add: same_pipe_def)
  note W = D(10) [OF begin_second(2)]
  show ?thesis unfolding begin_second(1)
  proof (rule logs_okI, goal_cases)
    case (6 k q) then show ?case using D(6) [of k q] W begin_second(3) c by auto
  next
    case (8 k) then show ?case using D(8) [of k] begin_second(2) c by (auto split: if_splits)
  next
    case (9 q k) then show ?case using D(9) [of q k] begin_second(2) c by auto
  next
    case (10 k q b') then show ?case using D(10) [of k q b'] c by (auto split: if_splits)
  next
    case (11 k q n) then show ?case using D(11) [of k q n] W begin_second(3) c by (auto split: if_splits)
  next
    case (4 k q) then show ?case using D(4) [of k q] c by simp
  next
    case (5 k q) then show ?case using D(5) [of k q] by simp
  next
    case (7 k q) then show ?case using D(7) [of k q] c by simp
  qed (use D(1-3) in simp_all)
next
  case (refuse_second i r b c e)
  show ?thesis unfolding refuse_second(1)
    by (rule logs_advance [OF l, where w = "[]" and j = True and i = i])
       (use refuse_second b2 [OF refuse_second(4)] in \<open>auto simp: pipe_steps same_pipe_def\<close>)
next
  case (end_second i r n y c ok)
  have "(i, r) \<in> set (px_order s)" "pl_response (px_pipe s) = i" using logs_okD(11) [OF l end_second(2)] by auto
  then show ?thesis unfolding end_second(1)
    by (intro logs_advance [OF l, where w = "if ok then [(i, r)] else []" and j = True and i = i])
       (use end_second e2 [OF end_second(3)] in \<open>auto simp: pipe_steps same_pipe_def\<close>)
next
  case hijack
  then show ?thesis by (intro logs_frame [OF l]) auto
qed

definition counted :: "('a, 'm, 'b, 'n) persist_run \<Rightarrow> bool" where
  "counted s \<longleftrightarrow> c1 (px_conn s) = int (length (px_order s)) \<and> c2 (px_conn s) = int (length (px_wire s))"

lemma counted_step: "persist_step b1 e1 b2 e2 s s' \<Longrightarrow> counted s \<Longrightarrow> counted s'"
  by (induction rule: persist_step.induct)
     (auto simp: counted_def frame pipe_steps take_pipereq_def dest!: b1 e1 b2 e2)

lemma reach_ok:
  assumes "persist_reach b1 e1 b2 e2 (persist_start c) s" and "pn_pipe c = \<lparr>pl_next = 0, pl_request = 0, pl_response = 0\<rparr>"
    and "pn_pipereq c = []" and "c1 c = 0" and "c2 c = 0"
  shows "pipe_ok s \<and> logs_ok s \<and> counted s"
  using assms(1)
proof (induction rule: persist_reach.induct)
  case start
  show ?case using assms(2-5) by (simp add: pipe_ok_def logs_ok_def counted_def persist_start_def)
next
  case (step s s')
  then show ?case using pipe_ok_step logs_ok_step counted_step by blast
qed

text \<open>The responses are those of a part of the requests, in their order, and never more than the requests.\<close>

lemma in_order:
  assumes "logs_ok s" shows "subseq (px_wire s) (px_order s)"
  using logs_okD(1-3) [OF assms] by (intro subseq_by_ids)

lemma fewer_responses:
  assumes l: "logs_ok s" and n: "counted s" and "px_second s i = SWaiting p b" and "pl_response (px_pipe s) = i"
  shows "c2 (px_conn s) < c1 (px_conn s)"
proof -
  have "(i, p) \<in> set (px_order s)" "(i, p) \<notin> set (px_wire s)"
    using logs_okD(10) [OF l assms(3)] logs_okD(7) [OF l, of i p] assms(4) by auto
  then have "px_wire s \<noteq> px_order s" by auto
  then have "length (px_wire s) < length (px_order s)"
    using in_order [OF l] by (metis list_emb_length subseq_same_length le_neq_implies_less)
  then show ?thesis using n by (simp add: counted_def)
qed

text \<open>A request that failed returns only when all earlier requests have been answered.\<close>

lemma failed_waits:
  assumes l: "logs_ok s" and "persist_step b1 e1 b2 e2 s s'" and f: "px_first s i = FFailed" "px_first s' i \<noteq> FFailed"
    and o: "(j, p) \<in> set (px_order s)" "j < i" and p: "pipe_ok s"
  shows "px_second s j = SReturned"
  using assms(2)
proof cases
  case (return_failed k)
  then have "pl_response (px_pipe s) = i" using f by (auto split: if_splits)
  then show ?thesis using logs_okD(6) [OF l o(1)] o(2) by simp
qed (use f p in \<open>auto simp: pipe_ok_def split: if_splits\<close>)

lemma lost_step:
  assumes "persist_step b1 e1 b2 e2 s s'" and p: "pipe_ok s" and l: "logs_ok s" and i: "lost i s"
  shows "lost i s'"
  using assms(1)
proof cases
  case (call_first k a)
  have "px_first s k = FNone" using p call_first(2) by (simp add: pipe_ok_def)
  then show ?thesis unfolding call_first(1) using i by (auto simp: lost_def pipe_steps)
next
  case (begin_first k a c m)
  show ?thesis unfolding begin_first(1) using i begin_first(2) b1 [OF begin_first(4)] by (auto simp: lost_def same_pipe_def)
next
  case (refuse_first k a c e)
  show ?thesis unfolding refuse_first(1) using i refuse_first(2) b1 [OF refuse_first(4)]
    by (auto simp: lost_def same_pipe_def pipe_steps)
next
  case (end_first k m x c r)
  have "k = pl_request (px_pipe s)" using pipe_busy [OF p end_first(2)] by simp
  then show ?thesis unfolding end_first(1) using i e1 [OF end_first(3)]
    by (auto simp: lost_def same_pipe_def pipe_steps gomap_simps)
next
  case (fail_first k m x c)
  show ?thesis unfolding fail_first(1) using i fail_first(2) e1 [OF fail_first(3)]
    by (auto simp: lost_def same_pipe_def pipe_steps)
next
  case (return_failed k)
  then have "k \<noteq> i" using i by (auto simp: lost_def)
  then show ?thesis unfolding return_failed(1) using i return_failed(3) by (auto simp: lost_def pipe_steps)
next
  case (call_second r c k b)
  have r: "gomap_get (pn_pipereq (px_conn s)) r = Some k" "c = (px_conn s)\<lparr>pn_pipereq := gomap_del r (pn_pipereq (px_conn s))\<rparr>"
    using call_second(2) by (auto simp: take_pipereq_def split: option.splits)
  show ?thesis unfolding call_second(1) using i r by (auto simp: lost_def gomap_simps split: if_splits)
next
  case (begin_second k r b c n)
  show ?thesis unfolding begin_second(1) using i begin_second(2) b2 [OF begin_second(4)] by (auto simp: lost_def same_pipe_def)
next
  case (refuse_second k r b c e)
  have "k \<noteq> i" using i refuse_second(2) by (auto simp: lost_def)
  then show ?thesis unfolding refuse_second(1) using i refuse_second(3) b2 [OF refuse_second(4)]
    by (auto simp: lost_def same_pipe_def pipe_steps)
next
  case (end_second k r n y c ok)
  have "k \<noteq> i" "pl_response (px_pipe s) = k" using i logs_okD(11) [OF l end_second(2)] end_second(2) by (auto simp: lost_def)
  then show ?thesis unfolding end_second(1) using i e2 [OF end_second(3)]
    by (auto simp: lost_def same_pipe_def pipe_steps)
next
  case hijack
  then show ?thesis using i by (simp add: lost_def)
qed

lemma lost_reach:
  assumes "persist_reach b1 e1 b2 e2 s s'" and "pipe_ok s" and "logs_ok s" and "lost i s"
  shows "lost i s'"
proof -
  have "pipe_ok s' \<and> logs_ok s' \<and> lost i s'"
    using assms by (induction rule: persist_reach.induct) (use pipe_ok_step logs_ok_step lost_step in blast)+
  then show ?thesis by simp
qed

end

section \<open>The two connections\<close>

lemmas persist_pieces = srv_b1_def sc_read_begin_def srv_e1_def sc_read_end_def sc_write_begin_def srv_e2_def sc_write_end_def
  cc_write_begin_def cli_e1_def cc_write_end_def cli_b2_def cc_read_begin_def cli_e2_def cc_read_end_def

interpretation srv: pipelined srv_b1 srv_e1 sc_write_begin srv_e2 pn_nread pn_nwritten
  by unfold_locales (auto simp: persist_pieces same_pipe_def Let_def split: option.splits sum.splits if_splits prod.splits)

interpretation cli: pipelined cc_write_begin cli_e1 cli_b2 cli_e2 pn_nwritten pn_nread
  by unfold_locales (auto simp: persist_pieces same_pipe_def Let_def split: option.splits sum.splits if_splits prod.splits)

lemma new_conn_simps [simp]:
  "pn_pipe NewServerConn = \<lparr>pl_next = 0, pl_request = 0, pl_response = 0\<rparr>" "pn_pipereq NewServerConn = []"
  "pn_nread NewServerConn = 0" "pn_nwritten NewServerConn = 0"
  "pn_pipe NewClientConn = \<lparr>pl_next = 0, pl_request = 0, pl_response = 0\<rparr>" "pn_pipereq NewClientConn = []"
  "pn_nread NewClientConn = 0" "pn_nwritten NewClientConn = 0"
  by (simp_all add: NewServerConn_def NewClientConn_def)

lemma server_ok: "server_reach s \<Longrightarrow> pipe_ok s \<and> logs_ok s \<and> srv.counted s"
  using srv.reach_ok [of NewServerConn s] by (simp add: server_reach_def)

lemma client_ok: "client_reach s \<Longrightarrow> pipe_ok s \<and> logs_ok s \<and> cli.counted s"
  using cli.reach_ok [of NewClientConn s] by (simp add: client_reach_def)

section \<open>What the connections promise\<close>

text \<open>
  C38: whatever goroutines read requests from a \<open>ServerConn\<close> and write responses to it at the same time, in
  every state the responses on the wire are those of requests that were read, in the order in which they
  were read; \<open>Pending\<close> is the number of requests without a response; and a goroutine whose turn it is to
  write never meets the error of a wrong count.
\<close>
theorem server_pipeline:
  assumes "server_reach s"
  shows "subseq (px_wire s) (px_order s) \<and>
    ServerConn_Pending (px_conn s) = int (length (px_order s)) - int (length (px_wire s)) \<and>
    (\<forall>i p b. px_second s i = SWaiting p b \<and> pl_response (px_pipe s) = i \<longrightarrow> 0 < ServerConn_Pending (px_conn s))"
proof -
  have ok: "logs_ok s" "srv.counted s" using server_ok [OF assms] by simp_all
  have "0 < ServerConn_Pending (px_conn s)" if "px_second s i = SWaiting p b" "pl_response (px_pipe s) = i" for i p b
    using srv.fewer_responses [OF ok that] by (simp add: ServerConn_Pending_def)
  then show ?thesis
    using srv.in_order [OF ok(1)] ok(2) by (auto simp: ServerConn_Pending_def srv.counted_def)
qed

text \<open>A request whose identifier is forgotten stays unanswered, and so does every later one.\<close>

abbreviation client_step ::
  "(nat \<times> bool, nat, unit, bool) persist_run \<Rightarrow> (nat \<times> bool, nat, unit, bool) persist_run \<Rightarrow> bool" where
  "client_step \<equiv> persist_step cc_write_begin cli_e1 cli_b2 cli_e2"

abbreviation client_later ::
  "(nat \<times> bool, nat, unit, bool) persist_run \<Rightarrow> (nat \<times> bool, nat, unit, bool) persist_run \<Rightarrow> bool" where
  "client_later \<equiv> persist_reach cc_write_begin cli_e1 cli_b2 cli_e2"

definition unanswered :: "nat \<Rightarrow> (nat \<times> bool, nat, unit, bool) persist_run \<Rightarrow> bool" where
  "unanswered i s \<longleftrightarrow>
     px_second s i = SNone \<and> (\<forall>k q. i \<le> k \<longrightarrow> (k, q) \<notin> set (px_wire s) \<and> (\<forall>n. px_second s k \<noteq> SBusy q n))"

lemma lost_unanswered:
  assumes ok: "pipe_ok s" "logs_ok s" and "lost i s" and later: "client_later s s'"
  shows "unanswered i s'"
proof -
  have l: "lost i s'" using assms(3) by (rule cli.lost_reach [OF later ok])
  have "pipe_ok s' \<and> logs_ok s'"
    using later ok by (induction rule: persist_reach.induct) (use cli.pipe_ok_step cli.logs_ok_step in blast)+
  then have D': "(k, q) \<in> set (px_wire s') \<Longrightarrow> k < pl_response (px_pipe s')"
    "px_second s' k = SBusy q n \<Longrightarrow> pl_response (px_pipe s') = k" for k q n
    using logs_okD(7,11) [of s'] by auto
  have r: "px_second s' i = SNone" "pl_response (px_pipe s') \<le> i" using l unfolding lost_def by blast+
  have w: "(k, q) \<notin> set (px_wire s')" if "i \<le> k" for k q
    using D'(1) [of k q] r(2) that by linarith
  have b: "px_second s' k \<noteq> SBusy q n" if "i \<le> k" for k q n
    using D'(2) [of k q n] r that by (cases "k = i") auto
  show ?thesis unfolding unanswered_def using r(1) w b by blast
qed

text \<open>Writing a request that is still remembered under \<open>i\<close>.\<close>

lemma written_again:
  assumes ok: "pipe_ok s" "logs_ok s" and i: "gomap_get (pn_pipereq (px_conn s)) p = Some i"
    and w: "client_step s s1" "px_order s1 = px_order s @ [(j, p)]"
  shows "i < j" and "gomap_get (pn_pipereq (px_conn s1)) p = Some j" and "lost i s1"
proof -
  note D = logs_okD [OF ok(2)]
  have o: "(i, p) \<in> set (px_order s)" "px_second s i = SNone" using D(9) [OF i] by simp_all
  have "pl_request (px_pipe s) = j \<and> gomap_get (pn_pipereq (px_conn s1)) p = Some j \<and>
    px_second s1 = px_second s \<and> pn_pipereq (px_conn s1) = gomap_set p j (pn_pipereq (px_conn s))"
    using w(1)
  proof cases
    case (end_first k m x c r)
    with w(2) have "k = j" "r = p" by auto
    with end_first pipe_busy [OF ok(1) end_first(2)] cli.e1 [OF end_first(3)] show ?thesis
      by (auto simp: pipe_steps same_pipe_def gomap_simps)
  qed (use w(2) in auto)
  then have j: "pl_request (px_pipe s) = j" "gomap_get (pn_pipereq (px_conn s1)) p = Some j"
    "px_second s1 = px_second s" "pn_pipereq (px_conn s1) = gomap_set p j (pn_pipereq (px_conn s))" by blast+
  show lt: "i < j" using D(4) [OF o(1)] j(1) by simp
  show "gomap_get (pn_pipereq (px_conn s1)) p = Some j" by (rule j(2))
  have ok1: "logs_ok s1" by (rule cli.logs_ok_step [OF w(1) ok])
  have o1: "(i, p) \<in> set (px_order s1)" using o(1) w(2) by simp
  have "gomap_get (pn_pipereq (px_conn s1)) q \<noteq> Some i" for q
    using D(9) [of q i] ids_unique [OF D(1) o(1), of q] lt by (auto simp: j(4) gomap_simps)
  then show "lost i s1"
    using logs_okD(4,5) [OF ok1 o1] logs_okD(6) [OF ok1 o1] o(2) j(3) by (auto simp: lost_def not_less [symmetric])
qed

text \<open>A write that ends well.\<close>

definition wrote :: "nat \<Rightarrow> nat \<Rightarrow> (nat \<times> bool, nat, unit, bool) persist_run \<Rightarrow> (nat \<times> bool, nat, unit, bool) persist_run" where
  "wrote i p s = s\<lparr>px_conn := remember p i (EndRequest ((px_conn s)\<lparr>pn_nwritten := pn_nwritten (px_conn s) + 1\<rparr>)),
     px_first := (px_first s)(i := FReturned), px_order := px_order s @ [(i, p)]\<rparr>"

lemma wrote_step: "px_first s i = FBusy p \<Longrightarrow> client_step s (wrote i p s)"
  using persist_step.end_first [of s i p cli_e1 None "(px_conn s)\<lparr>pn_nwritten := pn_nwritten (px_conn s) + 1\<rparr>" p
      cc_write_begin cli_b2 cli_e2]
  by (simp add: wrote_def cli_e1_def cc_write_end_def)

text \<open>
  C39: when a \<open>Request\<close> is written to a \<open>ClientConn\<close> a second time, while its first identifier is still
  remembered (nobody has asked for its response yet), the write is accepted, and the connection forgets the
  first identifier: from then on the first request is never answered, and no response to this or any later
  request is ever read. Whoever asks for one waits for ever.
\<close>
theorem client_lost_request:
  assumes "client_reach s" and "gomap_get (pn_pipereq (px_conn s)) p = Some i" and "px_first s j = FBusy p"
  shows "(\<exists>s1. client_step s s1 \<and> px_order s1 = px_order s @ [(j, p)]) \<and>
    (\<forall>s1 s'. client_step s s1 \<and> px_order s1 = px_order s @ [(j, p)] \<and> client_later s1 s' \<longrightarrow>
       i < j \<and> gomap_get (pn_pipereq (px_conn s1)) p = Some j \<and> px_second s' i = SNone \<and>
       (\<forall>k q. i \<le> k \<longrightarrow> (k, q) \<notin> set (px_wire s') \<and> (\<forall>n. px_second s' k \<noteq> SBusy q n)))"
proof -
  have ok: "pipe_ok s" "logs_ok s" using client_ok [OF assms(1)] by simp_all
  have w: "\<exists>s1. client_step s s1 \<and> px_order s1 = px_order s @ [(j, p)]"
    using wrote_step [OF assms(3)] by (intro exI conjI) (auto simp: wrote_def)
  have "i < j \<and> gomap_get (pn_pipereq (px_conn s1)) p = Some j \<and> unanswered i s'"
    if "client_step s s1" "px_order s1 = px_order s @ [(j, p)]" "client_later s1 s'" for s1 s'
  proof -
    note a = written_again [OF ok assms(2) that(1,2)]
    from lost_unanswered [OF cli.pipe_ok_step [OF that(1) ok] cli.logs_ok_step [OF that(1) ok] a(3) that(3)] a
    show ?thesis by blast
  qed
  with w show ?thesis unfolding unanswered_def by blast
qed

text \<open>
  \<open>Read\<close> that fails does not return while a request before it waits for its response: a goroutine that reads
  until there is an error before it writes the responses waits for itself.
\<close>

lemma failed_read_waits:
  assumes "server_reach s" and "persist_step srv_b1 srv_e1 sc_write_begin srv_e2 s s'"
    and "px_first s i = FFailed" and "px_first s' i \<noteq> FFailed" and "(j, p) \<in> set (px_order s)" and "j < i"
  shows "px_second s j = SReturned"
  using srv.failed_waits [OF _ assms(2-6)] server_ok [OF assms(1)] by blast

section \<open>Runs\<close>

text \<open>A server that reads one request and answers it.\<close>

definition srv_started :: "(unit, bool, bool, unit) persist_run" where
  "srv_started = (persist_start NewServerConn)\<lparr>px_conn := pipe_Next NewServerConn, px_first := (\<lambda>_. FNone)(0 := FWaiting ())\<rparr>"

definition srv_reading :: "(unit, bool, bool, unit) persist_run" where
  "srv_reading = srv_started\<lparr>px_first := (\<lambda>_. FNone)(0 := FBusy False)\<rparr>"

definition srv_read :: "(unit, bool, bool, unit) persist_run" where
  "srv_read = srv_reading\<lparr>
     px_conn := remember 7 0 (EndRequest ((px_conn srv_reading)\<lparr>pn_lastbody := False, pn_nread := 1\<rparr>)),
     px_first := (\<lambda>_. FNone)(0 := FReturned), px_order := [(0, 7)]\<rparr>"

definition srv_writing :: "(unit, bool, bool, unit) persist_run" where
  "srv_writing = srv_read\<lparr>px_conn := fst (take_pipereq 7 (px_conn srv_read)), px_second := (\<lambda>_. SNone)(0 := SWaiting 7 False)\<rparr>"

lemma srv_writing_reach: "server_reach srv_writing"
proof -
  let ?step = "persist_step srv_b1 srv_e1 sc_write_begin srv_e2"
  have 1: "?step (persist_start NewServerConn) srv_started"
    using persist_step.call_first [of 0 "persist_start NewServerConn :: (unit, bool, bool, unit) persist_run"
        srv_b1 srv_e1 sc_write_begin srv_e2 "()"]
    by (simp add: srv_started_def persist_start_def)
  have 2: "?step srv_started srv_reading"
    using persist_step.begin_first [of srv_started 0 "()" srv_b1 "px_conn srv_started" False srv_e1 sc_write_begin srv_e2]
    by (simp add: srv_started_def srv_reading_def pipe_steps on_pipe_def srv_b1_def sc_read_begin_def NewServerConn_def persist_start_def)
  have 3: "?step srv_reading srv_read"
    using persist_step.end_first [of srv_reading 0 False srv_e1 "(None, Inr (7, False, False))"
        "(px_conn srv_reading)\<lparr>pn_lastbody := False, pn_nread := 1\<rparr>" 7 srv_b1 sc_write_begin srv_e2]
    by (simp add: srv_started_def srv_reading_def srv_read_def pipe_steps on_pipe_def srv_e1_def sc_read_end_def
        NewServerConn_def persist_start_def)
  have 4: "?step srv_read srv_writing"
    using persist_step.call_second [of 7 srv_read "fst (take_pipereq 7 (px_conn srv_read))" 0 srv_b1 srv_e1 sc_write_begin srv_e2 False]
    by (simp add: take_pipereq_def srv_writing_def srv_read_def srv_reading_def srv_started_def remember_def pipe_steps
        on_pipe_def NewServerConn_def persist_start_def)
  show ?thesis unfolding server_reach_def using 1 2 3 4 persist_reach.start persist_reach.step by metis
qed

theorem server_pipeline_witness:
  "subseq (px_wire srv_writing) (px_order srv_writing) \<and> 0 < ServerConn_Pending (px_conn srv_writing)"
  using server_pipeline [OF srv_writing_reach]
  by (auto simp: srv_writing_def srv_read_def srv_reading_def srv_started_def take_pipereq_def pipe_steps)

text \<open>A client that writes a request, and is at work on the same request again.\<close>

definition writing :: "nat \<Rightarrow> nat \<Rightarrow> (nat \<times> bool, nat, unit, bool) persist_run \<Rightarrow> (nat \<times> bool, nat, unit, bool) persist_run" where
  "writing i p s = s\<lparr>px_conn := pipe_Next (px_conn s), px_first := (px_first s)(i := FBusy p)\<rparr>"

lemma writing_reach:
  assumes s: "client_reach s" and i: "i = pl_next (px_pipe s)" "i = pl_request (px_pipe s)"
    and c: "pn_re (px_conn s) = None" "pn_we (px_conn s) = None" "pn_c (px_conn s)"
  shows "client_reach (writing i p s)"
proof -
  let ?s1 = "s\<lparr>px_conn := pipe_Next (px_conn s), px_first := (px_first s)(i := FWaiting (p, False))\<rparr>"
  have 1: "client_step s ?s1" by (rule persist_step.call_first [OF i(1)])
  have 2: "client_step ?s1 (writing i p s)"
    using persist_step.begin_first [of ?s1 i "(p, False)" cc_write_begin "px_conn ?s1" p cli_e1 cli_b2 cli_e2] i c
    by (simp add: writing_def pipe_steps on_pipe_def cc_write_begin_def)
  show ?thesis using s 1 2 persist_reach.step unfolding client_reach_def by metis
qed

definition writing_again :: "(nat \<times> bool, nat, unit, bool) persist_run" where
  "writing_again = writing 1 7 (wrote 0 7 (writing 0 7 (persist_start NewClientConn)))"

lemmas wrote_defs = writing_again_def writing_def wrote_def persist_start_def NewClientConn_def pipe_steps on_pipe_def
  remember_def

lemma writing_again_reach: "client_reach writing_again"
proof -
  let ?s = "writing 0 7 (persist_start NewClientConn)"
  have "client_reach (persist_start NewClientConn)" by (simp add: client_reach_def persist_reach.start)
  then have "client_reach ?s"
    by (rule writing_reach) (simp_all add: persist_start_def NewClientConn_def)
  moreover have "client_step ?s (wrote 0 7 ?s)" by (rule wrote_step) (simp add: wrote_defs)
  ultimately have "client_reach (wrote 0 7 ?s)" using persist_reach.step unfolding client_reach_def by metis
  then show ?thesis unfolding writing_again_def by (rule writing_reach) (simp_all add: wrote_defs)
qed

theorem client_lost_request_witness:
  "\<exists>s1. client_step writing_again s1 \<and> px_order s1 = [(0, 7), (1, 7)] \<and>
    (\<forall>s'. client_later s1 s' \<longrightarrow> px_second s' 0 = SNone \<and> (0, 7) \<notin> set (px_wire s') \<and> (1, 7) \<notin> set (px_wire s'))"
proof -
  have i: "gomap_get (pn_pipereq (px_conn writing_again)) 7 = Some 0" and b: "px_first writing_again 1 = FBusy 7"
    and o: "px_order writing_again = [(0, 7)]"
    by (simp_all add: wrote_defs)
  from client_lost_request [OF writing_again_reach i b]
  obtain s1 where "client_step writing_again s1" "px_order s1 = px_order writing_again @ [(1, 7)]"
    "\<And>s'. client_later s1 s' \<Longrightarrow> px_second s' 0 = SNone \<and> (\<forall>k q. 0 \<le> k \<longrightarrow> (k, q) \<notin> set (px_wire s'))"
    by blast
  with o show ?thesis by (intro exI [of _ s1]) simp
qed

end
