(* ===== verification/Relay.thy ===== *)
theory Relay
  imports Files Browser
begin

text \<open>
  Writers of responses that keep what they are given, and what writes to them: the reverse proxy
  (\<open>http/httputil/reverseproxy.go\<close>), the transport for files (\<open>http/filetransport.go\<close>) and the recorder of
  \<open>http/httptest/recorder.go\<close>. The dumps of \<open>http/httputil/dump.go\<close> are here too. Transports and the parsing of
  addresses are arguments.
\<close>

section \<open>Writers of responses\<close>

record 'w ResponseWriter =
  rw_Header :: "'w \<Rightarrow> header"
  rw_SetHeader :: "header \<Rightarrow> 'w \<Rightarrow> 'w"
  rw_StatusLine :: "int \<Rightarrow> 'w \<Rightarrow> 'w"
  rw_Body :: "'w writer"

subsection \<open>The recorder\<close>

record ResponseRecorder =
  rr_Code :: int
  rr_HeaderMap :: header
  rr_Body :: "string option"
  rr_Flushed :: bool

definition NewRecorder :: ResponseRecorder where
  "NewRecorder = \<lparr>rr_Code = 0, rr_HeaderMap = [], rr_Body = Some [], rr_Flushed = False\<rparr>"

definition rr_Write :: "ResponseRecorder writer" where
  "rr_Write rw buf =
     (let rw1 = (case rr_Body rw of None \<Rightarrow> rw | Some b \<Rightarrow> rw\<lparr>rr_Body := Some (b @ buf)\<rparr>);
          rw2 = (if rr_Code rw1 = 0 then rw1\<lparr>rr_Code := StatusOK\<rparr> else rw1)
      in (rw2, length buf, None))"

definition rr_WriteHeader :: "int \<Rightarrow> ResponseRecorder \<Rightarrow> ResponseRecorder" where
  "rr_WriteHeader code rw = rw\<lparr>rr_Code := code\<rparr>"

definition rr_Flush :: "ResponseRecorder \<Rightarrow> ResponseRecorder" where
  "rr_Flush rw = rw\<lparr>rr_Flushed := True\<rparr>"

definition recorder :: "ResponseRecorder ResponseWriter" where
  "recorder = \<lparr>rw_Header = rr_HeaderMap, rw_SetHeader = (\<lambda>h rw. rw\<lparr>rr_HeaderMap := h\<rparr>),
     rw_StatusLine = rr_WriteHeader, rw_Body = rr_Write\<rparr>"

subsection \<open>A response from a handler\<close>

text \<open>
  \<open>populateResponse\<close> fills the response \<open>pr_res\<close>; \<open>pr_chan\<close> is what went over the channel and \<open>pr_pipe\<close> what went
  into the pipe of the body, which the caller is reading.
\<close>

record populateResponse =
  pr_res :: "unit Response"
  pr_wroteHeader :: bool
  pr_hasContent :: bool
  pr_sentResponse :: bool
  pr_chan :: "unit Response list"
  pr_pipe :: string
  pr_closed :: bool

definition newPopulateResponseWriter :: populateResponse where
  "newPopulateResponseWriter =
     \<lparr>pr_res = \<lparr>resp_Status = [], resp_StatusCode = 0, resp_Proto = ''HTTP/1.0'', resp_ProtoMajor = 1, resp_ProtoMinor = 0,
        resp_Header = [], resp_Body = Some (), resp_ContentLength = 0, resp_TransferEncoding = [], resp_Close = True,
        resp_Trailer = None, resp_Method = None\<rparr>,
      pr_wroteHeader = False, pr_hasContent = False, pr_sentResponse = False, pr_chan = [], pr_pipe = [], pr_closed = False\<rparr>"

definition sendResponse :: "populateResponse \<Rightarrow> populateResponse" where
  "sendResponse pr =
     (if pr_sentResponse pr then pr
      else let res = (if pr_hasContent pr then (pr_res pr)\<lparr>resp_ContentLength := -1\<rparr> else pr_res pr)
           in pr\<lparr>pr_sentResponse := True, pr_res := res, pr_chan := pr_chan pr @ [res]\<rparr>)"

definition pr_WriteHeader :: "int \<Rightarrow> populateResponse \<Rightarrow> populateResponse" where
  "pr_WriteHeader code pr =
     (if pr_wroteHeader pr then pr
      else pr\<lparr>pr_wroteHeader := True,
              pr_res := (pr_res pr)\<lparr>resp_StatusCode := code, resp_Status := Itoa code @ '' '' @ StatusText code\<rparr>\<rparr>)"

definition pr_Write :: "populateResponse writer" where
  "pr_Write pr p =
     (let pr1 = (if pr_wroteHeader pr then pr else pr_WriteHeader StatusOK pr);
          pr2 = pr1\<lparr>pr_hasContent := True\<rparr>;
          pr3 = (if pr_sentResponse pr2 then pr2 else sendResponse pr2)
      in (pr3\<lparr>pr_pipe := pr_pipe pr3 @ p\<rparr>, length p, None))"

definition pr_finish :: "populateResponse \<Rightarrow> populateResponse" where
  "pr_finish pr =
     (let pr1 = (if \<not> pr_wroteHeader pr then pr_WriteHeader 500 pr else pr);
          pr2 = (if \<not> pr_sentResponse pr1 then sendResponse pr1 else pr1)
      in pr2\<lparr>pr_closed := True\<rparr>)"

definition populating :: "populateResponse ResponseWriter" where
  "populating = \<lparr>rw_Header = (\<lambda>pr. resp_Header (pr_res pr)),
     rw_SetHeader = (\<lambda>h pr. pr\<lparr>pr_res := (pr_res pr)\<lparr>resp_Header := h\<rparr>\<rparr>),
     rw_StatusLine = pr_WriteHeader, rw_Body = pr_Write\<rparr>"

text \<open>
  What a handler does, on a writer that can neither be flushed nor hijacked, and the transport for files: the
  handler is run, and the response is what came over the channel.
\<close>

fun rw_do :: "'w ResponseWriter \<Rightarrow> rw_call \<Rightarrow> 'w \<Rightarrow> 'w" where
  "rw_do W (RW_Set k v) w = rw_SetHeader W (Set (rw_Header W w) k v) w"
| "rw_do W (RW_WriteHeader code) w = rw_StatusLine W code w"
| "rw_do W (RW_Write d) w = fst (rw_Body W w d)"
| "rw_do W RW_Flush w = w"
| "rw_do W RW_Hijack w = w"

definition fileTransport_RoundTrip ::
  "('b Request \<Rightarrow> rw_call list) \<Rightarrow> 'b Request \<Rightarrow> populateResponse" where
  "fileTransport_RoundTrip fh req = pr_finish (fold (rw_do populating) (fh req) newPopulateResponseWriter)"

section \<open>The reverse proxy\<close>

definition singleJoiningSlash :: "string \<Rightarrow> string \<Rightarrow> string" where
  "singleJoiningSlash a b =
     (let aslash = HasSuffix a ''/''; bslash = HasPrefix b ''/''
      in if aslash \<and> bslash then a @ drop 1 b
         else if \<not> aslash \<and> \<not> bslash then a @ ''/'' @ b
         else a @ b)"

definition single_host_director :: "URL \<Rightarrow> 'b Request \<Rightarrow> 'b Request" where
  "single_host_director target req =
     (let targetQuery = url_RawQuery target; u = req_URL req
      in req\<lparr>req_URL := u\<lparr>url_Scheme := url_Scheme target, url_Host := url_Host target,
           url_Path := singleJoiningSlash (url_Path target) (url_Path u),
           url_RawQuery := (if targetQuery = [] \<or> url_RawQuery u = [] then targetQuery @ url_RawQuery u
                            else targetQuery @ ''&'' @ url_RawQuery u)\<rparr>\<rparr>)"

definition copyHeader :: "header \<Rightarrow> header \<Rightarrow> header" where
  "copyHeader dst src = fold (\<lambda>(k, vv) d. fold (\<lambda>v d. Add d k v) vv d) src dst"

text \<open>
  The request to the backend. The director gives the request and the header that the incoming request has
  then: the map is shared, so that it may have changed it.
\<close>

definition outgoing ::
  "(string \<Rightarrow> string option) \<Rightarrow> ('b Request \<Rightarrow> 'b Request \<times> header) \<Rightarrow> 'b Request \<Rightarrow> 'b Request" where
  "outgoing hostOf director req =
     (case director req of
        (out, hdr) \<Rightarrow>
          let o1 = out\<lparr>req_Proto := ''HTTP/1.1'', req_ProtoMajor := 1, req_ProtoMinor := 1, req_Close := False\<rparr>;
              o2 = (if Get (req_Header o1) ''Connection'' \<noteq> []
                    then o1\<lparr>req_Header := Del (copyHeader [] hdr) ''Connection''\<rparr> else o1)
          in case hostOf (req_RemoteAddr req) of
               None \<Rightarrow> o2
             | Some clientIp \<Rightarrow> o2\<lparr>req_Header := Set (req_Header o2) ''X-Forwarded-For'' clientIp\<rparr>)"

text \<open>
  The transport has a state of its own; \<open>None\<close> is a copy that has not ended. With a flush interval the body
  goes through the writer that flushes, which hands it on as it is.
\<close>

definition ReverseProxy_ServeHTTP ::
  "(string \<Rightarrow> string option) \<Rightarrow> ('b Request \<Rightarrow> 'b Request \<times> header) \<Rightarrow>
   ('b Request \<Rightarrow> 't \<Rightarrow> 't \<times> (error + bufreader Response)) \<Rightarrow> 'w ResponseWriter \<Rightarrow> 'b Request \<Rightarrow> 't \<Rightarrow> 'w \<Rightarrow> ('t \<times> 'w) option" where
  "ReverseProxy_ServeHTTP hostOf director transport W req t rw =
     (case transport (outgoing hostOf director req) t of
        (t1, Inl e) \<Rightarrow> Some (t1, rw_StatusLine W StatusInternalServerError rw)
      | (t1, Inr res) \<Rightarrow>
          (let rw1 = rw_SetHeader W (copyHeader (rw_Header W rw) (resp_Header res)) rw;
               rw2 = rw_StatusLine W (resp_StatusCode res) rw1
           in case resp_Body res of
                None \<Rightarrow> Some (t1, rw2)
              | Some r \<Rightarrow>
                  (case Copy br_Read (rw_Body W) copy_size (copy_fuel r) r rw2 0 of
                     None \<Rightarrow> None
                   | Some (_, rw3, _, _) \<Rightarrow> Some (t1, rw3))))"

subsection \<open>The writer that flushes\<close>

text \<open>
  \<open>maxLatencyWriter\<close>: the goroutine that writes, the one that flushes, the lock, and whether the channel was
  made. The channel has no buffer.
\<close>

datatype ml_flusher = NotStarted | Selecting | WantsLock | Flushing | FlusherGone
datatype ml_writer = WriterIdle | Writing | Sending

record maxLatencyWriter =
  ml_lk :: bool
  ml_made :: bool
  ml_flusher :: ml_flusher
  ml_writer :: ml_writer

definition new_latency_writer :: maxLatencyWriter where
  "new_latency_writer = \<lparr>ml_lk = False, ml_made = False, ml_flusher = NotStarted, ml_writer = WriterIdle\<rparr>"

inductive ml_step :: "maxLatencyWriter \<Rightarrow> maxLatencyWriter \<Rightarrow> bool" where
  start_write: "ml_writer m = WriterIdle \<Longrightarrow> \<not> ml_lk m \<Longrightarrow>
    ml_step m (m\<lparr>ml_lk := True, ml_writer := Writing, ml_flusher := (if ml_made m then ml_flusher m else Selecting), ml_made := True\<rparr>)"
| end_write: "ml_writer m = Writing \<Longrightarrow> ml_step m (m\<lparr>ml_lk := False, ml_writer := WriterIdle\<rparr>)"
| write_failed: "ml_writer m = Writing \<Longrightarrow> ml_step m (m\<lparr>ml_writer := Sending\<rparr>)"
| stop: "ml_writer m = Sending \<Longrightarrow> ml_flusher m = Selecting \<Longrightarrow>
    ml_step m (m\<lparr>ml_lk := False, ml_writer := WriterIdle, ml_flusher := FlusherGone\<rparr>)"
| tick: "ml_flusher m = Selecting \<Longrightarrow> ml_step m (m\<lparr>ml_flusher := WantsLock\<rparr>)"
| start_flush: "ml_flusher m = WantsLock \<Longrightarrow> \<not> ml_lk m \<Longrightarrow> ml_step m (m\<lparr>ml_lk := True, ml_flusher := Flushing\<rparr>)"
| end_flush: "ml_flusher m = Flushing \<Longrightarrow> ml_step m (m\<lparr>ml_lk := False, ml_flusher := Selecting\<rparr>)"

section \<open>Dumps\<close>

text \<open>
  \<open>drainBody\<close> reads all of a body and closes it: an error, or the bytes. The body that takes its place
  is a buffer, whose \<open>Close\<close> does nothing.
\<close>

definition buffer_body :: "string \<Rightarrow> user_body" where
  "buffer_body s = \<lparr>ub_reader = \<lparr>br_segs = [s], br_end = io_EOF\<rparr>, ub_close = None\<rparr>"

definition drainBody :: "user_body \<Rightarrow> error + string" where
  "drainBody b =
     (if br_end (ub_reader b) \<noteq> io_EOF then Inl (br_end (ub_reader b))
      else case ub_close b of Some e \<Rightarrow> Inl e | None \<Rightarrow> Inr (br_rest (ub_reader b)))"

definition reqWriteExcludeHeaderDump :: "string \<Rightarrow> bool" where
  "reqWriteExcludeHeaderDump k \<longleftrightarrow> k \<in> set [''Host'', ''Content-Length'', ''Transfer-Encoding'', ''Trailer'']"

definition dump_head :: "url_lib \<Rightarrow> 'b Request \<Rightarrow> string" where
  "dump_head U req =
     valueOrDefault (req_Method req) ''GET'' @ '' '' @ u_RequestURI U (req_URL req) @ '' HTTP/'' @ Itoa (req_ProtoMajor req) @ ''.'' @
     Itoa (req_ProtoMinor req) @ CRLF @
     (let host = (if req_Host req = [] then url_Host (req_URL req) else req_Host req)
      in if host \<noteq> [] then ''Host: '' @ host @ CRLF else []) @
     (if req_TransferEncoding req \<noteq> [] then ''Transfer-Encoding: '' @ Join (CHR '','') (req_TransferEncoding req) @ CRLF else []) @
     (if req_Close req then ''Connection: close'' @ CRLF else [])"

text \<open>The body that is dumped, and the body that the request has afterwards: none, if draining it failed.\<close>

definition dump_body :: "bool \<Rightarrow> user_body option \<Rightarrow> error + string option \<times> user_body option" where
  "dump_body body b =
     (case b of
        None \<Rightarrow> Inr (None, None)
      | Some ub \<Rightarrow>
          if \<not> body then Inr (None, Some ub)
          else (case drainBody ub of Inl e \<Rightarrow> Inl e | Inr s \<Rightarrow> Inr (Some s, Some (buffer_body s))))"

text \<open>A buffer takes everything, so that only draining can fail; \<open>None\<close> is a copy that has not ended.\<close>

definition DumpRequest :: "url_lib \<Rightarrow> bool \<Rightarrow> user_body Request \<Rightarrow> ((error + string) \<times> user_body Request) option" where
  "DumpRequest U body req =
     (case dump_body body (req_Body req) of
        Inl e \<Rightarrow> Some (Inl e, req\<lparr>req_Body := None\<rparr>)
      | Inr (dumped, after) \<Rightarrow>
          let req' = req\<lparr>req_Body := after\<rparr>;
              s = dump_head U req;
              (s1, e) = WriteSubset buffer_write s (req_Header req) reqWriteExcludeHeaderDump;
              s2 = s1 @ CRLF
          in case e of
               Some err \<Rightarrow> Some (Inl err, req\<lparr>req_Body := map_option buffer_body dumped\<rparr>)
             | None \<Rightarrow>
                 (case dumped of
                    None \<Rightarrow> Some (Inr s2, req')
                  | Some d \<Rightarrow>
                      let r = \<lparr>br_segs = [d], br_end = io_EOF\<rparr>;
                          is_chunked = (req_TransferEncoding req \<noteq> [] \<and> hd (req_TransferEncoding req) = ''chunked'')
                      in case Copy br_Read (if is_chunked then chunkedWriter_Write buffer_write else buffer_write)
                                copy_size (copy_fuel r) r s2 0 of
                           None \<Rightarrow> None
                         | Some (_, s3, _, err) \<Rightarrow>
                             let s4 = (if is_chunked then fst (chunkedWriter_Close buffer_write s3) @ CRLF else s3)
                             in Some (case err of Some x \<Rightarrow> Inl x | None \<Rightarrow> Inr s4, req')))"

definition DumpResponse ::
  "(string \<Rightarrow> string) \<Rightarrow> bool \<Rightarrow> user_body Response \<Rightarrow> ((error + string) \<times> user_body Response) option" where
  "DumpResponse uu body resp =
     (case dump_body body (resp_Body resp) of
        Inl e \<Rightarrow> Some (Inl e, resp\<lparr>resp_Body := None\<rparr>)
      | Inr (dumped, after) \<Rightarrow>
          let sent = (case dumped of
                        None \<Rightarrow> resp\<lparr>resp_Body := None, resp_ContentLength := 0\<rparr>
                      | Some d \<Rightarrow> resp\<lparr>resp_Body := Some (buffer_body d)\<rparr>)
          in map_option (\<lambda>(s, e). (case e of Some x \<Rightarrow> Inl x | None \<Rightarrow> Inr s, resp\<lparr>resp_Body := after\<rparr>))
               (resp_Write uu buffer_write sent []))"

end
