(* ===== verification/RelaySpec.thy ===== *)
theory RelaySpec
  imports Relay Respond Framing
begin

text \<open>
  What the reverse proxy relays, on any writer of responses that keeps what it is given: a locale, interpreted
  on the recorder of \<open>http/httptest\<close> and on the writer of the transport for files; and on the response of the server,
  up to the bytes on the connection. Then the writer that flushes, the joining of paths, and the dumps.
\<close>

section \<open>Writers that keep what they get\<close>

locale keeps_response =
  fixes W :: "'w ResponseWriter" and code :: "'w \<Rightarrow> int" and body :: "'w \<Rightarrow> string"
    and fresh :: "'w \<Rightarrow> bool" and ready :: "'w \<Rightarrow> bool"
  assumes header: "rw_Header W (rw_SetHeader W h w) = h"
    and set_keeps: "fresh (rw_SetHeader W h w) = fresh w" "body (rw_SetHeader W h w) = body w"
    and status: "fresh w \<Longrightarrow> c \<noteq> 0 \<Longrightarrow> ready (rw_StatusLine W c w) \<and> code (rw_StatusLine W c w) = c \<and>
      body (rw_StatusLine W c w) = body w \<and> rw_Header W (rw_StatusLine W c w) = rw_Header W w"
    and appends: "ready w \<Longrightarrow> \<exists>w'. rw_Body W w d = (w', length d, None) \<and> ready w' \<and> code w' = code w \<and>
      body w' = body w @ d \<and> rw_Header W w' = rw_Header W w"
begin

lemma Copy_keeps:
  assumes "Copy br_Read (rw_Body W) n fuel r w k = Some (r', w', m, e)" and "ready w" and "0 < n"
  shows "ready w' \<and> code w' = code w \<and> body w' = body w @ br_rest r \<and> rw_Header W w' = rw_Header W w"
  using assms(1,2)
proof (induction fuel arbitrary: r w k)
  case (Suc fuel)
  show ?case
  using assms(3)
  proof (cases rule: br_Read_cases [of _ r])
    case eof
    then show ?thesis using Suc.prems by (auto simp: Let_def)
  next
    case (some i r1)
    then have d: "take i (br_rest r) \<noteq> []" by auto
    obtain w1 where w1: "rw_Body W w (take i (br_rest r)) = (w1, length (take i (br_rest r)), None)" "ready w1"
      "code w1 = code w" "body w1 = body w @ take i (br_rest r)" "rw_Header W w1 = rw_Header W w"
      using appends [OF Suc.prems(2)] by blast
    have "Copy br_Read (rw_Body W) n fuel r1 w1 (k + length (take i (br_rest r))) = Some (r', w', m, e)"
      using Suc.prems(1) some(4) w1(1) d by (simp add: Let_def)
    from Suc.IH [OF this w1(2)] w1 some(5) show ?thesis by simp
  qed
qed simp

lemma relayed:
  assumes "transport (outgoing hostOf director req) t = (t1, Inr res)" and "fresh w" and "body w = []"
    and "resp_StatusCode res \<noteq> 0" and "resp_Body res = Some r"
  shows "\<exists>w'. ReverseProxy_ServeHTTP hostOf director transport W req t w = Some (t1, w') \<and> ready w' \<and>
    code w' = resp_StatusCode res \<and> body w' = br_rest r \<and> rw_Header W w' = copyHeader (rw_Header W w) (resp_Header res)"
proof -
  let ?w1 = "rw_SetHeader W (copyHeader (rw_Header W w) (resp_Header res)) w"
  let ?w2 = "rw_StatusLine W (resp_StatusCode res) ?w1"
  have w2: "ready ?w2 \<and> code ?w2 = resp_StatusCode res \<and> body ?w2 = [] \<and>
      rw_Header W ?w2 = copyHeader (rw_Header W w) (resp_Header res)"
    using status [of ?w1 "resp_StatusCode res"] assms(2-4) set_keeps header by simp
  obtain r' w3 m e where c: "Copy br_Read (rw_Body W) copy_size (copy_fuel r) r ?w2 0 = Some (r', w3, m, e)"
    using copies_return [of "rw_Body W" r ?w2 0] by auto
  from Copy_keeps [OF c] w2 copy_size_pos c show ?thesis
    by (simp add: ReverseProxy_ServeHTTP_def assms(1,5) Let_def)
qed

end

lemma recorder_Write: "rr_Body rw = Some b \<Longrightarrow> rr_Code rw \<noteq> 0 \<Longrightarrow> rr_Write rw d = (rw\<lparr>rr_Body := Some (b @ d)\<rparr>, length d, None)"
  by (simp add: rr_Write_def Let_def)

interpretation rec: keeps_response recorder rr_Code "\<lambda>rw. the (rr_Body rw)" "\<lambda>rw. rr_Body rw \<noteq> None"
  "\<lambda>rw. rr_Body rw \<noteq> None \<and> rr_Code rw \<noteq> 0"
  by unfold_locales (auto simp: recorder_def rr_WriteHeader_def recorder_Write)

interpretation pop: keeps_response populating "\<lambda>pr. resp_StatusCode (pr_res pr)" pr_pipe "\<lambda>pr. \<not> pr_wroteHeader pr" pr_wroteHeader
  by unfold_locales (auto simp: populating_def pr_WriteHeader_def pr_Write_def sendResponse_def Let_def)

lemma writer_headers: "rw_Header recorder = rr_HeaderMap" "rw_Header populating = (\<lambda>pr. resp_Header (pr_res pr))"
  by (simp_all add: recorder_def populating_def)

section \<open>The writer of the server\<close>

text \<open>
  The response of \<open>http/server.go\<close> as a writer. Neither its header nor its body panics or blocks here, so that
  the last two cases do not happen. \<open>io.Copy\<close> uses its \<open>ReadFrom\<close>, which copies with \<open>rs_Write\<close> too or,
  by the connection, to the same effect (lemma \<open>ReadFrom_is_copy\<close>).
\<close>

definition server_writer :: "(string \<Rightarrow> string) \<Rightarrow> string \<Rightarrow> 's bufwriter \<Rightarrow> 's response ResponseWriter" where
  "server_writer ul date bw = \<lparr>rw_Header = rs_header, rw_SetHeader = (\<lambda>h w. w\<lparr>rs_header := h\<rparr>),
     rw_StatusLine = (\<lambda>code w. case WriteHeader ul date bw code w of Done w' _ \<Rightarrow> w' | Panic w' _ \<Rightarrow> w' | Block w' \<Rightarrow> w'),
     rw_Body = (\<lambda>w d. case rs_Write ul date bw d w of Done w' r \<Rightarrow> (w', r) | Panic w' m \<Rightarrow> (w', 0, Some m) | Block w' \<Rightarrow> (w', 0, Some []))\<rparr>"

lemma server_writer_done:
  "\<exists>w'. WriteHeader ul date bw code w = Done w' ()" "\<exists>w' r. rs_Write ul date bw d w = Done w' r"
proof -
  show "\<exists>w'. WriteHeader ul date bw code w = Done w' ()" by (rule WriteHeader_returns)
  have rest: "\<exists>w' r. write_rest bw m x u = Done w' r" for m x u
    by (auto simp: write_rest_def Let_def split: prod.split)
  have sniffed: "\<exists>w'. sniff bw u = Done w' ()" if "\<not> rs_hijacked u" for u
    using that by (auto simp: sniff_def Let_def split: prod.split)
  obtain w1 where w1: "(if \<not> rs_wroteHeader w then WriteHeader ul date bw StatusOK w else Done w ()) = Done w1 ()"
    using WriteHeader_returns [of ul date bw StatusOK w] by (cases "rs_wroteHeader w") auto
  show "\<exists>w' r. rs_Write ul date bw d w = Done w' r"
  proof (cases "rs_hijacked w")
    case False
    then have h: "\<not> rs_hijacked w1"
      using w1 WriteHeader_core [of ul date bw StatusOK w w1] by (cases "rs_wroteHeader w") (auto simp: core_def)
    let ?m = "min (sniffLen - length (rs_sniffbuf w1)) (length d)"
    obtain w4 where "sniff bw (w1\<lparr>rs_written := rs_written w1 + int (length d), rs_sniffbuf := rs_sniffbuf w1 @ take ?m d\<rparr>) = Done w4 ()"
      using sniffed h by (metis response.select_convs(1) response.surjective response.update_convs(3,10))
    with rest False show ?thesis by (auto simp: rs_Write_def w1 Let_def)
  qed (simp add: rs_Write_def)
qed

definition fresh_reply :: "'s response \<Rightarrow> bool" where
  "fresh_reply w \<longleftrightarrow> \<not> rs_hijacked w \<and> \<not> rs_wroteHeader w \<and> \<not> rs_chunking w \<and> rs_contentLength w = -1 \<and>
     \<not> rs_needSniff w \<and> rs_sniffbuf w = [] \<and> rs_written w = 0 \<and> rs_header w = []"

lemma Copy_replying:
  assumes "Copy br_Read (rw_Body (server_writer ul date mem)) n fuel r w k = Some (r', w', m, e)" and "0 < n"
    and "replying w0 w acc" and "rs_written w = int (length acc)" and "bodyAllowed w0"
    and "rs_contentLength w0 = -1 \<or> int (length (acc @ br_rest r)) \<le> rs_contentLength w0"
  shows "replying w0 w' (acc @ br_rest r)"
  using assms(1,3,4,6)
proof (induction fuel arbitrary: r w k acc)
  case (Suc fuel)
  show ?case
  using assms(2)
  proof (cases rule: br_Read_cases [of _ r])
    case eof
    then show ?thesis using Suc.prems by (auto simp: Let_def)
  next
    case (some i r1)
    let ?d = "take i (br_rest r)"
    have d: "?d \<noteq> []" "br_rest r = ?d @ br_rest r1" using some by auto
    have "\<not> unwritable w ?d"
      using Suc.prems(2-4) assms(5) d(2) by (auto simp: unwritable_def replying_def)
    from write_accepted [OF Suc.prems(2) this, of ul date] obtain w1 where
      w1: "rs_Write ul date mem ?d w = Done w1 (length ?d, None)" "replying w0 w1 (acc @ ?d)"
        "rs_written w1 = rs_written w + int (length ?d)" by blast
    have "Copy br_Read (rw_Body (server_writer ul date mem)) n fuel r1 w1 (k + length ?d) = Some (r', w', m, e)"
      using Suc.prems(1) some(4) w1(1) d(1) by (simp add: Let_def server_writer_def)
    from Suc.IH [OF this w1(2)] w1(3) Suc.prems(3,4) d(2) show ?thesis by (metis append.assoc length_append of_nat_add)
  qed
qed simp

lemma server_relays:
  fixes s :: "string response" and h :: header
  assumes "transport (outgoing hostOf director req) t = (t1, Inr res)" and "resp_Body res = Some r" and "fresh_reply s"
    and "ProtoAtLeast (rs_req s) 1 0" and "req_Method (rs_req s) \<noteq> ''HEAD''" and "resp_StatusCode res \<noteq> 304"
  defines "h \<equiv> copyHeader [] (resp_Header res)"
  assumes "\<And>n. ParseInt (Get h ''Content-Length'') = Some n \<Longrightarrow> int (length (br_rest r)) \<le> n"
  shows "\<exists>w2 w3 hdr c ps. ReverseProxy_ServeHTTP hostOf director transport (server_writer ul date mem) req t s = Some (t1, w2) \<and>
    finishRequest ul date mem w2 = Done w3 () \<and> concat ps = br_rest r \<and>
    (\<forall>k. k \<notin> managed \<longrightarrow> gomap_get hdr k = gomap_get h k) \<and>
    Get hdr ''Transfer-Encoding'' = (if c then ''chunked'' else []) \<and>
    rs_buf w3 = rs_buf s @ status_line (resp_StatusCode res) s @ header_text hdr @
      (if Get h ''Content-Type'' = [] then type_line (br_rest r) else CRLF) @
      (if c then concat (map chunk ps) @ ''0'' @ CRLF @ CRLF else concat ps)"
proof -
  let ?s = "s\<lparr>rs_header := h\<rparr>" and ?code = "resp_StatusCode res"
  have s: "\<not> rs_hijacked ?s" "\<not> rs_wroteHeader ?s" "\<not> rs_chunking ?s" "rs_contentLength ?s = -1" "\<not> rs_needSniff ?s"
    "rs_sniffbuf ?s = []" "rs_written ?s = 0" "rs_header ?s = h" "rs_buf ?s = rs_buf s" "rs_req ?s = rs_req s" "rs_header s = []"
    using assms(3) by (simp_all add: fresh_reply_def)
  obtain w0 where w0: "WriteHeader ul date mem ?code ?s = Done w0 ()" using WriteHeader_returns by blast
  have c0: "rs_written w0 = 0" "bodyAllowed w0"
    using WriteHeader_core [OF w0 s(1,2)] s assms(5,6) by (simp_all add: core_def bodyAllowed_def)
  note fr = header_framing [OF w0 s(1-5) c0(2), unfolded s(8,10)]
  have len: "rs_contentLength w0 = -1 \<or> int (length ([] @ br_rest r)) \<le> rs_contentLength w0"
    using fr assms(8) by auto
  obtain r' w2 m e where c: "Copy br_Read (rw_Body (server_writer ul date mem)) copy_size (copy_fuel r) r w0 0 = Some (r', w2, m, e)"
    using copies_return [of "rw_Body (server_writer ul date mem)" r w0 0] by auto
  have rep: "replying w0 w2 (br_rest r)"
    using Copy_replying [OF c copy_size_pos header_replying [OF w0 s(1,2,6,7)] _ c0(2) len] c0(1) by simp
  have proxy: "ReverseProxy_ServeHTTP hostOf director transport (server_writer ul date mem) req t s = Some (t1, w2)"
    using c w0 s(11) by (simp add: ReverseProxy_ServeHTTP_def assms(1,2) Let_def server_writer_def h_def)
  obtain w3 where w3: "finishRequest ul date mem w2 = Done w3 ()"
    using rep finish_stages [of w2] by (auto simp: replying_def)
  obtain ps where ps: "concat ps = br_rest r" "rs_buf w3 = rs_buf w0 @ (if rs_needSniff w0 then type_line (br_rest r) else []) @
      (if rs_chunking w0 then concat (map chunk ps) @ ''0'' @ CRLF @ CRLF else concat ps)"
    using replying_finish [OF rep w3] by blast
  note wire = header_on_the_wire [OF w0 s(1,2), unfolded s(8-10), OF assms(4)]
  have "status_line ?code ?s = status_line ?code s" by (simp add: status_line_def)
  with wire(1) ps(2) fr have "rs_buf w3 = rs_buf s @ status_line ?code s @ header_text (rs_header w0) @
      (if Get h ''Content-Type'' = [] then type_line (br_rest r) else CRLF) @
      (if rs_chunking w0 then concat (map chunk ps) @ ''0'' @ CRLF @ CRLF else concat ps)" by auto
  moreover have "Get (rs_header w0) ''Transfer-Encoding'' = (if rs_chunking w0 then ''chunked'' else [])" using fr by auto
  moreover have "\<forall>k. k \<notin> managed \<longrightarrow> gomap_get (rs_header w0) k = gomap_get h k" using wire(2) assms(6) by blast
  ultimately show ?thesis using proxy w3 ps(1) by blast
qed

text \<open>A header whose keys are canonical comes out as it went in.\<close>

lemma Add_fold:
  assumes "CanonicalHeaderKey k = k"
  shows "gomap_get (fold (\<lambda>v d. Add d k v) vv d) j =
    (if j = k \<and> vv \<noteq> [] then Some ((case gomap_get d k of None \<Rightarrow> [] | Some vs \<Rightarrow> vs) @ vv) else gomap_get d j)"
proof (induction vv arbitrary: d)
  case (Cons v vv)
  show ?case by (simp add: Cons.IH) (simp add: Add_def assms Let_def gomap_simps split: option.splits)
qed simp

lemma copyHeader_get:
  assumes "gomap_wf src" and "\<And>k vv. (k, vv) \<in> set src \<Longrightarrow> CanonicalHeaderKey k = k \<and> vv \<noteq> [] \<and> gomap_get dst k = None"
  shows "gomap_get (copyHeader dst src) j = (case gomap_get src j of None \<Rightarrow> gomap_get dst j | Some vv \<Rightarrow> Some vv)"
  using assms
proof (induction src arbitrary: dst)
  case (Cons kv src)
  obtain k vv where kv: "kv = (k, vv)" by force
  have k: "CanonicalHeaderKey k = k" "vv \<noteq> []" "gomap_get dst k = None" using Cons.prems(2) [of k vv] kv by auto
  let ?d = "fold (\<lambda>v d. Add d k v) vv dst"
  have d: "gomap_get ?d j = (if j = k then Some vv else gomap_get dst j)" for j
    using k by (simp add: Add_fold)
  have fresh: "k' \<noteq> k" if "(k', vv') \<in> set src" for k' vv' using that Cons.prems(1) kv by (force simp: gomap_wf_def)
  have "gomap_get (copyHeader ?d src) j = (case gomap_get src j of None \<Rightarrow> gomap_get ?d j | Some vv \<Rightarrow> Some vv)"
    by (rule Cons.IH) (use Cons.prems fresh d kv in \<open>auto simp: gomap_wf_def\<close>)
  moreover have "gomap_get src k = None" using fresh by (auto simp: map_of_eq_None_iff) blast
  ultimately show ?case using d kv by (auto simp: copyHeader_def split: option.splits)
qed (simp add: copyHeader_def)

text \<open>
  C40: When the transport of a reverse proxy has a response, the proxy gives it on to the client's writer with
  its status, every field of its header and all of its body. On the recorder of the tests and on the writer of the
  transport for files they are as they were. On a response of the server, once the request is finished, the connection
  has the status line, a header in which every field has its values except the four that the server sets itself, and
  the body, whole or in chunks, as the header says. The keys of the header are canonical, as a header that was
  read has them, and for the server the body is as long as the Content-Length says, if there is one.
\<close>

theorem proxy_relays:
  fixes s :: "string response"
  assumes "transport (outgoing hostOf director req) t = (t1, Inr res)"
    and "resp_StatusCode res \<noteq> 0" and "resp_Body res = Some r" and "gomap_wf (resp_Header res)"
    and "\<forall>(k, vv) \<in> set (resp_Header res). CanonicalHeaderKey k = k \<and> vv \<noteq> []"
  shows "(\<exists>w. ReverseProxy_ServeHTTP hostOf director transport recorder req t NewRecorder = Some (t1, w) \<and>
      rr_Code w = resp_StatusCode res \<and> rr_Body w = Some (br_rest r) \<and> gomap_get (rr_HeaderMap w) = gomap_get (resp_Header res)) \<and>
    (\<exists>w. ReverseProxy_ServeHTTP hostOf director transport populating req t newPopulateResponseWriter = Some (t1, w) \<and>
      resp_StatusCode (pr_res w) = resp_StatusCode res \<and> pr_pipe w = br_rest r \<and>
      gomap_get (resp_Header (pr_res w)) = gomap_get (resp_Header res)) \<and>
    (fresh_reply s \<and> ProtoAtLeast (rs_req s) 1 0 \<and> req_Method (rs_req s) \<noteq> ''HEAD'' \<and> resp_StatusCode res \<noteq> 304 \<and>
       (\<forall>n. ParseInt (Get (resp_Header res) ''Content-Length'') = Some n \<longrightarrow> int (length (br_rest r)) \<le> n) \<longrightarrow>
     (\<exists>w2 w3 hdr c ps. ReverseProxy_ServeHTTP hostOf director transport (server_writer ul date mem) req t s = Some (t1, w2) \<and>
       finishRequest ul date mem w2 = Done w3 () \<and> concat ps = br_rest r \<and>
       (\<forall>k. k \<notin> managed \<longrightarrow> gomap_get hdr k = gomap_get (resp_Header res) k) \<and>
       Get hdr ''Transfer-Encoding'' = (if c then ''chunked'' else []) \<and>
       rs_buf w3 = rs_buf s @ status_line (resp_StatusCode res) s @ header_text hdr @
         (if Get (resp_Header res) ''Content-Type'' = [] then type_line (br_rest r) else CRLF) @
         (if c then concat (map chunk ps) @ ''0'' @ CRLF @ CRLF else concat ps)))"
    (is "?rec \<and> ?pop \<and> (?ok \<longrightarrow> ?srv)")
proof (intro conjI impI)
  have "gomap_get (copyHeader [] (resp_Header res)) j =
      (case gomap_get (resp_Header res) j of None \<Rightarrow> gomap_get [] j | Some vv \<Rightarrow> Some vv)" for j
    by (rule copyHeader_get [OF assms(4)]) (use assms(5) in fastforce)
  then have h: "gomap_get (copyHeader [] (resp_Header res)) = gomap_get (resp_Header res)"
    by (intro ext) (simp split: option.split)
  have "rr_Body NewRecorder \<noteq> None" "the (rr_Body NewRecorder) = []" "rw_Header recorder NewRecorder = []"
    by (simp_all add: NewRecorder_def recorder_def)
  from rec.relayed [where transport = transport and hostOf = hostOf and director = director and req = req and t = t,
      OF assms(1) this(1,2) assms(2,3)] this(3) h show ?rec
    by (auto simp: writer_headers)
  have "\<not> pr_wroteHeader newPopulateResponseWriter" "pr_pipe newPopulateResponseWriter = []"
    "rw_Header populating newPopulateResponseWriter = []" by (simp_all add: newPopulateResponseWriter_def populating_def)
  from pop.relayed [where transport = transport and hostOf = hostOf and director = director and req = req and t = t,
      OF assms(1) this(1,2) assms(2,3)] this(3) h show ?pop
    by (auto simp: writer_headers)
  assume ok: ?ok
  have g: "Get (copyHeader [] (resp_Header res)) k = Get (resp_Header res) k" for k by (simp add: Get_def h)
  from server_relays [where transport = transport and hostOf = hostOf and director = director and req = req and t = t and s = s
      and ul = ul and date = date, OF assms(1,3), unfolded h g] ok show ?srv by blast
qed

definition canned :: "bufreader Response" where
  "canned = \<lparr>resp_Status = ''200 OK'', resp_StatusCode = 200, resp_Proto = ''HTTP/1.1'', resp_ProtoMajor = 1,
     resp_ProtoMinor = 1, resp_Header = [(''Server'', [''x''])], resp_Body = Some \<lparr>br_segs = [''hel'', ''lo''], br_end = io_EOF\<rparr>,
     resp_ContentLength = 5, resp_TransferEncoding = [], resp_Close = False, resp_Trailer = None, resp_Method = None\<rparr>"

theorem proxy_relays_witness:
  "(\<exists>w. ReverseProxy_ServeHTTP (\<lambda>_. None) (\<lambda>r. (r, req_Header r)) (\<lambda>_ t. (t, Inr canned)) recorder mirror_request () NewRecorder =
     Some ((), w) \<and> rr_Code w = 200 \<and> rr_Body w = Some ''hello'' \<and> gomap_get (rr_HeaderMap w) ''Server'' = Some [''x'']) \<and>
   (\<exists>w2 w3 hdr c ps. ReverseProxy_ServeHTTP (\<lambda>_. None) (\<lambda>r. (r, req_Header r)) (\<lambda>_ t. (t, Inr canned))
       (server_writer (\<lambda>s. s) ''now'' mem) mirror_request () demo_response = Some ((), w2) \<and>
     finishRequest (\<lambda>s. s) ''now'' mem w2 = Done w3 () \<and> concat ps = ''hello'' \<and> gomap_get hdr ''Server'' = Some [''x''] \<and>
     rs_buf w3 = status_line 200 demo_response @ header_text hdr @ type_line ''hello'' @
       (if c then concat (map chunk ps) @ ''0'' @ CRLF @ CRLF else ''hello''))"
  (is "?A \<and> ?B")
proof -
  let ?t = "\<lambda>(_ :: user_body Request) t. (t :: unit, Inr canned)"
  have c: "resp_StatusCode canned \<noteq> 0" "gomap_wf (resp_Header canned)"
    "\<forall>(k, vv) \<in> set (resp_Header canned). CanonicalHeaderKey k = k \<and> vv \<noteq> []" by code_simp+
  have b: "resp_Body canned = Some \<lparr>br_segs = [''hel'', ''lo''], br_end = io_EOF\<rparr>" by (simp add: canned_def)
  have get: "Get (resp_Header canned) ''Content-Length'' = []" "Get (resp_Header canned) ''Content-Type'' = []"
    "gomap_get (resp_Header canned) ''Server'' = Some [''x'']" "resp_StatusCode canned = 200" by code_simp+
  have d: "fresh_reply demo_response" "ProtoAtLeast (rs_req demo_response) 1 0" "req_Method (rs_req demo_response) \<noteq> ''HEAD''"
    "rs_buf demo_response = []" by code_simp+
  have m: "''Server'' \<notin> managed" by (simp add: managed_def)
  have n: "ParseInt (Get (resp_Header canned) ''Content-Length'') \<noteq> Some n" for n by (simp add: get ParseInt_Nil)
  note both = proxy_relays [of ?t "\<lambda>_. None" "\<lambda>r. (r, req_Header r)" mirror_request "()" "()" canned, OF refl c(1) b c(2,3),
      of demo_response "\<lambda>s. s" "''now''"]
  have rest: "br_rest \<lparr>br_segs = [''hel'', ''lo''], br_end = io_EOF\<rparr> = ''hello''" by (simp add: br_rest_def)
  have "?A" using conjunct1 [OF both] get(3) by (auto simp: get(4) rest)
  moreover have "?B"
  proof -
    have c4: "resp_StatusCode canned \<noteq> 304" by (simp add: get(4))
    have ok: "fresh_reply demo_response \<and> ProtoAtLeast (rs_req demo_response) 1 0 \<and>
        req_Method (rs_req demo_response) \<noteq> ''HEAD'' \<and> resp_StatusCode canned \<noteq> 304 \<and>
        (\<forall>n. ParseInt (Get (resp_Header canned) ''Content-Length'') = Some n \<longrightarrow>
          int (length (br_rest \<lparr>br_segs = [''hel'', ''lo''], br_end = io_EOF\<rparr>)) \<le> n)"
      by (intro conjI allI impI) (rule d(1-3) c4 | erule notE [OF n])+
    from mp [OF conjunct2 [OF conjunct2 [OF both]] ok] obtain w2 w3 hdr c ps where
      p: "ReverseProxy_ServeHTTP (\<lambda>_. None) (\<lambda>r. (r, req_Header r)) ?t (server_writer (\<lambda>s. s) ''now'' mem)
         mirror_request () demo_response = Some ((), w2)"
        "finishRequest (\<lambda>s. s) ''now'' mem w2 = Done w3 ()"
        "concat ps = br_rest \<lparr>br_segs = [''hel'', ''lo''], br_end = io_EOF\<rparr>"
        "\<forall>k. k \<notin> managed \<longrightarrow> gomap_get hdr k = gomap_get (resp_Header canned) k"
        "rs_buf w3 = rs_buf demo_response @ status_line (resp_StatusCode canned) demo_response @ header_text hdr @
          (if Get (resp_Header canned) ''Content-Type'' = [] then type_line (br_rest \<lparr>br_segs = [''hel'', ''lo''], br_end = io_EOF\<rparr>) else CRLF) @
          (if c then concat (map chunk ps) @ ''0'' @ CRLF @ CRLF else concat ps)"
      by (elim exE conjE) (rule that)
    have "gomap_get hdr ''Server'' = Some [''x'']" using p(4) m get(3) by simp
    moreover have "rs_buf w3 = status_line 200 demo_response @ header_text hdr @ type_line ''hello'' @
       (if c then concat (map chunk ps) @ ''0'' @ CRLF @ CRLF else ''hello'')"
      unfolding p(5) p(3) rest get(2,4) d(4) by simp
    ultimately show ?thesis using p(1,2) p(3) [unfolded rest] by blast
  qed
  ultimately show ?thesis by blast
qed

section \<open>Paths\<close>

text \<open>There is exactly one slash where the paths meet, unless there were more.\<close>

lemma joined_once:
  assumes "\<not> HasSuffix a ''//''" and "\<not> HasPrefix b ''//''"
  shows "\<exists>a' b'. singleJoiningSlash a b = a' @ ''/'' @ b' \<and> \<not> HasSuffix a' ''/'' \<and> \<not> HasPrefix b' ''/'' \<and>
    (a = a' \<or> a = a' @ ''/'') \<and> (b = b' \<or> b = ''/'' @ b')"
proof -
  have suf: "HasSuffix s p \<longleftrightarrow> (\<exists>r. s = r @ p)" for s p
    by (simp add: HasSuffix_def HasPrefix_append) (metis rev_append rev_rev_ident)
  obtain a' where a: "\<not> HasSuffix a' ''/''" "a = a' \<and> \<not> HasSuffix a ''/'' \<or> a = a' @ ''/'' \<and> HasSuffix a ''/''"
  proof (cases "HasSuffix a ''/''")
    case True
    then obtain r where r: "a = r @ ''/''" by (auto simp: suf)
    moreover have "\<not> HasSuffix r ''/''" using assms(1) r by (auto simp: suf)
    ultimately show thesis using that [of r] True by simp
  qed (use that [of a] in simp)
  obtain b' where b: "\<not> HasPrefix b' ''/''" "b = b' \<and> \<not> HasPrefix b ''/'' \<or> b = ''/'' @ b' \<and> HasPrefix b ''/''"
  proof (cases "HasPrefix b ''/''")
    case True
    then obtain r where r: "b = ''/'' @ r" by (auto simp: HasPrefix_append)
    moreover have "\<not> HasPrefix r ''/''" using assms(2) r by (auto simp: HasPrefix_append)
    ultimately show thesis using that [of r] True by simp
  qed (use that [of b] in simp)
  have "singleJoiningSlash a b = a' @ ''/'' @ b'"
    using a(2) b(2) by (auto simp: singleJoiningSlash_def)
  then show ?thesis using a b by blast
qed

section \<open>The writer that flushes\<close>

inductive ml_reach :: "maxLatencyWriter \<Rightarrow> bool" where
  start: "ml_reach new_latency_writer"
| step: "ml_reach m \<Longrightarrow> ml_step m m' \<Longrightarrow> ml_reach m'"

inductive_cases ml_stepE: "ml_step m m'"

text \<open>
  A write that fails while the goroutine that flushes is waiting for the lock stops both for good: the
  writer holds the lock and waits for the flusher, which waits for the lock.
\<close>
theorem flush_deadlock:
  "\<exists>m. ml_reach m \<and> ml_writer m = Sending \<and> ml_flusher m = WantsLock \<and> (\<forall>m'. \<not> ml_step m m')"
proof -
  let ?m1 = "\<lparr>ml_lk = True, ml_made = True, ml_flusher = Selecting, ml_writer = Writing\<rparr>"
  let ?m2 = "?m1\<lparr>ml_flusher := WantsLock\<rparr>"
  let ?m3 = "?m2\<lparr>ml_writer := Sending\<rparr>"
  have 1: "ml_step new_latency_writer ?m1"
    using ml_step.start_write [of new_latency_writer] by (simp add: new_latency_writer_def)
  have 2: "ml_step ?m1 ?m2" by (rule ml_step.tick) simp
  have 3: "ml_step ?m2 ?m3" by (rule ml_step.write_failed) simp
  have "ml_reach ?m3" using 1 2 3 ml_reach.start ml_reach.step by metis
  moreover have "\<not> ml_step ?m3 m'" for m' by (auto elim: ml_stepE)
  ultimately show ?thesis by (intro exI [of _ ?m3]) simp
qed

text \<open>Without an error, the goroutine that flushes never ends, and its ticker is never stopped.\<close>

lemma flusher_stays: "ml_step m m' \<Longrightarrow> ml_flusher m' = FlusherGone \<Longrightarrow> ml_flusher m \<noteq> FlusherGone \<Longrightarrow> ml_writer m = Sending"
  by (auto elim!: ml_stepE split: if_splits)

section \<open>Dumps\<close>

text \<open>A dump puts back a body with the same bytes, and loses the body when it could not be read.\<close>

lemma dump_keeps_body:
  assumes "DumpRequest U True req = Some (Inr out, req')" and "req_Body req = Some b"
  shows "req' = req\<lparr>req_Body := Some (buffer_body (br_rest (ub_reader b)))\<rparr>"
  using assms
  by (auto simp: DumpRequest_def dump_body_def drainBody_def Let_def split: if_splits option.splits sum.splits prod.splits)

lemma dump_loses_body:
  assumes "req_Body req = Some b" and "drainBody b = Inl e"
  shows "DumpRequest U True req = Some (Inl e, req\<lparr>req_Body := None\<rparr>)"
  using assms by (simp add: DumpRequest_def dump_body_def)

end
