(* ===== verification/ReadFrom.thy ===== *)
theory ReadFrom
  imports Conn Framing
begin

text \<open>
  \<open>ReadFrom\<close> of the response in \<open>http/server.go\<close>, through which \<open>io.Copy\<close> sends a file, and \<open>newConn\<close>. The copy by
  the connection itself is the argument \<open>rf\<close>, where it has one; it writes past the buffer. Then how a server
  starts to listen and a connection to be served; listening, certificates and the handshake of TLS are arguments.
\<close>

definition newConn :: "string \<Rightarrow> bufreader \<Rightarrow> 's \<Rightarrow> 's conn" where
  "newConn addr input s = \<lparr>cn_in = input, cn_buf = s, cn_hijacked = False, cn_remoteAddr = addr\<rparr>"

text \<open>The default copy, with the response as its writer; \<open>None\<close> is a copy that has not ended.\<close>

fun copy_to_response ::
  "(string \<Rightarrow> string) \<Rightarrow> string \<Rightarrow> 's bufwriter \<Rightarrow> nat \<Rightarrow> bufreader \<Rightarrow> 's response \<Rightarrow> nat \<Rightarrow>
   ('s response, nat \<times> error option) outcome option" where
  "copy_to_response ul date bw 0 src w n = None"
| "copy_to_response ul date bw (Suc fuel) src w n =
     (case br_Read copy_size src of
        (src1, d, er) \<Rightarrow>
          (case (if d \<noteq> [] then rs_Write ul date bw d w else Done w (0, None)) of
             Done w1 (nw, ew) \<Rightarrow>
               if ew \<noteq> None then Some (Done w1 (n + nw, ew))
               else if nw \<noteq> length d then Some (Done w1 (n + nw, Some io_ErrShortWrite))
               else (case er of
                       Some e \<Rightarrow> Some (Done w1 (n + nw, if e = io_EOF then None else Some e))
                     | None \<Rightarrow> copy_to_response ul date bw fuel src1 w1 (n + nw))
           | Panic w1 m \<Rightarrow> Some (Panic w1 m)
           | Block w1 \<Rightarrow> Some (Block w1)))"

definition rs_ReadFrom ::
  "(string \<Rightarrow> string) \<Rightarrow> string \<Rightarrow> 's bufwriter \<Rightarrow> ('s \<Rightarrow> bufreader \<Rightarrow> 's \<times> nat \<times> error option) option \<Rightarrow> bufreader \<Rightarrow>
   's response \<Rightarrow> ('s response, nat \<times> error option) outcome option" where
  "rs_ReadFrom ul date bw rf src w =
     (case (if \<not> rs_wroteHeader w then WriteHeader ul date bw StatusOK w else Done w ()) of
        Done w1 _ \<Rightarrow>
          (let copy = copy_to_response ul date bw (copy_fuel src) src
           in if \<not> rs_chunking w1 \<and> \<not> rs_wroteHeader w1 then Some (Panic w1 [])
              else if \<not> rs_chunking w1 \<and> bodyAllowed w1 \<and> \<not> rs_needSniff w1
              then (case rs_Flush ul date bw w1 of
                      Done w2 _ \<Rightarrow>
                        (case rf of
                           None \<Rightarrow> copy w2 0
                         | Some f \<Rightarrow>
                             (case f (rs_buf w2) src of
                                (s, n, err) \<Rightarrow> Some (Done (w2\<lparr>rs_buf := s, rs_written := rs_written w2 + int n\<rparr>) (n, err))))
                    | Panic w2 m \<Rightarrow> Some (Panic w2 m)
                    | Block w2 \<Rightarrow> Some (Block w2))
              else copy w1 0)
      | Panic w1 m \<Rightarrow> Some (Panic w1 m)
      | Block w1 \<Rightarrow> Some (Block w1))"

section \<open>The two ways of copying\<close>

text \<open>A connection that takes everything.\<close>

definition takes_all :: "string \<Rightarrow> bufreader \<Rightarrow> string \<times> nat \<times> error option" where
  "takes_all s src = (s @ br_rest src, length (br_rest src), if br_end src = io_EOF then None else Some (br_end src))"

text \<open>A response whose header is out, without chunks and sniffing.\<close>

definition settled_reply :: "'s response \<Rightarrow> bool" where
  "settled_reply w \<longleftrightarrow> rs_wroteHeader w \<and> \<not> rs_hijacked w \<and> \<not> rs_chunking w \<and> bodyAllowed w \<and> \<not> rs_needSniff w"

definition sent :: "string \<Rightarrow> string response \<Rightarrow> string response" where
  "sent d w = w\<lparr>rs_buf := rs_buf w @ d, rs_written := rs_written w + int (length d)\<rparr>"

lemma plain_sent: "settled_reply (sent d w) = settled_reply w"
  by (simp add: settled_reply_def sent_def bodyAllowed_def)

lemma sent_fields: "rs_written (sent d w) = rs_written w + int (length d)" "rs_contentLength (sent d w) = rs_contentLength w"
  by (simp_all add: sent_def)

lemma sent_sent: "sent e (sent d w) = sent (d @ e) w"
  by (simp add: sent_def)

lemma plain_Write:
  assumes "settled_reply w" and "rs_contentLength w = -1 \<or> rs_written w + int (length d) \<le> rs_contentLength w" and "d \<noteq> []"
  shows "rs_Write ul date mem d w = Done (sent d w) (length d, None)"
  using assms
  by (cases w) (auto simp: rs_Write_def settled_reply_def bodyAllowed_def write_rest_def mem_def buffer_write_def sent_def Let_def)

lemma plain_copy:
  assumes "settled_reply w" and "rs_contentLength w = -1 \<or> rs_written w + int (length (br_rest src)) \<le> rs_contentLength w"
    and "length (br_rest src) < fuel"
  shows "copy_to_response ul date mem fuel src w n =
    Some (Done (sent (br_rest src) w) (n + length (br_rest src), if br_end src = io_EOF then None else Some (br_end src)))"
  using assms
proof (induction fuel arbitrary: src w n)
  case (Suc fuel)
  have "0 < copy_size" by (simp add: copy_size_def)
  then show ?case
  proof (cases rule: br_Read_cases [of _ src])
    case eof
    then show ?thesis by (simp add: sent_def)
  next
    case (some k r1)
    let ?d = "take k (br_rest src)"
    have d: "?d \<noteq> []" "length ?d = k" using some by auto
    have "rs_Write ul date mem ?d w = Done (sent ?d w) (length ?d, None)"
      using plain_Write [OF Suc.prems(1) _ d(1)] Suc.prems(2) some(3) d(2) by auto
    then have "copy_to_response ul date mem (Suc fuel) src w n = copy_to_response ul date mem fuel r1 (sent ?d w) (n + k)"
      using some d by simp
    also have "\<dots> = Some (Done (sent (br_rest r1) (sent ?d w))
        (n + k + length (br_rest r1), if br_end r1 = io_EOF then None else Some (br_end r1)))"
      by (rule Suc.IH) (use Suc.prems some d in \<open>auto simp: plain_sent sent_fields\<close>)
    finally show ?thesis using some d by (simp add: sent_sent)
  qed
qed simp

text \<open>
  Within the declared length, the copy past the buffer does what the default copy does; it does not look at
  the length, so that a longer source is sent in full, and the count shows it.
\<close>

lemma ReadFrom_is_copy:
  assumes "settled_reply w" and "rs_contentLength w = -1 \<or> rs_written w + int (length (br_rest src)) \<le> rs_contentLength w"
  shows "rs_ReadFrom ul date mem (Some takes_all) src w = rs_ReadFrom ul date mem None src w"
proof -
  have f: "rs_Flush ul date mem w = Done w ()"
    using assms(1) by (cases w) (simp add: rs_Flush_def settled_reply_def sniff_def flush_buf_def mem_def)
  have c: "copy_to_response ul date mem (copy_fuel src) src w 0 =
    Some (Done (sent (br_rest src) w) (length (br_rest src), if br_end src = io_EOF then None else Some (br_end src)))"
    using plain_copy [OF assms, of "copy_fuel src" ul date 0] by (simp add: copy_fuel_def)
  show ?thesis
    using assms(1) by (simp add: rs_ReadFrom_def settled_reply_def f c takes_all_def sent_def)
qed

lemma ReadFrom_sends_all:
  assumes "settled_reply w"
  shows "rs_ReadFrom ul date mem (Some takes_all) src w =
    Some (Done (sent (br_rest src) w) (length (br_rest src), if br_end src = io_EOF then None else Some (br_end src)))"
proof -
  have f: "rs_Flush ul date mem w = Done w ()"
    using assms by (cases w) (simp add: rs_Flush_def settled_reply_def sniff_def flush_buf_def mem_def)
  show ?thesis using assms by (simp add: rs_ReadFrom_def settled_reply_def f takes_all_def sent_def)
qed

section \<open>Listening\<close>

text \<open>The address by default, and the error with which serving ends.\<close>

definition ListenAndServe :: "(string \<Rightarrow> error + 'l) \<Rightarrow> ('l \<Rightarrow> error) \<Rightarrow> string \<Rightarrow> error" where
  "ListenAndServe listen srv_Serve addr =
     (case listen (if addr = [] then '':http'' else addr) of Inl e \<Rightarrow> e | Inr l \<Rightarrow> srv_Serve l)"

text \<open>Of the configuration of TLS, which may be nil, only the protocols are looked at; they may be nil too.\<close>

definition ListenAndServeTLS ::
  "(string \<Rightarrow> string \<Rightarrow> error + 'k) \<Rightarrow> (string \<Rightarrow> error + 'l) \<Rightarrow> ('l \<Rightarrow> string list \<Rightarrow> 'k \<Rightarrow> 'l) \<Rightarrow> ('l \<Rightarrow> error) \<Rightarrow>
   string \<Rightarrow> string list option option \<Rightarrow> string \<Rightarrow> string \<Rightarrow> error" where
  "ListenAndServeTLS load listen newListener srv_Serve addr config certFile keyFile =
     (let protos = (case config of Some (Some ps) \<Rightarrow> ps | _ \<Rightarrow> [''http/1.1''])
      in case load certFile keyFile of
           Inl e \<Rightarrow> e
         | Inr cert \<Rightarrow>
             (case listen (if addr = [] then '':https'' else addr) of
                Inl e \<Rightarrow> e
              | Inr l \<Rightarrow> srv_Serve (newListener l protos cert)))"

text \<open>The deadlines of a connection for reading and writing, set once, when it is accepted.\<close>

definition conn_deadlines :: "int \<Rightarrow> int \<Rightarrow> int \<Rightarrow> int option \<times> int option" where
  "conn_deadlines now readTimeout writeTimeout =
     (if readTimeout \<noteq> 0 then Some (now + readTimeout) else None, if writeTimeout \<noteq> 0 then Some (now + writeTimeout) else None)"

text \<open>A connection of TLS shakes hands first; \<open>None\<close> is a connection without TLS, and the error inside may be nil.\<close>

definition conn_serve ::
  "error option option \<Rightarrow> (string \<Rightarrow> string) \<Rightarrow> url_lib \<Rightarrow> (error \<Rightarrow> bool) \<Rightarrow> ('s \<Rightarrow> string \<Rightarrow> 's) \<Rightarrow> 's bufwriter \<Rightarrow> int \<Rightarrow>
   ('s response \<Rightarrow> ('s response, unit) outcome) \<Rightarrow> (string \<times> nat \<times> bool) list \<Rightarrow> 's conn \<Rightarrow> 's turn" where
  "conn_serve handshake ul U timeout raw bw maxHeader handler turns c =
     (if handshake \<noteq> None \<and> handshake \<noteq> Some None then close_conn bw (cn_buf c)
      else serve ul U timeout raw bw maxHeader handler turns c)"

end
