(* ===== verification/Spec2Isabelle.thy ===== *)
theory Spec2Isabelle
  imports Demo Audio Orphan Lex Framing Cookie Routes Respond Messages Serving FileSpec Pipeline Forms Browser FcgiRun CgiSpec TransportSpec PersistSpec RelaySpec ReadFrom
begin

text \<open>
  icecast-proxy-go: a proxy in front of an icecast server. Sources log in over HTTP and send audio to a
  mount; the first source of a mount is live, the others wait in line, and the audio and metadata of the
  live one go to icecast through libshout. The repository carries its own HTTP package.

  THE PARTS. A request comes in on a connection (\<open>http/server.go\<close>), is read (\<open>http/request.go\<close>,
  \<open>http/transfer.go\<close>), routed (\<open>ServeMux\<close>), authenticated (\<open>server/auth.go\<close>) and handled
  (\<open>server/http.go\<close>). A source's connection is handed to the manager loop (\<open>server/icecast.go\<close>), which
  owns the mounts (\<open>server/mount.go\<close>) and their clients (\<open>server/client.go\<close>) and is fed by one reader
  goroutine per source, all through channels; the admin page reads a registry of its own
  (\<open>server/handlers.go\<close>).

  THEORIES AND CODE.
  \<^item> Prelude: outcomes (a result, a panic, a call that blocks for ever), maps with the order in which the
    runtime visits them, channels. Gostd: what the code uses of \<open>strings\<close>, \<open>strconv\<close>, \<open>base64\<close>, \<open>path\<close>,
    FNV-1a and runes.
  \<^item> Config (\<open>config/config.go\<close>), Shout (\<open>shout/shout.go\<close>, over a record of C functions), Client, Mount,
    Handlers, Auth, Web, Icecast (the files of \<open>server/\<close> with these names; Mount has \<open>manager.go\<close> and
    \<open>packets.go\<close> too, Web has \<open>http.go\<close> and \<open>encoding.go\<close>). The state of the manager is the record
    \<open>world\<close>: mounts and containers by pointer, the channels as lists with capacities, the libshout
    calls made, the readers running. \<open>System.step\<close> is the whole server: requests, readers, timers and the
    loop, interleaved in any order, and the restart of the loop after a panic; \<open>System.history\<close> its runs.
  \<^item> Invariant, Liveness, LiveSpec, Metadata, Audio, Orphan: lemmas on that system. Demo: the concrete
    states that witnesses use.
  \<^item> Header, Textproto, Request, Bufio, Chunked, Lex, Status, Sniff, Cookie, TransferCoding, HttpMsg,
    Mux, Routes, Reply, Respond, Conn, ReadFrom, Ranges, Files, Forms, Browser (\<open>http/header.go\<close>, \<open>request.go\<close>,
    \<open>chunked.go\<close>, \<open>lex.go\<close>, \<open>status.go\<close>, \<open>sniff.go\<close>, \<open>cookie.go\<close>, \<open>transfer.go\<close>, \<open>response.go\<close>, \<open>server.go\<close>,
    \<open>fs.go\<close>, \<open>client.go\<close>; Textproto and Bufio model what is used of \<open>net/textproto\<close> and \<open>bufio\<close>).
  \<^item> Framing, Messages, Serving, FileSpec, ConnSpec, Pipeline: lemmas on them (Serving also has the limits and
    timeouts of \<open>request.go\<close> and \<open>server.go\<close>).
  \<^item> Transport, TransportSpec (\<open>http/transport.go\<close>): the pool of the client's connections with all goroutines on it,
    as the step relation \<open>tr_step\<close> on the record \<open>transport\<close>. Persist, PersistSpec (\<open>http/httputil/persist.go\<close>): the
    pipelining connections, one relation \<open>persist_step\<close> for the server's and the client's, over the four pieces of
    code that hold the lock. Relay, RelaySpec (\<open>httputil/reverseproxy.go\<close>, \<open>httputil/dump.go\<close>,
    \<open>http/filetransport.go\<close>, \<open>httptest/recorder.go\<close>): writers of responses, and what writes to them.
  \<^item> Fcgi, FcgiSpec, FcgiChild, FcgiRun (\<open>http/fcgi\<close>): records, parameters and streams; the child that
    keeps requests apart, and its replies. Cgi, CgiSpec (\<open>http/cgi\<close>): the environment that the host builds, the
    program's reply, and what a child makes of the environment.

  STATE. A pointer is a natural number, a map of Go an association list without duplicate keys; wherever
  the code ranges over a map, an argument arranges the entries, and a property holds for every
  arrangement. A reader is the segments that arrive and the error behind them, so no property depends on how
  the network cuts the bytes; a writer is a function on a state. Errors are values, panics and blocked calls
  are outcomes, 32- and 64-bit counters wrap around. Packages that are not in the repository (libshout,
  the database, bcrypt, YAML, iconv, \<open>net/url\<close>, \<open>mime\<close>, \<open>time\<close>, the operating system) are arguments; the laws that a
  property needs of them are its hypotheses.

  LEMMAS. The manager: an invariant of every run in three layers (C1), the only ways to panic (C2), which
  source is heard (C3), a refinement of the abstract line of sources (C4, C5), metadata (C6, and
  \<open>waiting_metadata\<close>, \<open>early_metadata\<close>, \<open>saved_metadata_announced\<close>), authorisation and identities (C7 to C9).
  Behaviours of the code that are flaws are theorems too: a mount whose live source left with nobody waiting
  stays silent (C10), an admin request locks the registry (C11), a mount is collected twice
  (\<open>double_collection\<close>), which can take down the loop (\<open>stale_collection_panics\<close>), and a restart leaves the clients
  of the old loop in the registry (\<open>demo_restart_history\<close>). What C1 says of the containers is for runs that are
  \<open>settled\<close>: no such collection, and no container at its 32-bit limit, since the last restart. Bytes on the wire: chunks, bodies, replies and
  requests are read back as they were written (\<open>Chunked\<close>, \<open>Framing\<close>, \<open>Respond\<close>, \<open>Messages\<close>), the header
  fields decide in one way where a message ends, the next request of a connection starts right behind a body with
  a length or in well-formed chunks (\<open>ConnSpec\<close>, \<open>Pipeline\<close>; after a chunk that is malformed it is looked for in the
  body itself, \<open>malformed_body_served\<close>), limits hold (\<open>Serving\<close>), and the copy past the buffer does what the default copy does within the
  declared length (\<open>ReadFrom\<close>). Files: ranges are what was asked for and stay inside the file, with the
  one exception that \<open>range_behind_end\<close> shows, and no path leaves the directory (\<open>FileSpec\<close>). Connections of
  clients: each has one owner, and the pool keeps its limit (\<open>TransportSpec\<close>); pipelined responses come in the order
  of their requests, with the two ways in which a pipeline stops for good (\<open>PersistSpec\<close>); a proxy relays the whole
  response, up to the bytes on the client's connection (\<open>RelaySpec\<close>). Gateways: parameters come through FastCGI
  however they are cut into records, a request comes through CGI with its fields joined, unless the configuration
  sets the variables that carry it; requests on one connection do not mix, and replies are what a plain writer would have (\<open>FcgiRun\<close>, \<open>CgiSpec\<close>).
  The interfaces are locales, each interpreted on the code's definitions: \<open>io_reader\<close> and \<open>io_writer\<close> (every reader
  and writer of the package is an instance), \<open>client_store\<close>, \<open>client_registry\<close>, \<open>content\<close>, \<open>pipelined\<close> (the server's
  and the client's pieces of a pipelining connection), \<open>keeps_response\<close> (the recorder and the writer of the transport
  for files).

  BOUNDS AND FUEL. \<open>io.Copy\<close> runs with the number of bytes left plus one (\<open>copy_fuel\<close>): each read but the last
  takes a byte, and \<open>body_operations_return\<close> shows that the loops end. \<open>redirect_loop\<close> has fuel, and
  \<open>redirects_end\<close> that ten turns are enough with the default policy. All other recursions are total functions.

  NOT MODELLED. Sockets, the TLS handshake and what accepting does, beyond the delays of the loop, deadlines
  and timeouts, which are calls of \<open>net\<close> and \<open>crypto/tls\<close>; \<open>DumpRequestOut\<close>, which runs a transport on a pipe whose
  behaviour depends on the sizes of several buffers; \<open>httputil/chunked.go\<close>, a copy of \<open>http/chunked.go\<close>; the test
  servers of \<open>httptest\<close>, \<open>pprof\<close> and \<open>triv.go\<close>, which only call the runtime and the operating system; logging,
  command-line flags and the opening of the database. Compression and subprocesses are arguments.
\<close>

section \<open>The manager\<close>

text \<open>
  C1: Whatever the server has done, restarts of its loop included: names and mounts agree, every mount has
  an active identifier and a queue within its limit, identifiers and channels are never shared between
  clients, and the registry of the admin page lists every client for which a reader runs or whose error
  is under way. As long as the books have not been disturbed since the last restart (no collection of a
  mount that has been replaced, no container at its 32-bit limit), containers count their clients, and
  these clients are exactly the ones the mounts file as connected. As long as the loop has never been
  restarted, the registry lists nobody else. The states are those between the turns; a turn that blocks
  for ever has no state after it.
\<close>

theorem server_invariant:
  assumes "history tr w"
  shows "base_inv w \<and> (settled tr \<longrightarrow> live_inv w) \<and>
    (never_restarted tr \<longrightarrow> (\<forall>n. set (registered (w_hs w) n) = {c. served w c \<and> client_mount w c = n}))"
  using history_inv [OF assms] registry_served by blast

theorem server_invariant_witness:
  "base_inv demo_live \<and> live_inv demo_live \<and> registered (w_hs demo_live) ''/main'' = [0] \<and> served demo_live 0"
proof -
  have r: "registered (w_hs demo_live) ''/main'' = [0]" by (simp add: demo_live_def registered_def)
  from server_invariant [OF demo_live_history] demo_steps_quiet
  have i: "base_inv demo_live" "live_inv demo_live" and
    reg: "set (registered (w_hs demo_live) ''/main'') = {c. served demo_live c \<and> client_mount demo_live c = ''/main''}"
    by simp_all
  have "0 \<in> set (registered (w_hs demo_live) ''/main'')" by (simp add: r)
  then have "served demo_live 0" unfolding reg by simp
  with i r show ?thesis by simp
qed

text \<open>
  C2: In a state of any run, restarts of the loop included, the loop panics only for these reasons: audio
  that libshout answers with "insane" or "malloc", or an empty piece of it; the nil error of a
  reader that panicked; a client for a new mount while the icecast configuration is missing; and the
  disconnect of a client whose mountpoint is unknown. The last one needs a run in which the books were
  disturbed since the last restart, which \<open>stale_collection_panics\<close> shows to happen. Metadata, collections
  and the timer never panic.
\<close>

theorem loop_panics:
  assumes "history tr w" and "receive w ev v" and "ProcessClients E ev v = Panic w' msg"
  shows "case ev of
      EvData d \<Rightarrow> msg = ''We are insane.'' \<or> msg = ''Out of memory'' \<or> dp_Data d = []
    | EvErr e \<Rightarrow> ep_Err e = None \<or> mounts_of w (client_mount w (ep_Client e)) = None \<and> \<not> settled tr
    | EvClient c \<Rightarrow> (\<exists>err. CreateShoutMap (e_Child E) (e_Root E) = Inl err)
    | _ \<Rightarrow> False"
proof -
  note inv = history_inv [OF assms(1)]
  from assms(2) show ?thesis
  proof cases
    case (data d ds)
    with assms(3) show ?thesis
      by (auto simp: on_data_def dest: HandleData_Panic split: option.splits if_splits)
  next
    case (err e es)
    have "mounts_of w (client_mount w (ep_Client e)) \<noteq> None" if "settled tr"
      using inv(2) [OF that] err by (auto simp: live_inv_def served_def connected_def)
    moreover have "mounts_of w (client_mount w (ep_Client e)) = None" if "ep_Err e \<noteq> None"
      using assms(3) err that by (auto simp: on_err_def outcome_simps dest: RemoveClient_Panic split: option.splits)
    ultimately show ?thesis using err(1) by auto
  next
    case (client c cs)
    with assms(3) show ?thesis by (auto dest: on_client_Panic)
  next
    case (collect m ms)
    with assms(3) show ?thesis by (auto simp: on_collect_def Let_def split: if_splits)
  next
    case (meta p ps)
    have "\<And>n m. mounts_of w n = Some m \<Longrightarrow> mnt_Active (w_mounts w m) \<noteq> None"
      using inv(1) by (simp add: base_inv_def mounts_ok_def)
    with assms(3) meta show ?thesis
      by (fastforce simp: on_meta_def Let_def split: option.splits if_splits)
  next
    case tick
    with assms(3) show ?thesis by (simp add: on_tick_def)
  qed
qed

theorem loop_panics_witness:
  "\<exists>e v msg w'. receive demo_lost (EvErr e) v \<and> ProcessClients demo_env (EvErr e) v = Panic w' msg \<and> ep_Err e = None"
proof -
  let ?e = "\<lparr>ep_Err = None, ep_Client = 0\<rparr>"
  have r: "receive demo_lost (EvErr ?e) (demo_lost\<lparr>w_err := []\<rparr>)"
    by (rule receive.err) (simp add: demo_lost_def)
  have "\<exists>w' msg. ProcessClients demo_env (EvErr ?e) (demo_lost\<lparr>w_err := []\<rparr>) = Panic w' msg"
    by (simp add: on_err_def RemoveClient_def drop_client_def demo_lost_def demo_live_defs server_defs
        HandleClientDisconnect_def send_collector_def COLLECTOR_CAP_def NextLiveClient.simps chan_full_def)
  then obtain w' msg where "ProcessClients demo_env (EvErr ?e) (demo_lost\<lparr>w_err := []\<rparr>) = Panic w' msg"
    by blast
  with r loop_panics [OF demo_lost_history r this] show ?thesis
    by (intro exI [of _ ?e] exI conjI) auto
qed

text \<open>
  C3: The audio handed to icecast is the audio of the live sources: with any libshout, a turn of the
  loop sends at most one piece, only for an audio packet, only if its source is the active one of its
  mount, unchanged, and on that mount's own handle.
\<close>

theorem audio_from_active:
  assumes "e_lib E = audio_log L" and "ProcessClients E ev w = Done w' u"
  shows "\<exists>s. snd (w_lib w') = snd (w_lib w) @ s \<and>
    (s = [] \<or> (\<exists>d m. ev = EvData d \<and> mounts_of w (client_mount w (dp_Client d)) = Some m \<and>
       mnt_Active (w_mounts w m) = Some (client_id w (dp_Client d)) \<and>
       s = [(sh_shout (mnt_Shout (w_mounts w m)), dp_Data d)]))"
proof (cases ev)
  case (EvData d)
  with assms HandleData_log show ?thesis
    by (fastforce simp: on_data_def split: option.splits if_splits)
next
  case (EvErr e)
  with assms(2) have "w_lib w' = w_lib w"
    by (auto simp: on_err_def outcome_simps dest: RemoveClient_frame(4) split: option.splits)
  then show ?thesis by simp
next
  case EvTick
  with assms(2) show ?thesis by (auto simp: on_tick_def)
qed (use assms in \<open>auto dest: on_client_log on_collect_log on_meta_log\<close>)

theorem audio_from_active_witness:
  "\<exists>w'. ProcessClients (demo_env_with (audio_log recording)) (EvData \<lparr>dp_Data = ''abc'', dp_Client = 0\<rparr>)
      (demo_joined_with (rec_init, [])) = Done w' () \<and> snd (w_lib w') = [(0, ''abc'')]"
proof -
  let ?E = "demo_env_with (audio_log recording)" and ?w = "demo_joined_with (rec_init, [])"
  let ?ev = "EvData \<lparr>dp_Data = ''abc'', dp_Client = 0\<rparr>"
  have "\<exists>w'. ProcessClients ?E ?ev ?w = Done w' () \<and> snd (w_lib w') \<noteq> []"
    by (simp add: on_data_def HandleData_def send_data_def demo_state_defs server_defs shout_defs
        audio_log_def log_step_def recording_defs)
  then obtain w' where r: "ProcessClients ?E ?ev ?w = Done w' ()" and "snd (w_lib w') \<noteq> []" by blast
  with audio_from_active [OF _ r, of recording] show ?thesis
    by (auto simp: demo_state_defs)
qed

section \<open>Who is on the air\<close>

text \<open>
  C4: Removing a source does to its mount exactly what the line of sources promises: if it was on the
  air, the first source still waiting takes over, in the order of arrival; sources that have gone in
  the meantime are skipped; if it was waiting, it leaves the line.
\<close>

theorem source_leaves:
  assumes "RemoveClient c w = Done w' u" and "world_wf w" and "mounts_of w (client_mount w c) = Some m"
  shows "line_of w' m = line_leave (client_id w c) (line_of w m)"
  using assms by (rule leave_line)

theorem source_leaves_witness:
  "\<exists>w'. RemoveClient 0 demo_joined = Done w' () \<and> line_of w' 0 = \<lparr>on_air = Some 1, in_line = [2]\<rparr>"
proof -
  have "\<exists>w'. RemoveClient 0 demo_joined = Done w' ()"
    by (simp add: RemoveClient_def drop_client_def demo_state_defs server_defs NextLiveClient.simps
        SwapLiveClient_def send_meta_def META_CAP_def HandleClientLive_def HandleClientUnlive_def
        HandleClientDisconnect_def chan_full_def)
  then obtain w' where r: "RemoveClient 0 demo_joined = Done w' ()" by blast
  from source_leaves [OF r, of 0] have "line_of w' 0 = \<lparr>on_air = Some 1, in_line = [2]\<rparr>"
    by (simp add: demo_joined_def demo_joined_wf)
      (simp add: demo_state_defs line_of_def line_leave_def waiting_def GetByID_def)
  with r show ?thesis by blast
qed

text \<open>
  C5: A source for a new mount gets on the air whenever the icecast configuration is there, and is refused,
  with nothing changed, exactly when it is missing or no mapping. A source for a mount that exists goes to the end of the
  line, and is refused, with the line as it was, exactly when the mount's queue is at its limit.
\<close>

theorem source_joins:
  assumes "AddClient E c w = Done w' refused" and "world_wf w" and "room w c"
    and "\<And>m. mounts_of w (client_mount w c) = Some m \<Longrightarrow> client_id w c \<notin> set (mnt_ClientQueue (w_mounts w m))"
  shows "case mounts_of w (client_mount w c) of
      None \<Rightarrow>
        (case CreateShoutMap (e_Child E) (e_Root E) of
           Inl err \<Rightarrow> refused \<and> w' = w
         | Inr options \<Rightarrow> \<not> refused \<and> (\<exists>m. mounts_of w' (client_mount w c) = Some m \<and>
             line_of w' m = \<lparr>on_air = Some (client_id w c), in_line = []\<rparr>))
    | Some m \<Rightarrow>
        if QUEUE_LIMIT \<le> length (mnt_ClientQueue (w_mounts w m)) then refused \<and> line_of w' m = line_of w m
        else \<not> refused \<and> line_of w' m = line_join (client_id w c) (line_of w m)"
proof (cases "mounts_of w (client_mount w c)")
  case None
  with first_refused [OF assms(1) None] first_line [of E c w w'] assms(1) show ?thesis
    by (cases refused) (auto split: sum.split)
next
  case (Some m)
  have "refused \<Longrightarrow> line_of w' m = line_of w m"
    using assms(1,2,4) Some by (cases rule: AddClient_cases) (auto intro: refused_line)
  with join_line [OF assms(1,2) Some assms(3)] assms(4) [OF Some] Some show ?thesis by auto
qed

theorem source_joins_witness:
  "\<exists>w'. AddClient demo_env 0 demo_three = Done w' False \<and>
     (\<exists>m. mounts_of w' ''/main'' = Some m \<and> line_of w' m = \<lparr>on_air = Some 0, in_line = []\<rparr>)"
proof -
  have "\<exists>w'. AddClient demo_env 0 demo_three = Done w' False"
    by (simp add: server_defs shout_defs recording_defs demo_state_defs)
  then obtain w' where r: "AddClient demo_env 0 demo_three = Done w' False" by blast
  have wf: "world_wf demo_three" "room demo_three 0" by (simp_all add: world_wf_def room_def demo_state_defs)
  have n: "mounts_of demo_three (client_mount demo_three 0) = None" by (simp add: demo_state_defs)
  have c: "client_id demo_three 0 = 0" "cid_Mount (w_cids demo_three 0) = ''/main''" by (simp_all add: demo_state_defs)
  obtain options where o: "CreateShoutMap (e_Child demo_env) (e_Root demo_env) = Inr options"
    by (simp add: CreateShoutMap_def demo_state_defs)
  have "\<And>m. mounts_of demo_three (client_mount demo_three 0) = Some m \<Longrightarrow>
      client_id demo_three 0 \<notin> set (mnt_ClientQueue (w_mounts demo_three m))" by (simp only: n option.distinct)
  from source_joins [OF r wf this] have "\<exists>m. mounts_of w' (client_mount demo_three 0) = Some m \<and>
      line_of w' m = \<lparr>on_air = Some (client_id demo_three 0), in_line = []\<rparr>"
    by (simp only: n o option.case sum.case simp_thms)
  with r show ?thesis unfolding c by blast
qed

text \<open>
  When the source on the air leaves, the metadata saved for its successor is put into the loop's
  metadata channel under the successor's identifier, to be announced like new metadata.
\<close>

theorem saved_metadata_announced:
  assumes "RemoveClient c w = Done w' u" and "mounts_of w (client_mount w c) = Some m"
    and "mnt_Active (w_mounts w m) = Some (client_id w c)" and "waiting w m = i # r"
    and "i \<noteq> client_id w c"
  shows "\<exists>d. GetByID (mnt_Clients (w_mounts w m)) i = Some d \<and>
    man_MetaChan (w_man w') = man_MetaChan (w_man w) @
      [\<lparr>mp_Data = cl_Metadata (w_clients w d), mp_ID = i, mp_Seen = False\<rparr>]"
  using leave_announces [OF assms] .

theorem saved_metadata_announced_witness:
  "\<exists>w'. RemoveClient 0 (set_metadata 1 ''song'' demo_joined) = Done w' () \<and>
     man_MetaChan (w_man w') = [\<lparr>mp_Data = ''song'', mp_ID = 1, mp_Seen = False\<rparr>]"
proof -
  let ?w = "set_metadata 1 ''song'' demo_joined"
  have "\<exists>w'. RemoveClient 0 ?w = Done w' ()"
    by (simp add: RemoveClient_def drop_client_def demo_state_defs server_defs NextLiveClient.simps
        SwapLiveClient_def send_meta_def META_CAP_def HandleClientLive_def HandleClientUnlive_def
        HandleClientDisconnect_def chan_full_def set_metadata_def)
  then obtain w' where r: "RemoveClient 0 ?w = Done w' ()" by blast
  have "waiting ?w 0 = [1, 2]" by (simp add: waiting_def demo_state_defs GetByID_def set_metadata_def)
  with saved_metadata_announced [OF r, of 0 1 "[2]"] r show ?thesis
    by (auto simp: demo_state_defs GetByID_def set_metadata_def)
qed

section \<open>Metadata\<close>

text \<open>
  C6: Metadata of the source on the air is saved with that source, waits for its second round the
  first time round, and goes to icecast on the mount's handle the second time; nothing else of the
  state changes. The hypothesis is that the hashes of the mount's sources differ.
\<close>

theorem live_metadata:
  assumes "env_ok E" and "world_wf w" and "mounts_of w (cid_Mount (w_cids w (mp_ID p))) = Some m"
    and "mnt_Active (w_mounts w m) = Some a" and "GetByID (mnt_Clients (w_mounts w m)) a = Some c"
    and "hashes_distinct w m" and "Hash (w_cids w (mp_ID p)) = Hash (w_cids w a)"
  shows "ProcessClients E (EvMeta p) w =
    (let w1 = set_metadata c (mp_Data p) w
     in if mp_Seen p
        then Done (w1\<lparr>w_lib := snd (SendMetadata (e_lib E) (mnt_Shout (w_mounts w m)) (mp_Data p) (w_lib w))\<rparr>) ()
        else Done (w1\<lparr>w_delayed := w_delayed w @ [(w_gen w, p\<lparr>mp_Seen := True\<rparr>)]\<rparr>) ())"
  using GetByHash_exact [OF assms(1) wf_mount_ok [OF assms(2,3)] assms(6,5)] assms(3,4,7)
  by (simp add: on_meta_def Let_def set_metadata_def HandleMetadata_def shout_of_def)

theorem live_metadata_witness:
  "\<exists>w'. ProcessClients demo_env (EvMeta \<lparr>mp_Data = ''song'', mp_ID = 0, mp_Seen = True\<rparr>) demo_live = Done w' () \<and>
     cl_Metadata (w_clients w' 0) = ''song'' \<and>
     rl_log (w_lib w') = rl_log (w_lib demo_live) @ [C_metadata_add 1 ''song'' ''song'', C_set_metadata 0 1]"
proof -
  let ?p = "\<lparr>mp_Data = ''song'', mp_ID = 0, mp_Seen = True\<rparr>"
  have wfl: "world_wf demo_live" using history_inv(2) [OF demo_live_history demo_steps_quiet(1)] by (simp add: live_inv_def)
  have h: "mounts_of demo_live (cid_Mount (w_cids demo_live (mp_ID ?p))) = Some 0"
    "mnt_Active (w_mounts demo_live 0) = Some 0" "GetByID (mnt_Clients (w_mounts demo_live 0)) 0 = Some 0"
    "hashes_distinct demo_live 0" "Hash (w_cids demo_live (mp_ID ?p)) = Hash (w_cids demo_live 0)"
    by (simp_all add: demo_live_defs GetByID_def hashes_distinct_def)
  from live_metadata [OF demo_env_ok(2) wfl h] show ?thesis
    by (simp add: set_metadata_def demo_live_defs shout_defs recording_defs)
qed

text \<open>
  Metadata of a waiting source is saved with that source and with nobody else, and nothing is
  sent to icecast.
\<close>

theorem waiting_metadata:
  assumes "env_ok E" and "world_wf w" and "mounts_of w (cid_Mount (w_cids w (mp_ID p))) = Some m"
    and "mnt_Active (w_mounts w m) = Some a" and "GetByID (mnt_Clients (w_mounts w m)) i = Some c"
    and "hashes_distinct w m" and "Hash (w_cids w (mp_ID p)) = Hash (w_cids w i)"
    and "Hash (w_cids w i) \<noteq> Hash (w_cids w a)"
  shows "ProcessClients E (EvMeta p) w = Done (set_metadata c (mp_Data p) w) ()"
  using GetByHash_exact [OF assms(1) wf_mount_ok [OF assms(2,3)] assms(6,5)] assms(3,4,7,8)
  by (simp add: on_meta_def Let_def set_metadata_def HandleMetadata_def)

lemma demo_hashes: "Hash (demo_cid ''a'') \<noteq> Hash (demo_cid ''b'')" "Hash (demo_cid ''a'') \<noteq> Hash (demo_cid ''c'')"
  "Hash (demo_cid ''b'') \<noteq> Hash (demo_cid ''c'')"
  by code_simp+

theorem waiting_metadata_witness:
  "ProcessClients demo_env (EvMeta \<lparr>mp_Data = ''song'', mp_ID = 1, mp_Seen = False\<rparr>) demo_joined =
     Done (set_metadata 1 ''song'' demo_joined) ()"
proof -
  let ?p = "\<lparr>mp_Data = ''song'', mp_ID = 1, mp_Seen = False\<rparr>"
  have ids: "w_cids demo_joined 0 = demo_cid ''a''" "w_cids demo_joined 1 = demo_cid ''b''"
    "w_cids demo_joined 2 = demo_cid ''c''" "cid_Mount (demo_cid n) = ''/main''" for n
    by (simp_all add: demo_state_defs)
  have mt: "w_mounts demo_joined 0 = demo_mount" "mounts_of demo_joined ''/main'' = Some 0"
    by (simp_all add: demo_state_defs)
  have "hashes_distinct demo_joined 0"
    unfolding hashes_distinct_def mt using demo_hashes demo_hashes [symmetric] ids
    by (simp add: demo_mount_def)
  moreover have "world_wf demo_joined" by (simp add: demo_joined_def demo_joined_wf)
  moreover have "mnt_Active demo_mount = Some 0" "GetByID (mnt_Clients demo_mount) 1 = Some 1"
    by (simp_all add: demo_mount_def GetByID_def)
  ultimately show ?thesis
    using waiting_metadata [of demo_env demo_joined ?p 0 0 1 1] demo_hashes(1) ids mt demo_env_ok(2) by simp
qed

text \<open>
  Metadata that arrives before its mount exists is not lost: if the source then connects, with the
  same hash and before the store is cleared, its first announcement is that metadata.
\<close>

theorem early_metadata:
  assumes "mounts_of w (cid_Mount (w_cids w (mp_ID p))) = None"
    and "client_mount w c = cid_Mount (w_cids w (mp_ID p))"
    and "Hash (w_cids w (client_id w c)) = Hash (w_cids w (mp_ID p))"
    and "ProcessClients E (EvMeta p) w = Done w1 u" and "AddClient E c w1 = Done w2 False"
  shows "man_MetaChan (w_man w2) = man_MetaChan (w_man w) @
    [\<lparr>mp_Data = mp_Data p, mp_ID = client_id w c, mp_Seen = False\<rparr>]"
proof -
  from assms(1,4) have w1: "w1 = upd_man (\<lambda>a. a\<lparr>man_metaStore :=
      gomap_set (Hash (w_cids w (mp_ID p))) (mp_Data p) (man_metaStore a)\<rparr>) w"
    by (simp add: on_meta_def Let_def)
  from assms(5) have "add_first E c w1 = Done w2 False"
    by (cases rule: AddClient_cases) (use assms(1,2) w1 in auto)
  then show ?thesis
    using assms(3) w1 by (auto simp: add_first_def NewMount_def Let_def send_meta_def outcome_simps gomap_simps
        case_prod_unfold split: sum.splits option.splits if_splits)
qed

theorem early_metadata_witness:
  "\<exists>w1 w2. ProcessClients demo_env (EvMeta \<lparr>mp_Data = ''song'', mp_ID = 0, mp_Seen = False\<rparr>) demo_three = Done w1 () \<and>
     AddClient demo_env 0 w1 = Done w2 False \<and>
     man_MetaChan (w_man w2) = [\<lparr>mp_Data = ''song'', mp_ID = 0, mp_Seen = False\<rparr>]"
proof -
  let ?p = "\<lparr>mp_Data = ''song'', mp_ID = 0, mp_Seen = False\<rparr>"
  obtain w1 where r1: "ProcessClients demo_env (EvMeta ?p) demo_three = Done w1 ()"
    by (simp add: on_meta_def demo_state_defs)
  moreover have "\<exists>w2. AddClient demo_env 0 w1 = Done w2 False"
    using r1 by (auto simp: on_meta_def server_defs shout_defs recording_defs demo_state_defs send_meta_def
        META_CAP_def chan_full_def split: option.splits)
  then obtain w2 where r2: "AddClient demo_env 0 w1 = Done w2 False" by blast
  moreover from early_metadata [OF _ _ _ r1 r2] have
    "man_MetaChan (w_man w2) = [\<lparr>mp_Data = ''song'', mp_ID = 0, mp_Seen = False\<rparr>]"
    by (simp add: demo_state_defs)
  ultimately show ?thesis by blast
qed

section \<open>Identities and logins\<close>

text \<open>
  C8: A source that streams as user and password, and its metadata updates that name the user in the
  password of the user "source", are the same client to the server: both logins give identifiers
  with the same hash, whatever the ports of the two connections.
\<close>

theorem metadata_finds_its_source:
  assumes "ParseDigest r = (user, pass)" and "ParseDigest q = (''source'', user @ ''|'' @ pass)"
    and "CHR ''|'' \<notin> set user" and "user \<noteq> ''source''"
    and "req_RemoteAddr r = host @ '':'' @ port" and "req_RemoteAddr q = host @ '':'' @ port'"
    and "CHR '':'' \<notin> set host"
    and "url_Path (req_URL r) = mount" and "mount \<notin> {''/admin/metadata'', ''/admin/listclients''}"
    and "url_Path (req_URL q) = ''/admin/metadata''"
    and "query_Get (ParseQuery (url_RawQuery (req_URL q))) ''mount'' = mount"
    and "Login A (NewClientIDFromRequest r) = (c, None)" and "Login A (NewClientIDFromRequest q) = (d, None)"
  shows "Hash c = Hash d"
proof -
  have r: "split_source (NewClientIDFromRequest r) = NewClientIDFromRequest r"
    using assms(1,4) by (simp add: split_source_def NewClientIDFromRequest_def Let_def)
  have q: "cid_Name (split_source (NewClientIDFromRequest q)) = user"
    "cid_Pass (split_source (NewClientIDFromRequest q)) = pass"
    using assms(2) SplitN_2 [OF assms(3), of pass]
    by (simp_all add: split_source_def NewClientIDFromRequest_def Let_def Contains_char)
  have "Split (CHR '':'') (req_RemoteAddr r) ! 0 = host" "Split (CHR '':'') (req_RemoteAddr q) ! 0 = host"
    using assms(5-7) by (simp_all add: Split_sep)
  moreover have "cid_Name (NewClientIDFromRequest r) = user" "cid_Pass (NewClientIDFromRequest r) = pass"
    "cid_Mount (NewClientIDFromRequest r) = mount" "cid_Mount (NewClientIDFromRequest q) = mount"
    "cid_Addr (NewClientIDFromRequest r) = req_RemoteAddr r" "cid_Addr (NewClientIDFromRequest q) = req_RemoteAddr q"
    using assms by (simp_all add: NewClientIDFromRequest_def Let_def)
  ultimately show ?thesis
    by (simp add: Hash_def Let_def Login_fields [OF assms(12)] Login_fields [OF assms(13)] r q)
qed

theorem metadata_finds_its_source_witness:
  "Hash (fst (Login demo_auth (NewClientIDFromRequest demo_request))) =
     Hash (fst (Login demo_auth (NewClientIDFromRequest demo_update)))"
proof -
  have d: "ParseDigest demo_update = (''source'', ''dj'' @ ''|'' @ ''secret'')"
    using demo_update_digest by simp
  have q: "query_Get (ParseQuery ''mount=/main'') ''mount'' = ''/main''" by code_simp
  obtain c where c: "Login demo_auth (NewClientIDFromRequest demo_request) = (c, None)"
    using demo_login demo_user by simp
  have "snd (Login demo_auth (NewClientIDFromRequest demo_update)) = None"
    unfolding Login_def LoginClient_def Let_def
    by (simp add: NewClientIDFromRequest_def d split_source_def demo_auth_def Contains_char SplitN_2_cases
        FetchUser_def Let_def ToLower_def lower_byte_def)
  then obtain e where e: "Login demo_auth (NewClientIDFromRequest demo_update) = (e, None)"
    by (cases "Login demo_auth (NewClientIDFromRequest demo_update)") simp
  have "Hash c = Hash e"
    by (rule metadata_finds_its_source [OF demo_digest d _ _ _ _ _ refl _ _ _ c e,
          of "''10.0.0.1''" "''99''" "''7''"])
      (simp_all add: demo_request_def demo_update_def SetBasicAuth_def q)
  with c e show ?thesis by simp
qed

text \<open>
  The hash of a client identifier is the FNV-1a hash of name, password, mount and host written
  one after the other, so two different pairs of name and password that run together alike are one
  client to the server.
\<close>

theorem hash_runs_fields_together:
  "Hash c = fnv64a_write fnv_offset64
     (cid_Name c @ cid_Pass c @ cid_Mount c @ takeWhile (\<lambda>x. x \<noteq> CHR '':'') (cid_Addr c))"
proof -
  have "Split (CHR '':'') s ! 0 = takeWhile (\<lambda>x. x \<noteq> CHR '':'') s" for s
    by (metis Split_nonempty hd_Split hd_conv_nth)
  then show ?thesis by (simp add: Hash_def Let_def fnv64a_write_append)
qed

text \<open>
  C7: Only an authorised request changes anything: if a request is answered (neither a panic nor a call that blocks)
  and has changed the state of the server, its
  credentials passed the login with at least the permission its handler asks for, and with
  authentication on, the stored hash accepts the password and the permission is the stored one.
\<close>

theorem only_authorised:
  assumes "mainHandler W r w = Done w' calls" and "w' \<noteq> w"
  shows "\<exists>user. Login (we_auth W) (NewClientIDFromRequest r) = (user, None) \<and>
    (if req_Method r = ''SOURCE'' then PERM_SOURCE
     else if url_Path (req_URL r) = ''/admin/metadata'' then PERM_META else PERM_ADMIN) \<le> cid_Perm user \<and>
    (Authentication (we_auth W) \<longrightarrow>
       (\<exists>hash p. db_query (we_auth W) (ToLower (unicode_lower (we_auth W)) (cid_Name user)) = Some (hash, p) \<and>
          bcrypt (we_auth W) hash (cid_Pass user) \<and> cid_Perm user = NewPermission p))"
proof -
  let ?A = "we_auth W"
  let ?ok = "\<lambda>perm. \<exists>user. Login ?A (NewClientIDFromRequest r) = (user, None) \<and> perm \<le> cid_Perm user \<and>
    (Authentication ?A \<longrightarrow>
       (\<exists>hash p. db_query ?A (ToLower (unicode_lower ?A) (cid_Name user)) = Some (hash, p) \<and>
          bcrypt ?A hash (cid_Pass user) \<and> cid_Perm user = NewPermission p))"
  have gate: "?ok perm" if "makeAuthHandler ?A fn perm r w = Done w' calls" for fn perm
    using that assms(2) by (rule auth_gate)
  have "listclientsHandler u w \<noteq> Done w' calls" for u
    using assms(2) by (simp add: listclientsHandler_def Let_def)
  then have "makeAuthHandler ?A listclientsHandler perm r w \<noteq> Done w' calls" for perm
    using assms(2) by (cases rule: makeAuthHandler_cases [of ?A listclientsHandler perm r w]) auto
  with assms gate show ?thesis
    by (auto simp: mainHandler_def Let_def errorHandler_def split: if_splits)
qed

theorem only_authorised_witness:
  "\<exists>user. Login demo_auth (NewClientIDFromRequest demo_request) = (user, None) \<and> PERM_SOURCE \<le> cid_Perm user"
proof -
  have "w_next_client demo_sent \<noteq> w_next_client demo_empty"
    by (simp add: demo_sent_def demo_empty_def demo_empty_with_def)
  then have "demo_sent \<noteq> demo_empty" by auto
  with only_authorised [OF demo_source] show ?thesis by (auto simp: demo_web_def demo_request_def SetBasicAuth_def)
qed

text \<open>
  C9: The credentials a client attaches to a request with \<open>SetBasicAuth\<close> are the ones the server
  reads from it, for every password and every user name without a colon.
\<close>

theorem basic_auth_round_trip:
  "CHR '':'' \<notin> set user \<Longrightarrow> ParseDigest (SetBasicAuth r user pass) = (user, pass)"
  by (rule ParseDigest_of_auth [OF Get_SetBasicAuth])

theorem basic_auth_round_trip_witness:
  "ParseDigest (SetBasicAuth demo_request ''dj'' ''p:w d'') = (''dj'', ''p:w d'')"
  by (rule basic_auth_round_trip) simp

section \<open>Mounts that nobody hears\<close>

text \<open>
  C10: When the source on the air leaves and nobody waits, the mount keeps its identifier. Whoever
  joins before the collection waits for ever: no event of the loop makes another source active, and
  the audio of the mount's sources is dropped.
\<close>

theorem orphan_stays_silent:
  assumes "ProcessClients E ev w = Done w' u" and "world_wf w" and "event_ok w ev"
    and "orphaned w m a" and "mounts_of w n = Some m" and "\<And>c. ev = EvClient c \<Longrightarrow> client_id w c \<noteq> a"
  shows "orphaned w' m a \<and>
    (\<forall>d. ev = EvData d \<and> client_mount w (dp_Client d) = n \<and> connected w (dp_Client d) \<longrightarrow> w' = w)"
  using orphaned_event [OF assms(1-5)] assms(6) orphaned_silent [OF assms(4)] assms(1,5) by fastforce

text \<open>The mount after its only source has left and another one has joined.\<close>

definition demo_orphan :: "rec_lib world" where
  "demo_orphan = demo_joined\<lparr>w_mounts := (w_mounts demo_joined)(0 := demo_mount\<lparr>mnt_ClientQueue := [1],
     mnt_Clients := \<lparr>cc_byID = [(1, 1)], cc_Length = 1\<rparr>\<rparr>)\<rparr>"

theorem orphan_stays_silent_witness:
  "ProcessClients demo_env (EvData \<lparr>dp_Data = ''abc'', dp_Client = 1\<rparr>) demo_orphan = Done demo_orphan ()"
proof -
  let ?ev = "EvData \<lparr>dp_Data = ''abc'', dp_Client = 1\<rparr>"
  have o: "orphaned demo_orphan 0 0" "mounts_of demo_orphan ''/main'' = Some 0" "world_wf demo_orphan"
    by (simp_all add: orphaned_def demo_orphan_def demo_state_defs GetByID_def world_wf_def mount_ok_def
        cc_wf_def gomap_wf_def QUEUE_LIMIT_def)
  have "\<exists>w'. ProcessClients demo_env ?ev demo_orphan = Done w' ()"
    by (simp add: on_data_def demo_orphan_def demo_state_defs)
  then obtain w' where r: "ProcessClients demo_env ?ev demo_orphan = Done w' ()" by blast
  have "connected demo_orphan 1" "client_mount demo_orphan 1 = ''/main''"
    by (simp_all add: connected_def demo_orphan_def demo_state_defs GetByID_def)
  with orphan_stays_silent [OF r o(3) _ o(1,2)] r show ?thesis by simp
qed

text \<open>
  A mount can be collected twice: a source leaves, another one joins and leaves before the
  collection, and the mount is in the collector's channel two times. The second collection closes
  and frees a libshout handle that is freed already.
\<close>

theorem double_collection:
  "\<exists>w w'. run demo_env [EvClient 0, EvErr \<lparr>ep_Err = Some [], ep_Client = 0\<rparr>,
        EvClient 1, EvErr \<lparr>ep_Err = Some [], ep_Client = 1\<rparr>] demo_three = Done w () \<and>
     man_MountCollector (w_man w) = [0, 0] \<and>
     run demo_env [EvCollect 0, EvCollect 0] w = Done w' () \<and>
     drop 6 (rl_log (w_lib w')) =
       [C_close 0, C_free 0, C_metadata_free 1, C_close 0, C_free 0, C_metadata_free 1]"
  by (simp add: server_defs shout_defs recording_defs demo_state_defs on_err_def RemoveClient_def
      drop_client_def NextLiveClient.simps HandleClientDisconnect_def send_collector_def COLLECTOR_CAP_def
      chan_full_def on_collect_def DestroyMount_def cc_Destroy_def AList.delete_eq)

text \<open>
  A stale collection takes down the loop: the second one in the channel removes the mount that a new
  source has opened under the same name, and when that source leaves its mountpoint is unknown.
\<close>

theorem stale_collection_panics:
  "\<exists>w w' w''. run demo_env [EvClient 0, EvErr \<lparr>ep_Err = Some [], ep_Client = 0\<rparr>,
        EvClient 1, EvErr \<lparr>ep_Err = Some [], ep_Client = 1\<rparr>, EvCollect 0, EvClient 2] demo_three = Done w () \<and>
     mnt_Active (w_mounts w 1) = Some 2 \<and>
     run demo_env [EvCollect 0] w = Done w' () \<and> mounts_of w' ''/main'' = None \<and>
     run demo_env [EvErr \<lparr>ep_Err = Some [], ep_Client = 2\<rparr>] w' = Panic w'' ''Unexisting mountpoint''"
  by (simp add: server_defs shout_defs recording_defs demo_state_defs on_err_def RemoveClient_def
      drop_client_def NextLiveClient.simps HandleClientDisconnect_def send_collector_def COLLECTOR_CAP_def
      chan_full_def on_collect_def DestroyMount_def cc_Destroy_def AList.delete_eq)

section \<open>The admin page\<close>

text \<open>
  C11: Kicking a source by a valid index closes exactly its connection and redirects back to the
  page. An index out of range panics with the handlers' mutex held, and from then on every admin
  request and every source that connects blocks.
\<close>

theorem admin_kick:
  assumes "\<not> HandlerLock (w_hs w)" and "url_Path (req_URL r) = ''/admin/kick''"
    and "q = ParseQuery (url_RawQuery (req_URL r))" and "Atoi (query_Get q ''num'') = Some num"
    and "gomap_get (HandlerMounts (w_hs w)) (query_Get q ''mount'') = Some clients"
  shows "if 0 \<le> num \<and> num < int (length clients)
    then adminHandler ord r cid w =
      Done (w\<lparr>w_closed := insert (cl_Conn (w_clients w (clients ! nat num))) (w_closed w)\<rparr>)
        [RW_Set ''Location'' ''/admin'', RW_WriteHeader 301]
    else \<exists>w'. adminHandler ord r cid w = Panic w' ''index out of range'' \<and>
      adminHandler ord' r' cid' w' = Block w' \<and> on_handlers (HandleClientConnect n c) w' = Block w'"
  using assms by (auto simp: adminHandler_def Let_def set_lock_def on_handlers_def HandleClientConnect_def)

definition demo_kick :: "string \<Rightarrow> unit Request" where
  "demo_kick num = demo_request\<lparr>req_Method := ''GET'',
     req_URL := \<lparr>url_Scheme = [], url_Opaque = [], url_Host = [], url_Path = ''/admin/kick'',
       url_RawQuery = ''mount=/main&num='' @ num\<rparr>\<rparr>"

theorem admin_kick_witness:
  "adminHandler (\<lambda>m. m) (demo_kick ''1'') demo_dj demo_joined =
     Done (demo_joined\<lparr>w_closed := {1}\<rparr>) [RW_Set ''Location'' ''/admin'', RW_WriteHeader 301]"
proof -
  let ?q = "ParseQuery ''mount=/main&num=1''"
  have q: "query_Get ?q ''mount'' = ''/main''" and n: "query_Get ?q ''num'' = ''1''" by code_simp+
  have a: "Atoi (query_Get ?q ''num'') = Some 1" unfolding n by (simp add: strconv_eval)
  have r: "url_Path (req_URL (demo_kick ''1'')) = ''/admin/kick''"
    "?q = ParseQuery (url_RawQuery (req_URL (demo_kick ''1'')))" by (simp_all add: demo_kick_def)
  have "\<not> HandlerLock (w_hs demo_joined)" by (simp add: demo_state_defs)
  from admin_kick [OF this r a, of "[0, 1, 2]"] q show ?thesis by (simp add: demo_state_defs)
qed

end
